(* ===== verification/Prelude.thy ===== *)
theory Prelude
  imports Main "HOL-Library.List_Lexorder" "HOL-Library.Char_ord" "HOL-Library.Product_Lexorder"
begin

text \<open>
  What every component shares: the exception classes a call can raise, JSON values as the
  stores serialise them, SQL tables as lists of rows in \<open>rowid\<close> order with the four statements
  the stores issue (\<open>SELECT\<close> of one row, \<open>INSERT\<close>, \<open>UPDATE .. WHERE\<close>, \<open>DELETE .. WHERE\<close>) and
  \<open>ORDER BY\<close>, bounded identifiers, and four generic interfaces: transition systems with an
  invariant, status life cycles with terminal states, fenced resources, and stop flags.
\<close>

section \<open>Results\<close>

text \<open>
  A call either raises or returns. The exception is kept by its class (and its code, where the
  caller reads one); the wording of the message is not modelled. A transaction that raises is
  rolled back, so an \<open>Inl\<close> carries no state.
\<close>

datatype py_error =
    KeyError
  | ValueError
  | IndexError
  | RuntimeError
  | TimeoutError
  | IntegrityError
  | UploadSecurityError
  | ProviderConfigurationError
  | ProviderProfileInUseError
  | VaultUnavailableError
  | WorkspaceNotFoundError
  | ManifestNotFoundError
  | WorkspaceJobNotFoundError
  | StaleManifestError
  | ActiveWorkspaceOperationError
  | InvalidApprovalError
  | TransmissionAuthorityRevokedError
  | SourceAuthorizationError string string
  | EvidenceValidationError string
  | EvidenceSynthesisDeadlineExceeded
  | RecursionError

named_theorems row_simps \<open>how the table statements act on a row looked up by key\<close>
named_theorems keep_inv \<open>operations that keep an invariant of their component\<close>

definition bind_res :: "'e + 'a \<Rightarrow> ('a \<Rightarrow> 'e + 'b) \<Rightarrow> 'e + 'b" where
  "bind_res r k = (case r of Inl e \<Rightarrow> Inl e | Inr x \<Rightarrow> k x)"

lemma bind_res_simps [simp]:
  "bind_res (Inl e) k = Inl e"
  "bind_res (Inr x) k = k x"
  by (simp_all add: bind_res_def)

lemma bind_res_Inr_iff:
  "bind_res r k = Inr y \<longleftrightarrow> (\<exists>x. r = Inr x \<and> k x = Inr y)"
  by (cases r) auto

lemma if_Inl_Inr_iff [simp]:
  "(if c then Inl e else r) = Inr y \<longleftrightarrow> \<not> c \<and> r = Inr y"
  by simp

lemma option_Inl_Inr_iff:
  "(case x of None \<Rightarrow> Inl e | Some a \<Rightarrow> f a) = Inr y \<longleftrightarrow> (\<exists>a. x = Some a \<and> f a = Inr y)"
  by (cases x) auto

text \<open>
  A method that makes several store calls keeps what the calls before an exception did: it takes a
  state to a state and a result, and an exception keeps the state reached.
\<close>

type_synonym ('s, 'a) action = "'s \<Rightarrow> 's \<times> (py_error + 'a)"

definition returnA :: "'a \<Rightarrow> ('s, 'a) action" where
  "returnA a s = (s, Inr a)"

definition raiseA :: "py_error \<Rightarrow> ('s, 'a) action" where
  "raiseA e s = (s, Inl e)"

definition bindA :: "('s, 'a) action \<Rightarrow> ('a \<Rightarrow> ('s, 'b) action) \<Rightarrow> ('s, 'b) action" where
  "bindA m k s = (case m s of (s', r) \<Rightarrow> (case r of Inl e \<Rightarrow> (s', Inl e) | Inr a \<Rightarrow> k a s'))"

definition seqA :: "('s, 'a) action \<Rightarrow> ('s, 'b) action \<Rightarrow> ('s, 'b) action" where
  "seqA m k = bindA m (\<lambda>_. k)"

definition modifyA :: "('s \<Rightarrow> 's) \<Rightarrow> ('s, unit) action" where
  "modifyA f s = (f s, Inr ())"

definition getA :: "('s \<Rightarrow> 'a) \<Rightarrow> ('s, 'a) action" where
  "getA f s = (s, Inr (f s))"

definition resultA :: "('s \<Rightarrow> py_error + 'a) \<Rightarrow> ('s, 'a) action" where
  "resultA f s = (s, f s)"

text \<open>\<open>try: .. except Exception\<close>: the outcome becomes a value.\<close>

definition tryA :: "('s, 'a) action \<Rightarrow> ('s, py_error + 'a) action" where
  "tryA m s = (case m s of (s', r) \<Rightarrow> (s', Inr r))"

lemmas action_defs =
  returnA_def raiseA_def bindA_def seqA_def modifyA_def getA_def resultA_def tryA_def

lemma action_simps:
  "seqA (returnA x) k s = k s"
  "seqA (modifyA f) k s = k (f s)"
  "seqA (raiseA e) k s = (s, Inl e)"
  "bindA (returnA a) h s = h a s"
  "bindA (getA g) h s = h (g s) s"
  "bindA (raiseA e) h s = (s, Inl e)"
  "fst (seqA m (returnA y) s) = fst (m s)"
  "fst (seqA m (raiseA e) s) = fst (m s)"
  by (simp_all add: action_defs split: prod.split sum.split)

lemma action_run:
  "m s = (s', Inr a) \<Longrightarrow> seqA m k s = k s'"
  "m s = (s', Inr a) \<Longrightarrow> bindA m h s = h a s'"
  "m s = (s', Inl e) \<Longrightarrow> seqA m k s = (s', Inl e)"
  "m s = (s', Inl e) \<Longrightarrow> bindA m h s = (s', Inl e)"
  by (simp_all add: seqA_def bindA_def)

text \<open>A triple over the outcomes of an action, exceptional ones included.\<close>

definition valid ::
  "('s \<Rightarrow> bool) \<Rightarrow> ('s, 'a) action \<Rightarrow> (py_error + 'a \<Rightarrow> 's \<Rightarrow> bool) \<Rightarrow> bool" where
  "valid P m Q \<longleftrightarrow> (\<forall>s. P s \<longrightarrow> Q (snd (m s)) (fst (m s)))"

lemma valid_bindA:
  assumes "valid P m Q" and "\<And>e s. Q (Inl e) s \<Longrightarrow> R (Inl e) s" and "\<And>a. valid (Q (Inr a)) (k a) R"
  shows "valid P (bindA m k) R"
proof -
  have "R (snd (bindA m k s)) (fst (bindA m k s))" if P: "P s" for s
  proof -
    obtain s' r where m: "m s = (s', r)" by fastforce
    have "Q r s'" using assms(1) P m by (auto simp: valid_def dest: spec [of _ s])
    then show ?thesis
      using assms(2,3) by (cases r) (auto simp: bindA_def m valid_def)
  qed
  then show ?thesis by (simp add: valid_def)
qed

lemma valid_seqA:
  "valid P m (\<lambda>r s. case r of Inl e \<Rightarrow> R (Inl e) s | Inr _ \<Rightarrow> Q s) \<Longrightarrow> valid Q k R \<Longrightarrow> valid P (seqA m k) R"
  unfolding seqA_def by (erule valid_bindA) simp_all

lemma valid_try:
  assumes "valid P m Q" and "\<And>e. valid (Q (Inl e)) (k (Inl e)) R" and "\<And>a. valid (Q (Inr a)) (k (Inr a)) R"
  shows "valid P (bindA (tryA m) k) R"
proof (rule valid_bindA [where Q = "\<lambda>r s. case r of Inl _ \<Rightarrow> False | Inr r \<Rightarrow> Q r s"])
  show "valid P (tryA m) (\<lambda>r s. case r of Inl _ \<Rightarrow> False | Inr r \<Rightarrow> Q r s)"
    using assms(1) by (simp add: valid_def tryA_def case_prod_unfold)
  show "valid ((\<lambda>s. case Inr r of Inl _ \<Rightarrow> False | Inr r \<Rightarrow> Q r s)) (k r) R" for r
    using assms(2,3) by (cases r) simp_all
qed simp

lemma valid_returnA: "valid (Q (Inr a)) (returnA a) Q"
  by (simp add: valid_def returnA_def)

lemma valid_raiseA: "valid (Q (Inl e)) (raiseA e) Q"
  by (simp add: valid_def raiseA_def)

lemma valid_weaken: "valid P m Q \<Longrightarrow> (\<And>s. P' s \<Longrightarrow> P s) \<Longrightarrow> (\<And>r s. Q r s \<Longrightarrow> Q' r s) \<Longrightarrow> valid P' m Q'"
  by (auto simp: valid_def)

section \<open>JSON values\<close>

text \<open>
  The values of an event payload. A float is a binary mantissa and exponent; \<open>VNonFinite\<close> stands
  for NaN and the infinities, which \<open>json.dumps(.., allow_nan=False)\<close> refuses.
\<close>

datatype pyval =
    VNone
  | VBool bool
  | VInt int
  | VFloat int int
  | VNonFinite
  | VStr string
  | VList "pyval list"
  | VDict "(string \<times> pyval) list"

type_synonym payload = "(string \<times> pyval) list"

fun json_finite :: "pyval \<Rightarrow> bool" where
  "json_finite VNonFinite = False"
| "json_finite (VList vs) = list_all json_finite vs"
| "json_finite (VDict kvs) = list_all (\<lambda>kv. json_finite (snd kv)) kvs"
| "json_finite _ = True"

section \<open>SQL tables\<close>

text \<open>
  A table is the list of its rows in \<open>rowid\<close> order: \<open>INSERT\<close> appends, and an unqualified tie in
  \<open>ORDER BY .., rowid ASC\<close> is broken by the position in the list, which is what the stable
  \<^const>\<open>sort_key\<close> does.
\<close>

definition row_of :: "('r \<Rightarrow> 'k) \<Rightarrow> 'k \<Rightarrow> 'r list \<Rightarrow> 'r option" where
  "row_of key k rows = find (\<lambda>r. key r = k) rows"

definition update_where :: "('r \<Rightarrow> bool) \<Rightarrow> ('r \<Rightarrow> 'r) \<Rightarrow> 'r list \<Rightarrow> 'r list" where
  "update_where p f rows = map (\<lambda>r. if p r then f r else r) rows"

definition delete_where :: "('r \<Rightarrow> bool) \<Rightarrow> 'r list \<Rightarrow> 'r list" where
  "delete_where p rows = filter (\<lambda>r. \<not> p r) rows"

definition first_row :: "'r list \<Rightarrow> 'r option" where
  "first_row rows = (case rows of [] \<Rightarrow> None | r # _ \<Rightarrow> Some r)"

definition order_by :: "('r \<Rightarrow> 'k::linorder) \<Rightarrow> 'r list \<Rightarrow> 'r list" where
  "order_by key rows = sort_key key rows"

text \<open>\<open>SELECT DISTINCT\<close>/\<open>GROUP BY\<close> keep one row per group, in the order of first appearance.\<close>

definition distinct_firsts :: "'a list \<Rightarrow> 'a list" where
  "distinct_firsts xs = rev (remdups (rev xs))"

lemma row_of_Nil [simp]: "row_of key k [] = None"
  by (simp add: row_of_def)

lemma row_of_Cons [simp]:
  "row_of key k (r # rows) = (if key r = k then Some r else row_of key k rows)"
  by (simp add: row_of_def)

lemma row_of_append:
  "row_of key k (xs @ ys) = (case row_of key k xs of Some r \<Rightarrow> Some r | None \<Rightarrow> row_of key k ys)"
  by (induction xs) auto

lemma row_of_Some:
  "row_of key k rows = Some r \<Longrightarrow> r \<in> set rows \<and> key r = k"
  by (induction rows) (auto split: if_splits)

lemma row_of_None_iff:
  "row_of key k rows = None \<longleftrightarrow> k \<notin> key ` set rows"
  by (induction rows) auto

lemma row_of_in_distinct:
  "distinct (map key rows) \<Longrightarrow> r \<in> set rows \<Longrightarrow> row_of key (key r) rows = Some r"
  by (induction rows) (auto simp: image_iff)

lemma row_of_update_where [row_simps]:
  assumes "\<And>r. key (f r) = key r"
  shows "row_of key k (update_where p f rows) =
    map_option (\<lambda>r. if p r then f r else r) (row_of key k rows)"
  by (induction rows) (auto simp: update_where_def assms)

lemma row_of_delete_where:
  assumes "\<And>r. p r \<longleftrightarrow> P (key r)"
  shows "row_of key k (delete_where p rows) = (if P k then None else row_of key k rows)"
  by (induction rows) (auto simp: delete_where_def assms)

lemma keys_update_where [row_simps]:
  assumes "\<And>r. key (f r) = key r"
  shows "map key (update_where p f rows) = map key rows"
  by (induction rows) (auto simp: update_where_def assms)

lemma key_image_update_where [row_simps]:
  assumes "\<And>r. key (f r) = key r"
  shows "key ` set (update_where p f rows) = key ` set rows"
  using keys_update_where [of key f p rows] assms by (metis list.set_map)

lemma length_update_where [simp]: "length (update_where p f rows) = length rows"
  by (simp add: update_where_def)

lemma set_update_where: "set (update_where p f rows) = (\<lambda>r. if p r then f r else r) ` set rows"
  by (simp add: update_where_def)

lemma update_where_append [simp]:
  "update_where p f (xs @ ys) = update_where p f xs @ update_where p f ys"
  by (simp add: update_where_def)

lemma set_delete_where [simp]: "set (delete_where p rows) = {r \<in> set rows. \<not> p r}"
  by (simp add: delete_where_def)

lemma distinct_keys_delete_where [intro]:
  "distinct (map key rows) \<Longrightarrow> distinct (map key (delete_where p rows))"
  by (simp add: delete_where_def distinct_map_filter)

lemma set_order_by [simp]: "set (order_by key rows) = set rows"
  by (simp add: order_by_def)

lemma first_row_Some_in: "first_row rows = Some r \<Longrightarrow> r \<in> set rows"
  by (cases rows) (auto simp: first_row_def)

lemma first_row_None_iff [simp]: "first_row rows = None \<longleftrightarrow> rows = []"
  by (cases rows) (auto simp: first_row_def)

lemma order_by_Nil_iff [simp]: "order_by key rows = [] \<longleftrightarrow> rows = []"
  by (metis set_empty set_order_by)

lemma first_row_order_by_least:
  assumes "first_row (order_by key rows) = Some r" and "s \<in> set rows"
  shows "key r \<le> key s"
proof -
  from assms(1) obtain rest where eq: "sort_key key rows = r # rest"
    by (cases "sort_key key rows") (auto simp: first_row_def order_by_def)
  have "sorted (map key (r # rest))"
    using sorted_sort_key [of key rows] by (simp add: eq)
  moreover have "s \<in> set (r # rest)"
    using assms(2) by (metis eq set_sort)
  ultimately show ?thesis by auto
qed

lemma map_filter_append: "List.map_filter f (xs @ ys) = List.map_filter f xs @ List.map_filter f ys"
  by (simp add: List.map_filter_def)

lemma set_distinct_firsts [simp]: "set (distinct_firsts xs) = set xs"
  by (simp add: distinct_firsts_def)

lemma distinct_distinct_firsts [simp]: "distinct (distinct_firsts xs)"
  by (simp add: distinct_firsts_def)

section \<open>Bounded identifiers\<close>

text \<open>
  A Python string is the list of its code points, here below 256 (one \<^typ>\<open>char\<close> each).
\<close>

definition LOWERCASE :: string where
  "LOWERCASE = ''abcdefghijklmnopqrstuvwxyz''"

definition UPPERCASE :: string where
  "UPPERCASE = ''ABCDEFGHIJKLMNOPQRSTUVWXYZ''"

definition is_lower :: "char \<Rightarrow> bool" where
  "is_lower c \<longleftrightarrow> c \<in> set LOWERCASE"

definition is_upper :: "char \<Rightarrow> bool" where
  "is_upper c \<longleftrightarrow> c \<in> set UPPERCASE"

definition is_digit :: "char \<Rightarrow> bool" where
  "is_digit c \<longleftrightarrow> c \<in> set ''0123456789''"

text \<open>lower-casing of the ASCII letters: what \<open>lower\<close>, \<open>casefold\<close> and NOCASE do below 128\<close>

definition fold_char :: "char \<Rightarrow> char" where
  "fold_char c = (case map_of (zip UPPERCASE LOWERCASE) c of None \<Rightarrow> c | Some l \<Rightarrow> l)"

definition is_alnum :: "char \<Rightarrow> bool" where
  "is_alnum c \<longleftrightarrow> is_lower c \<or> is_upper c \<or> is_digit c"

text \<open>\<open>re.fullmatch(r"[head][tail]{0,n}", s)\<close>\<close>

definition bounded_match :: "(char \<Rightarrow> bool) \<Rightarrow> (char \<Rightarrow> bool) \<Rightarrow> nat \<Rightarrow> string \<Rightarrow> bool" where
  "bounded_match hd_ok tl_ok n s =
     (case s of [] \<Rightarrow> False | c # cs \<Rightarrow> hd_ok c \<and> list_all tl_ok cs \<and> length cs \<le> n)"

text \<open>\<open>[a-z][a-z0-9_]{0,119}\<close>, the shape of every safe error code\<close>

definition safe_code :: "string \<Rightarrow> bool" where
  "safe_code = bounded_match is_lower (\<lambda>c. is_lower c \<or> is_digit c \<or> c = CHR ''_'') 119"

text \<open>\<open>str.strip()\<close>: the white space among the code points below 256\<close>

definition py_space :: "char \<Rightarrow> bool" where
  "py_space c \<longleftrightarrow> c \<in> set [CHR 0x09, CHR 0x0A, CHR 0x0B, CHR 0x0C, CHR 0x0D, CHR 0x1C, CHR 0x1D,
     CHR 0x1E, CHR 0x1F, CHR 0x20, CHR 0x85, CHR 0xA0]"

definition py_strip :: "string \<Rightarrow> string" where
  "py_strip s = rev (dropWhile py_space (rev (dropWhile py_space s)))"

section \<open>Splitting and joining\<close>

text \<open>\<open>s.split(c)\<close> and \<open>c.join(parts)\<close>\<close>

fun split_on :: "char \<Rightarrow> string \<Rightarrow> string list" where
  "split_on c [] = [[]]"
| "split_on c (x # xs) =
     (if x = c then [] # split_on c xs
      else case split_on c xs of [] \<Rightarrow> [[x]] | p # ps \<Rightarrow> (x # p) # ps)"

fun join_with :: "char \<Rightarrow> string list \<Rightarrow> string" where
  "join_with c [] = []"
| "join_with c [p] = p"
| "join_with c (p # ps) = p @ c # join_with c ps"

lemma split_on_not_Nil [simp]: "split_on c s \<noteq> []"
  by (induction s) (auto split: list.splits)

lemma join_split: "join_with c (split_on c s) = s"
proof (induction s)
  case (Cons x s)
  then show ?case
    by (cases "split_on c s"; cases "tl (split_on c s)") auto
qed simp

lemma split_on_avoids: "p \<in> set (split_on c s) \<Longrightarrow> c \<notin> set p"
  by (induction s arbitrary: p) (auto split: if_splits list.splits)

lemma split_on_chars: "p \<in> set (split_on c s) \<Longrightarrow> set p \<subseteq> set s"
proof (induction s arbitrary: p)
  case (Cons x s)
  show ?case
  proof (cases "split_on c s")
    case Nil
    then show ?thesis by simp
  next
    case (Cons q qs)
    then have "set q \<subseteq> set s" "\<And>p. p \<in> set qs \<Longrightarrow> set p \<subseteq> set s"
      using Cons.IH by auto
    with Cons Cons.prems show ?thesis by (auto split: if_splits)
  qed
qed simp

lemma split_on_plain: "c \<notin> set p \<Longrightarrow> split_on c p = [p]"
  by (induction p) auto

lemma split_on_append_sep: "c \<notin> set p \<Longrightarrow> split_on c (p @ c # s) = p # split_on c s"
  by (induction p) auto

lemma split_join: "ps \<noteq> [] \<Longrightarrow> \<forall>p \<in> set ps. c \<notin> set p \<Longrightarrow> split_on c (join_with c ps) = ps"
  by (induction c ps rule: join_with.induct) (auto simp: split_on_plain split_on_append_sep)

lemma set_join_with: "set (join_with c ps) \<subseteq> insert c (\<Union> (set ` set ps))"
  by (induction c ps rule: join_with.induct) auto

section \<open>Interface: transition systems with an invariant\<close>

inductive reach :: "('s \<Rightarrow> bool) \<Rightarrow> ('s \<Rightarrow> 's \<Rightarrow> bool) \<Rightarrow> 's \<Rightarrow> bool"
  for init :: "'s \<Rightarrow> bool" and step :: "'s \<Rightarrow> 's \<Rightarrow> bool" where
  reach_init: "init s \<Longrightarrow> reach init step s"
| reach_step: "reach init step s \<Longrightarrow> step s t \<Longrightarrow> reach init step t"

locale transition_system =
  fixes init :: "'s \<Rightarrow> bool" and step :: "'s \<Rightarrow> 's \<Rightarrow> bool" and inv :: "'s \<Rightarrow> bool"
  assumes inv_init: "init s \<Longrightarrow> inv s"
    and inv_step: "inv s \<Longrightarrow> step s t \<Longrightarrow> inv t"
begin

lemma reach_inv: "reach init step s \<Longrightarrow> inv s"
  by (induction rule: reach.induct) (auto intro: inv_init inv_step)

lemma steps_inv: "step\<^sup>*\<^sup>* s t \<Longrightarrow> inv s \<Longrightarrow> inv t"
  by (induction rule: rtranclp_induct) (auto intro: inv_step)

end

section \<open>Interface: status life cycles\<close>

text \<open>
  A status with a relation of allowed moves, some of them terminal. The provider promises that a
  terminal status has no move; the client gets that a terminal status is final on every path.
\<close>

locale life_cycle =
  fixes allowed :: "'st \<Rightarrow> 'st \<Rightarrow> bool" and terminal :: "'st \<Rightarrow> bool"
  assumes terminal_stuck: "terminal a \<Longrightarrow> \<not> allowed a b"
begin

lemma terminal_final: "allowed\<^sup>*\<^sup>* a b \<Longrightarrow> terminal a \<Longrightarrow> b = a"
  by (induction rule: converse_rtranclp_induct) (auto simp: terminal_stuck)

lemma path_before_terminal: "allowed\<^sup>+\<^sup>+ a b \<Longrightarrow> \<not> terminal a"
  by (induction rule: tranclp_induct) (auto simp: terminal_stuck)

end

section \<open>Interface: fenced resources\<close>

text \<open>
  A resource has a generation while it exists. The provider promises that no step takes it back; the
  client gets that a generation once left is never seen again while the resource exists, so a token
  made from it is refused for good.
\<close>

definition alive_step :: "('s \<Rightarrow> 's \<Rightarrow> bool) \<Rightarrow> ('s \<Rightarrow> 'k \<Rightarrow> 'g option) \<Rightarrow> 'k \<Rightarrow> 's \<Rightarrow> 's \<Rightarrow> bool" where
  "alive_step step generation k s t \<longleftrightarrow> step s t \<and> generation s k \<noteq> None \<and> generation t k \<noteq> None"

locale fenced =
  fixes step :: "'s \<Rightarrow> 's \<Rightarrow> bool" and generation :: "'s \<Rightarrow> 'k \<Rightarrow> 'g::order option"
  assumes advance: "step s t \<Longrightarrow> generation s k = Some g \<Longrightarrow> generation t k = Some h \<Longrightarrow> g \<le> h"
begin

lemma advance_steps:
  "(alive_step step generation k)\<^sup>*\<^sup>* s t \<Longrightarrow> generation s k = Some g \<Longrightarrow>
   \<exists>h. generation t k = Some h \<and> g \<le> h"
proof (induction rule: rtranclp_induct)
  case (step t u)
  then obtain h h' where "generation t k = Some h" "g \<le> h" "generation u k = Some h'"
    by (auto simp: alive_step_def)
  with step(2) advance [of t u k h h'] show ?case by (auto simp: alive_step_def)
qed simp

lemma never_again:
  assumes "(alive_step step generation k)\<^sup>*\<^sup>* s t" and "generation s k = Some g"
    and "generation t k = Some h" and "g \<noteq> h"
    and "(alive_step step generation k)\<^sup>*\<^sup>* t u" and "generation u k = Some i"
  shows "g \<noteq> i"
  using advance_steps [OF assms(1,2)] advance_steps [OF assms(5,3)] assms(3,4,6) by auto

end

section \<open>Interface: stop flags\<close>

locale stop_flags =
  fixes request :: "string \<Rightarrow> 'c \<Rightarrow> 'c"
    and clear :: "string \<Rightarrow> 'c \<Rightarrow> 'c"
    and discard :: "string \<Rightarrow> 'c \<Rightarrow> 'c"
    and requested :: "string \<Rightarrow> 'c \<Rightarrow> bool"
  assumes requested_request: "requested i (request j c) \<longleftrightarrow> i = j \<or> requested i c"
    and requested_clear: "requested i (clear j c) \<longleftrightarrow> i \<noteq> j \<and> requested i c"
    and requested_discard: "requested i (discard j c) \<longleftrightarrow> i \<noteq> j \<and> requested i c"
begin

lemmas stop_laws = requested_request requested_clear requested_discard

lemma request_all: "requested i (fold request js c) \<longleftrightarrow> i \<in> set js \<or> requested i c"
  by (induction js arbitrary: c) (auto simp: stop_laws)

lemma discard_request: "\<not> requested i (discard i (request i c))"
  by (simp add: stop_laws)

end

end
