(* ===== verification/Runtime_Models.thy ===== *)
theory Runtime_Models
  imports Prelude
begin

text \<open>
  The data of the agent runtime, from \<^verbatim>\<open>exam_predictor/runtime/models.py\<close>: run statuses, event
  types, provider profiles and their validation, run snapshots and events; the URL check of
  \<^verbatim>\<open>exam_predictor/security.py\<close> that the profile validation calls; and the stop flags of
  \<^verbatim>\<open>exam_predictor/runtime/control.py\<close>.
\<close>

section \<open>Statuses and events\<close>

datatype RunStatus = QUEUED | RUNNING | STOPPING | PAUSED | COMPLETED | FAILED

definition is_terminal :: "RunStatus \<Rightarrow> bool" where
  "is_terminal s \<longleftrightarrow> s \<in> {RunStatus.COMPLETED, RunStatus.FAILED}"

definition is_settled :: "RunStatus \<Rightarrow> bool" where
  "is_settled s \<longleftrightarrow> s \<in> {RunStatus.PAUSED, RunStatus.COMPLETED, RunStatus.FAILED}"

datatype EventType =
    QUEUED | STARTED | PROGRESS | TOOL_STARTED | TOOL_COMPLETED | MESSAGE
  | STOP_REQUESTED | PAUSED | RESUMED | COMPLETED | FAILED

record RunSnapshot =
  run_id :: string
  run_thread_id :: string
  run_provider_profile_id :: string
  run_workspace_id :: "string option"
  run_message :: string
  run_status :: RunStatus
  run_error :: "string option"
  run_created_at :: int
  run_updated_at :: int

record AgentEvent =
  ev_sequence :: nat
  ev_run_id :: string
  ev_event_type :: EventType
  ev_stage :: string
  ev_message :: string
  ev_payload :: payload
  ev_created_at :: int

section \<open>Provider profiles\<close>

record ProviderProfile =
  profile_id :: string
  provider :: string
  base_url :: "string option"
  fast_model :: "string option"
  balanced_model :: "string option"
  reasoning_model :: "string option"
  embedding_model :: "string option"

definition strip_required :: "string \<Rightarrow> py_error + string" where
  "strip_required value =
     (let cleaned = py_strip value in if cleaned = [] then Inl ValueError else Inr cleaned)"

text \<open>\<open>^[A-Za-z0-9][A-Za-z0-9_.-]{0,63}$\<close>\<close>

definition provider_profile_id_ok :: "string \<Rightarrow> bool" where
  "provider_profile_id_ok =
     bounded_match is_alnum (\<lambda>c. is_alnum c \<or> c \<in> {CHR ''_'', CHR ''.'', CHR ''-''}) 63"

definition validate_profile_id :: "string \<Rightarrow> py_error + string" where
  "validate_profile_id value =
     bind_res (strip_required value)
       (\<lambda>cleaned. if \<not> provider_profile_id_ok cleaned then Inl ValueError else Inr cleaned)"

text \<open>
  \<open>provider_config\<close>: the fields other than \<open>profile_id\<close> that are neither \<open>None\<close> nor empty, in
  declaration order.
\<close>

definition provider_config :: "ProviderProfile \<Rightarrow> (string \<times> string) list" where
  "provider_config p =
     (let values = (''provider'', provider p) #
        List.map_filter (\<lambda>(k, v). map_option (Pair k) v)
          [(''base_url'', base_url p), (''fast_model'', fast_model p),
           (''balanced_model'', balanced_model p), (''reasoning_model'', reasoning_model p),
           (''embedding_model'', embedding_model p)]
      in filter (\<lambda>(k, v). v \<noteq> []) values)"

subsection \<open>The URL check\<close>

text \<open>
  What \<open>urllib.parse\<close> returns for a URL and what \<open>ipaddress.ip_address\<close> says of a host are the
  two standard-library results the check reads.
\<close>

record url_parts =
  url_scheme :: string
  url_hostname :: "string option"
  url_username :: "string option"
  url_password :: "string option"
  url_query :: string

record ip_class =
  is_private :: bool
  is_loopback :: bool
  is_link_local :: bool
  is_reserved :: bool

text \<open>\<open>str.lower()\<close> on ASCII, and the truth value of an optional string\<close>

definition py_lower :: "string \<Rightarrow> string" where
  "py_lower = map fold_char"

definition truthy :: "string option \<Rightarrow> bool" where
  "truthy v \<longleftrightarrow> v \<noteq> None \<and> v \<noteq> Some []"

definition strip_brackets :: "string \<Rightarrow> string" where
  "strip_brackets s =
     (let drop_b = dropWhile (\<lambda>c. c \<in> {CHR ''['', CHR '']''}) in rev (drop_b (rev (drop_b s))))"

definition ends_with :: "string \<Rightarrow> string \<Rightarrow> bool" where
  "ends_with s suf \<longleftrightarrow> length suf \<le> length s \<and> drop (length s - length suf) s = suf"

definition validate_public_https_url ::
  "(string \<Rightarrow> url_parts) \<Rightarrow> (string \<Rightarrow> ip_class option) \<Rightarrow> string \<Rightarrow> py_error + string" where
  "validate_public_https_url urlparse ip_address url =
     (let parsed = urlparse (py_strip url) in
      if url_scheme parsed \<noteq> ''https'' \<or> \<not> truthy (url_hostname parsed) then Inl UploadSecurityError
      else let host = py_lower (strip_brackets (case url_hostname parsed of None \<Rightarrow> [] | Some h \<Rightarrow> h)) in
      if host \<in> {''localhost'', ''localhost.localdomain''} \<or> ends_with host ''.local''
      then Inl UploadSecurityError
      else if (case ip_address host of None \<Rightarrow> False
                | Some ip \<Rightarrow> is_private ip \<or> is_loopback ip \<or> is_link_local ip \<or> is_reserved ip)
      then Inl UploadSecurityError
      else if truthy (url_username parsed) \<or> truthy (url_password parsed)
      then Inl UploadSecurityError
      else Inr (py_strip url))"

text \<open>
  \<open>validate_provider_profile\<close>: only a custom provider carries a base URL that is checked, and the
  checked URL must have no query. \<open>UploadSecurityError\<close> is a \<open>ValueError\<close>, so it is caught.
\<close>

definition validate_provider_profile ::
  "(string \<Rightarrow> url_parts) \<Rightarrow> (string \<Rightarrow> ip_class option) \<Rightarrow> ProviderProfile
    \<Rightarrow> py_error + ProviderProfile" where
  "validate_provider_profile urlparse ip_address profile =
     (if provider profile \<noteq> ''custom'' then Inr profile
      else case base_url profile of
        None \<Rightarrow> Inl ProviderConfigurationError
      | Some u \<Rightarrow>
          (case validate_public_https_url urlparse ip_address u of
             Inl _ \<Rightarrow> Inl ProviderConfigurationError
           | Inr validated_url \<Rightarrow>
               if url_query (urlparse validated_url) \<noteq> [] then Inl ProviderConfigurationError
               else Inr (profile\<lparr>base_url := Some validated_url\<rparr>)))"

record SavedProviderProfile =
  sp_profile :: ProviderProfile
  sp_capabilities :: "(string \<times> bool) list"
  sp_credential_expected :: bool
  sp_reconnect_required :: bool
  sp_updated_at :: int

record ProviderDescriptor =
  pd_profile :: ProviderProfile
  pd_capabilities :: "(string \<times> bool) list"
  pd_credential_saved :: bool
  pd_credential_warning :: "string option"

lemma validate_provider_profile_id:
  "validate_provider_profile up ia p = Inr p' \<Longrightarrow> profile_id p' = profile_id p"
  by (auto simp: validate_provider_profile_def split: if_splits option.splits sum.splits)

section \<open>Stop flags\<close>

text \<open>
  \<open>RunControlRegistry\<close>: one \<open>threading.Event\<close> per run, created on first access. The map holds
  whether the event of a run is set.
\<close>

type_synonym controls = "(string \<times> bool) list"

definition control_event :: "string \<Rightarrow> controls \<Rightarrow> controls" where
  "control_event i c = (if map_of c i = None then (i, False) # c else c)"

definition set_event :: "bool \<Rightarrow> string \<Rightarrow> controls \<Rightarrow> controls" where
  "set_event b i c = map (\<lambda>(j, v). (j, if j = i then b else v)) (control_event i c)"

definition request_stop :: "string \<Rightarrow> controls \<Rightarrow> controls" where
  "request_stop i c = set_event True i c"

definition clear_stop :: "string \<Rightarrow> controls \<Rightarrow> controls" where
  "clear_stop i c = set_event False i c"

definition is_stop_requested :: "string \<Rightarrow> controls \<Rightarrow> bool" where
  "is_stop_requested i c = (map_of (control_event i c) i = Some True)"

definition control_discard :: "string \<Rightarrow> controls \<Rightarrow> controls" where
  "control_discard i c = filter (\<lambda>(j, v). j \<noteq> i) c"

lemma map_of_set_event:
  "map_of (set_event b i c) j = (if j = i then Some b else map_of c j)"
proof -
  have upd: "map_of (map (\<lambda>(j, v). (j, if j = i then b else v)) c) j =
      map_option (\<lambda>v. if j = i then b else v) (map_of c j)" for c :: controls and j
    by (induction c) auto
  show ?thesis
    by (auto simp: set_event_def upd control_event_def option.map_ident split: option.splits)
qed

lemma is_stop_requested_iff: "is_stop_requested i c \<longleftrightarrow> map_of c i = Some True"
  by (auto simp: is_stop_requested_def control_event_def)

lemma map_of_control_discard:
  "map_of (control_discard i c) j = (if j = i then None else map_of c j)"
  by (induction c) (auto simp: control_discard_def)

interpretation ctl: stop_flags request_stop clear_stop control_discard is_stop_requested
  by unfold_locales
    (auto simp: is_stop_requested_iff request_stop_def clear_stop_def map_of_set_event
      map_of_control_discard)

end
