(* ===== verification/Runtime_Store.thy ===== *)
theory Runtime_Store
  imports Runtime_Models
begin

text \<open>
  \<open>RuntimeStore\<close> of \<^verbatim>\<open>exam_predictor/runtime/store.py\<close>: the tables of agent runs, agent events
  and saved provider profiles, and one definition per method. The time and the fresh run id a
  method draws are arguments. The lemmas give what each method does to the statuses of the runs
  (the view the coordinator works with) and keep the store's well-formedness.
\<close>

section \<open>State\<close>

record runtime_db =
  agent_runs :: "RunSnapshot list"
  agent_events :: "AgentEvent list"
  event_sequence :: nat
  saved_profiles :: "(string \<times> SavedProviderProfile) list"

text \<open>
  \<open>event_sequence\<close> is the AUTOINCREMENT counter of \<open>agent_events\<close>; the first component of a saved
  profile is its \<open>profile_id\<close> column, the second the decoded row.
\<close>

definition empty_runtime_db :: runtime_db where
  "empty_runtime_db =
     \<lparr>agent_runs = [], agent_events = [], event_sequence = 0, saved_profiles = []\<rparr>"

section \<open>Provider profiles\<close>

definition saved_provider_profile ::
  "(string \<Rightarrow> url_parts) \<Rightarrow> (string \<Rightarrow> ip_class option) \<Rightarrow> string \<times> SavedProviderProfile
    \<Rightarrow> py_error + SavedProviderProfile" where
  "saved_provider_profile up ia row =
     (let (pk, sp) = row in
      if profile_id (sp_profile sp) \<noteq> pk then Inl ValueError
      else bind_res (validate_provider_profile up ia (sp_profile sp))
             (\<lambda>p. Inr (sp\<lparr>sp_profile := p\<rparr>)))"

text \<open>\<open>INSERT .. ON CONFLICT(profile_id) DO UPDATE\<close>: a conflicting row is replaced in place.\<close>

definition save_provider_profile ::
  "(string \<Rightarrow> url_parts) \<Rightarrow> (string \<Rightarrow> ip_class option) \<Rightarrow> SavedProviderProfile \<Rightarrow> runtime_db
    \<Rightarrow> py_error + runtime_db" where
  "save_provider_profile up ia sp db =
     bind_res (validate_provider_profile up ia (sp_profile sp))
       (\<lambda>validated.
          let sp' = sp\<lparr>sp_profile := validated\<rparr>; k = profile_id validated in
          Inr (db\<lparr>saved_profiles :=
            (if row_of fst k (saved_profiles db) = None then saved_profiles db @ [(k, sp')]
             else update_where (\<lambda>row. fst row = k) (\<lambda>_. (k, sp')) (saved_profiles db))\<rparr>))"

definition list_saved_provider_profiles ::
  "(string \<Rightarrow> url_parts) \<Rightarrow> (string \<Rightarrow> ip_class option) \<Rightarrow> runtime_db
    \<Rightarrow> SavedProviderProfile list" where
  "list_saved_provider_profiles up ia db =
     List.map_filter
       (\<lambda>row. case saved_provider_profile up ia row of Inl _ \<Rightarrow> None | Inr sp \<Rightarrow> Some sp)
       (order_by fst (saved_profiles db))"

definition mark_provider_reconnect_required ::
  "int \<Rightarrow> string \<Rightarrow> runtime_db \<Rightarrow> py_error + runtime_db" where
  "mark_provider_reconnect_required now pid db =
     (if length (filter (\<lambda>row. fst row = pid) (saved_profiles db)) \<noteq> 1 then Inl KeyError
      else Inr (db\<lparr>saved_profiles := update_where (\<lambda>row. fst row = pid)
             (\<lambda>(k, sp). (k, sp\<lparr>sp_credential_expected := False, sp_reconnect_required := True,
                              sp_updated_at := now\<rparr>)) (saved_profiles db)\<rparr>))"

section \<open>Runs\<close>

definition get_run :: "string \<Rightarrow> runtime_db \<Rightarrow> py_error + RunSnapshot" where
  "get_run rid db =
     (case row_of run_id rid (agent_runs db) of None \<Rightarrow> Inl KeyError | Some r \<Rightarrow> Inr r)"

text \<open>the checkpoint thread of a workspace: \<open>f"workspace:{workspace_id}"\<close>\<close>

definition workspace_thread :: "string \<Rightarrow> string" where
  "workspace_thread ws = ''workspace:'' @ ws"

definition create_run ::
  "string \<Rightarrow> int \<Rightarrow> string \<Rightarrow> string \<Rightarrow> string \<Rightarrow> RunStatus \<Rightarrow> string option \<Rightarrow> runtime_db
    \<Rightarrow> py_error + runtime_db \<times> RunSnapshot" where
  "create_run fresh_id now thread_id profile msg st ws db =
     (if (case ws of None \<Rightarrow> False | Some w \<Rightarrow> thread_id \<noteq> workspace_thread w) then Inl ValueError
      else if row_of run_id fresh_id (agent_runs db) \<noteq> None then Inl IntegrityError
      else
        let r = \<lparr>run_id = fresh_id, run_thread_id = thread_id, run_provider_profile_id = profile,
                 run_workspace_id = ws, run_message = msg, run_status = st, run_error = None,
                 run_created_at = now, run_updated_at = now\<rparr>;
            db' = db\<lparr>agent_runs := agent_runs db @ [r]\<rparr>
        in bind_res (get_run fresh_id db') (\<lambda>run. Inr (db', run)))"

definition list_by_status :: "RunStatus set \<Rightarrow> runtime_db \<Rightarrow> RunSnapshot list" where
  "list_by_status sts db =
     order_by run_created_at (filter (\<lambda>r. run_status r \<in> sts) (agent_runs db))"

definition active_run :: "runtime_db \<Rightarrow> RunSnapshot option" where
  "active_run db = first_row (order_by run_created_at
     (filter (\<lambda>r. run_status r \<in> {RunStatus.RUNNING, RunStatus.STOPPING, RunStatus.PAUSED})
        (agent_runs db)))"

definition next_queued_run :: "runtime_db \<Rightarrow> RunSnapshot option" where
  "next_queued_run db = first_row (order_by run_created_at
     (filter (\<lambda>r. run_status r = RunStatus.QUEUED) (agent_runs db)))"

definition write_status ::
  "int \<Rightarrow> string \<Rightarrow> RunStatus \<Rightarrow> string option \<Rightarrow> runtime_db \<Rightarrow> runtime_db" where
  "write_status now rid st err db = db\<lparr>agent_runs := update_where (\<lambda>r. run_id r = rid)
     (\<lambda>r. r\<lparr>run_status := st, run_error := err, run_updated_at := now\<rparr>) (agent_runs db)\<rparr>"

definition set_status ::
  "int \<Rightarrow> string \<Rightarrow> RunStatus \<Rightarrow> string option \<Rightarrow> runtime_db
    \<Rightarrow> py_error + runtime_db \<times> RunSnapshot" where
  "set_status now rid st err db =
     (if length (filter (\<lambda>r. run_id r = rid) (agent_runs db)) \<noteq> 1 then Inl KeyError
      else let db' = write_status now rid st err db
           in bind_res (get_run rid db') (\<lambda>run. Inr (db', run)))"

section \<open>Events\<close>

text \<open>
  \<open>INSERT INTO agent_events\<close>: the sequence number is one more than any ever used, and the run
  must exist (\<open>FOREIGN KEY(run_id)\<close>).
\<close>

definition insert_event ::
  "int \<Rightarrow> string \<Rightarrow> EventType \<Rightarrow> string \<Rightarrow> string \<Rightarrow> payload \<Rightarrow> runtime_db
    \<Rightarrow> py_error + runtime_db \<times> AgentEvent" where
  "insert_event now rid et stage msg pl db =
     (if row_of run_id rid (agent_runs db) = None then Inl IntegrityError
      else let ev = \<lparr>ev_sequence = Suc (event_sequence db), ev_run_id = rid, ev_event_type = et,
                     ev_stage = stage, ev_message = msg, ev_payload = pl, ev_created_at = now\<rparr>
           in Inr (db\<lparr>agent_events := agent_events db @ [ev],
                      event_sequence := Suc (event_sequence db)\<rparr>, ev))"

definition append_event ::
  "int \<Rightarrow> string \<Rightarrow> EventType \<Rightarrow> string \<Rightarrow> string \<Rightarrow> payload \<Rightarrow> runtime_db
    \<Rightarrow> py_error + runtime_db \<times> AgentEvent" where
  "append_event now rid et stage msg pl db =
     (if \<not> json_finite (VDict pl) then Inl ValueError
      else insert_event now rid et stage msg pl db)"

definition set_status_and_append_event ::
  "int \<Rightarrow> string \<Rightarrow> RunStatus \<Rightarrow> EventType \<Rightarrow> string \<Rightarrow> string \<Rightarrow> payload \<Rightarrow> string option
    \<Rightarrow> runtime_db \<Rightarrow> py_error + runtime_db \<times> RunSnapshot \<times> AgentEvent" where
  "set_status_and_append_event now rid st et stage msg pl err db =
     (if \<not> json_finite (VDict pl) then Inl ValueError
      else if length (filter (\<lambda>r. run_id r = rid) (agent_runs db)) \<noteq> 1 then Inl KeyError
      else bind_res (insert_event now rid et stage msg pl (write_status now rid st err db))
        (\<lambda>(db', ev). bind_res (get_run rid db') (\<lambda>run. Inr (db', run, ev))))"

definition list_events :: "string \<Rightarrow> nat \<Rightarrow> runtime_db \<Rightarrow> AgentEvent list" where
  "list_events rid after db =
     order_by ev_sequence
       (filter (\<lambda>e. ev_run_id e = rid \<and> ev_sequence e > after) (agent_events db))"

section \<open>Workspaces\<close>

definition list_for_workspace ::
  "string \<Rightarrow> RunStatus set option \<Rightarrow> runtime_db \<Rightarrow> RunSnapshot list" where
  "list_for_workspace ws statuses db =
     order_by run_created_at
       (filter (\<lambda>r. run_workspace_id r = Some ws \<and>
          (case statuses of None \<Rightarrow> True | Some sts \<Rightarrow> run_status r \<in> sts)) (agent_runs db))"

definition has_unsettled_runs :: "string \<Rightarrow> runtime_db \<Rightarrow> bool" where
  "has_unsettled_runs ws db =
     (list_for_workspace ws (Some {RunStatus.QUEUED, RunStatus.RUNNING, RunStatus.STOPPING,
        RunStatus.PAUSED}) db \<noteq> [])"

text \<open>
  \<open>GROUP BY thread_id ORDER BY MIN(created_at), MIN(rowid)\<close>: the threads in the order of their
  first row, then stably by the earliest creation time of their rows.
\<close>

definition thread_ids_for_workspace :: "string \<Rightarrow> runtime_db \<Rightarrow> string list" where
  "thread_ids_for_workspace ws db =
     (let rows = filter (\<lambda>r. run_workspace_id r = Some ws) (agent_runs db) in
      order_by (\<lambda>t. min_list (map run_created_at (filter (\<lambda>r. run_thread_id r = t) rows)))
        (distinct_firsts (map run_thread_id rows)))"

definition delete_settled_workspace_runs :: "string \<Rightarrow> runtime_db \<Rightarrow> py_error + runtime_db" where
  "delete_settled_workspace_runs ws db =
     (if (\<exists>r \<in> set (agent_runs db). run_workspace_id r = Some ws \<and>
            run_status r \<notin> {RunStatus.COMPLETED, RunStatus.FAILED}) then Inl ValueError
      else
        let gone = map run_id (filter (\<lambda>r. run_workspace_id r = Some ws) (agent_runs db)) in
        Inr (db\<lparr>agent_runs := delete_where (\<lambda>r. run_workspace_id r = Some ws) (agent_runs db),
                agent_events := delete_where (\<lambda>e. ev_run_id e \<in> set gone) (agent_events db)\<rparr>))"

section \<open>Recovery after a restart\<close>

definition is_lifecycle_event :: "EventType \<Rightarrow> bool" where
  "is_lifecycle_event et \<longleftrightarrow>
     et \<in> {EventType.QUEUED, EventType.STARTED, EventType.STOP_REQUESTED, EventType.PAUSED,
           EventType.RESUMED, EventType.COMPLETED, EventType.FAILED}"

definition last_lifecycle_event :: "runtime_db \<Rightarrow> string \<Rightarrow> EventType option" where
  "last_lifecycle_event db rid =
     map_option ev_event_type (first_row (rev (order_by ev_sequence
       (filter (\<lambda>e. ev_run_id e = rid \<and> is_lifecycle_event (ev_event_type e))
          (agent_events db)))))"

definition interrupted_message :: string where
  "interrupted_message =
     ''ExamSage stopped before this run completed. Select Resume to continue.''"

definition recover_row ::
  "int \<Rightarrow> string \<times> EventType option \<Rightarrow> py_error + runtime_db \<Rightarrow> py_error + runtime_db" where
  "recover_row now row r = bind_res r (\<lambda>db.
     let (rid, last) = row; db1 = write_status now rid RunStatus.PAUSED None db in
     if last \<noteq> Some EventType.PAUSED
     then bind_res (insert_event now rid EventType.PAUSED ''paused'' interrupted_message [] db1)
            (\<lambda>(db2, _). Inr db2)
     else Inr db1)"

definition recover_unfinished :: "int \<Rightarrow> runtime_db \<Rightarrow> py_error + runtime_db \<times> string list" where
  "recover_unfinished now db =
     (let rows = map (\<lambda>r. (run_id r, last_lifecycle_event db (run_id r)))
                   (list_by_status {RunStatus.RUNNING, RunStatus.STOPPING} db)
      in bind_res (fold (recover_row now) rows (Inr db)) (\<lambda>db'. Inr (db', map fst rows)))"

section \<open>What the methods do to the view of the coordinator\<close>

text \<open>The runs as the coordinator sees them: identifier and status, in creation order.\<close>

definition run_view :: "runtime_db \<Rightarrow> (string \<times> RunStatus) list" where
  "run_view db = map (\<lambda>r. (run_id r, run_status r)) (agent_runs db)"

definition view_set :: "string \<Rightarrow> 'st \<Rightarrow> (string \<times> 'st) list \<Rightarrow> (string \<times> 'st) list" where
  "view_set i st v = map (\<lambda>(j, s). (j, if j = i then st else s)) v"

named_theorems run_view_simps \<open>the view after a store method\<close>

lemma run_view_ids: "map fst (run_view db) = map run_id (agent_runs db)"
  by (simp add: run_view_def comp_def)

lemma run_view_write_status [run_view_simps]:
  "run_view (write_status now rid st err db) = view_set rid st (run_view db)"
  by (simp add: run_view_def write_status_def view_set_def update_where_def comp_def)

lemma row_of_write_status:
  "row_of run_id k (agent_runs (write_status now rid st err db)) =
     map_option (\<lambda>r. if run_id r = rid
       then r\<lparr>run_status := st, run_error := err, run_updated_at := now\<rparr> else r)
       (row_of run_id k (agent_runs db))"
  by (simp add: write_status_def row_of_update_where)

lemma key_rowcount:
  assumes "distinct (map key rows)"
  shows "length (filter (\<lambda>r. key r = k) rows) = (if k \<in> key ` set rows then 1 else 0)"
  using assms
proof (induction rows)
  case (Cons r rows)
  then show ?case
    by (cases "key r = k") (auto simp: image_iff filter_empty_conv)
qed simp

lemma rowcount_one:
  assumes "distinct (map run_id (agent_runs db))"
  shows "length (filter (\<lambda>r. run_id r = rid) (agent_runs db)) = 1 \<longleftrightarrow>
    row_of run_id rid (agent_runs db) \<noteq> None"
  by (simp add: key_rowcount [OF assms] row_of_None_iff)

lemma insert_event_Inr_iff:
  "insert_event now rid et stage msg pl db = Inr (db', ev) \<longleftrightarrow>
     row_of run_id rid (agent_runs db) \<noteq> None \<and>
     ev = \<lparr>ev_sequence = Suc (event_sequence db), ev_run_id = rid, ev_event_type = et,
           ev_stage = stage, ev_message = msg, ev_payload = pl, ev_created_at = now\<rparr> \<and>
     db' = db\<lparr>agent_events := agent_events db @ [ev], event_sequence := Suc (event_sequence db)\<rparr>"
  by (auto simp: insert_event_def Let_def)

lemma insert_event_view [run_view_simps]:
  "insert_event now rid et stage msg pl db = Inr (db', ev) \<Longrightarrow> run_view db' = run_view db"
  by (auto simp: insert_event_Inr_iff run_view_def)

lemma append_event_Inr:
  "append_event now rid et stage msg pl db = Inr (db', ev) \<Longrightarrow>
     insert_event now rid et stage msg pl db = Inr (db', ev)"
  by (auto simp: append_event_def split: if_splits)

lemma append_event_view [run_view_simps]:
  "append_event now rid et stage msg pl db = Inr (db', ev) \<Longrightarrow> run_view db' = run_view db"
  by (auto dest: append_event_Inr insert_event_view)

lemma set_status_Inr:
  "set_status now rid st err db = Inr (db', run) \<Longrightarrow>
     db' = write_status now rid st err db \<and> row_of run_id rid (agent_runs db) \<noteq> None \<and>
     row_of run_id rid (agent_runs db') = Some run"
  by (auto simp: set_status_def Let_def bind_res_Inr_iff get_run_def row_of_write_status
      split: if_splits option.splits)

lemma set_status_view [run_view_simps]:
  "set_status now rid st err db = Inr (db', run) \<Longrightarrow> run_view db' = view_set rid st (run_view db)"
  by (auto dest!: set_status_Inr simp: run_view_write_status)

lemma set_status_and_append_event_Inr:
  "set_status_and_append_event now rid st et stage msg pl err db = Inr (db', run, ev) \<Longrightarrow>
     insert_event now rid et stage msg pl (write_status now rid st err db) = Inr (db', ev) \<and>
     row_of run_id rid (agent_runs db') = Some run"
  by (auto simp: set_status_and_append_event_def bind_res_Inr_iff get_run_def
      split: if_splits option.splits)

lemma set_status_and_append_event_view [run_view_simps]:
  "set_status_and_append_event now rid st et stage msg pl err db = Inr (db', run, ev) \<Longrightarrow>
     run_view db' = view_set rid st (run_view db)"
  by (metis set_status_and_append_event_Inr insert_event_view run_view_write_status)

lemma create_run_Inr:
  "create_run i now th prof msg st ws db = Inr (db', run) \<Longrightarrow>
     row_of run_id i (agent_runs db) = None \<and>
     db' = db\<lparr>agent_runs := agent_runs db @ [run]\<rparr> \<and> run_id run = i \<and> run_status run = st \<and>
     run_thread_id run = th \<and> run_workspace_id run = ws \<and> run_created_at run = now \<and>
     run_provider_profile_id run = prof \<and> run_message run = msg \<and>
     (\<forall>w. ws = Some w \<longrightarrow> th = workspace_thread w)"
  by (auto simp: create_run_def Let_def bind_res_Inr_iff get_run_def row_of_append
      split: if_splits option.splits)

lemma create_run_view [run_view_simps]:
  "create_run i now th prof msg st ws db = Inr (db', run) \<Longrightarrow>
     run_view db' = run_view db @ [(i, st)]"
  by (auto dest!: create_run_Inr simp: run_view_def)

section \<open>Well-formedness\<close>

text \<open>
  Run identifiers are unique, every event belongs to a stored run, events are numbered in the
  order they were appended, a workspace run uses the workspace's checkpoint thread, and a saved
  profile has one row.
\<close>

definition runs_wf :: "RunSnapshot list \<Rightarrow> bool" where
  "runs_wf rs \<longleftrightarrow> distinct (map run_id rs) \<and>
     (\<forall>r \<in> set rs. \<forall>w. run_workspace_id r = Some w \<longrightarrow> run_thread_id r = workspace_thread w)"

definition events_wf :: "nat \<Rightarrow> AgentEvent list \<Rightarrow> bool" where
  "events_wf n es \<longleftrightarrow> sorted_wrt (<) (map ev_sequence es) \<and> (\<forall>e \<in> set es. ev_sequence e \<le> n)"

definition runtime_wf :: "runtime_db \<Rightarrow> bool" where
  "runtime_wf db \<longleftrightarrow> runs_wf (agent_runs db) \<and> events_wf (event_sequence db) (agent_events db) \<and>
     ev_run_id ` set (agent_events db) \<subseteq> run_id ` set (agent_runs db) \<and>
     distinct (map fst (saved_profiles db))"

lemma runtime_wf_empty: "runtime_wf empty_runtime_db"
  by (simp add: runtime_wf_def empty_runtime_db_def runs_wf_def events_wf_def)

lemma runtime_wf_distinct: "runtime_wf db \<Longrightarrow> distinct (map fst (run_view db))"
  by (simp add: runtime_wf_def runs_wf_def run_view_ids)

lemma write_status_ids:
  "run_id ` set (agent_runs (write_status now rid st err db)) = run_id ` set (agent_runs db)"
  "map run_id (agent_runs (write_status now rid st err db)) = map run_id (agent_runs db)"
  by (simp_all add: write_status_def key_image_update_where keys_update_where)

lemma write_status_events [simp]:
  "agent_events (write_status now rid st err db) = agent_events db"
  "event_sequence (write_status now rid st err db) = event_sequence db"
  "saved_profiles (write_status now rid st err db) = saved_profiles db"
  by (simp_all add: write_status_def)

lemma write_status_wf [keep_inv]:
  "runtime_wf db \<Longrightarrow> runtime_wf (write_status now rid st err db)"
  unfolding runtime_wf_def runs_wf_def write_status_ids write_status_events
  by (auto simp: write_status_def set_update_where)

lemma insert_event_wf [keep_inv]:
  "insert_event now rid et stage msg pl db = Inr (db', ev) \<Longrightarrow> runtime_wf db \<Longrightarrow> runtime_wf db'"
  by (fastforce simp: insert_event_Inr_iff runtime_wf_def events_wf_def sorted_wrt_append
      row_of_None_iff)

lemma append_event_wf [keep_inv]:
  "append_event now rid et stage msg pl db = Inr (db', ev) \<Longrightarrow> runtime_wf db \<Longrightarrow> runtime_wf db'"
  by (blast dest: append_event_Inr insert_event_wf)

lemma set_status_wf [keep_inv]:
  "set_status now rid st err db = Inr (db', run) \<Longrightarrow> runtime_wf db \<Longrightarrow> runtime_wf db'"
  by (auto dest!: set_status_Inr intro: write_status_wf)

lemma set_status_and_append_event_wf [keep_inv]:
  "set_status_and_append_event now rid st et stage msg pl err db = Inr (db', run, ev) \<Longrightarrow>
     runtime_wf db \<Longrightarrow> runtime_wf db'"
  by (meson set_status_and_append_event_Inr insert_event_wf write_status_wf)

lemma create_run_wf [keep_inv]:
  "create_run i now th prof msg st ws db = Inr (db', run) \<Longrightarrow> runtime_wf db \<Longrightarrow> runtime_wf db'"
  by (drule create_run_Inr) (simp add: runtime_wf_def runs_wf_def row_of_None_iff subset_insertI2)

lemma delete_settled_Inr:
  "delete_settled_workspace_runs ws db = Inr db' \<Longrightarrow>
     (\<forall>r \<in> set (agent_runs db). run_workspace_id r = Some ws \<longrightarrow> is_terminal (run_status r)) \<and>
     agent_runs db' = filter (\<lambda>r. run_workspace_id r \<noteq> Some ws) (agent_runs db) \<and>
     event_sequence db' = event_sequence db \<and> saved_profiles db' = saved_profiles db \<and>
     agent_events db' = filter (\<lambda>e. ev_run_id e \<notin>
       run_id ` {r \<in> set (agent_runs db). run_workspace_id r = Some ws}) (agent_events db)"
  by (auto simp: delete_settled_workspace_runs_def Let_def delete_where_def is_terminal_def
      split: if_splits)

lemma delete_settled_wf [keep_inv]:
  assumes "delete_settled_workspace_runs ws db = Inr db'" and "runtime_wf db"
  shows "runtime_wf db'"
proof -
  note d = delete_settled_Inr [OF assms(1)]
  have "ev_run_id e \<in> run_id ` set (agent_runs db')" if e: "e \<in> set (agent_events db')" for e
  proof -
    from e d have ev: "e \<in> set (agent_events db)"
      and out: "ev_run_id e \<notin> run_id ` {r \<in> set (agent_runs db). run_workspace_id r = Some ws}"
      by auto
    from ev assms(2) have "ev_run_id e \<in> run_id ` set (agent_runs db)"
      by (auto simp: runtime_wf_def)
    then obtain r where r: "r \<in> set (agent_runs db)" "ev_run_id e = run_id r" by auto
    with out have "run_workspace_id r \<noteq> Some ws" by auto
    with r d show ?thesis by auto
  qed
  then show ?thesis using d assms(2)
    by (auto simp: runtime_wf_def runs_wf_def events_wf_def distinct_map_filter sorted_wrt_map
        sorted_wrt_filter)
qed

lemma delete_settled_view:
  assumes "delete_settled_workspace_runs ws db = Inr db'" and "runtime_wf db"
  shows "\<exists>P. run_view db' = filter P (run_view db) \<and>
    (\<forall>x \<in> set (run_view db). \<not> P x \<longrightarrow> is_terminal (snd x))"
proof -
  note d = delete_settled_Inr [OF assms(1)]
  let ?gone = "run_id ` {r \<in> set (agent_runs db). run_workspace_id r = Some ws}"
  have inj: "inj_on run_id (set (agent_runs db))"
    using assms(2) by (simp add: runtime_wf_def runs_wf_def distinct_map)
  have mem: "run_id r \<in> ?gone \<longleftrightarrow> run_workspace_id r = Some ws" if "r \<in> set (agent_runs db)" for r
    using that inj by (auto dest: inj_onD)
  have "run_view db' = filter (\<lambda>x. fst x \<notin> ?gone) (run_view db)"
    using d mem by (auto simp: run_view_def filter_map comp_def cong: filter_cong)
  moreover have "is_terminal (snd x)" if x: "x \<in> set (run_view db)" "fst x \<in> ?gone" for x
  proof -
    from x(1) obtain r where r: "r \<in> set (agent_runs db)" "x = (run_id r, run_status r)"
      by (auto simp: run_view_def)
    with x(2) have "run_workspace_id r = Some ws" using mem [OF r(1)] by simp
    then show ?thesis using d r by simp
  qed
  ultimately show ?thesis by (intro exI [of _ "\<lambda>x. fst x \<notin> ?gone"]) blast
qed

text \<open>The methods that touch only saved profiles leave the runs and events alone.\<close>

definition same_runs :: "runtime_db \<Rightarrow> runtime_db \<Rightarrow> bool" where
  "same_runs db db' \<longleftrightarrow> agent_runs db' = agent_runs db \<and> agent_events db' = agent_events db \<and>
     event_sequence db' = event_sequence db"

lemma same_runs_refl [simp]: "same_runs db db"
  by (simp add: same_runs_def)

lemma same_runs_trans [trans]: "same_runs a b \<Longrightarrow> same_runs b c \<Longrightarrow> same_runs a c"
  by (simp add: same_runs_def)

lemma same_runs_view: "same_runs db db' \<Longrightarrow> run_view db' = run_view db"
  by (simp add: same_runs_def run_view_def)

lemma same_runs_wf:
  "same_runs db db' \<Longrightarrow> distinct (map fst (saved_profiles db')) \<Longrightarrow> runtime_wf db \<Longrightarrow> runtime_wf db'"
  by (simp add: same_runs_def runtime_wf_def)

lemma save_provider_profile_Inr:
  assumes "save_provider_profile up ia sp db = Inr db'"
  shows "same_runs db db' \<and> (runtime_wf db \<longrightarrow> runtime_wf db')"
proof -
  from assms have same: "same_runs db db'"
    by (auto simp: save_provider_profile_def bind_res_Inr_iff Let_def same_runs_def)
  from assms obtain k x where db': "saved_profiles db' =
      (if row_of fst k (saved_profiles db) = None then saved_profiles db @ [(k, x)]
       else update_where (\<lambda>row. fst row = k) (\<lambda>_. (k, x)) (saved_profiles db))"
    by (auto simp: save_provider_profile_def bind_res_Inr_iff Let_def)
  have "map fst (update_where (\<lambda>row. fst row = k) (\<lambda>_. (k, x)) rows) = map fst rows"
    for rows :: "(string \<times> SavedProviderProfile) list"
    by (induction rows) (auto simp: update_where_def)
  then have "distinct (map fst (saved_profiles db'))" if "runtime_wf db"
    using that by (auto simp: db' runtime_wf_def row_of_None_iff)
  with same show ?thesis using same_runs_wf by blast
qed

lemma mark_reconnect_Inr:
  assumes "mark_provider_reconnect_required now pid db = Inr db'"
  shows "same_runs db db' \<and> map fst (saved_profiles db') = map fst (saved_profiles db) \<and>
    (runtime_wf db \<longrightarrow> runtime_wf db')"
proof -
  have "map fst (saved_profiles db') = map fst (saved_profiles db)"
    using assms by (auto simp: mark_provider_reconnect_required_def case_prod_unfold
        intro!: keys_update_where split: if_splits)
  moreover have "same_runs db db'"
    using assms by (auto simp: mark_provider_reconnect_required_def same_runs_def split: if_splits)
  ultimately show ?thesis using same_runs_wf by (auto simp: runtime_wf_def)
qed

lemma mark_reconnect_succeeds:
  assumes "runtime_wf db" and "pid \<in> fst ` set (saved_profiles db)"
  shows "\<exists>db'. mark_provider_reconnect_required now pid db = Inr db'"
  using assms key_rowcount [of fst "saved_profiles db" pid]
  by (simp add: mark_provider_reconnect_required_def runtime_wf_def)

section \<open>Recovery\<close>

definition recovered :: "RunStatus \<Rightarrow> RunStatus" where
  "recovered st =
     (if st \<in> {RunStatus.RUNNING, RunStatus.STOPPING} then RunStatus.PAUSED else st)"

lemma events_in_order:
  assumes "runtime_wf db"
  shows "order_by ev_sequence (filter p (agent_events db)) = filter p (agent_events db)"
proof -
  have "sorted_wrt (\<lambda>x y. ev_sequence x < ev_sequence y) (agent_events db)"
    using assms by (simp add: runtime_wf_def events_wf_def sorted_wrt_map)
  then have "sorted_wrt (\<lambda>x y. ev_sequence x < ev_sequence y) (filter p (agent_events db))"
    by (rule sorted_wrt_filter)
  then have "sorted_wrt (\<lambda>x y. ev_sequence x \<le> ev_sequence y) (filter p (agent_events db))"
    by (rule sorted_wrt_mono_rel [rotated]) simp
  then show ?thesis
    by (simp add: order_by_def sort_key_id_if_sorted sorted_wrt_map)
qed

lemma list_events_wf:
  assumes "runtime_wf db"
  shows "list_events rid n db = filter (\<lambda>e. ev_run_id e = rid \<and> ev_sequence e > n) (agent_events db)"
  by (simp add: list_events_def events_in_order [OF assms])

lemma list_events_sorted:
  assumes "runtime_wf db"
  shows "sorted_wrt (<) (map ev_sequence (list_events rid n db))"
  using assms by (simp add: list_events_wf sorted_wrt_map sorted_wrt_filter runtime_wf_def events_wf_def)

lemma list_events_known:
  "runtime_wf db \<Longrightarrow> \<forall>e \<in> set (list_events rid n db). ev_run_id e \<in> run_id ` set (agent_runs db)"
  by (auto simp: list_events_def runtime_wf_def)

lemma filter_split_sorted:
  fixes f :: "'a \<Rightarrow> nat"
  assumes "sorted_wrt (<) (map f xs)"
  shows "xs = filter (\<lambda>x. f x \<le> m) xs @ filter (\<lambda>x. m < f x) xs"
  using assms
proof (induction xs)
  case (Cons x xs)
  show ?case
  proof (cases "f x \<le> m")
    case True
    with Cons show ?thesis by simp
  next
    case False
    with Cons.prems have "\<forall>y \<in> set xs. m < f y" by auto
    then have "filter (\<lambda>x. f x \<le> m) xs = []" "filter (\<lambda>x. m < f x) xs = xs"
      by (auto simp: filter_empty_conv not_le)
    with False show ?thesis by simp
  qed
qed simp

lemma list_events_split:
  assumes "runtime_wf db" and "n \<le> m"
  shows "list_events rid n db =
    filter (\<lambda>ev. ev_sequence ev \<le> m) (list_events rid n db) @ list_events rid m db"
proof -
  have "filter (\<lambda>ev. m < ev_sequence ev) (list_events rid n db) = list_events rid m db"
    using assms by (auto simp: list_events_wf intro!: filter_cong)
  then show ?thesis using filter_split_sorted [OF list_events_sorted [OF assms(1)]] by metis
qed

lemma last_lifecycle_event_wf:
  assumes "runtime_wf db"
  shows "last_lifecycle_event db rid = map_option ev_event_type (first_row (rev
    (filter (\<lambda>e. ev_run_id e = rid \<and> is_lifecycle_event (ev_event_type e)) (agent_events db))))"
  by (simp add: last_lifecycle_event_def events_in_order [OF assms])

lemma last_lifecycle_insert:
  assumes ins: "insert_event now rid et stage msg pl db = Inr (db', ev)" and wf: "runtime_wf db"
  shows "last_lifecycle_event db' k =
    (if k = rid \<and> is_lifecycle_event et then Some et else last_lifecycle_event db k)"
proof -
  have wf': "runtime_wf db'" using ins wf by (rule insert_event_wf)
  have "agent_events db' = agent_events db @ [ev] \<and> ev_run_id ev = rid \<and> ev_event_type ev = et"
    using ins by (auto simp: insert_event_Inr_iff)
  then show ?thesis
    by (auto simp: last_lifecycle_event_wf [OF wf] last_lifecycle_event_wf [OF wf'] first_row_def)
qed

lemma last_lifecycle_write_status [simp]:
  "last_lifecycle_event (write_status now rid st err db) k = last_lifecycle_event db k"
  by (simp add: last_lifecycle_event_def)

lemma recover_row_step:
  assumes "runtime_wf db" and "row_of run_id rid (agent_runs db) \<noteq> None"
    and "le = last_lifecycle_event db rid"
  shows "\<exists>db'. recover_row now (rid, le) (Inr db) = Inr db' \<and> runtime_wf db' \<and>
    run_view db' = view_set rid RunStatus.PAUSED (run_view db) \<and>
    (\<forall>k. last_lifecycle_event db' k =
       (if k = rid then Some EventType.PAUSED else last_lifecycle_event db k))"
proof (cases "le = Some EventType.PAUSED")
  case True
  then show ?thesis using assms
    by (auto simp: recover_row_def Let_def run_view_write_status intro!: write_status_wf)
next
  case False
  let ?db1 = "write_status now rid RunStatus.PAUSED None db"
  have "row_of run_id rid (agent_runs ?db1) \<noteq> None"
    using assms(2) by (simp add: row_of_write_status)
  then obtain db' ev where
    ins: "insert_event now rid EventType.PAUSED ''paused'' interrupted_message [] ?db1 = Inr (db', ev)"
    by (auto simp: insert_event_def Let_def)
  have wf1: "runtime_wf ?db1" using assms(1) by (rule write_status_wf)
  show ?thesis
    using False ins insert_event_wf [OF ins wf1] insert_event_view [OF ins]
      last_lifecycle_insert [OF ins wf1]
    by (auto simp: recover_row_def run_view_write_status is_lifecycle_event_def)
qed

lemma row_of_view: "row_of run_id k (agent_runs db) \<noteq> None \<longleftrightarrow> k \<in> fst ` set (run_view db)"
  by (auto simp: row_of_None_iff run_view_def image_image)

lemma fst_view_set [simp]: "fst ` set (view_set i st v) = fst ` set v"
  by (force simp: view_set_def)

lemma recover_fold:
  assumes "runtime_wf db" and "set ids \<subseteq> fst ` set (run_view db)" and "distinct ids"
    and "rows = map (\<lambda>i. (i, last_lifecycle_event db i)) ids"
  shows "\<exists>db'. fold (recover_row now) rows (Inr db) = Inr db' \<and> runtime_wf db' \<and>
    run_view db' = fold (\<lambda>i. view_set i RunStatus.PAUSED) ids (run_view db) \<and>
    (\<forall>k. last_lifecycle_event db' k =
       (if k \<in> set ids then Some EventType.PAUSED else last_lifecycle_event db k))"
  using assms
proof (induction ids arbitrary: db rows)
  case Nil
  then show ?case by simp
next
  case (Cons i ids)
  from Cons.prems(2) have "row_of run_id i (agent_runs db) \<noteq> None"
    using row_of_view [of i db] by auto
  from recover_row_step [OF Cons.prems(1) this refl, of now] obtain db1 where
    db1: "recover_row now (i, last_lifecycle_event db i) (Inr db) = Inr db1" "runtime_wf db1"
      "run_view db1 = view_set i RunStatus.PAUSED (run_view db)"
    and last1: "\<And>k. last_lifecycle_event db1 k =
       (if k = i then Some EventType.PAUSED else last_lifecycle_event db k)" by blast
  have sub: "set ids \<subseteq> fst ` set (run_view db1)" using Cons.prems(2) db1(3) by simp
  have rest: "map (\<lambda>i. (i, last_lifecycle_event db i)) ids =
      map (\<lambda>i. (i, last_lifecycle_event db1 i)) ids"
    using Cons.prems(3) by (auto simp: last1)
  from Cons.IH [OF db1(2) sub _ rest] Cons.prems(3) show ?case
    by (auto simp: Cons.prems(4) db1 last1)
qed

lemma fold_view_set:
  "fold (\<lambda>i. view_set i st) ids v = map (\<lambda>(j, s). (j, if j \<in> set ids then st else s)) v"
  by (induction ids arbitrary: v) (auto simp: view_set_def)

lemma recovered_ids:
  "set (map run_id (list_by_status sts db)) = {i. \<exists>st. (i, st) \<in> set (run_view db) \<and> st \<in> sts}"
  by (auto simp: list_by_status_def run_view_def image_iff)

lemma recover_unfinished_spec:
  assumes "runtime_wf db"
  shows "\<exists>db' ids. recover_unfinished now db = Inr (db', ids) \<and> runtime_wf db' \<and>
    run_view db' = map (\<lambda>(i, st). (i, recovered st)) (run_view db) \<and>
    set ids = {i. \<exists>st. (i, st) \<in> set (run_view db) \<and> recovered st \<noteq> st} \<and>
    (\<forall>i \<in> set ids. last_lifecycle_event db' i = Some EventType.PAUSED)"
proof -
  let ?sts = "{RunStatus.RUNNING, RunStatus.STOPPING}"
  define ids where "ids = map run_id (list_by_status ?sts db)"
  have dist: "distinct (map fst (run_view db))" using assms by (rule runtime_wf_distinct)
  have set_ids: "set ids = {i. \<exists>st. (i, st) \<in> set (run_view db) \<and> st \<in> ?sts}"
    unfolding ids_def by (rule recovered_ids)
  have "distinct (map run_id (filter (\<lambda>r. run_status r \<in> ?sts) (agent_runs db)))"
    using assms by (auto simp: runtime_wf_def runs_wf_def distinct_map_filter)
  then have "distinct ids"
    unfolding ids_def list_by_status_def order_by_def by (simp add: distinct_map)
  moreover have "set ids \<subseteq> fst ` set (run_view db)" by (force simp: set_ids)
  ultimately obtain db' where
    db': "fold (recover_row now) (map (\<lambda>i. (i, last_lifecycle_event db i)) ids) (Inr db) = Inr db'"
      "runtime_wf db'" "run_view db' = fold (\<lambda>i. view_set i RunStatus.PAUSED) ids (run_view db)"
    and last: "\<And>k. last_lifecycle_event db' k =
       (if k \<in> set ids then Some EventType.PAUSED else last_lifecycle_event db k)"
    using recover_fold [OF assms _ _ refl, of ids now] by blast
  have in_ids: "j \<in> set ids \<longleftrightarrow> s \<in> ?sts" if "(j, s) \<in> set (run_view db)" for j s
    using that dist by (auto simp: set_ids dest: eq_key_imp_eq_value)
  have view: "run_view db' = map (\<lambda>(i, st). (i, recovered st)) (run_view db)"
    unfolding db'(3) fold_view_set by (auto simp: in_ids recovered_def)
  have "recover_unfinished now db = Inr (db', ids)"
    using db'(1) by (simp add: recover_unfinished_def ids_def comp_def Let_def)
  moreover have "set ids = {i. \<exists>st. (i, st) \<in> set (run_view db) \<and> recovered st \<noteq> st}"
    by (auto simp: set_ids recovered_def)
  ultimately show ?thesis using db'(2) view last by auto
qed

section \<open>Methods that succeed\<close>

text \<open>On a well-formed store the writes to an existing run succeed.\<close>

lemma set_status_succeeds:
  assumes "runtime_wf db" and "rid \<in> fst ` set (run_view db)"
  shows "\<exists>db' run. set_status now rid st err db = Inr (db', run) \<and> runtime_wf db' \<and>
    run_view db' = view_set rid st (run_view db) \<and> run_id run = rid"
proof -
  have ex: "row_of run_id rid (agent_runs db) \<noteq> None" using assms(2) row_of_view by auto
  have "distinct (map run_id (agent_runs db))"
    using assms(1) by (simp add: runtime_wf_def runs_wf_def)
  from rowcount_one [OF this, of rid] ex
  have n: "length (filter (\<lambda>r. run_id r = rid) (agent_runs db)) = 1" by blast
  from ex obtain r where "row_of run_id rid (agent_runs db) = Some r" by blast
  then have "\<exists>run. set_status now rid st err db = Inr (write_status now rid st err db, run)"
    using n by (auto simp: set_status_def Let_def bind_res_Inr_iff get_run_def row_of_write_status)
  then obtain run where s: "set_status now rid st err db = Inr (write_status now rid st err db, run)"
    by blast
  then show ?thesis
    using set_status_wf [OF s assms(1)] set_status_view [OF s] set_status_Inr [OF s]
    by (blast dest: row_of_Some)
qed

lemma append_event_succeeds:
  assumes "runtime_wf db" and "rid \<in> fst ` set (run_view db)" and "json_finite (VDict pl)"
  shows "\<exists>db' ev. append_event now rid et stage msg pl db = Inr (db', ev) \<and> runtime_wf db' \<and>
    run_view db' = run_view db"
proof -
  have "row_of run_id rid (agent_runs db) \<noteq> None" using assms(2) row_of_view by auto
  then have "\<exists>db' ev. append_event now rid et stage msg pl db = Inr (db', ev)"
    using assms(3) by (auto simp: append_event_def insert_event_def Let_def)
  then obtain db' ev where a: "append_event now rid et stage msg pl db = Inr (db', ev)" by blast
  then show ?thesis using append_event_wf [OF a assms(1)] append_event_view [OF a] by blast
qed

lemma set_status_and_append_event_succeeds:
  assumes "runtime_wf db" and "rid \<in> fst ` set (run_view db)" and "json_finite (VDict pl)"
  shows "\<exists>db' x. set_status_and_append_event now rid st et stage msg pl err db = Inr (db', x) \<and>
    runtime_wf db' \<and> run_view db' = view_set rid st (run_view db)"
proof -
  have ex: "row_of run_id rid (agent_runs db) \<noteq> None" using assms(2) row_of_view by auto
  have "distinct (map run_id (agent_runs db))"
    using assms(1) by (simp add: runtime_wf_def runs_wf_def)
  from rowcount_one [OF this, of rid] ex
  have n: "length (filter (\<lambda>r. run_id r = rid) (agent_runs db)) = 1" by blast
  let ?w = "write_status now rid st err db"
  from ex have ex': "row_of run_id rid (agent_runs ?w) \<noteq> None" by (simp add: row_of_write_status)
  then obtain db' ev where i: "insert_event now rid et stage msg pl ?w = Inr (db', ev)"
    by (auto simp: insert_event_def Let_def)
  then have "agent_runs db' = agent_runs ?w" by (auto simp: insert_event_Inr_iff)
  then obtain run where g: "get_run rid db' = Inr run" using ex' by (auto simp: get_run_def)
  have s: "set_status_and_append_event now rid st et stage msg pl err db = Inr (db', run, ev)"
    using n assms(3) i g by (simp add: set_status_and_append_event_def)
  then show ?thesis
    using set_status_and_append_event_wf [OF s assms(1)] set_status_and_append_event_view [OF s]
    by blast
qed

end
