(* ===== verification/Run_Queue_Spec.thy ===== *)
theory Run_Queue_Spec
  imports Runtime_Store
begin

text \<open>
  What the runtime promises about runs, without the store, the threads and the events: one slot
  for an active run, a queue behind it, and a life cycle with terminal statuses. The coordinator
  refines this machine. The state is the view of the runs (identifier and status).
\<close>

definition is_active :: "RunStatus \<Rightarrow> bool" where
  "is_active s \<longleftrightarrow> s \<in> {RunStatus.RUNNING, RunStatus.STOPPING, RunStatus.PAUSED}"

definition actives :: "(string \<times> RunStatus) list \<Rightarrow> (string \<times> RunStatus) list" where
  "actives v = filter (\<lambda>x. is_active (snd x)) v"

definition queueds :: "(string \<times> RunStatus) list \<Rightarrow> (string \<times> RunStatus) list" where
  "queueds v = filter (\<lambda>x. snd x = RunStatus.QUEUED) v"

inductive queue_step ::
  "(string \<times> RunStatus) list \<Rightarrow> (string \<times> RunStatus) list \<Rightarrow> bool" where
  enqueue: "i \<notin> fst ` set v \<Longrightarrow> queue_step v (v @ [(i, RunStatus.QUEUED)])"
| admit: "i \<notin> fst ` set v \<Longrightarrow> actives v = [] \<Longrightarrow> queueds v = [] \<Longrightarrow>
    queue_step v (v @ [(i, RunStatus.RUNNING)])"
| promote: "(i, RunStatus.QUEUED) \<in> set v \<Longrightarrow> actives v = [] \<Longrightarrow>
    queue_step v (view_set i RunStatus.RUNNING v)"
| stop: "(i, RunStatus.RUNNING) \<in> set v \<Longrightarrow> queue_step v (view_set i RunStatus.STOPPING v)"
| resume: "(i, RunStatus.PAUSED) \<in> set v \<Longrightarrow> queue_step v (view_set i RunStatus.RUNNING v)"
| settle: "(i, s) \<in> set v \<Longrightarrow> s \<in> {RunStatus.RUNNING, RunStatus.STOPPING} \<Longrightarrow> is_settled t \<Longrightarrow>
    queue_step v (view_set i t v)"
| purge: "\<forall>x \<in> set v. \<not> P x \<longrightarrow> is_terminal (snd x) \<Longrightarrow> queue_step v (filter P v)"
| recover: "queue_step v (map (\<lambda>(i, s). (i, recovered s)) v)"

inductive_cases queue_stepE: "queue_step v w"

text \<open>The moves a single run can make.\<close>

fun run_move :: "RunStatus \<Rightarrow> RunStatus \<Rightarrow> bool" where
  "run_move RunStatus.QUEUED t = (t = RunStatus.RUNNING)"
| "run_move RunStatus.RUNNING t = (t = RunStatus.STOPPING \<or> is_settled t)"
| "run_move RunStatus.STOPPING t = is_settled t"
| "run_move RunStatus.PAUSED t = (t = RunStatus.RUNNING)"
| "run_move _ t = False"

interpretation run_cycle: life_cycle run_move is_terminal
  by unfold_locales (auto simp: is_terminal_def)

section \<open>One active run at a time\<close>

definition single_slot :: "(string \<times> RunStatus) list \<Rightarrow> bool" where
  "single_slot v \<longleftrightarrow> distinct (map fst v) \<and> length (actives v) \<le> 1"

lemma map_fst_view_set [simp]: "map fst (view_set i st v) = map fst v"
  by (simp add: view_set_def comp_def case_prod_unfold)

lemma view_set_absent: "i \<notin> fst ` set v \<Longrightarrow> view_set i st v = v"
  by (induction v) (auto simp: view_set_def)

lemma view_set_Cons:
  "view_set i st ((j, s) # v) = (j, if j = i then st else s) # view_set i st v"
  by (simp add: view_set_def)

text \<open>Updating the status of one run changes the number of active runs by that run alone.\<close>

lemma length_actives_view_set:
  assumes "distinct (map fst v)" and "(i, s) \<in> set v"
  shows "length (actives (view_set i t v)) + (if is_active s then 1 else 0) =
    length (actives v) + (if is_active t then 1 else 0)"
  using assms
proof (induction v)
  case (Cons x v)
  obtain j u where x: "x = (j, u)" by (cases x)
  show ?case
  proof (cases "j = i")
    case True
    with Cons.prems x have "u = s" and "i \<notin> fst ` set v" by (auto simp: image_iff)
    with True x show ?thesis by (simp add: view_set_Cons view_set_absent actives_def)
  next
    case False
    with Cons x show ?thesis by (auto simp: view_set_Cons actives_def)
  qed
qed simp

lemma single_slot_view_set:
  assumes "single_slot v" and "(i, s) \<in> set v" and "is_active s"
  shows "single_slot (view_set i t v)"
  using length_actives_view_set [of v i s t] assms
  by (auto simp: single_slot_def split: if_splits)

lemma is_active_recovered [simp]: "is_active (recovered s) = is_active s"
  by (cases s) (auto simp: is_active_def recovered_def)

lemma actives_recovered: "length (actives (map (\<lambda>(i, s). (i, recovered s)) v)) = length (actives v)"
  by (induction v) (auto simp: actives_def)

lemma queue_step_single_slot:
  assumes "single_slot v" and "queue_step v w"
  shows "single_slot w"
  using assms(2)
proof cases
  case (promote i)
  with length_actives_view_set [of v i RunStatus.QUEUED RunStatus.RUNNING] assms(1)
  show ?thesis by (simp add: single_slot_def is_active_def)
next
  case (purge P)
  have "length (actives (filter P v)) \<le> length (actives v)"
    by (induction v) (auto simp: actives_def)
  with purge assms(1) show ?thesis by (auto simp: single_slot_def distinct_map_filter)
next
  case recover
  then show ?thesis using assms(1) actives_recovered [of v]
    by (simp add: single_slot_def comp_def case_prod_unfold)
qed (use assms(1) single_slot_view_set [OF assms(1)]
      in \<open>auto simp: single_slot_def actives_def is_active_def\<close>)

interpretation queue_machine: transition_system "\<lambda>v. v = []" queue_step single_slot
proof unfold_locales
  show "single_slot v" if "v = []" for v
    using that by (simp add: single_slot_def actives_def)
qed (rule queue_step_single_slot)

section \<open>Life cycle of one run\<close>

lemma view_set_status:
  "distinct (map fst v) \<Longrightarrow> (i, s) \<in> set v \<Longrightarrow> (j, t) \<in> set (view_set i u v) \<Longrightarrow> (j, s') \<in> set v \<Longrightarrow>
     (j = i \<and> s' = s \<and> t = u) \<or> (j \<noteq> i \<and> t = s')"
proof -
  assume d: "distinct (map fst v)" and i: "(i, s) \<in> set v" and j: "(j, s') \<in> set v"
    and "(j, t) \<in> set (view_set i u v)"
  then obtain r where r: "(j, r) \<in> set v" "t = (if j = i then u else r)"
    by (auto simp: view_set_def)
  have "r = s'" using d r(1) j by (rule eq_key_imp_eq_value)
  moreover have "j = i \<Longrightarrow> s' = s" using d j i by (auto intro: eq_key_imp_eq_value)
  ultimately show ?thesis using r(2) by auto
qed

text \<open>A step keeps the status of a run or makes one of its moves.\<close>

lemma queue_step_moves:
  assumes "queue_step v w" and "distinct (map fst v)" and "(j, s) \<in> set v" and "(j, t) \<in> set w"
  shows "run_move s t \<or> s = t"
  using assms(1)
proof cases
  case (promote i)
  from view_set_status [OF assms(2) promote(2) _ assms(3), of t RunStatus.RUNNING] promote assms(4)
  show ?thesis by auto
next
  case (stop i)
  from view_set_status [OF assms(2) stop(2) _ assms(3), of t RunStatus.STOPPING] stop assms(4)
  show ?thesis by auto
next
  case (resume i)
  from view_set_status [OF assms(2) resume(2) _ assms(3), of t RunStatus.RUNNING] resume assms(4)
  show ?thesis by auto
next
  case (settle i u t')
  from view_set_status [OF assms(2) settle(2) _ assms(3), of t t'] settle assms(4)
  show ?thesis by auto
next
  case recover
  with assms(2-4) have "t = recovered s" by (auto dest: eq_key_imp_eq_value)
  then show ?thesis by (cases s) (auto simp: recovered_def is_settled_def)
qed (use assms(2-4) in \<open>auto dest: eq_key_imp_eq_value simp: image_iff\<close>)

end
