(* ===== verification/Provider_Sessions.thy ===== *)
theory Provider_Sessions
  imports Runtime_Models
begin

text \<open>
  \<open>ProviderSessionRegistry\<close> of \<^verbatim>\<open>exam_predictor/runtime/provider_sessions.py\<close> and
  \<open>KeyringCredentialVault\<close> of \<^verbatim>\<open>exam_predictor/runtime/credential_vault.py\<close>. The provider factory
  and the operating-system keyring are third-party code: they are arguments of the definitions.
\<close>

section \<open>Provider sessions\<close>

record 'p sessions =
  providers :: "string \<Rightarrow> 'p option"
  descriptors :: "(string \<times> ProviderDescriptor) list"

definition empty_sessions :: "'p sessions" where
  "empty_sessions = \<lparr>providers = Map.empty, descriptors = []\<rparr>"

text \<open>
  The factory gets the configuration with the secret and returns the provider with its
  capabilities, or raises (\<open>None\<close>).
\<close>

type_synonym 'p provider_factory =
  "(string \<times> string) list \<Rightarrow> ('p \<times> (string \<times> bool) list) option"

definition put_descriptor :: "string \<Rightarrow> ProviderDescriptor \<Rightarrow> 'p sessions \<Rightarrow> 'p sessions" where
  "put_descriptor pid d s =
     s\<lparr>descriptors := (if row_of fst pid (descriptors s) = None then descriptors s @ [(pid, d)]
        else update_where (\<lambda>row. fst row = pid) (\<lambda>_. (pid, d)) (descriptors s))\<rparr>"

definition install_provider ::
  "(string \<Rightarrow> url_parts) \<Rightarrow> (string \<Rightarrow> ip_class option) \<Rightarrow> 'p provider_factory
    \<Rightarrow> ProviderProfile \<Rightarrow> string \<Rightarrow> 'p sessions \<Rightarrow> py_error + 'p sessions \<times> ProviderDescriptor" where
  "install_provider up ia factory profile secret s =
     bind_res (validate_provider_profile up ia profile)
       (\<lambda>p. if py_strip secret = [] then Inl ValueError
             else let config = provider_config p @ [(''api_key'', secret)] in
             case factory config of
               None \<Rightarrow> Inl RuntimeError
             | Some (prov, caps) \<Rightarrow>
                 let d = \<lparr>pd_profile = p, pd_capabilities = caps, pd_credential_saved = False,
                          pd_credential_warning = None\<rparr>;
                     pid = profile_id p
                 in Inr (put_descriptor pid d (s\<lparr>providers := (providers s)(pid \<mapsto> prov)\<rparr>), d))"

definition get_provider :: "string \<Rightarrow> 'p sessions \<Rightarrow> py_error + 'p" where
  "get_provider pid s = (case providers s pid of None \<Rightarrow> Inl KeyError | Some p \<Rightarrow> Inr p)"

definition has_provider :: "string \<Rightarrow> 'p sessions \<Rightarrow> bool" where
  "has_provider pid s \<longleftrightarrow> providers s pid \<noteq> None"

definition disconnect_provider :: "string \<Rightarrow> 'p sessions \<Rightarrow> 'p sessions" where
  "disconnect_provider pid s =
     s\<lparr>providers := (providers s)(pid := None),
       descriptors := delete_where (\<lambda>row. fst row = pid) (descriptors s)\<rparr>"

definition list_profiles :: "'p sessions \<Rightarrow> ProviderDescriptor list" where
  "list_profiles s = map snd (order_by fst (descriptors s))"

definition update_descriptor :: "ProviderDescriptor \<Rightarrow> 'p sessions \<Rightarrow> py_error + 'p sessions" where
  "update_descriptor d s =
     (let pid = profile_id (pd_profile d) in
      if \<not> has_provider pid s then Inl KeyError else Inr (put_descriptor pid d s))"

section \<open>The credential vault\<close>

text \<open>
  The keyring backend: setting and reading may raise (\<open>None\<close>); deleting an absent password raises
  \<open>keyring.errors.PasswordDeleteError\<close>, which the vault takes for success.
\<close>

datatype 'b delete_result = Deleted 'b | PasswordDeleteError | DeleteFailed

record 'b keyring =
  set_password :: "string \<Rightarrow> string \<Rightarrow> string \<Rightarrow> 'b \<Rightarrow> 'b option"
  get_password :: "string \<Rightarrow> string \<Rightarrow> 'b \<Rightarrow> string option option"
  delete_password :: "string \<Rightarrow> string \<Rightarrow> 'b \<Rightarrow> 'b delete_result"

definition SERVICE_NAME :: string where
  "SERVICE_NAME = ''ExamSage''"

definition vault_account :: "string \<Rightarrow> py_error + string" where
  "vault_account pid =
     (if \<not> provider_profile_id_ok pid then Inl ValueError else Inr (''provider:'' @ pid))"

definition vault_save :: "'b keyring \<Rightarrow> string \<Rightarrow> string \<Rightarrow> 'b \<Rightarrow> py_error + 'b" where
  "vault_save kr pid key b =
     bind_res (vault_account pid)
       (\<lambda>account. case set_password kr SERVICE_NAME account key b of
                     None \<Rightarrow> Inl VaultUnavailableError | Some b' \<Rightarrow> Inr b')"

definition vault_load :: "'b keyring \<Rightarrow> string \<Rightarrow> 'b \<Rightarrow> py_error + string option" where
  "vault_load kr pid b =
     bind_res (vault_account pid)
       (\<lambda>account. case get_password kr SERVICE_NAME account b of
                     None \<Rightarrow> Inl VaultUnavailableError | Some v \<Rightarrow> Inr v)"

definition vault_exists :: "'b keyring \<Rightarrow> string \<Rightarrow> 'b \<Rightarrow> py_error + bool" where
  "vault_exists kr pid b = bind_res (vault_load kr pid b) (\<lambda>v. Inr (v \<noteq> None))"

definition vault_delete :: "'b keyring \<Rightarrow> string \<Rightarrow> 'b \<Rightarrow> py_error + 'b" where
  "vault_delete kr pid b =
     bind_res (vault_account pid)
       (\<lambda>account. case delete_password kr SERVICE_NAME account b of
                     Deleted b' \<Rightarrow> Inr b'
                   | PasswordDeleteError \<Rightarrow> Inr b
                   | DeleteFailed \<Rightarrow> Inl VaultUnavailableError)"

section \<open>Interface: a key-value vault of secrets\<close>

text \<open>
  What the coordinator relies on: a successful save is read back, a successful delete leaves
  nothing, and other profiles are untouched. \<open>holds\<close> is the secret a vault state has for a profile.
\<close>

locale secret_vault =
  fixes holds :: "'b \<Rightarrow> string \<Rightarrow> string option"
    and save :: "string \<Rightarrow> string \<Rightarrow> 'b \<Rightarrow> py_error + 'b"
    and load :: "string \<Rightarrow> 'b \<Rightarrow> py_error + string option"
    and delete :: "string \<Rightarrow> 'b \<Rightarrow> py_error + 'b"
  assumes holds_save: "save p k b = Inr b' \<Longrightarrow> holds b' = (holds b)(p \<mapsto> k)"
    and load_holds: "load p b = Inr v \<Longrightarrow> v = holds b p"
    and holds_delete: "delete p b = Inr b' \<Longrightarrow> holds b' = (holds b)(p := None)"
begin

lemma load_after_save: "save p k b = Inr b' \<Longrightarrow> load p b' = Inr v \<Longrightarrow> v = Some k"
  by (auto dest!: holds_save load_holds)

lemma load_after_delete: "delete p b = Inr b' \<Longrightarrow> load p b' = Inr v \<Longrightarrow> v = None"
  by (auto dest!: holds_delete load_holds)

lemma save_other: "save p k b = Inr b' \<Longrightarrow> q \<noteq> p \<Longrightarrow> holds b' q = holds b q"
  by (auto dest!: holds_save)

lemma delete_other: "delete p b = Inr b' \<Longrightarrow> q \<noteq> p \<Longrightarrow> holds b' q = holds b q"
  by (auto dest!: holds_delete)

end

text \<open>
  The documented behaviour of the keyring, per service and account; any call may also raise.
\<close>

locale keyring_backend =
  fixes kr :: "'b keyring" and stored :: "'b \<Rightarrow> string \<Rightarrow> string \<Rightarrow> string option"
  assumes stored_set: "set_password kr s a k b = Some b' \<Longrightarrow>
      stored b' = (stored b)(s := (stored b s)(a \<mapsto> k))"
    and get_stored: "get_password kr s a b = Some v \<Longrightarrow> v = stored b s a"
    and stored_deleted: "delete_password kr s a b = Deleted b' \<Longrightarrow>
      stored b' = (stored b)(s := (stored b s)(a := None))"
    and delete_missing: "delete_password kr s a b = PasswordDeleteError \<Longrightarrow> stored b s a = None"

definition vault_holds :: "('b \<Rightarrow> string \<Rightarrow> string \<Rightarrow> string option) \<Rightarrow> 'b \<Rightarrow> string \<Rightarrow> string option" where
  "vault_holds st b p = st b SERVICE_NAME (''provider:'' @ p)"

sublocale keyring_backend \<subseteq> vault: secret_vault "vault_holds stored" "vault_save kr" "vault_load kr"
  "vault_delete kr"
proof unfold_locales
  show "vault_holds stored b' = (vault_holds stored b)(p \<mapsto> k)"
    if "vault_save kr p k b = Inr b'" for p k b b'
    using that by (auto simp: vault_save_def vault_account_def bind_res_Inr_iff vault_holds_def
        fun_eq_iff split: if_splits option.splits dest!: stored_set)
  show "v = vault_holds stored b p" if "vault_load kr p b = Inr v" for p b v
    using that by (auto simp: vault_load_def vault_account_def bind_res_Inr_iff vault_holds_def
        split: if_splits option.splits dest!: get_stored)
  show "vault_holds stored b' = (vault_holds stored b)(p := None)"
    if "vault_delete kr p b = Inr b'" for p b b'
    using that by (auto simp: vault_delete_def vault_account_def bind_res_Inr_iff vault_holds_def
        fun_eq_iff split: if_splits delete_result.splits dest!: stored_deleted delete_missing)
qed

context keyring_backend begin

lemma is_vault: "secret_vault (vault_holds stored) (vault_save kr) (vault_load kr) (vault_delete kr)"
  by (rule vault.secret_vault_axioms)

end

text \<open>A keyring kept in memory meets the documented behaviour.\<close>

definition memory_keyring :: "(string \<times> string \<Rightarrow> string option) keyring" where
  "memory_keyring =
     \<lparr>set_password = (\<lambda>s a k b. Some (b((s, a) \<mapsto> k))),
      get_password = (\<lambda>s a b. Some (b (s, a))),
      delete_password = (\<lambda>s a b.
        if b (s, a) = None then PasswordDeleteError else Deleted (b((s, a) := None)))\<rparr>"

interpretation mem: keyring_backend memory_keyring "\<lambda>b s a. b (s, a)"
  by unfold_locales (auto simp: memory_keyring_def split: if_splits intro!: ext)

section \<open>Lemmas on sessions\<close>

lemma providers_put_descriptor [simp]: "providers (put_descriptor pid d s) = providers s"
  by (simp add: put_descriptor_def)

lemma install_provider_Inr:
  "install_provider up ia f profile secret s = Inr (s', d) \<Longrightarrow>
     has_provider (profile_id profile) s' \<and> profile_id (pd_profile d) = profile_id profile \<and>
     validate_provider_profile up ia profile = Inr (pd_profile d) \<and>
     (\<forall>q. q \<noteq> profile_id profile \<longrightarrow> providers s' q = providers s q)"
  by (auto simp: install_provider_def bind_res_Inr_iff Let_def has_provider_def
      dest!: validate_provider_profile_id split: if_splits option.splits)

lemma has_provider_disconnect [simp]:
  "has_provider q (disconnect_provider p s) \<longleftrightarrow> q \<noteq> p \<and> has_provider q s"
  by (auto simp: has_provider_def disconnect_provider_def)

end
