(* ===== verification/Workspace_Models.thy ===== *)
theory Workspace_Models
  imports Prelude
begin

text \<open>
  The data of the course workspace, from \<^verbatim>\<open>exam_predictor/workspace/models.py\<close> and
  \<^verbatim>\<open>exam_predictor/workspace/policy.py\<close>: source modes and states, manifest entries and revisions,
  approvals, jobs and their events, and the validation of relative paths that confines every
  manifest path to the approved folder.
\<close>

section \<open>Enumerations\<close>

datatype SourceMode = NATIVE_FOLDER | BROWSER_SNAPSHOT

datatype WorkspaceState =
  READY | SCANNING | APPROVAL_REQUIRED | APPROVED | NEEDS_ATTENTION | DELETING | CLEANUP_PENDING

datatype SourceState = PENDING_APPROVAL | APPROVED | EXCLUDED | FAILED | CHANGED | REMOVED

datatype WorkspaceJobStatus = QUEUED | RUNNING | SUCCEEDED | FAILED | CANCELLED

section \<open>Relative paths\<close>

text \<open>
  \<open>PurePosixPath(value)\<close> drops empty and \<open>"."\<close> components; a leading slash makes the path
  absolute. \<open>path.parts[0]\<close> of a relative path without components raises \<open>IndexError\<close>.
\<close>

definition posix_parts :: "string \<Rightarrow> string list" where
  "posix_parts s = filter (\<lambda>p. p \<noteq> [] \<and> p \<noteq> ''.'') (split_on CHR ''/'' s)"

definition is_absolute :: "string \<Rightarrow> bool" where
  "is_absolute s = (case s of [] \<Rightarrow> False | c # _ \<Rightarrow> c = CHR ''/'')"

definition as_posix :: "string list \<Rightarrow> string" where
  "as_posix parts = (if parts = [] then ''.'' else join_with CHR ''/'' parts)"

definition NUL :: char where
  "NUL = CHR 0x00"

definition backslash :: char where
  "backslash = CHR 0x5C"

definition normalize_relative_path :: "string \<Rightarrow> py_error + string" where
  "normalize_relative_path value =
     (if value = [] \<or> NUL \<in> set value \<or> backslash \<in> set value then Inl ValueError
      else let parts = posix_parts value in
      if is_absolute value \<or> ''..'' \<in> set parts then Inl ValueError
      else case parts of
        [] \<Rightarrow> Inl IndexError
      | p # _ \<Rightarrow>
          if CHR '':'' \<in> set p then Inl ValueError
          else let normalized = as_posix parts in
          if normalized \<in> {''.'', []} then Inl ValueError else Inr normalized)"

section \<open>Manifests\<close>

record ScanPolicy =
  sp_policy_version :: string
  sp_max_workspace_bytes :: int
  sp_max_files :: int
  sp_max_depth :: int
  sp_max_path_chars :: int
  sp_max_archive_members :: int
  sp_max_archive_expanded_bytes :: int
  sp_max_archive_ratio :: int
  sp_hash_chunk_bytes :: int

definition DEFAULT_SCAN_POLICY :: ScanPolicy where
  "DEFAULT_SCAN_POLICY =
     \<lparr>sp_policy_version = ''workspace-v1'', sp_max_workspace_bytes = 1073741824,
      sp_max_files = 20000, sp_max_depth = 32, sp_max_path_chars = 1024,
      sp_max_archive_members = 10000, sp_max_archive_expanded_bytes = 2147483648,
      sp_max_archive_ratio = 200, sp_hash_chunk_bytes = 1048576\<rparr>"

record ManifestEntry =
  me_entry_id :: string
  me_workspace_id :: string
  me_relative_path :: string
  me_item_kind :: string
  me_format_category :: "string option"
  me_size_bytes :: nat
  me_modified_ns :: "int option"
  me_device_id :: "string option"
  me_file_id :: "string option"
  me_sha256 :: "string option"
  me_state :: SourceState
  me_included :: bool
  me_inclusion_reason :: "string option"
  me_proposed_course_group :: string
  me_failure_code :: "string option"
  me_safe_message :: "string option"
  me_archive_parent_entry_id :: "string option"
  me_archive_member_path :: "string option"
  me_archive_member_index :: "nat option"
  me_archive_member_crc32 :: "nat option"
  me_archive_member_compressed_bytes :: "nat option"

text \<open>\<open>^[0-9a-f]{64}$\<close> as pydantic matches it\<close>

definition is_hex :: "char \<Rightarrow> bool" where
  "is_hex c \<longleftrightarrow> c \<in> set ''0123456789abcdef''"

definition sha256_hex :: "string \<Rightarrow> bool" where
  "sha256_hex s \<longleftrightarrow> length s = 64 \<and> list_all is_hex s"

definition ManifestEntry_validate :: "ManifestEntry \<Rightarrow> py_error + ManifestEntry" where
  "ManifestEntry_validate e =
     (if (case me_sha256 e of None \<Rightarrow> False | Some h \<Rightarrow> \<not> sha256_hex h) then Inl ValueError
      else if (case me_archive_member_index e of None \<Rightarrow> False | Some n \<Rightarrow> n < 1) then Inl ValueError
      else if (case me_archive_member_crc32 e of None \<Rightarrow> False | Some n \<Rightarrow> n > 4294967295)
      then Inl ValueError
      else bind_res (normalize_relative_path (me_relative_path e))
             (\<lambda>p. Inr (e\<lparr>me_relative_path := p\<rparr>)))"

record ManifestRevision =
  rev_revision_id :: string
  rev_workspace_id :: string
  rev_parent_revision_id :: "string option"
  rev_scan_job_id :: "string option"
  rev_policy_version :: string
  rev_entries :: "ManifestEntry list"
  rev_created_at :: int

record ApprovedEntryHash =
  ae_entry_id :: string
  ae_sha256 :: string

record ApprovalRecord =
  ap_approval_id :: string
  ap_workspace_id :: string
  ap_revision_id :: string
  ap_entries :: "ApprovedEntryHash list"
  ap_policy_version :: string
  ap_approved_at :: int

record WorkspaceRecord =
  ws_workspace_id :: string
  ws_display_name :: string
  ws_source_mode :: SourceMode
  ws_canonical_root :: string
  ws_root_device :: "string option"
  ws_root_file_id :: "string option"
  ws_state :: WorkspaceState
  ws_current_draft_revision_id :: "string option"
  ws_current_approved_revision_id :: "string option"
  ws_created_at :: int
  ws_updated_at :: int
  ws_last_scanned_at :: "int option"
  ws_last_access_verified_at :: "int option"

record WorkspaceJob =
  job_id :: string
  job_workspace_id :: string
  job_kind :: string
  job_status :: WorkspaceJobStatus
  job_idempotency_key :: string
  job_safe_error_code :: "string option"
  job_created_at :: int
  job_started_at :: "int option"
  job_finished_at :: "int option"

record WorkspaceEvent =
  we_sequence :: nat
  we_job_id :: string
  we_event_type :: string
  we_message :: string
  we_payload :: payload
  we_created_at :: int

record ScanProgress =
  pr_discovered_count :: nat
  pr_bytes_hashed :: nat
  pr_failure_count :: nat
  pr_current_relative_path :: "string option"

record ScanResult =
  sr_workspace_id :: string
  sr_entries :: "ManifestEntry list"
  sr_discovered_count :: nat
  sr_bytes_hashed :: nat
  sr_failure_count :: nat
  sr_completed_at :: int

record CleanupRecord =
  cl_cleanup_id :: string
  cl_workspace_id :: string
  cl_owned_relative_path :: string
  cl_safe_error_code :: string
  cl_attempt_count :: nat
  cl_deletion_root_device :: "string option"
  cl_deletion_root_file_id :: "string option"
  cl_created_at :: int
  cl_updated_at :: int

definition validate_deletion_root_identity :: "CleanupRecord \<Rightarrow> py_error + CleanupRecord" where
  "validate_deletion_root_identity r =
     (if (cl_deletion_root_device r = None) \<noteq> (cl_deletion_root_file_id r = None)
      then Inl ValueError else Inr r)"

text \<open>
  \<open>ArchiveMember.normalize_display_path\<close>: the control characters (category \<open>Cc\<close>) are dropped and
  the rest is cut at 1024 code points.
\<close>

definition is_control :: "char \<Rightarrow> bool" where
  "is_control c = (let n = of_char c :: nat in n < 32 \<or> 127 \<le> n \<and> n \<le> 159)"

definition normalize_display_path :: "string \<Rightarrow> string" where
  "normalize_display_path value = take 1024 (filter (\<lambda>c. \<not> is_control c) value)"

section \<open>File formats\<close>

definition SUPPORTED_EXTENSIONS :: "(string \<times> string) list" where
  "SUPPORTED_EXTENSIONS =
     [(''.pdf'', ''pdf''), (''.doc'', ''document''), (''.docx'', ''document''),
      (''.ppt'', ''presentation''), (''.pptx'', ''presentation''), (''.xls'', ''spreadsheet''),
      (''.xlsx'', ''spreadsheet''), (''.csv'', ''tabular''), (''.tsv'', ''tabular''),
      (''.json'', ''structured_data''), (''.yaml'', ''structured_data''),
      (''.yml'', ''structured_data''), (''.md'', ''text''), (''.txt'', ''text''),
      (''.html'', ''text''), (''.htm'', ''text''), (''.png'', ''image''), (''.jpg'', ''image''),
      (''.jpeg'', ''image''), (''.webp'', ''image''), (''.gif'', ''image''), (''.bmp'', ''image''),
      (''.tif'', ''image''), (''.tiff'', ''image''), (''.zip'', ''archive'')]"

text \<open>
  \<open>Path(filename).suffix\<close>: from the last dot of the last component, unless the dot starts or ends
  the name. \<open>casefold\<close> on the code points below 256 that can occur in a listed suffix is ASCII
  lower-casing.
\<close>

definition path_name :: "string \<Rightarrow> string" where
  "path_name s = (case posix_parts s of [] \<Rightarrow> [] | ps \<Rightarrow> last ps)"

definition path_suffix :: "string \<Rightarrow> string" where
  "path_suffix s =
     (let name = path_name s;
          ext = takeWhile (\<lambda>c. c \<noteq> CHR ''.'') (rev name);
          stem_len = length name - length ext - 1
      in if CHR ''.'' \<in> set name \<and> ext \<noteq> [] \<and> stem_len > 0 then drop stem_len name else [])"

definition classify_format :: "string \<Rightarrow> string option" where
  "classify_format filename = map_of SUPPORTED_EXTENSIONS (map fold_char (path_suffix filename))"

section \<open>Lemmas: confinement of relative paths\<close>

definition confined_parts :: "string list \<Rightarrow> bool" where
  "confined_parts ps \<longleftrightarrow> ps \<noteq> [] \<and> (\<forall>p \<in> set ps. p \<noteq> [] \<and> p \<noteq> ''.'' \<and> p \<noteq> ''..'' \<and>
     CHR ''/'' \<notin> set p \<and> NUL \<notin> set p \<and> backslash \<notin> set p) \<and> CHR '':'' \<notin> set (hd ps)"

lemma posix_parts_props:
  "p \<in> set (posix_parts s) \<Longrightarrow> p \<noteq> [] \<and> p \<noteq> ''.'' \<and> CHR ''/'' \<notin> set p \<and> set p \<subseteq> set s"
  by (auto simp: posix_parts_def dest: split_on_avoids split_on_chars)

lemma posix_parts_shape: "p \<in> set (posix_parts s) \<Longrightarrow> p \<noteq> [] \<and> p \<noteq> ''.'' \<and> CHR ''/'' \<notin> set p"
  by (auto dest: posix_parts_props)

lemma posix_parts_joined:
  assumes "set ps \<subseteq> set (posix_parts s)" and "ps \<noteq> []"
  shows "posix_parts (join_with CHR ''/'' ps) = ps"
proof -
  have "\<forall>p \<in> set ps. p \<noteq> [] \<and> p \<noteq> ''.'' \<and> CHR ''/'' \<notin> set p" using assms(1) posix_parts_shape by blast
  moreover from this assms(2) have "split_on CHR ''/'' (join_with CHR ''/'' ps) = ps" by (intro split_join) auto
  ultimately show ?thesis by (auto simp: posix_parts_def filter_id_conv)
qed

lemma posix_parts_join:
  assumes "confined_parts ps"
  shows "posix_parts (join_with CHR ''/'' ps) = ps"
proof -
  have "split_on CHR ''/'' (join_with CHR ''/'' ps) = ps"
    using assms by (intro split_join) (auto simp: confined_parts_def)
  then show ?thesis
    using assms by (auto simp: posix_parts_def confined_parts_def filter_id_conv)
qed

lemma normalize_relative_path_Inr:
  assumes "normalize_relative_path v = Inr q"
  shows "confined_parts (posix_parts v) \<and> q = join_with CHR ''/'' (posix_parts v)"
proof -
  from assms have v: "NUL \<notin> set v" "backslash \<notin> set v" "''..'' \<notin> set (posix_parts v)"
    and ne: "posix_parts v \<noteq> []" "CHR '':'' \<notin> set (hd (posix_parts v))"
    and q: "q = as_posix (posix_parts v)"
    by (auto simp: normalize_relative_path_def Let_def split: if_splits list.splits)
  have "\<forall>p \<in> set (posix_parts v). p \<noteq> [] \<and> p \<noteq> ''.'' \<and> p \<noteq> ''..'' \<and>
     CHR ''/'' \<notin> set p \<and> NUL \<notin> set p \<and> backslash \<notin> set p"
    using v posix_parts_props by blast
  with ne q show ?thesis by (auto simp: confined_parts_def as_posix_def)
qed

lemma normalize_confined:
  assumes "confined_parts ps"
  shows "normalize_relative_path (join_with CHR ''/'' ps) = Inr (join_with CHR ''/'' ps)"
proof -
  let ?s = "join_with CHR ''/'' ps"
  note c = assms [unfolded confined_parts_def]
  have parts: "posix_parts ?s = ps" using assms by (rule posix_parts_join)
  obtain p rest where ps: "ps = p # rest" using c by (cases ps) auto
  have s: "?s = (if rest = [] then p else p @ CHR ''/'' # join_with CHR ''/'' rest)"
    using ps by (cases rest) auto
  obtain x xs where p: "p = x # xs" using c ps by (cases p) auto
  have "x \<noteq> CHR ''/''" using c ps p by auto
  then have rel: "\<not> is_absolute ?s" using s p by (auto simp: is_absolute_def)
  have ne: "?s \<noteq> []" using s p by auto
  have chars: "NUL \<notin> set ?s" "backslash \<notin> set ?s"
    using c set_join_with [of "CHR ''/''" ps] by (auto simp: NUL_def backslash_def)
  have dot: "?s \<noteq> ''.''"
  proof
    assume "?s = ''.''"
    then have "ps = []" using parts by (simp add: posix_parts_def)
    then show False using ps by simp
  qed
  have "''..'' \<notin> set ps" "CHR '':'' \<notin> set p" using c ps by auto
  with chars rel ne dot ps parts show ?thesis
    by (auto simp: normalize_relative_path_def as_posix_def Let_def)
qed

lemma normalize_idempotent:
  "normalize_relative_path v = Inr q \<Longrightarrow> normalize_relative_path q = Inr q"
  using normalize_relative_path_Inr normalize_confined by blast

end
