(* ===== verification/Coordinator.thy ===== *)
theory Coordinator
  imports Run_Queue_Spec Provider_Sessions Workspace_Models
begin

text \<open>
  \<open>RuntimeCoordinator\<close> of \<^verbatim>\<open>exam_predictor/runtime/coordinator.py\<close>: it admits messages, keeps one
  run active, hands runs to one worker thread through a command queue, and manages provider
  credentials. Every public method runs under one lock, so a method is one atomic step; the worker
  thread contributes the steps of taking a command, of what a graph run does while it executes,
  and of recording its outcome. The graph engine and the checkpoint saver are third-party code.
\<close>

section \<open>State and environment\<close>

datatype worker = NotStarted | Alive | Exited

record ('p, 'b, 'k) coord =
  co_db :: runtime_db
  co_sessions :: "'p sessions"
  co_vault :: "'b option"
  co_checkpoints :: 'k
  co_controls :: controls
  co_commands :: "(string \<times> string) option list"
  co_worker :: worker
  co_executing :: "(string \<times> string \<times> nat) option"
  co_shutdown :: bool

text \<open>
  The environment: URL parsing, the provider factory, the keyring, the checkpoint saver's
  \<open>delete_thread\<close> (\<open>None\<close> when it raises), and the workspace repository, which may be absent.
\<close>

record ('p, 'b, 'k) env =
  env_urlparse :: "string \<Rightarrow> url_parts"
  env_ip_address :: "string \<Rightarrow> ip_class option"
  env_factory :: "'p provider_factory"
  env_keyring :: "'b keyring"
  env_delete_thread :: "string \<Rightarrow> 'k \<Rightarrow> 'k option"
  env_workspace :: "(string \<Rightarrow> WorkspaceState option) option"

text \<open>A store call: its own transaction on the database.\<close>

definition db_call ::
  "(runtime_db \<Rightarrow> py_error + runtime_db \<times> 'a) \<Rightarrow> (('p, 'b, 'k) coord, 'a) action" where
  "db_call f c = (case f (co_db c) of Inl e \<Rightarrow> (c, Inl e) | Inr (db', a) \<Rightarrow> (c\<lparr>co_db := db'\<rparr>, Inr a))"

definition db_write ::
  "(runtime_db \<Rightarrow> py_error + runtime_db) \<Rightarrow> (('p, 'b, 'k) coord, unit) action" where
  "db_write f = db_call (\<lambda>db. bind_res (f db) (\<lambda>db'. Inr (db', ())))"

definition put_command :: "string \<Rightarrow> string \<Rightarrow> (('p, 'b, 'k) coord, unit) action" where
  "put_command action rid = modifyA (\<lambda>c. c\<lparr>co_commands := co_commands c @ [Some (action, rid)]\<rparr>)"

section \<open>Admission and control of runs\<close>

definition ensure_accepting_commands :: "(('p, 'b, 'k) coord, unit) action" where
  "ensure_accepting_commands =
     resultA (\<lambda>c. if co_shutdown c then Inl RuntimeError else Inr ())"

definition start_next :: "int \<Rightarrow> (('p, 'b, 'k) coord, unit) action" where
  "start_next now c =
     (if co_shutdown c then (c, Inr ())
      else if active_run (co_db c) \<noteq> None then (c, Inr ())
      else case next_queued_run (co_db c) of
        None \<Rightarrow> (c, Inr ())
      | Some q \<Rightarrow>
          seqA (db_call (set_status now (run_id q) RunStatus.RUNNING None))
         (seqA (db_call (append_event now (run_id q) EventType.STARTED ''queue'' ''Queued run started.'' []))
               (put_command ''start'' (run_id q))) c)"

definition check_workspace ::
  "(string \<Rightarrow> WorkspaceState option) option \<Rightarrow> string \<Rightarrow> py_error + unit" where
  "check_workspace repo ws =
     (case (case repo of None \<Rightarrow> None | Some get \<Rightarrow> get ws) of
        None \<Rightarrow> Inl KeyError
      | Some st \<Rightarrow>
          if st \<in> {WorkspaceState.DELETING, WorkspaceState.CLEANUP_PENDING}
          then Inl ValueError else Inr ())"

definition submit_message ::
  "('p, 'b, 'k) env \<Rightarrow> int \<Rightarrow> string \<Rightarrow> string \<Rightarrow> string \<Rightarrow> string \<Rightarrow> string option
    \<Rightarrow> (('p, 'b, 'k) coord, RunSnapshot) action" where
  "submit_message e now fresh_id thread_id pid msg ws =
     seqA ensure_accepting_commands
    (seqA (resultA (\<lambda>c. get_provider pid (co_sessions c)))
    (bindA (resultA (\<lambda>_. case ws of None \<Rightarrow> Inr thread_id
              | Some w \<Rightarrow> bind_res (check_workspace (env_workspace e) w) (\<lambda>_. Inr (workspace_thread w))))
       (\<lambda>thread.
     bindA (getA (\<lambda>c. active_run (co_db c))) (\<lambda>active.
     bindA (getA (\<lambda>c. next_queued_run (co_db c))) (\<lambda>queued.
       let st = (if active \<noteq> None \<or> queued \<noteq> None then RunStatus.QUEUED else RunStatus.RUNNING) in
     bindA (db_call (create_run fresh_id now thread pid msg st ws)) (\<lambda>run.
     seqA (db_call (append_event now (run_id run)
             (if st = RunStatus.QUEUED then EventType.QUEUED else EventType.STARTED) ''queue''
             (if st = RunStatus.QUEUED then ''Message queued behind the active run.''
              else ''Agent run started.'') []))
    (seqA (if st = RunStatus.RUNNING then put_command ''start'' (run_id run)
           else if active = None then start_next now else returnA ())
          (returnA run))))))))"

definition stop :: "int \<Rightarrow> string \<Rightarrow> (('p, 'b, 'k) coord, RunSnapshot) action" where
  "stop now rid =
     bindA (resultA (\<lambda>c. get_run rid (co_db c))) (\<lambda>run.
       if run_status run \<noteq> RunStatus.RUNNING then raiseA ValueError
       else seqA (modifyA (\<lambda>c. c\<lparr>co_controls := request_stop rid (co_controls c)\<rparr>))
           (seqA (db_call (append_event now rid EventType.STOP_REQUESTED ''stopping''
                             ''Stop requested.'' []))
                 (db_call (set_status now rid RunStatus.STOPPING None))))"

definition resume :: "int \<Rightarrow> string \<Rightarrow> (('p, 'b, 'k) coord, RunSnapshot) action" where
  "resume now rid =
     bindA (resultA (\<lambda>c. get_run rid (co_db c))) (\<lambda>run.
       if run_status run \<noteq> RunStatus.PAUSED then raiseA ValueError
       else seqA (resultA (\<lambda>c. get_provider (run_provider_profile_id run) (co_sessions c)))
           (seqA ensure_accepting_commands
           (seqA (db_call (set_status now rid RunStatus.RUNNING None))
           (seqA (put_command ''resume'' rid)
                 (resultA (\<lambda>c. get_run rid (co_db c)))))))"

definition pause_all :: "(('p, 'b, 'k) coord, unit) action" where
  "pause_all = modifyA (\<lambda>c. c\<lparr>co_controls := fold request_stop
     (map run_id (list_by_status {RunStatus.RUNNING, RunStatus.STOPPING} (co_db c))) (co_controls c)\<rparr>)"

text \<open>
  The sentinel is queued once, and only when a thread exists; \<open>still_alive\<close> says whether the thread
  outlives the join timeout.
\<close>

definition shutdown :: "bool \<Rightarrow> (('p, 'b, 'k) coord, unit) action" where
  "shutdown still_alive =
     seqA pause_all
    (bindA (getA (\<lambda>c. co_worker c)) (\<lambda>thread.
     seqA (modifyA (\<lambda>c. if co_shutdown c then c
             else c\<lparr>co_shutdown := True,
                    co_commands := co_commands c @ (if thread \<noteq> NotStarted then [None] else [])\<rparr>))
          (if thread \<noteq> NotStarted \<and> still_alive then raiseA TimeoutError else returnA ())))"

section \<open>Workspace deletion\<close>

fun delete_threads :: "(string \<Rightarrow> 'k \<Rightarrow> 'k option) \<Rightarrow> string list \<Rightarrow> 'k \<Rightarrow> 'k \<times> bool" where
  "delete_threads del [] k = (k, True)"
| "delete_threads del (t # ts) k =
     (case del t k of None \<Rightarrow> (k, False) | Some k' \<Rightarrow> delete_threads del ts k')"

definition coord_delete_settled_workspace_runs ::
  "('p, 'b, 'k) env \<Rightarrow> string \<Rightarrow> (('p, 'b, 'k) coord, unit) action" where
  "coord_delete_settled_workspace_runs e ws c =
     (if has_unsettled_runs ws (co_db c) then (c, Inl ValueError)
      else let (k', ok) = delete_threads (env_delete_thread e)
                            (thread_ids_for_workspace ws (co_db c)) (co_checkpoints c);
               c' = c\<lparr>co_checkpoints := k'\<rparr>
           in if \<not> ok then (c', Inl RuntimeError)
              else db_write (delete_settled_workspace_runs ws) c')"

section \<open>Provider credentials\<close>

definition ensure_profile_replaceable :: "string \<Rightarrow> (('p, 'b, 'k) coord, unit) action" where
  "ensure_profile_replaceable pid = resultA (\<lambda>c.
     if (\<exists>r \<in> set (list_by_status {RunStatus.RUNNING, RunStatus.STOPPING} (co_db c)).
           run_provider_profile_id r = pid)
     then Inl ProviderProfileInUseError else Inr ())"

definition CREDENTIAL_WARNING :: string where
  "CREDENTIAL_WARNING =
     ''Provider connected, but the credential could not be saved securely. Reconnect after restart.''"

definition set_descriptor :: "ProviderDescriptor \<Rightarrow> (('p, 'b, 'k) coord, unit) action" where
  "set_descriptor d c = (case update_descriptor d (co_sessions c) of
     Inl e \<Rightarrow> (c, Inl e) | Inr s \<Rightarrow> (c\<lparr>co_sessions := s\<rparr>, Inr ()))"

definition disconnect :: "string \<Rightarrow> (('p, 'b, 'k) coord, unit) action" where
  "disconnect pid =
     modifyA (\<lambda>c. c\<lparr>co_sessions := disconnect_provider pid (co_sessions c)\<rparr>)"

definition save_profile ::
  "('p, 'b, 'k) env \<Rightarrow> bool \<Rightarrow> SavedProviderProfile \<Rightarrow> (('p, 'b, 'k) coord, unit) action" where
  "save_profile e db_fails sp =
     (if db_fails then raiseA RuntimeError
      else db_write (save_provider_profile (env_urlparse e) (env_ip_address e) sp))"

definition vault_call ::
  "('b \<Rightarrow> py_error + 'b) \<Rightarrow> (('p, 'b, 'k) coord, unit) action" where
  "vault_call f c =
     (case co_vault c of
        None \<Rightarrow> (c, Inl VaultUnavailableError)
      | Some b \<Rightarrow> (case f b of Inl e \<Rightarrow> (c, Inl e) | Inr b' \<Rightarrow> (c\<lparr>co_vault := Some b'\<rparr>, Inr ())))"

text \<open>
  \<open>connect_provider\<close>: the profile is first stored as needing a reconnect, then the secret is saved,
  then the profile is stored as having its credential. \<open>guard_fails\<close> and \<open>final_fails\<close> say whether
  the database raises at the two stores.
\<close>

definition connect_provider ::
  "('p, 'b, 'k) env \<Rightarrow> int \<Rightarrow> bool \<Rightarrow> bool \<Rightarrow> ProviderProfile \<Rightarrow> string
    \<Rightarrow> (('p, 'b, 'k) coord, ProviderDescriptor) action" where
  "connect_provider e now guard_fails final_fails profile key =
     (let pid = profile_id profile in
      bindA (getA (\<lambda>c. has_provider pid (co_sessions c))) (\<lambda>known.
      seqA (if known then ensure_profile_replaceable pid else returnA ())
     (bindA (\<lambda>c. case install_provider (env_urlparse e) (env_ip_address e) (env_factory e)
                          profile key (co_sessions c) of
                    Inl err \<Rightarrow> (c, Inl err) | Inr (s, d) \<Rightarrow> (c\<lparr>co_sessions := s\<rparr>, Inr d)) (\<lambda>d.
      let blocked = \<lparr>sp_profile = pd_profile d, sp_capabilities = pd_capabilities d,
                     sp_credential_expected = False, sp_reconnect_required = True,
                     sp_updated_at = now\<rparr>;
          d_unsaved = d\<lparr>pd_credential_saved := False,
                        pd_credential_warning := Some CREDENTIAL_WARNING\<rparr>;
          d_saved = d\<lparr>pd_credential_saved := True, pd_credential_warning := None\<rparr>;
          finalized = blocked\<lparr>sp_credential_expected := True, sp_reconnect_required := False,
                              sp_updated_at := now\<rparr>
      in
      bindA (tryA (save_profile e guard_fails blocked)) (\<lambda>guard.
      if (case guard of Inl _ \<Rightarrow> True | Inr _ \<Rightarrow> False)
      then seqA (disconnect pid) (raiseA RuntimeError)
      else
      bindA (tryA (vault_call (vault_save (env_keyring e) pid key))) (\<lambda>saved.
      if (case saved of Inl _ \<Rightarrow> True | Inr _ \<Rightarrow> False)
      then seqA (set_descriptor d_unsaved) (returnA d_unsaved)
      else
      bindA (tryA (save_profile e final_fails finalized)) (\<lambda>final.
      if (case final of Inl _ \<Rightarrow> False | Inr _ \<Rightarrow> True)
      then seqA (set_descriptor d_saved) (returnA d_saved)
      else
      bindA (tryA (vault_call (vault_delete (env_keyring e) pid))) (\<lambda>comp.
      if (case comp of Inl _ \<Rightarrow> True | Inr _ \<Rightarrow> False)
      then seqA (disconnect pid) (raiseA RuntimeError)
      else seqA (set_descriptor d_unsaved) (returnA d_unsaved)))))))))"

definition forget_provider_credential ::
  "('p, 'b, 'k) env \<Rightarrow> int \<Rightarrow> string \<Rightarrow> (('p, 'b, 'k) coord, unit) action" where
  "forget_provider_credential e now pid =
     seqA (ensure_profile_replaceable pid)
    (seqA (disconnect pid)
    (bindA (getA (\<lambda>c. co_vault c)) (\<lambda>vault.
     seqA (if vault = None then returnA ()
           else bindA (tryA (vault_call (vault_delete (env_keyring e) pid))) (\<lambda>r.
                  if (case r of Inl _ \<Rightarrow> True | Inr _ \<Rightarrow> False) then raiseA VaultUnavailableError
                  else returnA ()))
          (db_write (mark_provider_reconnect_required now pid)))))"

text \<open>the \<open>try\<close> block of \<open>_restore_saved_profile\<close>\<close>

definition install_saved ::
  "('p, 'b, 'k) env \<Rightarrow> SavedProviderProfile \<Rightarrow> string \<Rightarrow> (('p, 'b, 'k) coord, unit) action" where
  "install_saved e saved api_key =
     bindA (\<lambda>c. case install_provider (env_urlparse e) (env_ip_address e) (env_factory e)
                        (sp_profile saved) api_key (co_sessions c) of
                   Inl err \<Rightarrow> (c, Inl err) | Inr (s, d) \<Rightarrow> (c\<lparr>co_sessions := s\<rparr>, Inr d))
           (\<lambda>d. set_descriptor (d\<lparr>pd_credential_saved := True, pd_credential_warning := None\<rparr>))"

definition restore_saved_profile ::
  "('p, 'b, 'k) env \<Rightarrow> int \<Rightarrow> SavedProviderProfile \<Rightarrow> (('p, 'b, 'k) coord, unit) action" where
  "restore_saved_profile e now saved =
     (let pid = profile_id (sp_profile saved) in
      bindA (getA (\<lambda>c. has_provider pid (co_sessions c))) (\<lambda>known.
      if sp_reconnect_required saved \<or> \<not> sp_credential_expected saved \<or> known then returnA ()
      else
      bindA (getA (\<lambda>c. case co_vault c of None \<Rightarrow> None
               | Some b \<Rightarrow> (case vault_load (env_keyring e) pid b of Inl _ \<Rightarrow> None | Inr v \<Rightarrow> v)))
        (\<lambda>key. case key of
           None \<Rightarrow> db_write (mark_provider_reconnect_required now pid)
         | Some api_key \<Rightarrow>
             bindA (tryA (install_saved e saved api_key)) (\<lambda>r.
             case r of Inl _ \<Rightarrow> db_write (mark_provider_reconnect_required now pid)
                     | Inr _ \<Rightarrow> returnA ()))))"

fun restore_all ::
  "('p, 'b, 'k) env \<Rightarrow> int \<Rightarrow> SavedProviderProfile list \<Rightarrow> (('p, 'b, 'k) coord, unit) action" where
  "restore_all e now [] = returnA ()"
| "restore_all e now (s # ss) = seqA (restore_saved_profile e now s) (restore_all e now ss)"

definition restore_saved_profiles ::
  "('p, 'b, 'k) env \<Rightarrow> int \<Rightarrow> (('p, 'b, 'k) coord, unit) action" where
  "restore_saved_profiles e now =
     bindA (getA (\<lambda>c. list_saved_provider_profiles (env_urlparse e) (env_ip_address e) (co_db c)))
       (restore_all e now)"

section \<open>Start\<close>

definition start :: "('p, 'b, 'k) env \<Rightarrow> int \<Rightarrow> (('p, 'b, 'k) coord, unit) action" where
  "start e now c =
     (if co_worker c = Alive then (c, Inr ())
      else if co_shutdown c then (c, Inl RuntimeError)
      else seqA (db_call (recover_unfinished now))
          (seqA (restore_saved_profiles e now)
          (seqA (modifyA (\<lambda>c. c\<lparr>co_worker := Alive\<rparr>))
                (\<lambda>c. if active_run (co_db c) = None then start_next now c else (c, Inr ())))) c)"

text \<open>
  A new process: only the database, the vault and the checkpoints survive.
\<close>

definition fresh_coordinator :: "runtime_db \<Rightarrow> 'b option \<Rightarrow> 'k \<Rightarrow> ('p, 'b, 'k) coord" where
  "fresh_coordinator db vault cps =
     \<lparr>co_db = db, co_sessions = empty_sessions, co_vault = vault, co_checkpoints = cps,
      co_controls = [], co_commands = [], co_worker = NotStarted, co_executing = None,
      co_shutdown = False\<rparr>"

section \<open>The worker thread\<close>

text \<open>
  \<open>_loop\<close> takes a command; the sentinel ends the thread. \<open>_execute\<close> first reads the run and the
  sequence number of its last event.
\<close>

definition last_sequence :: "string \<Rightarrow> runtime_db \<Rightarrow> nat" where
  "last_sequence rid db =
     (case first_row (rev (list_events rid 0 db)) of None \<Rightarrow> 0 | Some e \<Rightarrow> ev_sequence e)"

definition take_command :: "('p, 'b, 'k) coord \<Rightarrow> ('p, 'b, 'k) coord" where
  "take_command c =
     (case co_commands c of
        [] \<Rightarrow> c
      | None # cs \<Rightarrow> c\<lparr>co_commands := cs, co_worker := Exited\<rparr>
      | Some (action, rid) # cs \<Rightarrow>
          (case get_run rid (co_db c) of
             Inl _ \<Rightarrow> c\<lparr>co_commands := cs, co_worker := Exited\<rparr>
           | Inr _ \<Rightarrow> c\<lparr>co_commands := cs,
                       co_executing := Some (action, rid, last_sequence rid (co_db c))\<rparr>))"

text \<open>
  What \<open>_invoke_resume\<close> reads of the engine's checkpoint, and what it asks the engine to do.
\<close>

record checkpoint =
  cp_run_id :: "string option"
  cp_interrupted :: bool
  cp_pause_pending :: bool
  cp_next :: "string list"

datatype graph_call = InvokeResumeCommand | InvokeInitial | InvokeNone | ReturnCheckpoint

definition starts_with :: "string \<Rightarrow> string \<Rightarrow> bool" where
  "starts_with pre s \<longleftrightarrow> take (length pre) s = pre"

text \<open>\<open>None\<close> is a graph without \<open>get_state\<close>; the Boolean is whether \<open>pause_pending\<close> is reset.\<close>

definition invoke_resume ::
  "int \<Rightarrow> string \<Rightarrow> checkpoint option \<Rightarrow> (('p, 'b, 'k) coord, graph_call \<times> bool) action" where
  "invoke_resume now rid cp =
     (case cp of
        None \<Rightarrow> returnA (InvokeResumeCommand, False)
      | Some cp \<Rightarrow>
          let same_run = (cp_run_id cp = Some rid) in
          if same_run \<and> cp_interrupted cp then returnA (InvokeResumeCommand, False)
          else
            let pending_pause = (same_run \<and> cp_pause_pending cp \<and> length (cp_next cp) = 1 \<and>
                                 starts_with ''pause_before_'' (hd (cp_next cp)))
            in seqA (if pending_pause
                     then modifyA (\<lambda>c. c\<lparr>co_controls := clear_stop rid (co_controls c)\<rparr>)
                     else returnA ())
              (seqA (db_call (append_event now rid EventType.RESUMED ''planning''
                                ''The run resumed from durable state.'' []))
                    (returnA (if \<not> same_run then InvokeInitial
                              else if cp_next cp \<noteq> [] then InvokeNone else ReturnCheckpoint,
                              pending_pause))))"

text \<open>
  The interrupts of a graph result: a dictionary payload (string values) or anything else.
\<close>

type_synonym interrupt = "(string \<times> string) list option"

fun source_change_interrupt :: "interrupt list \<Rightarrow> (string \<times> string) option" where
  "source_change_interrupt [] = None"
| "source_change_interrupt (None # is) = source_change_interrupt is"
| "source_change_interrupt (Some p # is) =
     (if map_of p ''kind'' \<noteq> Some ''source_changed'' then source_change_interrupt is
      else Some (case map_of p ''code'' of None \<Rightarrow> ''source_approval_revoked'' | Some x \<Rightarrow> x,
                 case map_of p ''entry_id'' of None \<Rightarrow> [] | Some x \<Rightarrow> x))"

datatype graph_outcome =
    GraphSourceChanged string string
  | GraphRaised string
  | GraphReturned "interrupt list"

definition source_changed_message :: string where
  "source_changed_message =
     ''A course source changed. Rescan and approve it before resuming.''"

definition discard_control :: "string \<Rightarrow> (('p, 'b, 'k) coord, unit) action" where
  "discard_control rid = modifyA (\<lambda>c. c\<lparr>co_controls := control_discard rid (co_controls c)\<rparr>)"

definition record_outcome ::
  "int \<Rightarrow> string \<Rightarrow> nat \<Rightarrow> graph_outcome \<Rightarrow> (('p, 'b, 'k) coord, unit) action" where
  "record_outcome now rid cursor out =
     (case out of
        GraphSourceChanged code entry \<Rightarrow>
          seqA (db_call (set_status_and_append_event now rid RunStatus.PAUSED EventType.PAUSED
                  ''source_changed'' source_changed_message
                  [(''code'', VStr code), (''entry_id'', VStr entry)] None))
               (discard_control rid)
      | GraphRaised exc \<Rightarrow>
          let msg = exc @ '': Agent run failed.'' in
          seqA (db_call (set_status_and_append_event now rid RunStatus.FAILED EventType.FAILED
                  ''failed'' msg [] (Some msg)))
         (seqA (discard_control rid) (start_next now))
      | GraphReturned ints \<Rightarrow>
          if ints \<noteq> [] then
          bindA (getA (\<lambda>c. list_events rid cursor (co_db c))) (\<lambda>events.
            if (\<exists>ev \<in> set events. ev_event_type ev = EventType.PAUSED)
            then seqA (db_call (set_status now rid RunStatus.PAUSED None)) (returnA ())
            else case source_change_interrupt ints of
              None \<Rightarrow>
                seqA (db_call (set_status_and_append_event now rid RunStatus.PAUSED EventType.PAUSED
                        ''paused'' ''The run is paused at a safe boundary.'' [] None)) (returnA ())
            | Some (code, entry) \<Rightarrow>
                seqA (db_call (set_status_and_append_event now rid RunStatus.PAUSED EventType.PAUSED
                        ''source_changed'' source_changed_message
                        [(''code'', VStr code), (''entry_id'', VStr entry)] None)) (returnA ()))
          else
          seqA (db_call (set_status_and_append_event now rid RunStatus.COMPLETED EventType.COMPLETED
                  ''complete'' ''Agent run completed.'' [] None))
         (seqA (discard_control rid) (start_next now)))"

definition finish_execution ::
  "int \<Rightarrow> graph_outcome \<Rightarrow> ('p, 'b, 'k) coord \<Rightarrow> ('p, 'b, 'k) coord" where
  "finish_execution now out c =
     (case co_executing c of
        None \<Rightarrow> c
      | Some (action, rid, cursor) \<Rightarrow>
          (fst (record_outcome now rid cursor out c))\<lparr>co_executing := None\<rparr>)"

end
