(* ===== verification/Coordinator_Inv.thy ===== *)
theory Coordinator_Inv
  imports Coordinator
begin

text \<open>
  The step relation of the coordinator and its worker thread, the invariant every step keeps, and
  the refinement to the run-queue machine of \<open>Run_Queue_Spec\<close>.
\<close>

section \<open>Steps\<close>

inductive coord_step ::
  "('p, 'b, 'k) env \<Rightarrow> ('p, 'b, 'k) coord \<Rightarrow> ('p, 'b, 'k) coord \<Rightarrow> bool"
  for e :: "('p, 'b, 'k) env" where
  st_submit: "coord_step e c (fst (submit_message e now fresh_id th pid msg ws c))"
| st_stop: "coord_step e c (fst (stop now rid c))"
| st_resume: "coord_step e c (fst (resume now rid c))"
| st_pause_all: "coord_step e c (fst (pause_all c))"
| st_shutdown: "coord_step e c (fst (shutdown alive c))"
| st_delete: "coord_step e c (fst (coord_delete_settled_workspace_runs e ws c))"
| st_connect: "coord_step e c (fst (connect_provider e now gf ff profile key c))"
| st_forget: "coord_step e c (fst (forget_provider_credential e now pid c))"
| st_take: "co_worker c = Alive \<Longrightarrow> co_executing c = None \<Longrightarrow> coord_step e c (take_command c)"
| st_emit: "co_executing c = Some (action, rid, n) \<Longrightarrow>
    coord_step e c (fst (db_call (append_event now rid et stage msg pl) c))"
| st_clear: "co_executing c = Some (action, rid, n) \<Longrightarrow>
    coord_step e c (c\<lparr>co_controls := clear_stop rid (co_controls c)\<rparr>)"
| st_invoke_resume: "co_executing c = Some (action, rid, n) \<Longrightarrow>
    coord_step e c (fst (invoke_resume now rid cp c))"
| st_finish: "co_executing c \<noteq> None \<Longrightarrow> coord_step e c (finish_execution now out c)"
| st_restart:
    "coord_step e c (fst (start e now (fresh_coordinator (co_db c) (co_vault c) (co_checkpoints c))))"

definition coord_init :: "('p, 'b, 'k) env \<Rightarrow> ('p, 'b, 'k) coord \<Rightarrow> bool" where
  "coord_init e c \<longleftrightarrow>
     (\<exists>now vault cps. c = fst (start e now (fresh_coordinator empty_runtime_db vault cps)))"

section \<open>The invariant\<close>

abbreviation coord_view :: "('p, 'b, 'k) coord \<Rightarrow> (string \<times> RunStatus) list" where
  "coord_view c \<equiv> run_view (co_db c)"

text \<open>The runs the worker is executing or will be told to execute.\<close>

definition owned :: "('p, 'b, 'k) coord \<Rightarrow> string list" where
  "owned c = (case co_executing c of None \<Rightarrow> [] | Some (action, rid, n) \<Rightarrow> [rid]) @
     List.map_filter (map_option snd) (co_commands c)"

definition working :: "(string \<times> RunStatus) list \<Rightarrow> string list" where
  "working v = map fst (filter (\<lambda>x. snd x \<noteq> RunStatus.PAUSED) (actives v))"

definition slot_inv :: "('p, 'b, 'k) coord \<Rightarrow> bool" where
  "slot_inv c \<longleftrightarrow> runtime_wf (co_db c) \<and> single_slot (coord_view c) \<and>
     owned c = working (coord_view c) \<and> (co_executing c \<noteq> None \<longrightarrow> co_worker c = Alive)"

definition no_idle_queue :: "('p, 'b, 'k) coord \<Rightarrow> bool" where
  "no_idle_queue c \<longleftrightarrow>
     (\<not> co_shutdown c \<longrightarrow> actives (coord_view c) = [] \<longrightarrow> queueds (coord_view c) = [])"

definition coord_inv :: "('p, 'b, 'k) coord \<Rightarrow> bool" where
  "coord_inv c \<longleftrightarrow> slot_inv c \<and> no_idle_queue c"

section \<open>The view\<close>

lemma active_run_None_iff: "active_run db = None \<longleftrightarrow> actives (run_view db) = []"
  by (auto simp: active_run_def actives_def run_view_def is_active_def filter_empty_conv)

lemma next_queued_None_iff: "next_queued_run db = None \<longleftrightarrow> queueds (run_view db) = []"
  by (auto simp: next_queued_run_def queueds_def run_view_def filter_empty_conv)

lemma next_queued_in_view:
  "next_queued_run db = Some q \<Longrightarrow> (run_id q, RunStatus.QUEUED) \<in> set (run_view db)"
  by (auto simp: next_queued_run_def run_view_def image_iff dest!: first_row_Some_in intro!: bexI [of _ q])

lemma get_run_in_view:
  "get_run rid db = Inr run \<Longrightarrow> (rid, run_status run) \<in> set (run_view db) \<and> run_id run = rid"
  by (auto simp: get_run_def run_view_def image_iff split: option.splits
      dest!: row_of_Some intro!: bexI [of _ run])

lemma actives_unique:
  assumes "single_slot v" and "(i, s) \<in> set v" and "is_active s"
  shows "actives v = [(i, s)]"
proof -
  have "(i, s) \<in> set (actives v)" using assms by (simp add: actives_def)
  moreover have "length (actives v) \<le> 1" using assms(1) by (simp add: single_slot_def)
  ultimately show ?thesis by (cases "actives v") auto
qed

lemma in_view_set: "(i, s) \<in> set v \<Longrightarrow> (i, t) \<in> set (view_set i t v)"
  by (force simp: view_set_def)

lemma actives_view_set:
  assumes v: "single_slot v" "(i, s) \<in> set v" and free: "is_active s \<or> actives v = []"
  shows "actives (view_set i t v) = (if is_active t then [(i, t)] else [])"
proof -
  have d: "distinct (map fst v)" using v(1) by (simp add: single_slot_def)
  have "length (actives v) = (if is_active s then 1 else 0)"
  proof (cases "is_active s")
    case True
    then show ?thesis by (simp add: actives_unique [OF v])
  next
    case False
    then show ?thesis using free by simp
  qed
  then have "length (actives (view_set i t v)) = (if is_active t then 1 else 0)"
    using length_actives_view_set [OF d v(2), of t] by (simp split: if_splits)
  moreover have "is_active t \<Longrightarrow> (i, t) \<in> set (actives (view_set i t v))"
    using in_view_set [OF v(2)] by (simp add: actives_def)
  ultimately show ?thesis
    by (cases "actives (view_set i t v)") (auto split: if_splits)
qed

lemma single_slot_view_set_free:
  "single_slot v \<Longrightarrow> (i, s) \<in> set v \<Longrightarrow> is_active s \<or> actives v = [] \<Longrightarrow> single_slot (view_set i t v)"
  by (auto simp: single_slot_def actives_view_set)

lemma queueds_view_set:
  "queueds v = [] \<Longrightarrow> t \<noteq> RunStatus.QUEUED \<Longrightarrow> queueds (view_set i t v) = []"
  by (auto simp: queueds_def view_set_def filter_empty_conv split: if_splits)

lemma working_view_set:
  assumes "single_slot v" and "(i, s) \<in> set v" and "is_active s \<or> actives v = []"
  shows "working (view_set i t v) = (if is_active t \<and> t \<noteq> RunStatus.PAUSED then [i] else [])"
  by (simp add: working_def actives_view_set [OF assms])

lemma working_in_view:
  assumes "rid \<in> set (working v)"
  shows "\<exists>s. (rid, s) \<in> set v \<and> s \<in> {RunStatus.RUNNING, RunStatus.STOPPING}"
  using assms by (auto simp: working_def actives_def is_active_def)

lemma single_slot_working: "single_slot v \<Longrightarrow> length (working v) \<le> 1"
  by (auto simp: working_def single_slot_def intro: le_trans [OF length_filter_le])

section \<open>Store calls as steps of the coordinator\<close>

lemma db_call_set_status:
  assumes "runtime_wf (co_db c)" and "(rid, s) \<in> set (coord_view c)"
  shows "\<exists>db' run. db_call (set_status now rid st err) c = (c\<lparr>co_db := db'\<rparr>, Inr run) \<and>
    runtime_wf db' \<and> run_view db' = view_set rid st (coord_view c)"
  using set_status_succeeds [OF assms(1), of rid now st err] assms(2)
  by (force simp: db_call_def)

lemma db_call_append_event:
  assumes "runtime_wf (co_db c)" and "rid \<in> fst ` set (coord_view c)" and "json_finite (VDict pl)"
  shows "\<exists>db' ev. db_call (append_event now rid et stage msg pl) c = (c\<lparr>co_db := db'\<rparr>, Inr ev) \<and>
    runtime_wf db' \<and> run_view db' = coord_view c"
  using append_event_succeeds [OF assms, of now et stage msg] by (force simp: db_call_def)

lemma db_call_settle:
  assumes "runtime_wf (co_db c)" and "(rid, s) \<in> set (coord_view c)" and "json_finite (VDict pl)"
  shows "\<exists>db' x. db_call (set_status_and_append_event now rid st et stage msg pl err) c =
      (c\<lparr>co_db := db'\<rparr>, Inr x) \<and>
    runtime_wf db' \<and> run_view db' = view_set rid st (coord_view c)"
  using set_status_and_append_event_succeeds [OF assms(1) _ assms(3), of rid now st et stage msg err]
    assms(2) by (force simp: db_call_def)

lemma emit_view:
  assumes "runtime_wf (co_db c)"
  shows "let c' = fst (db_call (append_event now rid et stage msg pl) c) in
    runtime_wf (co_db c') \<and> coord_view c' = coord_view c \<and> c' = c\<lparr>co_db := co_db c'\<rparr>"
proof (cases "append_event now rid et stage msg pl (co_db c)")
  case (Inr x)
  then show ?thesis using append_event_wf append_event_view assms
    by (cases x) (fastforce simp: db_call_def Let_def)
qed (simp add: db_call_def assms)

section \<open>Starting the next queued run\<close>

lemma owned_simps [simp]:
  "owned (c\<lparr>co_db := d\<rparr>) = owned c"
  "owned (c\<lparr>co_controls := ct\<rparr>) = owned c"
  "owned (c\<lparr>co_sessions := se\<rparr>) = owned c"
  "owned (c\<lparr>co_vault := va\<rparr>) = owned c"
  "owned (c\<lparr>co_checkpoints := cp\<rparr>) = owned c"
  "owned (c\<lparr>co_commands := co_commands c @ [Some (a, r)]\<rparr>) = owned c @ [r]"
  "owned (c\<lparr>co_db := d, co_commands := co_commands c @ [Some (a, r)]\<rparr>) = owned c @ [r]"
  by (simp_all add: owned_def map_filter_append List.map_filter_simps)

text \<open>A coordinator that differs outside its runs keeps the invariant.\<close>

lemma coord_inv_frame:
  assumes "coord_inv c" and "runtime_wf (co_db c')" and "coord_view c' = coord_view c"
    and "owned c' = owned c" and "co_executing c' \<noteq> None \<Longrightarrow> co_worker c' = Alive"
    and "co_shutdown c \<Longrightarrow> co_shutdown c'"
  shows "coord_inv c'"
  using assms by (auto simp: coord_inv_def slot_inv_def no_idle_queue_def)

lemma working_Nil: "actives v = [] \<Longrightarrow> working v = []"
  by (simp add: working_def)

definition advances :: "('p, 'b, 'k) coord \<Rightarrow> ('p, 'b, 'k) coord \<Rightarrow> bool" where
  "advances c c' \<longleftrightarrow> coord_inv c' \<and> queue_step\<^sup>*\<^sup>* (coord_view c) (coord_view c')"

lemma advances_refl: "coord_inv c \<Longrightarrow> advances c c"
  by (simp add: advances_def)

lemma advances_frame:
  assumes "coord_inv c" and "runtime_wf (co_db c')" and "coord_view c' = coord_view c"
    and "owned c' = owned c" and "co_executing c' \<noteq> None \<Longrightarrow> co_worker c' = Alive"
    and "co_shutdown c \<Longrightarrow> co_shutdown c'"
  shows "advances c c'"
  using coord_inv_frame [OF assms] assms(3) by (simp add: advances_def)

lemma start_next_advances:
  assumes "slot_inv c"
  shows "snd (start_next now c) = Inr () \<and> advances c (fst (start_next now c))"
proof (cases "co_shutdown c \<or> actives (coord_view c) \<noteq> [] \<or> queueds (coord_view c) = []")
  case True
  then have "start_next now c = (c, Inr ())"
    by (auto simp: start_next_def active_run_None_iff [symmetric] next_queued_None_iff [symmetric])
  then show ?thesis using True assms
    by (auto simp: advances_def coord_inv_def no_idle_queue_def)
next
  case False
  then have free: "actives (coord_view c) = []" and some: "next_queued_run (co_db c) \<noteq> None"
    by (simp_all add: next_queued_None_iff)
  then obtain q where q: "next_queued_run (co_db c) = Some q" by blast
  have inv: "runtime_wf (co_db c)" "single_slot (coord_view c)" "owned c = []"
    using assms free by (auto simp: slot_inv_def working_Nil)
  have qv: "(run_id q, RunStatus.QUEUED) \<in> set (coord_view c)" using q by (rule next_queued_in_view)
  from db_call_set_status [OF inv(1) qv, of now RunStatus.RUNNING None] obtain db1 run where
    s1: "db_call (set_status now (run_id q) RunStatus.RUNNING None) c = (c\<lparr>co_db := db1\<rparr>, Inr run)"
      "runtime_wf db1" "run_view db1 = view_set (run_id q) RunStatus.RUNNING (coord_view c)"
    by blast
  have "run_id q \<in> fst ` set (run_view db1)" using qv by (force simp: s1(3))
  with db_call_append_event [of "c\<lparr>co_db := db1\<rparr>" "run_id q" "[]" now EventType.STARTED "''queue''"
      "''Queued run started.''"] s1(2) obtain db2 ev where
    s2: "db_call (append_event now (run_id q) EventType.STARTED ''queue'' ''Queued run started.'' [])
        (c\<lparr>co_db := db1\<rparr>) = (c\<lparr>co_db := db2\<rparr>, Inr ev)"
      "runtime_wf db2" "run_view db2 = run_view db1" by auto
  let ?c' = "c\<lparr>co_db := db2, co_commands := co_commands c @ [Some (''start'', run_id q)]\<rparr>"
  have "start_next now c = (?c', Inr ())"
    using False free q s1(1) s2(1) active_run_None_iff [of "co_db c"]
    by (simp add: start_next_def seqA_def bindA_def put_command_def modifyA_def)
  moreover have "actives (run_view db2) = [(run_id q, RunStatus.RUNNING)]"
    using actives_view_set [OF inv(2) qv disjI2 [OF free], of RunStatus.RUNNING]
    by (simp add: s2(3) s1(3) is_active_def)
  moreover have "single_slot (run_view db2)"
    using single_slot_view_set_free [OF inv(2) qv disjI2 [OF free]] by (simp add: s2(3) s1(3))
  moreover have "queue_step (coord_view c) (run_view db2)"
    using promote [OF qv free] by (simp add: s2(3) s1(3))
  ultimately show ?thesis using s2(2) inv(3) assms
    by (auto simp: advances_def coord_inv_def slot_inv_def no_idle_queue_def working_def)
qed

section \<open>Every step advances the run queue\<close>

lemma coord_invD:
  assumes "coord_inv c"
  shows "runtime_wf (co_db c)" "single_slot (coord_view c)" "owned c = working (coord_view c)"
    "co_executing c \<noteq> None \<Longrightarrow> co_worker c = Alive" "slot_inv c"
    "\<not> co_shutdown c \<Longrightarrow> actives (coord_view c) = [] \<Longrightarrow> queueds (coord_view c) = []"
  using assms by (auto simp: coord_inv_def slot_inv_def no_idle_queue_def)

lemma actives_append: "actives (v @ w) = actives v @ actives w"
  by (simp add: actives_def)

lemma queueds_append: "queueds (v @ w) = queueds v @ queueds w"
  by (simp add: queueds_def)

lemma working_append: "working (v @ w) = working v @ working w"
  by (simp add: working_def actives_append)

text \<open>Storing a new run: the part of \<open>submit_message\<close> after its checks.\<close>

definition admit_run ::
  "int \<Rightarrow> RunStatus \<Rightarrow> RunSnapshot option \<Rightarrow> RunSnapshot
    \<Rightarrow> (('p, 'b, 'k) coord, RunSnapshot) action" where
  "admit_run now st active run =
     seqA (db_call (append_event now (run_id run)
             (if st = RunStatus.QUEUED then EventType.QUEUED else EventType.STARTED) ''queue''
             (if st = RunStatus.QUEUED then ''Message queued behind the active run.''
              else ''Agent run started.'') []))
    (seqA (if st = RunStatus.RUNNING then put_command ''start'' (run_id run)
           else if active = None then start_next now else returnA ())
          (returnA run))"

lemma admit_run_advances:
  assumes inv: "coord_inv c" and fresh: "i \<notin> fst ` set (coord_view c)"
    and st: "st = (if active_run (co_db c) \<noteq> None \<or> next_queued_run (co_db c) \<noteq> None
                   then RunStatus.QUEUED else RunStatus.RUNNING)"
    and db: "runtime_wf db" "run_view db = coord_view c @ [(i, st)]" "run_id run = i"
  shows "advances c (fst (admit_run now st (active_run (co_db c)) run (c\<lparr>co_db := db\<rparr>))) \<and>
    snd (admit_run now st (active_run (co_db c)) run (c\<lparr>co_db := db\<rparr>)) = Inr run"
proof -
  note invs = coord_invD [OF inv]
  let ?et = "if st = RunStatus.QUEUED then EventType.QUEUED else EventType.STARTED"
  let ?m = "if st = RunStatus.QUEUED then ''Message queued behind the active run.''
     else ''Agent run started.''"
  have "i \<in> fst ` set (coord_view (c\<lparr>co_db := db\<rparr>))" using db(2) by simp
  from db_call_append_event [OF _ this, of "[]" now ?et "''queue''" ?m] db(1) obtain db2 ev where
    ev: "db_call (append_event now i ?et ''queue'' ?m []) (c\<lparr>co_db := db\<rparr>) =
        (c\<lparr>co_db := db2\<rparr>, Inr ev)" "runtime_wf db2" "run_view db2 = run_view db" by auto
  have dist: "distinct (map fst (run_view db2))" using ev(2) by (rule runtime_wf_distinct)
  show ?thesis
  proof (cases "st = RunStatus.QUEUED")
    case True
    have step: "queue_step (coord_view c) (run_view db2)"
      using enqueue [OF fresh] by (simp add: ev(3) db(2) True)
    have slot: "slot_inv (c\<lparr>co_db := db2\<rparr>)"
      using invs dist ev(2) by (auto simp: slot_inv_def single_slot_def ev(3) db(2) True actives_append
          working_append) (auto simp: actives_def working_def is_active_def)
    show ?thesis
    proof (cases "active_run (co_db c)")
      case None
      have "advances c (fst (start_next now (c\<lparr>co_db := db2\<rparr>)))"
        using start_next_advances [OF slot, of now] step
        by (auto simp: advances_def intro: converse_rtranclp_into_rtranclp)
      then show ?thesis
        using start_next_advances [OF slot, of now] ev(1) None
        by (simp add: admit_run_def seqA_def bindA_def returnA_def db(3) True case_prod_unfold)
    next
      case (Some a)
      then have "actives (run_view db2) \<noteq> []"
        using active_run_None_iff [of "co_db c"] by (simp add: ev(3) db(2) actives_append)
      with slot step have "advances c (c\<lparr>co_db := db2\<rparr>)"
        by (auto simp: advances_def coord_inv_def no_idle_queue_def)
      then show ?thesis using ev(1) Some
        by (simp add: admit_run_def seqA_def bindA_def returnA_def db(3) True)
    qed
  next
    case False
    then have free: "actives (coord_view c) = []" "queueds (coord_view c) = []"
      and run: "st = RunStatus.RUNNING"
      using st by (auto simp: active_run_None_iff next_queued_None_iff split: if_splits)
    have "queue_step (coord_view c) (run_view db2)"
      using admit [OF fresh free] by (simp add: ev(3) db(2) run)
    moreover have "working (run_view db2) = [i]" "length (actives (run_view db2)) = 1"
      by (simp_all add: ev(3) db(2) working_append actives_append working_Nil [OF free(1)] free(1) run)
         (simp_all add: working_def actives_def is_active_def)
    moreover have "owned c = []" using invs(3) free by (simp add: working_Nil)
    ultimately show ?thesis using ev invs(4) dist
      by (auto simp: admit_run_def seqA_def bindA_def returnA_def put_command_def modifyA_def db(3)
          run advances_def coord_inv_def slot_inv_def no_idle_queue_def single_slot_def)
  qed
qed

lemma submit_advances:
  assumes "coord_inv c"
  shows "advances c (fst (submit_message e now fresh_id th pid msg ws c))"
proof -
  note refl = advances_refl [OF assms]
  let ?st = "if active_run (co_db c) \<noteq> None \<or> next_queued_run (co_db c) \<noteq> None
     then RunStatus.QUEUED else RunStatus.RUNNING"
  have create: "advances c (fst (bindA (db_call (create_run fresh_id now t pid msg st w))
      (admit_run now st a) c))" if st: "st = ?st" "a = active_run (co_db c)" for t st w a
  proof (cases "create_run fresh_id now t pid msg st w (co_db c)")
    case (Inl err)
    then show ?thesis using refl by (simp add: bindA_def db_call_def)
  next
    case (Inr x)
    obtain db run where x: "x = (db, run)" by (cases x)
    note c = Inr [unfolded x]
    have "fresh_id \<notin> fst ` set (coord_view c)" "run_id run = fresh_id"
      using create_run_Inr [OF c] row_of_view [of fresh_id "co_db c"] by auto
    with admit_run_advances [OF assms _ st(1), of fresh_id db run now, THEN conjunct1]
      create_run_wf [OF c] create_run_view [OF c] coord_invD(1) [OF assms]
    show ?thesis using c st(2) by (simp add: bindA_def db_call_def)
  qed
  show ?thesis
    unfolding submit_message_def Let_def admit_run_def [symmetric]
    using refl
    by (simp add: seqA_def bindA_def [of "resultA x" for x] bindA_def [of "getA x" for x] resultA_def
        getA_def ensure_accepting_commands_def bind_res_def create split: sum.split option.split)
qed

text \<open>What \<open>submit_message\<close> checks, and what it does when a check fails or all succeed.\<close>

definition submit_ready :: "('p, 'b, 'k) env \<Rightarrow> string \<Rightarrow> string option \<Rightarrow> ('p, 'b, 'k) coord \<Rightarrow> bool" where
  "submit_ready e pid ws c \<longleftrightarrow> \<not> co_shutdown c \<and> has_provider pid (co_sessions c) \<and>
     (\<forall>w. ws = Some w \<longrightarrow> check_workspace (env_workspace e) w = Inr ())"

lemma submit_refused:
  assumes "\<not> submit_ready e pid ws c"
  shows "fst (submit_message e now i th pid msg ws c) = c \<and>
    (\<exists>err. snd (submit_message e now i th pid msg ws c) = Inl err)"
  using assms
  by (auto simp: submit_message_def submit_ready_def seqA_def
      bindA_def [of "resultA x" for x] resultA_def ensure_accepting_commands_def bind_res_def
      get_provider_def has_provider_def split: sum.split option.split)

lemma submit_accepted:
  assumes inv: "coord_inv c" and ready: "submit_ready e pid ws c"
    and fresh: "i \<notin> fst ` set (coord_view c)"
  shows "\<exists>run. snd (submit_message e now i th pid msg ws c) = Inr run \<and> run_id run = i \<and>
    run_message run = msg \<and> run_provider_profile_id run = pid \<and> run_workspace_id run = ws \<and>
    run_thread_id run = (case ws of None \<Rightarrow> th | Some w \<Rightarrow> workspace_thread w) \<and>
    run_status run = (if actives (coord_view c) = [] \<and> queueds (coord_view c) = []
                      then RunStatus.RUNNING else RunStatus.QUEUED)"
proof -
  define st where "st = (if active_run (co_db c) \<noteq> None \<or> next_queued_run (co_db c) \<noteq> None
     then RunStatus.QUEUED else RunStatus.RUNNING)"
  define t where "t = (case ws of None \<Rightarrow> th | Some w \<Rightarrow> workspace_thread w)"
  have thread: "(case ws of None \<Rightarrow> Inr th
      | Some w \<Rightarrow> bind_res (check_workspace (env_workspace e) w) (\<lambda>_. Inr (workspace_thread w))) = Inr t"
    using ready by (auto simp: submit_ready_def t_def split: option.split)
  obtain p where prov: "get_provider pid (co_sessions c) = Inr p"
    using ready by (auto simp: submit_ready_def has_provider_def get_provider_def)
  have "row_of run_id i (agent_runs (co_db c)) = None" using fresh row_of_view by blast
  then have "\<exists>db run. create_run i now t pid msg st ws (co_db c) = Inr (db, run)"
    by (auto simp: create_run_def get_run_def row_of_append Let_def t_def split: option.split)
  then obtain db run where cr: "create_run i now t pid msg st ws (co_db c) = Inr (db, run)"
    by blast
  note run = create_run_Inr [OF cr]
  have "snd (admit_run now st (active_run (co_db c)) run (c\<lparr>co_db := db\<rparr>)) = Inr run"
    using admit_run_advances [OF inv fresh st_def, of db run now] create_run_wf [OF cr]
      create_run_view [OF cr] coord_invD(1) [OF inv] run by blast
  moreover have "submit_message e now i th pid msg ws c =
      admit_run now st (active_run (co_db c)) run (c\<lparr>co_db := db\<rparr>)"
    unfolding submit_message_def Let_def admit_run_def [symmetric]
    using ready prov cr
    by (cases "active_run (co_db c)"; cases "next_queued_run (co_db c)")
      (simp_all add: submit_ready_def seqA_def bindA_def [of "resultA x" for x]
        bindA_def [of "getA x" for x] bindA_def [of "db_call x" for x] resultA_def getA_def
        ensure_accepting_commands_def db_call_def thread st_def)
  ultimately show ?thesis using run
    by (auto simp: active_run_None_iff next_queued_None_iff st_def t_def)
qed

text \<open>Moving a run that already holds the slot.\<close>

lemma slot_move:
  assumes inv: "coord_inv c" and i: "(i, s) \<in> set (coord_view c)" "is_active s"
    and step: "queue_step (coord_view c) (view_set i t (coord_view c))"
    and c': "runtime_wf (co_db c')" "coord_view c' = view_set i t (coord_view c)"
      "owned c' = (if is_active t \<and> t \<noteq> RunStatus.PAUSED then [i] else [])"
      "co_executing c' \<noteq> None \<Longrightarrow> co_worker c' = Alive"
    and t: "t \<noteq> RunStatus.QUEUED"
  shows "slot_inv c' \<and> queue_step (coord_view c) (coord_view c') \<and> (is_active t \<longrightarrow> advances c c')"
proof -
  note slot = coord_invD(2) [OF inv]
  have "slot_inv c'"
    using c' single_slot_view_set [OF slot i] working_view_set [OF slot i(1)] i(2)
    by (auto simp: slot_inv_def)
  moreover have "is_active t \<Longrightarrow> actives (coord_view c') \<noteq> []"
    using actives_view_set [OF slot i(1)] i(2) by (simp add: c'(2))
  ultimately show ?thesis using step
    by (auto simp: advances_def coord_inv_def no_idle_queue_def c'(2))
qed

lemma owned_active:
  assumes "coord_inv c" and "(i, s) \<in> set (coord_view c)" and "is_active s"
  shows "owned c = (if s \<noteq> RunStatus.PAUSED then [i] else [])"
  using coord_invD(3) [OF assms(1)] actives_unique [OF coord_invD(2) [OF assms(1)] assms(2,3)]
  by (simp add: working_def)

lemma get_run_status_iff:
  assumes "runtime_wf db"
  shows "(\<exists>run. get_run rid db = Inr run \<and> run_status run = st) \<longleftrightarrow> (rid, st) \<in> set (run_view db)"
proof
  assume r: "(rid, st) \<in> set (run_view db)"
  then have "rid \<in> fst ` set (run_view db)" by force
  then obtain run where run: "get_run rid db = Inr run"
    using row_of_view [of rid db] by (auto simp: get_run_def)
  then have "run_status run = st"
    using get_run_in_view [OF run] r runtime_wf_distinct [OF assms]
    by (auto dest: eq_key_imp_eq_value)
  with run show "\<exists>run. get_run rid db = Inr run \<and> run_status run = st" by blast
qed (auto dest: get_run_in_view)

lemma stop_outcome:
  assumes inv: "coord_inv c"
  shows "if (rid, RunStatus.RUNNING) \<in> set (coord_view c)
    then advances c (fst (stop now rid c)) \<and>
      coord_view (fst (stop now rid c)) = view_set rid RunStatus.STOPPING (coord_view c) \<and>
      is_stop_requested rid (co_controls (fst (stop now rid c)))
    else fst (stop now rid c) = c \<and> (\<exists>err. snd (stop now rid c) = Inl err)"
proof (cases "\<exists>run. get_run rid (co_db c) = Inr run \<and> run_status run = RunStatus.RUNNING")
  case False
  then have "fst (stop now rid c) = c \<and> (\<exists>err. snd (stop now rid c) = Inl err)"
    by (auto simp: stop_def bindA_def resultA_def raiseA_def split: sum.splits)
  then show ?thesis using False get_run_status_iff [OF coord_invD(1) [OF inv]] by simp
next
  case True
  then obtain run where run: "get_run rid (co_db c) = Inr run" "run_status run = RunStatus.RUNNING"
    by blast
  have i: "(rid, RunStatus.RUNNING) \<in> set (coord_view c)"
    using get_run_in_view [OF run(1)] run(2) by simp
  let ?c1 = "c\<lparr>co_controls := request_stop rid (co_controls c)\<rparr>"
  have "rid \<in> fst ` set (coord_view ?c1)" using i by force
  from db_call_append_event [OF _ this, of "[]" now EventType.STOP_REQUESTED "''stopping''"
      "''Stop requested.''"] coord_invD(1) [OF inv] obtain db1 ev where
    e: "db_call (append_event now rid EventType.STOP_REQUESTED ''stopping'' ''Stop requested.'' []) ?c1
        = (?c1\<lparr>co_db := db1\<rparr>, Inr ev)" "runtime_wf db1" "run_view db1 = coord_view c" by auto
  have "(rid, RunStatus.RUNNING) \<in> set (coord_view (?c1\<lparr>co_db := db1\<rparr>))" using i e(3) by simp
  from db_call_set_status [OF _ this, of now RunStatus.STOPPING None] e(2) obtain db2 run2 where
    s: "db_call (set_status now rid RunStatus.STOPPING None) (?c1\<lparr>co_db := db1\<rparr>) =
        (?c1\<lparr>co_db := db2\<rparr>, Inr run2)" "runtime_wf db2"
      "run_view db2 = view_set rid RunStatus.STOPPING (coord_view c)" by (auto simp: e(3))
  have "stop now rid c = (?c1\<lparr>co_db := db2\<rparr>, Inr run2)"
    using run e(1) s(1) by (simp add: stop_def bindA_def seqA_def resultA_def modifyA_def)
  moreover have "advances c (?c1\<lparr>co_db := db2\<rparr>)"
    using slot_move [OF inv i _ queue_step.stop [OF i], of "?c1\<lparr>co_db := db2\<rparr>"] s(2,3)
      owned_active [OF inv i] coord_invD(4) [OF inv] by (simp add: is_active_def)
  ultimately show ?thesis using i s(3) by (simp add: ctl.stop_laws)
qed

lemma stop_advances: "coord_inv c \<Longrightarrow> advances c (fst (stop now rid c))"
  using stop_outcome [of c rid now] advances_refl by (auto split: if_splits)

lemma resume_outcome:
  assumes inv: "coord_inv c"
  shows "if \<exists>run. get_run rid (co_db c) = Inr run \<and> run_status run = RunStatus.PAUSED \<and>
        has_provider (run_provider_profile_id run) (co_sessions c) \<and> \<not> co_shutdown c
    then advances c (fst (resume now rid c)) \<and>
      coord_view (fst (resume now rid c)) = view_set rid RunStatus.RUNNING (coord_view c) \<and>
      co_commands (fst (resume now rid c)) = co_commands c @ [Some (''resume'', rid)]
    else fst (resume now rid c) = c \<and> (\<exists>err. snd (resume now rid c) = Inl err)"
proof (cases "\<exists>run p. get_run rid (co_db c) = Inr run \<and> run_status run = RunStatus.PAUSED \<and>
    get_provider (run_provider_profile_id run) (co_sessions c) = Inr p \<and> \<not> co_shutdown c")
  case False
  then have "fst (resume now rid c) = c \<and> (\<exists>err. snd (resume now rid c) = Inl err)"
    by (auto simp: resume_def bindA_def seqA_def resultA_def raiseA_def ensure_accepting_commands_def
        split: sum.splits)
  moreover have "\<not> (\<exists>run. get_run rid (co_db c) = Inr run \<and> run_status run = RunStatus.PAUSED \<and>
      has_provider (run_provider_profile_id run) (co_sessions c) \<and> \<not> co_shutdown c)"
    using False by (fastforce simp: has_provider_def get_provider_def)
  ultimately show ?thesis by simp
next
  case True
  then obtain run p where run: "get_run rid (co_db c) = Inr run" "run_status run = RunStatus.PAUSED"
      "get_provider (run_provider_profile_id run) (co_sessions c) = Inr p" "\<not> co_shutdown c"
    by blast
  have i: "(rid, RunStatus.PAUSED) \<in> set (coord_view c)"
    using get_run_in_view [OF run(1)] run(2) by simp
  from db_call_set_status [OF coord_invD(1) [OF inv] i, of now RunStatus.RUNNING None]
  obtain db1 run1 where
    s: "db_call (set_status now rid RunStatus.RUNNING None) c = (c\<lparr>co_db := db1\<rparr>, Inr run1)"
      "runtime_wf db1" "run_view db1 = view_set rid RunStatus.RUNNING (coord_view c)" by blast
  let ?c' = "c\<lparr>co_db := db1, co_commands := co_commands c @ [Some (''resume'', rid)]\<rparr>"
  have "fst (resume now rid c) = ?c'"
    using run s(1) by (simp add: resume_def bindA_def seqA_def resultA_def modifyA_def
        ensure_accepting_commands_def put_command_def split: sum.split)
  moreover have "advances c ?c'"
    using slot_move [OF inv i _ queue_step.resume [OF i], of ?c'] s(2,3)
      owned_active [OF inv i] coord_invD(4) [OF inv] by (simp add: is_active_def)
  moreover have "has_provider (run_provider_profile_id run) (co_sessions c)"
    using run(3) by (auto simp: has_provider_def get_provider_def split: option.splits)
  ultimately show ?thesis using run s(3) by auto
qed

lemma resume_advances: "coord_inv c \<Longrightarrow> advances c (fst (resume now rid c))"
  using resume_outcome [of c rid now] advances_refl by (auto split: if_splits)

lemma pause_all_advances: "coord_inv c \<Longrightarrow> advances c (fst (pause_all c))"
  by (rule advances_frame) (simp_all add: pause_all_def modifyA_def coord_invD)

lemma shutdown_advances:
  assumes "coord_inv c"
  shows "advances c (fst (shutdown alive c))"
proof (rule advances_frame [OF assms])
  have exec: "co_executing (fst (shutdown alive c)) = co_executing c"
    and work: "co_worker (fst (shutdown alive c)) = co_worker c"
    and db: "co_db (fst (shutdown alive c)) = co_db c"
    by (simp_all add: shutdown_def pause_all_def action_defs)
  show "runtime_wf (co_db (fst (shutdown alive c)))"
    "coord_view (fst (shutdown alive c)) = coord_view c"
    "co_executing (fst (shutdown alive c)) \<noteq> None \<Longrightarrow> co_worker (fst (shutdown alive c)) = Alive"
    using coord_invD [OF assms] by (simp_all add: exec work db)
  show "owned (fst (shutdown alive c)) = owned c"
    by (simp add: shutdown_def pause_all_def action_defs owned_def map_filter_append
        List.map_filter_simps)
  show "co_shutdown c \<Longrightarrow> co_shutdown (fst (shutdown alive c))"
    by (simp add: shutdown_def pause_all_def action_defs)
qed

lemma advances_db:
  "coord_inv c \<Longrightarrow> runtime_wf d \<Longrightarrow> run_view d = coord_view c \<Longrightarrow> advances c (c\<lparr>co_db := d\<rparr>)"
  by (rule advances_frame) (simp_all add: coord_invD)

lemma purge_advances:
  assumes inv: "coord_inv c" and wf: "runtime_wf d"
    and P: "run_view d = filter P (coord_view c)"
      "\<And>x. x \<in> set (coord_view c) \<Longrightarrow> \<not> P x \<Longrightarrow> is_terminal (snd x)"
  shows "advances c (c\<lparr>co_db := d\<rparr>)"
proof -
  have step: "queue_step (coord_view c) (run_view d)"
    using P by (auto intro: purge)
  have "P x" if "x \<in> set (coord_view c)" "is_active (snd x)" for x
  proof (rule ccontr)
    assume "\<not> P x"
    from P(2) [OF that(1) this] that(2) show False by (auto simp: is_active_def is_terminal_def)
  qed
  then have act: "actives (run_view d) = actives (coord_view c)"
    unfolding P(1) by (auto simp: actives_def intro: filter_cong)
  have "queueds (coord_view c) = [] \<Longrightarrow> queueds (run_view d) = []"
    unfolding P(1) by (simp add: queueds_def filter_empty_conv)
  then show ?thesis
    using coord_invD [OF inv] queue_step_single_slot [OF _ step] step act wf
    by (auto simp: advances_def coord_inv_def slot_inv_def no_idle_queue_def working_def)
qed

lemma delete_advances:
  assumes inv: "coord_inv c"
  shows "advances c (fst (coord_delete_settled_workspace_runs e ws c))"
proof -
  obtain k ok where k: "delete_threads (env_delete_thread e)
      (thread_ids_for_workspace ws (co_db c)) (co_checkpoints c) = (k, ok)" by fastforce
  let ?c = "c\<lparr>co_checkpoints := k\<rparr>"
  have cp: "advances c ?c"
    by (rule advances_frame [OF inv]) (simp_all add: coord_invD [OF inv])
  show ?thesis
  proof (cases "has_unsettled_runs ws (co_db c) \<or> \<not> ok")
    case True
    then show ?thesis using cp advances_refl [OF inv] k
      by (auto simp: coord_delete_settled_workspace_runs_def)
  next
    case False
    then have eq: "coord_delete_settled_workspace_runs e ws c =
        db_write (delete_settled_workspace_runs ws) ?c"
      by (simp add: coord_delete_settled_workspace_runs_def k)
    show ?thesis
    proof (cases "delete_settled_workspace_runs ws (co_db c)")
      case (Inl err)
      then show ?thesis unfolding eq using cp by (simp add: db_write_def db_call_def)
    next
      case (Inr d)
      note wf = coord_invD(1) [OF inv]
      from delete_settled_view [OF Inr wf] obtain P where
        P: "run_view d = filter P (coord_view ?c)"
          "\<And>x. x \<in> set (coord_view ?c) \<Longrightarrow> \<not> P x \<Longrightarrow> is_terminal (snd x)" by auto
      have "coord_inv ?c" using cp by (simp add: advances_def)
      from purge_advances [OF this delete_settled_wf [OF Inr wf] P]
      have "advances ?c (?c\<lparr>co_db := d\<rparr>)" .
      then show ?thesis unfolding eq using Inr by (simp add: db_write_def db_call_def advances_def)
    qed
  qed
qed

lemma emit_advances:
  assumes inv: "coord_inv c"
  shows "advances c (fst (db_call (append_event now rid et stage msg pl) c))"
proof (cases "append_event now rid et stage msg pl (co_db c)")
  case (Inl err)
  then show ?thesis using advances_refl [OF inv] by (simp add: db_call_def)
next
  case (Inr x)
  then obtain d ev where x: "append_event now rid et stage msg pl (co_db c) = Inr (d, ev)"
    by (cases x) simp
  then show ?thesis
    using advances_db [OF inv append_event_wf [OF x coord_invD(1) [OF inv]] append_event_view [OF x]]
    by (simp add: db_call_def)
qed

lemma clear_advances: "coord_inv c \<Longrightarrow> advances c (c\<lparr>co_controls := clear_stop rid (co_controls c)\<rparr>)"
  by (rule advances_frame) (simp_all add: coord_invD)

lemma advances_inv: "advances c c' \<Longrightarrow> coord_inv c'"
  by (simp add: advances_def)

lemma advances_trans: "advances a b \<Longrightarrow> advances b c \<Longrightarrow> advances a c"
  by (auto simp: advances_def)

lemma invoke_resume_advances:
  assumes inv: "coord_inv c"
  shows "advances c (fst (invoke_resume now rid cp c))"
proof -
  let ?c1 = "c\<lparr>co_controls := clear_stop rid (co_controls c)\<rparr>"
  let ?ev = "\<lambda>c. fst (db_call (append_event now rid EventType.RESUMED ''planning''
    ''The run resumed from durable state.'' []) c)"
  have "advances c ?c1" using inv by (rule clear_advances)
  then have "advances c (?ev ?c1)"
    using emit_advances [OF advances_inv] advances_trans by blast
  moreover have "advances c (?ev c)" using inv by (rule emit_advances)
  moreover have "fst (invoke_resume now rid cp c) \<in> {c, ?ev c, ?ev ?c1}"
    by (auto simp: invoke_resume_def Let_def action_simps returnA_def [of _ c] split: option.splits)
  ultimately show ?thesis using advances_refl [OF inv] by auto
qed

section \<open>The outcome of a graph run\<close>

lemma executing_run:
  assumes inv: "coord_inv c" and ex: "co_executing c = Some (action, rid, n)"
  shows "\<exists>s. (rid, s) \<in> set (coord_view c) \<and> s \<in> {RunStatus.RUNNING, RunStatus.STOPPING}"
    and "owned (c\<lparr>co_executing := None\<rparr>) = []"
proof -
  have own: "owned c = rid # owned (c\<lparr>co_executing := None\<rparr>)"
    using ex by (simp add: owned_def)
  then have "rid \<in> set (working (coord_view c))" using coord_invD(3) [OF inv] by simp
  then show "\<exists>s. (rid, s) \<in> set (coord_view c) \<and> s \<in> {RunStatus.RUNNING, RunStatus.STOPPING}"
    by (rule working_in_view)
  have "length (owned c) \<le> 1"
    using single_slot_working [OF coord_invD(2) [OF inv]] coord_invD(3) [OF inv] by simp
  then show "owned (c\<lparr>co_executing := None\<rparr>) = []" using own by simp
qed

lemma owned_none [simp]:
  "owned (c\<lparr>co_db := d, co_executing := None\<rparr>) = owned (c\<lparr>co_executing := None\<rparr>)"
  "owned (c\<lparr>co_db := d, co_controls := k, co_executing := None\<rparr>) = owned (c\<lparr>co_executing := None\<rparr>)"
  by (simp_all add: owned_def)

lemma settle_slot:
  assumes inv: "coord_inv c" and ex: "co_executing c = Some (action, rid, n)"
    and d: "runtime_wf d" "run_view d = view_set rid t (coord_view c)" and t: "is_settled t"
    and c': "c' = c\<lparr>co_db := d, co_executing := None\<rparr> \<or>
             c' = c\<lparr>co_db := d, co_controls := k, co_executing := None\<rparr>"
  shows "slot_inv c' \<and> queue_step (coord_view c) (coord_view c') \<and> (is_active t \<longrightarrow> advances c c')"
proof -
  from executing_run(1) [OF inv ex] obtain s where
    s: "(rid, s) \<in> set (coord_view c)" "s \<in> {RunStatus.RUNNING, RunStatus.STOPPING}" by blast
  have step: "queue_step (coord_view c) (view_set rid t (coord_view c))"
    using settle [OF s t] .
  have "is_active s" "t \<noteq> RunStatus.QUEUED" "is_active t \<Longrightarrow> t = RunStatus.PAUSED"
    using s(2) t by (auto simp: is_active_def is_settled_def)
  then show ?thesis
    using slot_move [OF inv s(1) _ step, of c'] c' d executing_run(2) [OF inv ex] by auto
qed

lemma start_next_executing:
  "(fst (start_next now c))\<lparr>co_executing := x\<rparr> = fst (start_next now (c\<lparr>co_executing := x\<rparr>))"
  by (auto simp: start_next_def action_defs db_call_def put_command_def
      split: option.split sum.split prod.split)

text \<open>
  Writing a settled status, then freeing the slot: a paused run keeps it, after any other outcome
  the next queued run starts.
\<close>

lemma settle_paused:
  assumes inv: "coord_inv c" and ex: "co_executing c = Some (action, rid, n)"
    and m: "m = set_status_and_append_event now rid RunStatus.PAUSED et st msg pl err"
    and pl: "json_finite (VDict pl)"
  shows "\<exists>x c1. db_call m c = (c1, Inr x) \<and> advances c (c1\<lparr>co_executing := None\<rparr>) \<and>
    advances c ((fst (discard_control rid c1))\<lparr>co_executing := None\<rparr>)"
proof -
  from executing_run(1) [OF inv ex] obtain s where s: "(rid, s) \<in> set (coord_view c)" by blast
  from db_call_settle [OF coord_invD(1) [OF inv] s pl, of now RunStatus.PAUSED et st msg err]
  obtain d x where d: "db_call m c = (c\<lparr>co_db := d\<rparr>, Inr x)" "runtime_wf d"
      "run_view d = view_set rid RunStatus.PAUSED (coord_view c)" unfolding m by blast
  have t: "is_settled RunStatus.PAUSED" "is_active RunStatus.PAUSED"
    by (simp_all add: is_settled_def is_active_def)
  show ?thesis
    using settle_slot [OF inv ex d(2,3) t(1) disjI1 [OF refl]]
      settle_slot [OF inv ex d(2,3) t(1) disjI2 [OF refl], of "control_discard rid (co_controls c)"]
      t(2) d(1)
    by (simp add: discard_control_def modifyA_def)
qed

lemma settle_final:
  assumes inv: "coord_inv c" and ex: "co_executing c = Some (action, rid, n)"
    and t: "is_settled t" and pl: "json_finite (VDict pl)"
  shows "advances c ((fst (seqA (db_call (set_status_and_append_event now rid t et st msg pl err))
      (seqA (discard_control rid) (start_next now)) c))\<lparr>co_executing := None\<rparr>)"
proof -
  from executing_run(1) [OF inv ex] obtain s where s: "(rid, s) \<in> set (coord_view c)" by blast
  from db_call_settle [OF coord_invD(1) [OF inv] s pl, of now t et st msg err]
  obtain d x where d: "db_call (set_status_and_append_event now rid t et st msg pl err) c =
      (c\<lparr>co_db := d\<rparr>, Inr x)" "runtime_wf d" "run_view d = view_set rid t (coord_view c)" by blast
  let ?k = "control_discard rid (co_controls c)"
  let ?c' = "c\<lparr>co_db := d, co_controls := ?k, co_executing := None\<rparr>"
  have "slot_inv ?c'" "queue_step (coord_view c) (coord_view ?c')"
    using settle_slot [OF inv ex d(2,3) t] by blast+
  then have "advances c (fst (start_next now ?c'))"
    using start_next_advances [of ?c' now]
    by (auto simp: advances_def intro: converse_rtranclp_into_rtranclp)
  then show ?thesis
    using d(1) by (simp add: seqA_def [of "db_call f" for f] bindA_def discard_control_def
        action_simps start_next_executing)
qed

lemma finish_advances:
  assumes inv: "coord_inv c"
  shows "advances c (finish_execution now out c)"
proof (cases "co_executing c")
  case None
  then show ?thesis using advances_refl [OF inv] by (simp add: finish_execution_def)
next
  case (Some x)
  obtain action rid n where ex: "co_executing c = Some (action, rid, n)"
    using Some by (cases x) auto
  have fin: "finish_execution now out c = (fst (record_outcome now rid n out c))\<lparr>co_executing := None\<rparr>"
    by (simp add: finish_execution_def ex)
  have paused: "advances c ((fst (seqA (db_call (set_status_and_append_event now rid
      RunStatus.PAUSED et st msg pl err)) k c))\<lparr>co_executing := None\<rparr>)"
    if "json_finite (VDict pl)" "k = returnA () \<or> k = discard_control rid" for et st msg pl err k
    using settle_paused [OF inv ex refl that(1), of now et st msg err] that(2)
    by (auto simp: seqA_def bindA_def returnA_def)
  have plain: "advances c ((fst (db_call (set_status_and_append_event now rid
      RunStatus.PAUSED et st msg pl err) c))\<lparr>co_executing := None\<rparr>)"
    if "json_finite (VDict pl)" for et st msg pl err
    using paused [OF that disjI1 [OF refl]] by (simp add: action_simps)
  have marked: "advances c ((fst (db_call (set_status now rid RunStatus.PAUSED None) c))
      \<lparr>co_executing := None\<rparr>)"
  proof -
    from executing_run(1) [OF inv ex] obtain s where s: "(rid, s) \<in> set (coord_view c)" by blast
    from db_call_set_status [OF coord_invD(1) [OF inv] s, of now RunStatus.PAUSED None]
    obtain d x where d: "db_call (set_status now rid RunStatus.PAUSED None) c =
        (c\<lparr>co_db := d\<rparr>, Inr x)" "runtime_wf d"
        "run_view d = view_set rid RunStatus.PAUSED (coord_view c)" by blast
    show ?thesis
      using settle_slot [OF inv ex d(2,3)] d(1) by (simp add: is_settled_def is_active_def)
  qed
  show ?thesis
  proof (cases out)
    case (GraphSourceChanged code entry)
    then show ?thesis unfolding fin record_outcome_def by (simp add: paused)
  next
    case (GraphRaised exc)
    then show ?thesis unfolding fin record_outcome_def
      by (simp add: Let_def settle_final [OF inv ex] is_settled_def)
  next
    case (GraphReturned ints)
    then show ?thesis unfolding fin record_outcome_def
      using marked
      by (auto simp: plain settle_final [OF inv ex] is_settled_def action_simps split: option.split)
  qed
qed

section \<open>Credential operations leave the runs alone\<close>

definition credential_frame :: "('p, 'b, 'k) coord \<Rightarrow> ('p, 'b, 'k) coord \<Rightarrow> bool" where
  "credential_frame c c' \<longleftrightarrow> same_runs (co_db c) (co_db c') \<and>
     (runtime_wf (co_db c) \<longrightarrow> runtime_wf (co_db c')) \<and> co_controls c' = co_controls c \<and>
     co_commands c' = co_commands c \<and> co_worker c' = co_worker c \<and>
     co_executing c' = co_executing c \<and> co_shutdown c' = co_shutdown c \<and>
     co_checkpoints c' = co_checkpoints c"

definition leaves_runs :: "(('p, 'b, 'k) coord, 'a) action \<Rightarrow> bool" where
  "leaves_runs m \<longleftrightarrow> (\<forall>c. credential_frame c (fst (m c)))"

named_theorems leaves_intro \<open>credential operations are built from these\<close>

lemma credential_frame_refl [simp]: "credential_frame c c"
  by (simp add: credential_frame_def)

lemma credential_frame_trans: "credential_frame a b \<Longrightarrow> credential_frame b c \<Longrightarrow> credential_frame a c"
  by (auto simp: credential_frame_def intro: same_runs_trans)

lemma leaves_basic [leaves_intro]:
  "leaves_runs (returnA a)" "leaves_runs (raiseA e)" "leaves_runs (getA g)"
  "leaves_runs (resultA r)" "leaves_runs (disconnect pid)" "leaves_runs (set_descriptor d)"
  by (simp_all add: leaves_runs_def action_defs disconnect_def set_descriptor_def
      credential_frame_def split: sum.split)

lemma leaves_bind [leaves_intro]:
  assumes "leaves_runs m" and "\<And>a. leaves_runs (k a)"
  shows "leaves_runs (bindA m k)"
proof -
  have "credential_frame c (fst (bindA m k c))" for c
  proof -
    obtain c' r where m: "m c = (c', r)" by fastforce
    have "credential_frame c c'" using assms(1) m by (auto simp: leaves_runs_def dest: spec [of _ c])
    moreover have "credential_frame c' (fst (k a c'))" for a
      using assms(2) by (simp add: leaves_runs_def)
    ultimately show ?thesis
      by (cases r) (auto simp: bindA_def m intro: credential_frame_trans)
  qed
  then show ?thesis by (simp add: leaves_runs_def)
qed

lemma leaves_seq [leaves_intro]: "leaves_runs m \<Longrightarrow> leaves_runs k \<Longrightarrow> leaves_runs (seqA m k)"
  by (simp add: seqA_def leaves_intro)

lemma leaves_try [leaves_intro]: "leaves_runs m \<Longrightarrow> leaves_runs (tryA m)"
  by (simp add: leaves_runs_def tryA_def case_prod_unfold)

lemma leaves_if [leaves_intro]:
  "leaves_runs m \<Longrightarrow> leaves_runs m' \<Longrightarrow> leaves_runs (if b then m else m')"
  by simp

lemma leaves_vault [leaves_intro]: "leaves_runs (vault_call f)"
  by (simp add: leaves_runs_def vault_call_def credential_frame_def split: option.split sum.split)

lemma leaves_mark [leaves_intro]: "leaves_runs (db_write (mark_provider_reconnect_required now pid))"
  using mark_reconnect_Inr
  by (fastforce simp: leaves_runs_def db_write_def db_call_def credential_frame_def bind_res_def
      split: sum.split)

lemma leaves_save [leaves_intro]: "leaves_runs (save_profile e fails sp)"
  using save_provider_profile_Inr
  by (fastforce simp: leaves_runs_def save_profile_def db_write_def db_call_def raiseA_def
      credential_frame_def bind_res_def split: sum.split)

lemma leaves_replaceable [leaves_intro]: "leaves_runs (ensure_profile_replaceable pid)"
  by (simp add: ensure_profile_replaceable_def leaves_intro)

lemma leaves_install [leaves_intro]:
  "leaves_runs (\<lambda>c. case install_provider up ia fac p key (co_sessions c) of
     Inl err \<Rightarrow> (c, Inl err) | Inr (s, d) \<Rightarrow> (c\<lparr>co_sessions := s\<rparr>, Inr d))"
  by (simp add: leaves_runs_def credential_frame_def split: sum.split prod.split)

lemma leaves_connect: "leaves_runs (connect_provider e now gf ff profile key)"
  unfolding connect_provider_def Let_def by (intro leaves_intro)

lemma leaves_forget: "leaves_runs (forget_provider_credential e now pid)"
  unfolding forget_provider_credential_def by (intro leaves_intro)

lemma leaves_sum [leaves_intro]:
  "(\<And>x. leaves_runs (f x)) \<Longrightarrow> (\<And>y. leaves_runs (g y)) \<Longrightarrow> leaves_runs (case s of Inl x \<Rightarrow> f x | Inr y \<Rightarrow> g y)"
  by (simp split: sum.split)

lemma leaves_option [leaves_intro]:
  "leaves_runs n \<Longrightarrow> (\<And>y. leaves_runs (g y)) \<Longrightarrow> leaves_runs (case s of None \<Rightarrow> n | Some y \<Rightarrow> g y)"
  by (simp split: option.split)

lemma leaves_install_saved [leaves_intro]: "leaves_runs (install_saved e sp key)"
  unfolding install_saved_def by (intro leaves_intro)

lemma leaves_restore: "leaves_runs (restore_saved_profile e now sp)"
  unfolding restore_saved_profile_def Let_def by (intro leaves_intro)

lemma leaves_restore_all: "leaves_runs (restore_all e now sps)"
  by (induction sps) (simp_all add: leaves_intro leaves_restore)

lemma leaves_restore_profiles: "leaves_runs (restore_saved_profiles e now)"
  unfolding restore_saved_profiles_def by (intro leaves_intro leaves_restore_all)

lemma leaves_advances:
  assumes "leaves_runs m" and inv: "coord_inv c"
  shows "advances c (fst (m c))"
proof -
  have "credential_frame c (fst (m c))" using assms(1) by (simp add: leaves_runs_def)
  then show ?thesis using coord_invD [OF inv]
    by (intro advances_frame [OF inv]) (auto simp: credential_frame_def same_runs_view owned_def)
qed

section \<open>A restart succeeds and re-establishes the invariant\<close>

definition profile_keys :: "('p, 'b, 'k) coord \<Rightarrow> string set" where
  "profile_keys c = fst ` set (saved_profiles (co_db c))"

lemma mark_returns:
  assumes "runtime_wf (co_db c)" and "pid \<in> profile_keys c"
  shows "\<exists>d. db_write (mark_provider_reconnect_required now pid) c = (c\<lparr>co_db := d\<rparr>, Inr ()) \<and>
    runtime_wf d \<and> profile_keys (c\<lparr>co_db := d\<rparr>) = profile_keys c"
proof -
  from mark_reconnect_succeeds [OF assms(1)] assms(2) obtain d where
    d: "mark_provider_reconnect_required now pid (co_db c) = Inr d" by (auto simp: profile_keys_def)
  from mark_reconnect_Inr [OF d] assms(1) have "runtime_wf d"
    and "map fst (saved_profiles d) = map fst (saved_profiles (co_db c))" by auto
  then show ?thesis using d
    by (auto simp: db_write_def db_call_def profile_keys_def simp flip: set_map)
qed

lemma restore_returns:
  assumes "runtime_wf (co_db c)" and "profile_id (sp_profile sp) \<in> profile_keys c"
  shows "snd (restore_saved_profile e now sp c) = Inr () \<and>
    runtime_wf (co_db (fst (restore_saved_profile e now sp c))) \<and>
    profile_keys (fst (restore_saved_profile e now sp c)) = profile_keys c"
proof -
  let ?pid = "profile_id (sp_profile sp)"
  have db: "co_db x = co_db c" if "install_saved e sp key c = (x, r)" for key x r
    using that by (auto simp: install_saved_def bindA_def set_descriptor_def
        split: sum.splits prod.splits)
  have mark: "snd (db_write (mark_provider_reconnect_required now ?pid) x) = Inr () \<and>
      runtime_wf (co_db (fst (db_write (mark_provider_reconnect_required now ?pid) x))) \<and>
      profile_keys (fst (db_write (mark_provider_reconnect_required now ?pid) x)) = profile_keys c"
    if "co_db x = co_db c" for x
  proof -
    have "runtime_wf (co_db x)" "?pid \<in> profile_keys x" "profile_keys x = profile_keys c"
      using assms that by (simp_all add: profile_keys_def)
    with mark_returns [of x ?pid now] show ?thesis by auto
  qed
  have keys: "profile_keys x = profile_keys c" if "co_db x = co_db c" for x
    using that by (simp add: profile_keys_def)
  show ?thesis
    unfolding restore_saved_profile_def Let_def
    using mark [OF refl] keys assms(1)
    by (auto simp: action_simps bindA_def [of "tryA m" for m] tryA_def returnA_def mark
        dest: db split: option.split sum.split prod.split)
qed

lemma restore_all_returns:
  assumes "runtime_wf (co_db c)" and "\<forall>sp \<in> set sps. profile_id (sp_profile sp) \<in> profile_keys c"
  shows "snd (restore_all e now sps c) = Inr () \<and> runtime_wf (co_db (fst (restore_all e now sps c)))"
  using assms
proof (induction sps arbitrary: c)
  case Nil
  then show ?case by (simp add: returnA_def)
next
  case (Cons sp sps)
  have "snd (restore_saved_profile e now sp c) = Inr ()"
    and wf: "runtime_wf (co_db (fst (restore_saved_profile e now sp c)))"
    and keys: "profile_keys (fst (restore_saved_profile e now sp c)) = profile_keys c"
    using restore_returns [of c sp e now] Cons.prems by auto
  then have "restore_all e now (sp # sps) c =
      restore_all e now sps (fst (restore_saved_profile e now sp c))"
    by (cases "restore_saved_profile e now sp c") (simp add: seqA_def bindA_def)
  then show ?case using Cons.IH [OF wf] Cons.prems(2) keys by simp
qed

lemma listed_profile_keys:
  assumes "sp \<in> set (list_saved_provider_profiles up ia db)"
  shows "profile_id (sp_profile sp) \<in> fst ` set (saved_profiles db)"
proof -
  from assms obtain row where row: "row \<in> set (saved_profiles db)"
    "saved_provider_profile up ia row = Inr sp"
    by (auto simp: list_saved_provider_profiles_def List.map_filter_def split: sum.splits option.splits)
  obtain pk sp0 where "row = (pk, sp0)" by (cases row)
  with row(2) have "profile_id (sp_profile sp) = fst row"
    by (auto simp: saved_provider_profile_def bind_res_Inr_iff validate_provider_profile_def Let_def
        split: if_splits option.splits sum.splits)
  with row(1) show ?thesis by auto
qed

lemma recovered_active: "is_active (recovered s) \<Longrightarrow> recovered s = RunStatus.PAUSED"
  by (cases s) (auto simp: recovered_def is_active_def)

lemma working_recovered: "working (map (\<lambda>(i, s). (i, recovered s)) v) = []"
proof (induction v)
  case (Cons x v)
  then show ?case
    using recovered_active [of "snd x"] by (cases x) (auto simp: working_def actives_def)
qed (simp add: working_def actives_def)

text \<open>
  Starting a fresh process on a stored database succeeds, pauses what was running, and then keeps
  the invariant.
\<close>

lemma start_fresh:
  assumes wf: "runtime_wf db" and slot: "single_slot (run_view db)"
  shows "snd (start e now (fresh_coordinator db vault cps)) = Inr () \<and>
    coord_inv (fst (start e now (fresh_coordinator db vault cps))) \<and>
    co_worker (fst (start e now (fresh_coordinator db vault cps))) = Alive \<and>
    queue_step\<^sup>*\<^sup>* (run_view db) (coord_view (fst (start e now (fresh_coordinator db vault cps))))"
proof -
  let ?f = "fresh_coordinator db vault cps :: ('a, 'b, 'c) coord"
  let ?rv = "map (\<lambda>(i, s). (i, recovered s)) (run_view db)"
  from recover_unfinished_spec [OF wf, of now] obtain d ids where
    d: "recover_unfinished now db = Inr (d, ids)" "runtime_wf d" "run_view d = ?rv" by blast
  let ?c1 = "?f\<lparr>co_db := d\<rparr>"
  have call: "db_call (recover_unfinished now) ?f = (?c1, Inr ids)"
    using d(1) by (simp add: db_call_def fresh_coordinator_def)
  obtain c2 r where c2: "restore_saved_profiles e now ?c1 = (c2, r)" by fastforce
  have "snd (restore_saved_profiles e now ?c1) = Inr ()"
    unfolding restore_saved_profiles_def action_simps
    using restore_all_returns [of ?c1] d(2) listed_profile_keys
    by (simp add: profile_keys_def)
  then have r: "r = Inr ()" using c2 by simp
  have frame: "credential_frame ?c1 c2"
    using leaves_restore_profiles [of e now] c2 by (auto simp: leaves_runs_def dest: spec [of _ ?c1])
  let ?c3 = "c2\<lparr>co_worker := Alive\<rparr>"
  have view: "coord_view ?c3 = ?rv" "runtime_wf (co_db ?c3)" "owned ?c3 = []"
      "co_executing ?c3 = None"
    using frame d(2,3) same_runs_view [of d "co_db c2"]
    by (auto simp: credential_frame_def owned_def fresh_coordinator_def List.map_filter_simps)
  have "queue_step (run_view db) ?rv" by (rule queue_step.recover)
  with queue_step_single_slot [OF slot this] view have slot3: "slot_inv ?c3"
    by (simp add: slot_inv_def working_recovered)
  define c4 where "c4 = (if active_run (co_db ?c3) = None then start_next now ?c3 else (?c3, Inr ()))"
  have "start e now ?f = c4"
    using call c2 r by (simp add: start_def seqA_def bindA_def modifyA_def c4_def fresh_coordinator_def)
  moreover have "snd c4 = Inr () \<and> advances ?c3 (fst c4)"
    using start_next_advances [OF slot3, of now] slot3 active_run_None_iff [of "co_db ?c3"]
    by (auto simp: c4_def advances_def coord_inv_def no_idle_queue_def)
  moreover have "co_worker (fst c4) = Alive"
    by (auto simp: c4_def start_next_def action_defs db_call_def put_command_def
        split: option.split sum.split prod.split)
  moreover have "queue_step\<^sup>*\<^sup>* (run_view db) (coord_view ?c3)"
    unfolding view(1) by (rule r_into_rtranclp) (rule queue_step.recover)
  ultimately show ?thesis by (auto simp: advances_def)
qed

section \<open>Every step\<close>

lemma take_advances:
  assumes inv: "coord_inv c" and idle: "co_worker c = Alive" "co_executing c = None"
  shows "advances c (take_command c)"
proof -
  note invs = coord_invD [OF inv]
  have "rid \<in> fst ` set (coord_view c)" if cmd: "co_commands c = Some (a, rid) # cs" for a rid cs
  proof -
    have "rid \<in> set (working (coord_view c))"
      using invs(3) cmd by (simp add: owned_def List.map_filter_simps flip: invs(3))
    then show ?thesis using working_in_view by force
  qed
  then have "\<exists>run. get_run rid (co_db c) = Inr run" if "co_commands c = Some (a, rid) # cs" for a rid cs
    using that row_of_view [of rid "co_db c"] by (auto simp: get_run_def)
  then have "owned (take_command c) = owned c \<and>
      (co_executing (take_command c) \<noteq> None \<longrightarrow> co_worker (take_command c) = Alive) \<and>
      co_db (take_command c) = co_db c \<and> co_shutdown (take_command c) = co_shutdown c"
    using idle by (auto simp: take_command_def owned_def List.map_filter_simps
        split: list.split option.split sum.split)
  then show ?thesis using invs by (intro advances_frame [OF inv]) auto
qed

lemma step_advances:
  assumes "coord_inv c" and "coord_step e c c'"
  shows "advances c c'"
  using assms(2)
proof cases
  case (st_restart now)
  have "slot_inv c" using assms(1) by (rule coord_invD)
  with start_fresh [of "co_db c" e now "co_vault c" "co_checkpoints c"] st_restart show ?thesis
    by (auto simp: slot_inv_def advances_def)
qed (use assms(1) in \<open>auto intro: submit_advances stop_advances resume_advances pause_all_advances
      shutdown_advances delete_advances leaves_advances leaves_connect leaves_forget take_advances
      emit_advances clear_advances invoke_resume_advances finish_advances\<close>)

lemma single_slot_empty: "single_slot (run_view empty_runtime_db)"
  by (simp add: single_slot_def run_view_def empty_runtime_db_def actives_def)

lemma init_inv:
  assumes "coord_init e c"
  shows "coord_inv c"
proof -
  from assms obtain now vault cps where
    "c = fst (start e now (fresh_coordinator empty_runtime_db vault cps))"
    by (auto simp: coord_init_def)
  then show ?thesis using start_fresh [OF runtime_wf_empty single_slot_empty, of e now vault cps] by simp
qed

interpretation coordinator: transition_system "coord_init e" "coord_step e" coord_inv for e
  by unfold_locales (auto dest: init_inv step_advances advances_inv)

end
