(* ===== verification/Credentials.thy ===== *)
theory Credentials
  imports Coordinator_Inv
begin

text \<open>
  The order of the writes in \<open>connect_provider\<close> and \<open>forget_provider_credential\<close>: on every outcome,
  a failure between two writes included, a stored profile that says its credential is available
  has its secret in the vault.
\<close>

type_synonym 'b stored = "'b \<Rightarrow> string \<Rightarrow> string \<Rightarrow> string option"

definition has_secret :: "'b stored \<Rightarrow> ('p, 'b, 'k) coord \<Rightarrow> string \<Rightarrow> bool" where
  "has_secret st c pid \<longleftrightarrow> (\<exists>b. co_vault c = Some b \<and> vault_holds st b pid \<noteq> None)"

definition expects :: "('p, 'b, 'k) coord \<Rightarrow> string \<Rightarrow> bool" where
  "expects c pid \<longleftrightarrow> (\<exists>sp. (pid, sp) \<in> set (saved_profiles (co_db c)) \<and> sp_credential_expected sp)"

definition backed :: "'b stored \<Rightarrow> ('p, 'b, 'k) coord \<Rightarrow> bool" where
  "backed st c \<longleftrightarrow> (\<forall>pid. expects c pid \<longrightarrow> has_secret st c pid)"

definition backed_but :: "'b stored \<Rightarrow> string \<Rightarrow> ('p, 'b, 'k) coord \<Rightarrow> bool" where
  "backed_but st pid c \<longleftrightarrow> (\<forall>q. q \<noteq> pid \<longrightarrow> expects c q \<longrightarrow> has_secret st c q)"

lemmas backed_defs = backed_def backed_but_def has_secret_def expects_def

lemma save_provider_profile_rows:
  assumes "save_provider_profile up ia sp db = Inr db'"
  shows "\<exists>sp'. sp_credential_expected sp' = sp_credential_expected sp \<and>
    (\<forall>x. x \<in> set (saved_profiles db') \<longrightarrow>
       x = (profile_id (sp_profile sp), sp') \<or> fst x \<noteq> profile_id (sp_profile sp) \<and> x \<in> set (saved_profiles db))"
proof -
  from assms obtain p where p: "validate_provider_profile up ia (sp_profile sp) = Inr p"
    by (auto simp: save_provider_profile_def bind_res_Inr_iff)
  from assms have "\<forall>x. x \<in> set (saved_profiles db') \<longrightarrow>
      x = (profile_id p, sp\<lparr>sp_profile := p\<rparr>) \<or> fst x \<noteq> profile_id p \<and> x \<in> set (saved_profiles db)"
    by (fastforce simp: save_provider_profile_def p Let_def row_of_None_iff set_update_where
        image_iff split: if_splits)
  then show ?thesis using validate_provider_profile_id [OF p]
    by (intro exI [of _ "sp\<lparr>sp_profile := p\<rparr>"]) simp
qed

lemma mark_reconnect_rows:
  assumes "mark_provider_reconnect_required now pid db = Inr db'"
    and "(k, sp) \<in> set (saved_profiles db')" and "sp_credential_expected sp"
  shows "k \<noteq> pid \<and> (k, sp) \<in> set (saved_profiles db)"
  using assms by (auto simp: mark_provider_reconnect_required_def set_update_where split: if_splits)

lemma valid_saved_unchanged:
  assumes "\<And>c. saved_profiles (co_db (fst (m c))) = saved_profiles (co_db c) \<and>
    co_vault (fst (m c)) = co_vault c"
  shows "valid (backed st) m (\<lambda>r. backed st)" "valid (backed_but st pid) m (\<lambda>r. backed_but st pid)"
    "valid (\<lambda>c. backed_but st pid c \<and> \<not> expects c pid) m (\<lambda>r c. backed_but st pid c \<and> \<not> expects c pid)"
  using assms by (simp_all add: valid_def backed_defs)

lemma backed_split: "backed st c \<longleftrightarrow> backed_but st pid c \<and> (expects c pid \<longrightarrow> has_secret st c pid)"
  by (auto simp: backed_def backed_but_def)

lemma save_profile_outcome:
  assumes "save_profile e fails sp c = (c', r)" and "profile_id (sp_profile sp) = pid"
  shows "(c' = c \<and> (\<exists>err. r = Inl err)) \<or>
    (r = Inr () \<and> co_vault c' = co_vault c \<and>
     (expects c' pid \<longrightarrow> sp_credential_expected sp) \<and> (\<forall>q. q \<noteq> pid \<longrightarrow> expects c' q \<longrightarrow> expects c q))"
proof (cases "fails \<or> (\<exists>err. save_provider_profile (env_urlparse e) (env_ip_address e) sp (co_db c) = Inl err)")
  case True
  then show ?thesis using assms(1)
    by (auto simp: save_profile_def raiseA_def db_write_def db_call_def split: if_splits)
next
  case False
  then obtain d where d: "save_provider_profile (env_urlparse e) (env_ip_address e) sp (co_db c) = Inr d"
    by (cases "save_provider_profile (env_urlparse e) (env_ip_address e) sp (co_db c)") auto
  have c': "c' = c\<lparr>co_db := d\<rparr>" "r = Inr ()"
    using False d assms(1) by (auto simp: save_profile_def db_write_def db_call_def)
  from save_provider_profile_rows [OF d] show ?thesis
    unfolding c' expects_def assms(2) by auto
qed

lemma save_blocked_valid:
  assumes "profile_id (sp_profile sp) = pid" and "\<not> sp_credential_expected sp"
  shows "valid (backed st) (save_profile e fails sp) (\<lambda>r c. case r of Inl _ \<Rightarrow> backed st c
    | Inr _ \<Rightarrow> backed_but st pid c \<and> \<not> expects c pid)"
proof -
  have "case r of Inl _ \<Rightarrow> backed st c' | Inr _ \<Rightarrow> backed_but st pid c' \<and> \<not> expects c' pid"
    if "backed st c" and s: "save_profile e fails sp c = (c', r)" for c c' r
    using save_profile_outcome [OF s assms(1)] that(1) assms(2)
    by (auto simp: backed_def backed_but_def has_secret_def)
  then show ?thesis unfolding valid_def by (metis prod.collapse)
qed

lemma save_final_valid:
  assumes "profile_id (sp_profile sp) = pid"
  shows "valid (\<lambda>c. backed_but st pid c \<and> \<not> expects c pid \<and> has_secret st c pid)
    (save_profile e fails sp) (\<lambda>r c. case r of Inl _ \<Rightarrow> backed_but st pid c \<and> \<not> expects c pid
    | Inr _ \<Rightarrow> backed st c)"
proof -
  have "case r of Inl _ \<Rightarrow> backed_but st pid c' \<and> \<not> expects c' pid | Inr _ \<Rightarrow> backed st c'"
    if "backed_but st pid c \<and> \<not> expects c pid \<and> has_secret st c pid"
      and s: "save_profile e fails sp c = (c', r)" for c c' r
    using save_profile_outcome [OF s assms] that(1) unfolding backed_split [of st c' pid]
    by (auto simp: backed_but_def has_secret_def)
  then show ?thesis unfolding valid_def by (metis prod.collapse)
qed

lemma mark_reconnect_valid:
  "valid (\<lambda>c. runtime_wf (co_db c) \<and> backed_but st pid c)
     (db_write (mark_provider_reconnect_required now pid)) (\<lambda>r. backed st)"
proof -
  have "backed st (fst (db_write (mark_provider_reconnect_required now pid) c))"
    if wf: "runtime_wf (co_db c)" and but: "backed_but st pid c" for c :: "('a, 'b, 'c) coord"
  proof (cases "mark_provider_reconnect_required now pid (co_db c)")
    case (Inl err)
    have "\<not> expects c pid"
    proof
      assume "expects c pid"
      then have "pid \<in> fst ` set (saved_profiles (co_db c))" by (force simp: expects_def)
      from mark_reconnect_succeeds [OF wf this, of now] Inl show False by simp
    qed
    then have "backed st c" using but by (auto simp: backed_split [of st c pid])
    then show ?thesis using Inl by (simp add: db_write_def db_call_def)
  next
    case (Inr d)
    have "expects (c\<lparr>co_db := d\<rparr>) q \<Longrightarrow> q \<noteq> pid \<and> expects c q" for q
      using mark_reconnect_rows [OF Inr] by (auto simp: expects_def)
    then show ?thesis using Inr but
      by (auto simp: db_write_def db_call_def backed_def backed_but_def has_secret_def)
  qed
  then show ?thesis by (simp add: valid_def)
qed

context keyring_backend begin

lemma save_vault_valid:
  "valid (\<lambda>c. backed_but stored pid c \<and> \<not> expects c pid) (vault_call (vault_save kr pid key))
     (\<lambda>r c. backed_but stored pid c \<and> \<not> expects c pid \<and> (r = Inr () \<longrightarrow> has_secret stored c pid))"
  by (auto simp: valid_def vault_call_def backed_defs split: option.split sum.split
      dest!: vault.holds_save)

lemma delete_vault_valid:
  "valid (\<lambda>c. backed_but stored pid c \<and> \<not> expects c pid) (vault_call (vault_delete kr pid))
     (\<lambda>r c. backed_but stored pid c \<and> \<not> expects c pid)"
  by (auto simp: valid_def vault_call_def backed_defs split: option.split sum.split
      dest!: vault.holds_delete)

lemma delete_vault_backed:
  "valid (backed stored) (vault_call (vault_delete kr pid)) (\<lambda>r c. backed_but stored pid c \<and>
     (r \<noteq> Inr () \<longrightarrow> backed stored c))"
  by (auto simp: valid_def vault_call_def backed_defs split: option.split sum.split
      dest!: vault.holds_delete)

lemma install_valid:
  "valid (backed stored) (\<lambda>c. case install_provider up ia fac p k (co_sessions c) of
       Inl err \<Rightarrow> (c, Inl err) | Inr (s, d) \<Rightarrow> (c\<lparr>co_sessions := s\<rparr>, Inr d))
     (\<lambda>r c. backed stored c \<and> (\<forall>d. r = Inr d \<longrightarrow> profile_id (pd_profile d) = profile_id p))"
  by (auto simp: valid_def backed_defs split: sum.split dest: install_provider_Inr)

lemma sessions_only:
  "valid (backed stored) (set_descriptor d) (\<lambda>r. backed stored)"
  "valid (backed stored) (disconnect pid) (\<lambda>r. backed stored)"
  "valid (backed stored) (ensure_profile_replaceable pid) (\<lambda>r. backed stored)"
  by (auto simp: valid_def backed_defs set_descriptor_def disconnect_def modifyA_def
      ensure_profile_replaceable_def resultA_def split: sum.split)

lemma backed_but_imp: "backed_but stored pid c \<Longrightarrow> \<not> expects c pid \<Longrightarrow> backed stored c"
  using backed_split [of stored c pid] by blast

lemma last_step:
  assumes "\<And>c. P c \<Longrightarrow> backed stored c"
  shows "valid P (seqA (set_descriptor d) (returnA a)) (\<lambda>r. backed stored)"
    "valid P (seqA (disconnect pid) (raiseA err)) (\<lambda>r. backed stored)"
proof -
  have "valid P (set_descriptor d) (\<lambda>r. backed stored)" "valid P (disconnect pid) (\<lambda>r. backed stored)"
    using assms sessions_only by (auto intro: valid_weaken)
  then show "valid P (seqA (set_descriptor d) (returnA a)) (\<lambda>r. backed stored)"
    "valid P (seqA (disconnect pid) (raiseA err)) (\<lambda>r. backed stored)"
    by (auto simp: valid_def seqA_def bindA_def returnA_def raiseA_def split: sum.split prod.split)
qed

lemma connect_valid:
  assumes "env_keyring e = kr"
  shows "valid (backed stored) (connect_provider e now gf ff profile key) (\<lambda>r. backed stored)"
proof -
  let ?pid = "profile_id profile"
  let ?open = "\<lambda>c. backed_but stored ?pid c \<and> \<not> expects c ?pid"
  let ?saved = "\<lambda>c. backed_but stored ?pid c \<and> \<not> expects c ?pid \<and> has_secret stored c ?pid"
  have comp: "valid ?open (bindA (tryA (vault_call (vault_delete (env_keyring e) ?pid))) (\<lambda>comp.
      if (case comp of Inl _ \<Rightarrow> True | Inr _ \<Rightarrow> False)
      then seqA (disconnect ?pid) (raiseA RuntimeError)
      else seqA (set_descriptor d) (returnA a))) (\<lambda>r. backed stored)" for d a
    unfolding assms
    by (rule valid_try [OF delete_vault_valid]) (auto intro!: last_step intro: backed_but_imp)
  have final: "valid ?saved (bindA (tryA (save_profile e ff sp)) (\<lambda>final.
      if (case final of Inl _ \<Rightarrow> False | Inr _ \<Rightarrow> True)
      then seqA (set_descriptor d) (returnA a) else k)) (\<lambda>r. backed stored)"
    if "profile_id (sp_profile sp) = ?pid" "valid ?open k (\<lambda>r. backed stored)" for sp d a k
    by (rule valid_try [OF save_final_valid [OF that(1)]]) (simp_all add: that(2) last_step)
  have vault: "valid ?open (bindA (tryA (vault_call (vault_save (env_keyring e) ?pid key))) (\<lambda>saved.
      if (case saved of Inl _ \<Rightarrow> True | Inr _ \<Rightarrow> False)
      then seqA (set_descriptor d) (returnA a) else k)) (\<lambda>r. backed stored)"
    if "valid ?saved k (\<lambda>r. backed stored)" for d a k
    unfolding assms
    by (rule valid_try [OF save_vault_valid])
      (auto intro!: last_step intro: backed_but_imp valid_weaken [OF that])
  have guard: "valid (backed stored) (bindA (tryA (save_profile e gf sp)) (\<lambda>guard.
      if (case guard of Inl _ \<Rightarrow> True | Inr _ \<Rightarrow> False)
      then seqA (disconnect ?pid) (raiseA RuntimeError) else k)) (\<lambda>r. backed stored)"
    if "profile_id (sp_profile sp) = ?pid" "\<not> sp_credential_expected sp"
      "valid ?open k (\<lambda>r. backed stored)" for sp k
    by (rule valid_try [OF save_blocked_valid [OF that(1,2)]]) (simp_all add: that(3) last_step)
  have known: "valid (backed stored) (if b then ensure_profile_replaceable ?pid else returnA ())
      (\<lambda>r s. case r of Inl e \<Rightarrow> backed stored s | Inr _ \<Rightarrow> backed stored s)" for b
    using sessions_only(3) by (auto simp: valid_def returnA_def split: sum.split)
  show ?thesis
    unfolding connect_provider_def Let_def
  proof (rule valid_bindA [where Q = "\<lambda>r. backed stored"], goal_cases)
    case 1
    show ?case by (simp add: valid_def getA_def)
  next
    case (3 b)
    show ?case
    proof (rule valid_seqA [OF known], rule valid_bindA [OF install_valid], goal_cases)
      case (2 d)
      show ?case
      proof (cases "profile_id (pd_profile d) = ?pid")
        case True
        show ?thesis
          by (rule valid_weaken, rule guard) (auto simp: True intro!: vault final comp)
      next
        case False
        then show ?thesis by (simp add: valid_def)
      qed
    qed simp
  qed simp
qed

lemma forget_valid:
  assumes "env_keyring e = kr" and wf: "runtime_wf (co_db c)" and b: "backed stored c"
  shows "backed stored (fst (forget_provider_credential e now pid c))"
proof (cases "snd (ensure_profile_replaceable pid c)")
  case (Inl err)
  then show ?thesis using b
    by (simp add: forget_provider_credential_def seqA_def bindA_def ensure_profile_replaceable_def
        resultA_def split: if_splits)
next
  case (Inr u)
  let ?m = "db_write (mark_provider_reconnect_required now pid)"
  let ?c1 = "c\<lparr>co_sessions := disconnect_provider pid (co_sessions c)\<rparr>"
  have ok: "ensure_profile_replaceable pid c = (c, Inr ())"
    using Inr by (simp add: ensure_profile_replaceable_def resultA_def split: if_splits)
  have "forget_provider_credential e now pid c =
      seqA (if co_vault c = None then returnA ()
            else bindA (tryA (vault_call (vault_delete (env_keyring e) pid))) (\<lambda>r.
              if (case r of Inl _ \<Rightarrow> True | Inr _ \<Rightarrow> False) then raiseA VaultUnavailableError
              else returnA ())) ?m ?c1"
    by (simp add: forget_provider_credential_def action_run(1) [where m = "ensure_profile_replaceable pid", OF ok] disconnect_def action_simps)
  moreover have "backed stored (fst (?m c'))" if "runtime_wf (co_db c')" "backed_but stored pid c'"
    for c' using mark_reconnect_valid [of stored pid now] that by (auto simp: valid_def)
  moreover have "runtime_wf (co_db ?c1)" "backed stored ?c1" "backed_but stored pid ?c1"
    using wf b by (auto simp: backed_defs)
  moreover have "runtime_wf (co_db c') \<and> backed_but stored pid c' \<and> (r \<noteq> Inr () \<longrightarrow> backed stored c')"
    if "vault_call (vault_delete kr pid) ?c1 = (c', r)" for c' r
  proof -
    have "co_db c' = co_db c"
      using that by (auto simp: vault_call_def split: option.splits sum.splits)
    moreover have "backed stored ?c1" using b by (auto simp: backed_defs)
    ultimately show ?thesis
      using delete_vault_backed [of pid] that wf by (auto simp: valid_def dest!: spec [of _ ?c1])
  qed
  ultimately show ?thesis
    by (auto simp: seqA_def bindA_def tryA_def returnA_def raiseA_def assms(1)
        split: prod.splits sum.splits)
qed

end

text \<open>The other steps do not touch the saved profiles or the vault.\<close>

end
