(* ===== verification/Runtime_Correctness.thy ===== *)
theory Runtime_Correctness
  imports Credentials
begin

text \<open>
  The properties of the agent runtime: what holds in every state the coordinator can reach, what
  its operations do on every branch, and a concrete coordinator on which they are evaluated.
\<close>

section \<open>A concrete coordinator\<close>

definition demo_env :: "(nat, string \<times> string \<Rightarrow> string option, string list) env" where
  "demo_env =
     \<lparr>env_urlparse = (\<lambda>u. \<lparr>url_scheme = ''https'', url_hostname = Some u, url_username = None,
                          url_password = None, url_query = []\<rparr>),
      env_ip_address = (\<lambda>_. None),
      env_factory = (\<lambda>config. Some (length config, [(''chat'', True)])),
      env_keyring = memory_keyring,
      env_delete_thread = (\<lambda>t k. Some (removeAll t k)),
      env_workspace = Some (\<lambda>w. if w = ''w1'' then Some WorkspaceState.READY else
                                  if w = ''w2'' then Some WorkspaceState.DELETING else None)\<rparr>"

definition demo_profile :: ProviderProfile where
  "demo_profile =
     \<lparr>profile_id = ''p1'', provider = ''openai'', base_url = None, fast_model = None,
      balanced_model = None, reasoning_model = None, embedding_model = None\<rparr>"

type_synonym demo_coord = "(nat, string \<times> string \<Rightarrow> string option, string list) coord"

definition demo_started :: demo_coord where
  "demo_started = fst (start demo_env 1 (fresh_coordinator empty_runtime_db (Some Map.empty) []))"

definition demo_connected :: demo_coord where
  "demo_connected = fst (connect_provider demo_env 2 False False demo_profile ''sk'' demo_started)"

definition demo_running :: demo_coord where
  "demo_running = fst (submit_message demo_env 3 ''r1'' ''t'' ''p1'' ''hello'' (Some ''w1'') demo_connected)"

definition demo_queued :: demo_coord where
  "demo_queued = fst (submit_message demo_env 4 ''r2'' ''t2'' ''p1'' ''again'' None demo_running)"

definition demo_executing :: demo_coord where
  "demo_executing = take_command demo_queued"

definition demo_finished :: demo_coord where
  "demo_finished = finish_execution 5 (GraphReturned []) demo_executing"

lemma demo_reach_started: "reach (coord_init demo_env) (coord_step demo_env) demo_started"
  by (rule reach_init) (auto simp: coord_init_def demo_started_def)

lemma demo_reach_queued: "reach (coord_init demo_env) (coord_step demo_env) demo_queued"
  unfolding demo_queued_def demo_running_def demo_connected_def
  by (rule reach_step, rule reach_step, rule reach_step, rule demo_reach_started,
      rule st_connect, rule st_submit, rule st_submit)

lemma demo_started_view:
  "co_worker demo_started = Alive \<and> co_executing demo_started = None \<and> coord_view demo_started = []"
  by code_simp

lemma demo_queued_view:
  "coord_view demo_queued = [(''r1'', RunStatus.RUNNING), (''r2'', RunStatus.QUEUED)] \<and>
   co_commands demo_queued = [Some (''start'', ''r1'')] \<and> co_worker demo_queued = Alive \<and>
   co_executing demo_queued = None"
  by code_simp

lemma demo_finished_view:
  "coord_view demo_finished = [(''r1'', RunStatus.COMPLETED), (''r2'', RunStatus.RUNNING)] \<and>
   co_commands demo_finished = [Some (''start'', ''r2'')]"
  by code_simp

section \<open>Properties\<close>

text \<open>
  C1: In every reachable state at most one run is active, the worker executes or is about to be
  told to execute exactly the active run when that run is not paused (so no run is ever executed
  twice or forgotten), and a coordinator that is not shut down never leaves a queued run waiting
  while no run is active.
\<close>

theorem coordinator_slot:
  assumes "reach (coord_init e) (coord_step e) c"
  shows "length (actives (coord_view c)) \<le> 1 \<and> owned c = working (coord_view c) \<and>
    (\<not> co_shutdown c \<longrightarrow> queueds (coord_view c) \<noteq> [] \<longrightarrow> actives (coord_view c) \<noteq> [])"
  using coord_invD [OF coordinator.reach_inv [OF assms]] by (auto simp: single_slot_def)

theorem coordinator_slot_witness:
  "owned demo_queued = [''r1''] \<and> length (actives (coord_view demo_queued)) \<le> 1"
  using coordinator_slot [OF demo_reach_queued] demo_queued_view
  by (simp add: working_def actives_def is_active_def)

text \<open>
  C2: Every step of the coordinator and its worker, a process restart included, is a sequence of
  steps of the run-queue machine on the statuses of the runs: a run is enqueued, admitted when the
  slot is free, promoted, stopped, resumed, settled, purged once terminal, or recovered.
\<close>

theorem coordinator_refines_queue:
  assumes "reach (coord_init e) (coord_step e) c" and "coord_step e c c'"
  shows "queue_step\<^sup>*\<^sup>* (coord_view c) (coord_view c')"
  using step_advances [OF coordinator.reach_inv [OF assms(1)] assms(2)] by (simp add: advances_def)

lemma demo_take: "coord_step demo_env demo_queued demo_executing"
  unfolding demo_executing_def using demo_queued_view by (auto intro: st_take)

lemma demo_finish: "coord_step demo_env demo_executing demo_finished"
proof -
  have "co_executing demo_executing \<noteq> None" by code_simp
  then show ?thesis unfolding demo_finished_def by (rule st_finish)
qed

theorem coordinator_refines_queue_witness:
  "queue_step\<^sup>*\<^sup>* (coord_view demo_executing)
     [(''r1'', RunStatus.COMPLETED), (''r2'', RunStatus.RUNNING)]"
  using coordinator_refines_queue [OF reach_step [OF demo_reach_queued demo_take] demo_finish]
    demo_finished_view by simp


lemma demo_wf: "runtime_wf (co_db demo_executing)"
proof -
  have "coord_inv demo_executing"
    by (rule coordinator.reach_inv [OF reach_step [OF demo_reach_queued demo_take]])
  then show ?thesis by (rule coord_invD)
qed


text \<open>
  C4: A process can always be restarted: on a well-formed database with at most one active run,
  \<open>start\<close> returns without an error whatever the provider factory and the keyring do, the worker
  is alive afterwards and the slot invariant holds.
\<close>

theorem start_succeeds:
  assumes "runtime_wf db" and "single_slot (run_view db)"
  shows "snd (start e now (fresh_coordinator db vault cps)) = Inr () \<and>
    co_worker (fst (start e now (fresh_coordinator db vault cps))) = Alive \<and>
    coord_inv (fst (start e now (fresh_coordinator db vault cps)))"
  using start_fresh [OF assms, of e now vault cps] by blast

theorem start_succeeds_witness:
  "snd (start demo_env 9 (fresh_coordinator (co_db demo_executing) None [])) = Inr ()"
proof -
  have "single_slot (run_view (co_db demo_executing))" by code_simp
  from start_succeeds [OF demo_wf this, of demo_env 9 None "[]"] show ?thesis by blast
qed






text \<open>
  \<open>submit_message\<close> succeeds exactly when its checks pass (the coordinator accepts commands, the
  provider is connected, a named workspace exists and is not being deleted); otherwise it raises and
  changes nothing. The stored run carries the message and provider, a workspace run uses the
  workspace's own checkpoint thread, and it starts at once exactly when no run is active or queued.
\<close>

theorem submit_message_outcome:
  assumes "coord_inv c" and "i \<notin> fst ` set (coord_view c)"
  shows "if submit_ready e pid ws c
    then \<exists>run. snd (submit_message e now i th pid msg ws c) = Inr run \<and> run_id run = i \<and>
      run_message run = msg \<and> run_provider_profile_id run = pid \<and> run_workspace_id run = ws \<and>
      run_thread_id run = (case ws of None \<Rightarrow> th | Some w \<Rightarrow> workspace_thread w) \<and>
      run_status run = (if actives (coord_view c) = [] \<and> queueds (coord_view c) = []
                        then RunStatus.RUNNING else RunStatus.QUEUED)
    else fst (submit_message e now i th pid msg ws c) = c \<and>
      (\<exists>err. snd (submit_message e now i th pid msg ws c) = Inl err)"
  using submit_refused submit_accepted [OF assms(1) _ assms(2)] by (cases "submit_ready e pid ws c") simp_all

theorem submit_message_outcome_witness:
  "\<exists>run. snd (submit_message demo_env 5 ''r3'' ''t'' ''p1'' ''more'' (Some ''w1'') demo_queued) = Inr run \<and>
     run_thread_id run = ''workspace:w1'' \<and> run_status run = RunStatus.QUEUED"
proof -
  have inv: "coord_inv demo_queued" by (rule coordinator.reach_inv [OF demo_reach_queued])
  have new: "''r3'' \<notin> fst ` set (coord_view demo_queued)" using demo_queued_view by simp
  have "submit_ready demo_env ''p1'' (Some ''w1'') demo_queued"
  proof -
    have "\<not> co_shutdown demo_queued \<and> has_provider ''p1'' (co_sessions demo_queued) \<and>
        check_workspace (env_workspace demo_env) ''w1'' = Inr ()" by code_simp
    then show ?thesis by (simp add: submit_ready_def)
  qed
  with submit_message_outcome [OF inv new, of demo_env "''p1''" "Some ''w1''" 5 "''t''" "''more''"]
    demo_queued_view show ?thesis by (auto simp: workspace_thread_def actives_def is_active_def)
qed

text \<open>
  Deleting a workspace's runs is all or nothing: it succeeds only when every run of the
  workspace is terminal, then exactly the runs of that workspace and their events are gone; a run
  that is still queued, active or paused makes it raise without touching the database.
\<close>

theorem delete_workspace_runs_outcome:
  assumes "coord_delete_settled_workspace_runs e ws c = (c', r)"
  shows "if r = Inr ()
    then (\<forall>run \<in> set (agent_runs (co_db c)). run_workspace_id run = Some ws \<longrightarrow> is_terminal (run_status run)) \<and>
      agent_runs (co_db c') = filter (\<lambda>run. run_workspace_id run \<noteq> Some ws) (agent_runs (co_db c)) \<and>
      agent_events (co_db c') = filter (\<lambda>ev. ev_run_id ev \<notin>
        run_id ` {run \<in> set (agent_runs (co_db c)). run_workspace_id run = Some ws}) (agent_events (co_db c))
    else co_db c' = co_db c"
proof (cases "has_unsettled_runs ws (co_db c)")
  case True
  then show ?thesis using assms by (auto simp: coord_delete_settled_workspace_runs_def)
next
  case False
  obtain k ok where k: "delete_threads (env_delete_thread e)
      (thread_ids_for_workspace ws (co_db c)) (co_checkpoints c) = (k, ok)" by fastforce
  show ?thesis
  proof (cases "ok")
    case True
    then show ?thesis using assms False k delete_settled_Inr [of ws "co_db c"]
      by (auto simp: coord_delete_settled_workspace_runs_def db_write_def db_call_def bind_res_def
          split: sum.splits)
  next
    case no: False
    then show ?thesis using assms False k by (auto simp: coord_delete_settled_workspace_runs_def)
  qed
qed

lemma demo_delete_result:
  "snd (coord_delete_settled_workspace_runs demo_env ''w1'' demo_finished) = Inr () \<and>
   map run_id (filter (\<lambda>run. run_workspace_id run \<noteq> Some ''w1'') (agent_runs (co_db demo_finished))) = [''r2'']"
  by code_simp

theorem delete_workspace_runs_outcome_witness:
  "map run_id (agent_runs (co_db (fst
     (coord_delete_settled_workspace_runs demo_env ''w1'' demo_finished)))) = [''r2'']"
  using delete_workspace_runs_outcome [OF prod.collapse [symmetric], of demo_env "''w1''" demo_finished]
    demo_delete_result by simp

text \<open>
  \<open>pause_all\<close>, and so \<open>shutdown\<close>, requests a stop of exactly the runs that are running or
  stopping, on top of the requests already made; a stop request of one run is visible to that run
  and to no other.
\<close>

theorem pause_all_requests:
  "is_stop_requested rid (co_controls (fst (pause_all c))) \<longleftrightarrow>
     (\<exists>st. (rid, st) \<in> set (coord_view c) \<and> st \<in> {RunStatus.RUNNING, RunStatus.STOPPING}) \<or>
     is_stop_requested rid (co_controls c)"
  unfolding pause_all_def modifyA_def
  using recovered_ids [of "{RunStatus.RUNNING, RunStatus.STOPPING}" "co_db c"]
  by (simp add: ctl.request_all)

text \<open>
  \<open>stop\<close> and \<open>resume\<close> accept exactly a running run, respectively a paused run whose provider is
  connected on a coordinator that accepts commands; any other call raises and changes nothing, and
  an accepted one moves that run alone, to STOPPING or back to RUNNING.
\<close>

theorem stop_resume_outcome:
  assumes "coord_inv c"
  shows "(if (rid, RunStatus.RUNNING) \<in> set (coord_view c)
      then coord_view (fst (stop now rid c)) = view_set rid RunStatus.STOPPING (coord_view c) \<and>
        is_stop_requested rid (co_controls (fst (stop now rid c)))
      else fst (stop now rid c) = c \<and> (\<exists>err. snd (stop now rid c) = Inl err)) \<and>
    (if \<exists>run. get_run rid (co_db c) = Inr run \<and> run_status run = RunStatus.PAUSED \<and>
          has_provider (run_provider_profile_id run) (co_sessions c) \<and> \<not> co_shutdown c
      then coord_view (fst (resume now rid c)) = view_set rid RunStatus.RUNNING (coord_view c) \<and>
        co_commands (fst (resume now rid c)) = co_commands c @ [Some (''resume'', rid)]
      else fst (resume now rid c) = c \<and> (\<exists>err. snd (resume now rid c) = Inl err))"
  using stop_outcome [OF assms, of rid now] resume_outcome [OF assms, of rid now]
  by (simp split: if_splits)

theorem stop_resume_outcome_witness:
  "coord_view (fst (stop 9 ''r1'' demo_queued)) = [(''r1'', RunStatus.STOPPING), (''r2'', RunStatus.QUEUED)] \<and>
   is_stop_requested ''r1'' (co_controls (fst (stop 9 ''r1'' demo_queued))) \<and>
   fst (stop 9 ''r2'' demo_queued) = demo_queued"
proof -
  have inv: "coord_inv demo_queued" by (rule coordinator.reach_inv [OF demo_reach_queued])
  show ?thesis
    using stop_resume_outcome [OF inv, of "''r1''" 9] stop_resume_outcome [OF inv, of "''r2''" 9] demo_queued_view
    by (simp add: view_set_def)
qed

text \<open>
  Reading events with a cursor loses and repeats nothing: in every well-formed database the events
  of a run after sequence number \<open>n\<close> are those up to \<open>m\<close> followed by those after \<open>m\<close>, and they are
  returned in strictly increasing sequence order, each of a stored run.
\<close>

theorem event_cursor:
  assumes "runtime_wf db" and "n \<le> m"
  shows "list_events rid n db = filter (\<lambda>ev. ev_sequence ev \<le> m) (list_events rid n db) @ list_events rid m db \<and>
    sorted_wrt (<) (map ev_sequence (list_events rid n db)) \<and>
    (\<forall>ev \<in> set (list_events rid n db). ev_run_id ev \<in> run_id ` set (agent_runs db))"
  using list_events_split [OF assms] list_events_sorted [OF assms(1)] list_events_known [OF assms(1)]
  by blast

theorem event_cursor_witness:
  "map ev_sequence (list_events ''r1'' 0 (co_db demo_finished)) = [1, 3] \<and>
   list_events ''r1'' 0 (co_db demo_finished) =
     filter (\<lambda>ev. ev_sequence ev \<le> 1) (list_events ''r1'' 0 (co_db demo_finished)) @
     list_events ''r1'' 1 (co_db demo_finished)"
proof -
  have "map ev_sequence (list_events ''r1'' 0 (co_db demo_finished)) = [1, 3]" by code_simp
  moreover have "runtime_wf (co_db demo_finished)"
    by (rule coord_invD, rule coordinator.reach_inv, rule reach_step, rule reach_step,
        rule demo_reach_queued, rule demo_take, rule demo_finish)
  ultimately show ?thesis using event_cursor [of "co_db demo_finished" 0 1 "''r1''"] by simp
qed

text \<open>
  A secret saved in the vault is what a later load returns, a deleted one is gone, and neither
  operation touches the secret of another profile, for any keyring with the documented behaviour.
\<close>

theorem vault_round_trip:
  assumes "keyring_backend kr st"
  shows "(vault_save kr p key b = Inr b' \<longrightarrow> vault_load kr p b' = Inr v \<longrightarrow> v = Some key) \<and>
    (vault_delete kr p b = Inr b' \<longrightarrow> vault_load kr p b' = Inr v \<longrightarrow> v = None) \<and>
    (vault_save kr p key b = Inr b' \<or> vault_delete kr p b = Inr b' \<longrightarrow> q \<noteq> p \<longrightarrow>
       vault_load kr q b = Inr v \<longrightarrow> vault_load kr q b' = Inr v' \<longrightarrow> v' = v)"
proof -
  note vault = keyring_backend.is_vault [OF assms]
  have "v' = v" if "vault_save kr p key b = Inr b' \<or> vault_delete kr p b = Inr b'" "q \<noteq> p"
    "vault_load kr q b = Inr v" "vault_load kr q b' = Inr v'"
    using that secret_vault.load_holds [OF vault that(3)] secret_vault.load_holds [OF vault that(4)]
      secret_vault.save_other [OF vault _ that(2)] secret_vault.delete_other [OF vault _ that(2)] by metis
  then show ?thesis
    using secret_vault.load_after_save [OF vault] secret_vault.load_after_delete [OF vault] by blast
qed

theorem vault_round_trip_witness:
  "vault_save memory_keyring ''p1'' ''sk'' Map.empty =
       Inr (Map.empty((''ExamSage'', ''provider:p1'') \<mapsto> ''sk'')) \<and>
   vault_load memory_keyring ''p1'' (Map.empty((''ExamSage'', ''provider:p1'') \<mapsto> ''sk'')) = Inr (Some ''sk'')"
proof -
  have acc: "vault_account ''p1'' = Inr ''provider:p1''" by code_simp
  then have saved: "vault_save memory_keyring ''p1'' ''sk'' Map.empty =
      Inr (Map.empty((''ExamSage'', ''provider:p1'') \<mapsto> ''sk''))"
    by (simp add: vault_save_def memory_keyring_def SERVICE_NAME_def)
  obtain v where v: "vault_load memory_keyring ''p1'' (Map.empty((''ExamSage'', ''provider:p1'') \<mapsto> ''sk'')) = Inr v"
    using acc by (simp add: vault_load_def memory_keyring_def)
  then show ?thesis using vault_round_trip [OF mem.keyring_backend_axioms] saved by blast
qed

end
