(* ===== verification/Workspace_Store.thy ===== *)
theory Workspace_Store
  imports Workspace_Models
begin

text \<open>
  \<open>WorkspaceStore\<close> of \<^verbatim>\<open>exam_predictor/workspace/store.py\<close>: the SQLite tables of course workspaces
  and one definition per method. A method is one \<open>BEGIN IMMEDIATE\<close> transaction: it returns the new
  tables with its result, or raises and leaves the tables as they were. Fresh identifiers and the
  current time are arguments. The authority locks serialise the methods and are not state.

  A \<^typ>\<open>ManifestEntry\<close> here stands for an instance pydantic has accepted; reading a row validates
  it again, which gives the same instance (\<open>revalidation\<close> below), so reading does not repeat it.
\<close>

section \<open>Tables\<close>

record WorkspaceRow = WorkspaceRecord +
  ws_owned_root_device :: "string option"
  ws_owned_root_file_id :: "string option"

record RevisionRow =
  rr_revision_id :: string
  rr_workspace_id :: string
  rr_parent_revision_id :: "string option"
  rr_scan_job_id :: "string option"
  rr_policy_version :: string
  rr_created_at :: int

record CreationRow =
  cr_idempotency_key :: string
  cr_operation_kind :: SourceMode
  cr_state :: string
  cr_workspace_id :: string
  cr_job_id :: "string option"
  cr_safe_error_code :: "string option"
  cr_created_at :: int
  cr_updated_at :: int

record workspace_db =
  workspaces :: "WorkspaceRow list"
  manifest_revisions :: "RevisionRow list"
  manifest_entries :: "(string \<times> ManifestEntry) list"
  approvals :: "ApprovalRecord list"
  workspace_jobs :: "WorkspaceJob list"
  workspace_events :: "WorkspaceEvent list"
  workspace_event_sequence :: nat
  cleanup_queue :: "CleanupRecord list"
  creation_requests :: "CreationRow list"

definition empty_workspace_db :: workspace_db where
  "empty_workspace_db =
     \<lparr>workspaces = [], manifest_revisions = [], manifest_entries = [], approvals = [],
      workspace_jobs = [], workspace_events = [], workspace_event_sequence = 0,
      cleanup_queue = [], creation_requests = []\<rparr>"

lemma revalidation:
  "ManifestEntry_validate e = Inr e' \<Longrightarrow> ManifestEntry_validate e' = Inr e'"
  by (auto simp: ManifestEntry_validate_def bind_res_Inr_iff dest: normalize_idempotent
      split: if_splits)

section \<open>Jobs: statuses and transitions\<close>

definition is_active_job :: "WorkspaceJob \<Rightarrow> bool" where
  "is_active_job j \<longleftrightarrow> job_status j \<in> {WorkspaceJobStatus.QUEUED, WorkspaceJobStatus.RUNNING}"

definition TERMINAL_JOB_STATUSES :: "WorkspaceJobStatus set" where
  "TERMINAL_JOB_STATUSES =
     {WorkspaceJobStatus.SUCCEEDED, WorkspaceJobStatus.FAILED, WorkspaceJobStatus.CANCELLED}"

fun ALLOWED_JOB_TRANSITIONS :: "WorkspaceJobStatus \<Rightarrow> WorkspaceJobStatus set" where
  "ALLOWED_JOB_TRANSITIONS WorkspaceJobStatus.QUEUED =
     {WorkspaceJobStatus.RUNNING, WorkspaceJobStatus.FAILED, WorkspaceJobStatus.CANCELLED}"
| "ALLOWED_JOB_TRANSITIONS WorkspaceJobStatus.RUNNING =
     {WorkspaceJobStatus.SUCCEEDED, WorkspaceJobStatus.FAILED, WorkspaceJobStatus.CANCELLED}"
| "ALLOWED_JOB_TRANSITIONS _ = {}"

fun STATUS_EVENTS :: "WorkspaceJobStatus \<Rightarrow> string list" where
  "STATUS_EVENTS WorkspaceJobStatus.RUNNING = [''started'']"
| "STATUS_EVENTS WorkspaceJobStatus.SUCCEEDED = [''approval_required'', ''succeeded'']"
| "STATUS_EVENTS WorkspaceJobStatus.FAILED = [''failed'']"
| "STATUS_EVENTS WorkspaceJobStatus.CANCELLED = [''cancelled'']"
| "STATUS_EVENTS WorkspaceJobStatus.QUEUED = []"

definition guard_job_transition ::
  "WorkspaceJobStatus \<Rightarrow> WorkspaceJobStatus \<Rightarrow> py_error + unit" where
  "guard_job_transition current requested =
     (if requested \<notin> ALLOWED_JOB_TRANSITIONS current then Inl ActiveWorkspaceOperationError
      else Inr ())"

definition guard_workspace_accepts_jobs :: "WorkspaceRow \<Rightarrow> py_error + unit" where
  "guard_workspace_accepts_jobs w =
     (if ws_state w \<in> {WorkspaceState.DELETING, WorkspaceState.CLEANUP_PENDING}
      then Inl ActiveWorkspaceOperationError else Inr ())"

section \<open>Event payloads\<close>

text \<open>message, allowed keys and required keys of each event type\<close>

definition PROGRESS_KEYS :: "string list" where
  "PROGRESS_KEYS =
     [''bytes_hashed'', ''current_relative_path'', ''discovered_count'', ''failure_count'']"

definition REVIEW_KEYS :: "string list" where
  "REVIEW_KEYS = [''bytes_hashed'', ''discovered_count'', ''failure_count'', ''revision_id'']"

definition EVENT_RULES :: "(string \<times> string \<times> string list \<times> string list) list" where
  "EVENT_RULES =
     [(''queued'', ''Workspace operation queued.'', [], []),
      (''started'', ''Workspace scan started.'', [], []),
      (''scan_progress'', ''Scanning course files.'', PROGRESS_KEYS, PROGRESS_KEYS),
      (''approval_required'', ''Scan complete. Review the selected course files.'',
         REVIEW_KEYS, REVIEW_KEYS),
      (''succeeded'', ''Workspace operation completed.'', [''revision_id''], []),
      (''failed'', ''Workspace scan failed.'', [''safe_error_code''], [''safe_error_code'']),
      (''cancelled'', ''Workspace operation cancelled.'', [''safe_error_code''], [])]"

definition SECRET_KEY_PARTS :: "string list" where
  "SECRET_KEY_PARTS = [''api_key'', ''credential'', ''password'', ''secret'', ''token'']"

fun contains :: "string \<Rightarrow> string \<Rightarrow> bool" where
  "contains part [] \<longleftrightarrow> part = []"
| "contains part (c # cs) \<longleftrightarrow> take (length part) (c # cs) = part \<or> contains part cs"

definition safe_id :: "string \<Rightarrow> bool" where
  "safe_id = bounded_match is_alnum (\<lambda>c. is_alnum c \<or> c = CHR ''_'' \<or> c = CHR ''-'') 127"

definition check_safe_code :: "string \<Rightarrow> py_error + string" where
  "check_safe_code v = (if \<not> safe_code v then Inl ValueError else Inr v)"

definition check_payload_value :: "string \<times> pyval \<Rightarrow> py_error + unit" where
  "check_payload_value kv =
     (let (key, value) = kv in
      if key \<in> {''bytes_hashed'', ''discovered_count'', ''failure_count''}
      then (case value of VInt n \<Rightarrow> if n < 0 then Inl ValueError else Inr () | _ \<Rightarrow> Inl ValueError)
      else if key = ''current_relative_path''
      then (case value of
              VNone \<Rightarrow> Inr ()
            | VStr s \<Rightarrow> bind_res (normalize_relative_path s)
                (\<lambda>n. if n \<noteq> s \<or> length n > 1024 then Inl ValueError else Inr ())
            | _ \<Rightarrow> Inl ValueError)
      else if key = ''safe_error_code''
      then (case value of VStr s \<Rightarrow> bind_res (check_safe_code s) (\<lambda>_. Inr ()) | _ \<Rightarrow> Inl ValueError)
      else if key = ''revision_id''
      then (case value of VStr s \<Rightarrow> if safe_id s then Inr () else Inl ValueError | _ \<Rightarrow> Inl ValueError)
      else Inr ())"

fun check_payload_values :: "payload \<Rightarrow> py_error + unit" where
  "check_payload_values [] = Inr ()"
| "check_payload_values (kv # kvs) = bind_res (check_payload_value kv) (\<lambda>_. check_payload_values kvs)"

definition validated_event_payload :: "string \<Rightarrow> string \<Rightarrow> payload \<Rightarrow> py_error + payload" where
  "validated_event_payload event_type message pl =
     (case map_of EVENT_RULES event_type of
        None \<Rightarrow> Inl ValueError
      | Some (expected, allowed, required) \<Rightarrow>
          if message \<noteq> expected then Inl ValueError
          else let keys = map fst pl in
          if (\<exists>key \<in> set keys. \<exists>part \<in> set SECRET_KEY_PARTS. contains part (map fold_char key))
          then Inl ValueError
          else if \<not> set required \<subseteq> set keys \<or> \<not> set keys \<subseteq> set allowed then Inl ValueError
          else bind_res (check_payload_values pl) (\<lambda>_. Inr pl))"

section \<open>Rows\<close>

definition workspace_row :: "string \<Rightarrow> workspace_db \<Rightarrow> py_error + WorkspaceRow" where
  "workspace_row w db =
     (case row_of ws_workspace_id w (workspaces db) of
        None \<Rightarrow> Inl WorkspaceNotFoundError | Some r \<Rightarrow> Inr r)"

definition job_row :: "string \<Rightarrow> workspace_db \<Rightarrow> py_error + WorkspaceJob" where
  "job_row j db =
     (case row_of job_id j (workspace_jobs db) of
        None \<Rightarrow> Inl WorkspaceJobNotFoundError | Some r \<Rightarrow> Inr r)"

definition update_workspace :: "string \<Rightarrow> (WorkspaceRow \<Rightarrow> WorkspaceRow) \<Rightarrow> workspace_db \<Rightarrow> workspace_db" where
  "update_workspace w f db =
     db\<lparr>workspaces := update_where (\<lambda>r. ws_workspace_id r = w) f (workspaces db)\<rparr>"

definition update_job_row :: "string \<Rightarrow> (WorkspaceJob \<Rightarrow> WorkspaceJob) \<Rightarrow> workspace_db \<Rightarrow> workspace_db" where
  "update_job_row j f db =
     db\<lparr>workspace_jobs := update_where (\<lambda>r. job_id r = j) f (workspace_jobs db)\<rparr>"

text \<open>\<open>INSERT INTO workspace_events\<close>, with the foreign key on the job\<close>

definition insert_workspace_event ::
  "string \<Rightarrow> string \<Rightarrow> string \<Rightarrow> payload \<Rightarrow> int \<Rightarrow> workspace_db
    \<Rightarrow> py_error + workspace_db \<times> WorkspaceEvent" where
  "insert_workspace_event jid et msg pl created db =
     bind_res (validated_event_payload et msg pl) (\<lambda>pl.
       if row_of job_id jid (workspace_jobs db) = None then Inl IntegrityError
       else let n = Suc (workspace_event_sequence db);
                ev = \<lparr>we_sequence = n, we_job_id = jid, we_event_type = et, we_message = msg,
                      we_payload = pl, we_created_at = created\<rparr>
            in Inr (db\<lparr>workspace_events := workspace_events db @ [ev],
                       workspace_event_sequence := n\<rparr>, ev))"

text \<open>
  \<open>INSERT INTO workspace_jobs\<close>: the primary key, the idempotency key, the single active job of a
  workspace and the foreign key on the workspace.
\<close>

definition insert_job :: "WorkspaceJob \<Rightarrow> workspace_db \<Rightarrow> py_error + workspace_db" where
  "insert_job j db =
     (if row_of job_id (job_id j) (workspace_jobs db) \<noteq> None \<or>
         (\<exists>r \<in> set (workspace_jobs db). job_workspace_id r = job_workspace_id j \<and>
            job_kind r = job_kind j \<and> job_idempotency_key r = job_idempotency_key j) \<or>
         is_active_job j \<and> (\<exists>r \<in> set (workspace_jobs db).
            job_workspace_id r = job_workspace_id j \<and> is_active_job r) \<or>
         row_of ws_workspace_id (job_workspace_id j) (workspaces db) = None
      then Inl IntegrityError
      else Inr (db\<lparr>workspace_jobs := workspace_jobs db @ [j]\<rparr>))"

definition insert_workspace :: "WorkspaceRow \<Rightarrow> workspace_db \<Rightarrow> py_error + workspace_db" where
  "insert_workspace r db =
     (if row_of ws_workspace_id (ws_workspace_id r) (workspaces db) \<noteq> None then Inl IntegrityError
      else Inr (db\<lparr>workspaces := workspaces db @ [r]\<rparr>))"

text \<open>
  \<open>INSERT INTO manifest_revisions\<close>: the primary key, the foreign key, and the unique scan job.
\<close>

definition insert_revision :: "RevisionRow \<Rightarrow> workspace_db \<Rightarrow> py_error + workspace_db" where
  "insert_revision r db =
     (if row_of rr_revision_id (rr_revision_id r) (manifest_revisions db) \<noteq> None \<or>
         row_of ws_workspace_id (rr_workspace_id r) (workspaces db) = None \<or>
         (rr_scan_job_id r \<noteq> None \<and>
          row_of rr_scan_job_id (rr_scan_job_id r) (manifest_revisions db) \<noteq> None)
      then Inl IntegrityError
      else Inr (db\<lparr>manifest_revisions := manifest_revisions db @ [r]\<rparr>))"

definition insert_entry :: "string \<Rightarrow> ManifestEntry \<Rightarrow> workspace_db \<Rightarrow> py_error + workspace_db" where
  "insert_entry rid e db =
     (if row_of (\<lambda>(r, x). (r, me_entry_id x)) (rid, me_entry_id e) (manifest_entries db) \<noteq> None \<or>
         row_of rr_revision_id rid (manifest_revisions db) = None
      then Inl IntegrityError
      else Inr (db\<lparr>manifest_entries := manifest_entries db @ [(rid, e)]\<rparr>))"

fun insert_entries :: "string \<Rightarrow> ManifestEntry list \<Rightarrow> workspace_db \<Rightarrow> py_error + workspace_db" where
  "insert_entries rid [] db = Inr db"
| "insert_entries rid (e # es) db = bind_res (insert_entry rid e db) (insert_entries rid es)"

section \<open>Revisions\<close>

text \<open>
  \<open>ORDER BY relative_path COLLATE NOCASE, relative_path, COALESCE(archive_member_path, ''),
  entry_id\<close>; NOCASE folds the ASCII letters.
\<close>

definition entry_order :: "ManifestEntry \<Rightarrow> string \<times> string \<times> string \<times> string" where
  "entry_order e = (map fold_char (me_relative_path e), me_relative_path e,
     (case me_archive_member_path e of None \<Rightarrow> [] | Some p \<Rightarrow> p), me_entry_id e)"

definition entries_of :: "string \<Rightarrow> (string \<times> ManifestEntry) list \<Rightarrow> ManifestEntry list" where
  "entries_of rid rows = order_by entry_order (map snd (filter (\<lambda>(r, e). r = rid) rows))"

definition revision :: "string \<Rightarrow> string \<Rightarrow> workspace_db \<Rightarrow> py_error + ManifestRevision" where
  "revision w rid db =
     (case find (\<lambda>r. rr_workspace_id r = w \<and> rr_revision_id r = rid) (manifest_revisions db) of
        None \<Rightarrow> Inl ManifestNotFoundError
      | Some r \<Rightarrow> Inr
          \<lparr>rev_revision_id = rid, rev_workspace_id = w,
           rev_parent_revision_id = rr_parent_revision_id r, rev_scan_job_id = rr_scan_job_id r,
           rev_policy_version = rr_policy_version r,
           rev_entries = map (\<lambda>e. e\<lparr>me_workspace_id := w\<rparr>) (entries_of rid (manifest_entries db)),
           rev_created_at = rr_created_at r\<rparr>)"

definition clone_row :: "ManifestRevision \<Rightarrow> string \<Rightarrow> int \<Rightarrow> RevisionRow" where
  "clone_row source rid created =
     \<lparr>rr_revision_id = rid, rr_workspace_id = rev_workspace_id source,
      rr_parent_revision_id = Some (rev_revision_id source), rr_scan_job_id = None,
      rr_policy_version = rev_policy_version source, rr_created_at = created\<rparr>"

definition clone_revision ::
  "ManifestRevision \<Rightarrow> string \<Rightarrow> int \<Rightarrow> (ManifestEntry \<Rightarrow> ManifestEntry) \<Rightarrow> workspace_db
    \<Rightarrow> py_error + workspace_db \<times> ManifestRevision" where
  "clone_revision source rid created transform db =
     bind_res (insert_revision (clone_row source rid created) db)
       (\<lambda>db. bind_res (insert_entries rid (map transform (rev_entries source)) db)
         (\<lambda>db. bind_res (revision (rev_workspace_id source) rid db) (\<lambda>r. Inr (db, r))))"

section \<open>Workspaces and creation requests\<close>

definition as_row :: "WorkspaceRecord \<Rightarrow> (string \<times> string) option \<Rightarrow> WorkspaceRow" where
  "as_row w owned = WorkspaceRecord.extend w
     \<lparr>ws_owned_root_device = map_option fst owned, ws_owned_root_file_id = map_option snd owned\<rparr>"

definition create_workspace ::
  "WorkspaceRecord \<Rightarrow> workspace_db \<Rightarrow> py_error + workspace_db \<times> WorkspaceRow" where
  "create_workspace w db =
     bind_res (insert_workspace (as_row w None) db)
       (\<lambda>db. bind_res (workspace_row (ws_workspace_id w) db) (\<lambda>r. Inr (db, r)))"

definition get_creation_request :: "string \<Rightarrow> workspace_db \<Rightarrow> CreationRow option" where
  "get_creation_request key db = row_of cr_idempotency_key key (creation_requests db)"

definition claim_creation ::
  "int \<Rightarrow> string \<Rightarrow> SourceMode \<Rightarrow> string \<Rightarrow> workspace_db
    \<Rightarrow> py_error + workspace_db \<times> CreationRow \<times> bool" where
  "claim_creation now key kind wid db =
     (case get_creation_request key db of
        Some request \<Rightarrow>
          if cr_operation_kind request \<noteq> kind then Inl ActiveWorkspaceOperationError
          else Inr (db, request, False)
      | None \<Rightarrow>
          let r = \<lparr>cr_idempotency_key = key, cr_operation_kind = kind, cr_state = ''claimed'',
                   cr_workspace_id = wid, cr_job_id = None, cr_safe_error_code = None,
                   cr_created_at = now, cr_updated_at = now\<rparr>
          in Inr (db\<lparr>creation_requests := creation_requests db @ [r]\<rparr>, r, True))"

definition update_creation ::
  "(CreationRow \<Rightarrow> bool) \<Rightarrow> (CreationRow \<Rightarrow> CreationRow) \<Rightarrow> workspace_db \<Rightarrow> workspace_db" where
  "update_creation p f db = db\<lparr>creation_requests := update_where p f (creation_requests db)\<rparr>"

definition create_workspace_with_initial_job ::
  "int \<Rightarrow> WorkspaceRecord \<Rightarrow> WorkspaceJob \<Rightarrow> string \<Rightarrow> (string \<times> string) option \<Rightarrow> workspace_db
    \<Rightarrow> py_error + workspace_db \<times> WorkspaceRow \<times> WorkspaceJob \<times> bool" where
  "create_workspace_with_initial_job now w j key owned db =
     (if job_workspace_id j \<noteq> ws_workspace_id w \<or> job_kind j \<noteq> ''initial_scan'' \<or>
         job_status j \<noteq> WorkspaceJobStatus.QUEUED then Inl ValueError
      else case get_creation_request key db of
        None \<Rightarrow> Inl ActiveWorkspaceOperationError
      | Some request \<Rightarrow>
          if cr_state request = ''completed'' then
            bind_res (workspace_row (cr_workspace_id request) db) (\<lambda>existing.
              case cr_job_id request of
                None \<Rightarrow> Inl RuntimeError
              | Some jid \<Rightarrow> bind_res (job_row jid db) (\<lambda>job. Inr (db, existing, job, False)))
          else if cr_state request \<noteq> ''claimed'' \<or> cr_workspace_id request \<noteq> ws_workspace_id w
          then Inl ActiveWorkspaceOperationError
          else
            bind_res (insert_workspace (as_row w owned) db) (\<lambda>db.
            bind_res (insert_job (j\<lparr>job_idempotency_key := key\<rparr>) db) (\<lambda>db.
            let db = update_creation
                  (\<lambda>r. cr_idempotency_key r = key \<and> cr_state r = ''claimed'')
                  (\<lambda>r. r\<lparr>cr_state := ''completed'', cr_job_id := Some (job_id j), cr_updated_at := now\<rparr>) db
            in bind_res (workspace_row (ws_workspace_id w) db) (\<lambda>wr.
               bind_res (job_row (job_id j) db) (\<lambda>jr. Inr (db, wr, jr, True))))))"

definition list_recoverable_browser_creations :: "workspace_db \<Rightarrow> CreationRow list" where
  "list_recoverable_browser_creations db =
     order_by cr_created_at (filter (\<lambda>r. cr_operation_kind r = BROWSER_SNAPSHOT \<and>
        cr_state r \<in> {''claimed'', ''interrupted'', ''failed''}) (creation_requests db))"

definition get_job :: "string \<Rightarrow> workspace_db \<Rightarrow> py_error + WorkspaceJob" where
  "get_job jid db = job_row jid db"

definition get_creation_job :: "string \<Rightarrow> workspace_db \<Rightarrow> py_error + WorkspaceJob option" where
  "get_creation_job key db =
     (case get_creation_request key db of
        None \<Rightarrow> Inr None
      | Some request \<Rightarrow>
          if cr_state request \<noteq> ''completed'' then Inr None
          else case cr_job_id request of
            None \<Rightarrow> Inr None
          | Some jid \<Rightarrow> bind_res (get_job jid db) (\<lambda>j. Inr (Some j)))"

definition finish_cancelled_creation :: "int \<Rightarrow> string \<Rightarrow> workspace_db \<Rightarrow> workspace_db" where
  "finish_cancelled_creation now key db =
     update_creation (\<lambda>r. cr_idempotency_key r = key \<and> cr_state r = ''claimed'')
       (\<lambda>r. r\<lparr>cr_state := ''cancelled'', cr_updated_at := now\<rparr>) db"

definition fail_creation :: "int \<Rightarrow> string \<Rightarrow> string \<Rightarrow> workspace_db \<Rightarrow> py_error + workspace_db" where
  "fail_creation now key code db =
     bind_res (check_safe_code code) (\<lambda>_.
       Inr (update_creation (\<lambda>r. cr_idempotency_key r = key \<and> cr_state r = ''claimed'')
         (\<lambda>r. r\<lparr>cr_state := ''failed'', cr_safe_error_code := Some code, cr_updated_at := now\<rparr>) db))"

definition interrupt_claimed_creations :: "int \<Rightarrow> workspace_db \<Rightarrow> workspace_db" where
  "interrupt_claimed_creations now db =
     update_creation (\<lambda>r. cr_state r = ''claimed'')
       (\<lambda>r. r\<lparr>cr_state := ''interrupted'', cr_safe_error_code := Some ''creation_interrupted'',
              cr_updated_at := now\<rparr>) db"

definition get_owned_root_identity ::
  "string \<Rightarrow> workspace_db \<Rightarrow> py_error + (string \<times> string) option" where
  "get_owned_root_identity w db =
     bind_res (workspace_row w db) (\<lambda>r.
       Inr (case ws_owned_root_device r of
              None \<Rightarrow> None
            | Some d \<Rightarrow> (case ws_owned_root_file_id r of None \<Rightarrow> None | Some f \<Rightarrow> Some (d, f))))"

definition get_workspace :: "string \<Rightarrow> workspace_db \<Rightarrow> WorkspaceRow option" where
  "get_workspace w db = row_of ws_workspace_id w (workspaces db)"

definition source_root :: "string \<Rightarrow> workspace_db \<Rightarrow> py_error + string" where
  "source_root w db = bind_res (workspace_row w db) (\<lambda>r. Inr (ws_canonical_root r))"

definition get_manifest_entries :: "string \<Rightarrow> workspace_db \<Rightarrow> py_error + ManifestEntry list" where
  "get_manifest_entries w db =
     bind_res (workspace_row w db) (\<lambda>r.
       case ws_current_draft_revision_id r of
         None \<Rightarrow> Inr []
       | Some rid \<Rightarrow> bind_res (revision w rid db) (\<lambda>rev. Inr (rev_entries rev)))"

text \<open>
  \<open>list_workspaces\<close>: latest first, ties by identifier; the counts are of the current draft's entries
  per state.
\<close>

definition state_counts :: "string option \<Rightarrow> workspace_db \<Rightarrow> (SourceState \<times> nat) list" where
  "state_counts draft db =
     (let states = map (me_state \<circ> snd) (filter (\<lambda>(r, e). Some r = draft) (manifest_entries db)) in
      map (\<lambda>s. (s, length (filter (\<lambda>t. t = s) states))) (distinct_firsts states))"

definition list_workspaces :: "workspace_db \<Rightarrow> (WorkspaceRow \<times> (SourceState \<times> nat) list) list" where
  "list_workspaces db =
     map (\<lambda>r. (r, state_counts (ws_current_draft_revision_id r) db))
       (order_by (\<lambda>r. (- ws_updated_at r, ws_workspace_id r)) (workspaces db))"

section \<open>Committing a scan\<close>

text \<open>the jobs after \<open>j\<close> in \<open>rowid\<close> order\<close>

definition later_rows :: "string \<Rightarrow> WorkspaceJob list \<Rightarrow> WorkspaceJob list" where
  "later_rows j jobs = tl (dropWhile (\<lambda>r. job_id r \<noteq> j) jobs)"

definition newer_commit :: "string \<Rightarrow> WorkspaceJob \<Rightarrow> workspace_db \<Rightarrow> bool" where
  "newer_commit w j db \<longleftrightarrow>
     (\<exists>r \<in> set (manifest_revisions db). rr_workspace_id r = w \<and>
        (\<exists>c \<in> set (workspace_jobs db). rr_scan_job_id r = Some (job_id c) \<and>
           (job_created_at c > job_created_at j \<or>
            job_created_at c = job_created_at j \<and> c \<in> set (later_rows (job_id j) (workspace_jobs db)))))"

fun insert_scanned :: "string \<Rightarrow> string \<Rightarrow> string list \<Rightarrow> ManifestEntry list \<Rightarrow> workspace_db
    \<Rightarrow> py_error + workspace_db" where
  "insert_scanned w rid seen [] db = Inr db"
| "insert_scanned w rid seen (e # es) db =
     (if me_workspace_id e \<noteq> w then Inl ValueError
      else if me_entry_id e \<in> set seen then Inl ValueError
      else bind_res (insert_entry rid e db) (insert_scanned w rid (me_entry_id e # seen) es))"

definition commit_scan ::
  "string \<Rightarrow> string \<Rightarrow> ScanResult \<Rightarrow> string \<Rightarrow> workspace_db
    \<Rightarrow> py_error + workspace_db \<times> ManifestRevision" where
  "commit_scan fresh w res jid db =
     (if sr_workspace_id res \<noteq> w then Inl ValueError
      else
      bind_res (workspace_row w db) (\<lambda>wr.
      bind_res (job_row jid db) (\<lambda>job.
      if job_workspace_id job \<noteq> w then Inl WorkspaceJobNotFoundError
      else case find (\<lambda>r. rr_workspace_id r = w \<and> rr_scan_job_id r = Some jid) (manifest_revisions db) of
        Some existing \<Rightarrow> bind_res (revision w (rr_revision_id existing) db) (\<lambda>r. Inr (db, r))
      | None \<Rightarrow>
          if job_status job \<noteq> WorkspaceJobStatus.RUNNING then Inl ActiveWorkspaceOperationError
          else bind_res (guard_workspace_accepts_jobs wr) (\<lambda>_.
          if newer_commit w job db then Inl StaleManifestError
          else
          bind_res (insert_revision
             \<lparr>rr_revision_id = fresh, rr_workspace_id = w,
              rr_parent_revision_id = ws_current_draft_revision_id wr, rr_scan_job_id = Some jid,
              rr_policy_version = sp_policy_version DEFAULT_SCAN_POLICY,
              rr_created_at = sr_completed_at res\<rparr> db) (\<lambda>db.
          bind_res (insert_scanned w fresh [] (sr_entries res) db) (\<lambda>db.
          let db = update_job_row jid (\<lambda>j. j\<lparr>job_status := WorkspaceJobStatus.SUCCEEDED,
                     job_safe_error_code := None, job_finished_at := Some (sr_completed_at res)\<rparr>) db;
              db = update_workspace w (\<lambda>r. r\<lparr>ws_state := WorkspaceState.APPROVAL_REQUIRED,
                     ws_current_draft_revision_id := Some fresh,
                     ws_last_scanned_at := Some (sr_completed_at res),
                     ws_updated_at := sr_completed_at res\<rparr>) db
          in
          bind_res (insert_workspace_event jid ''approval_required''
             ''Scan complete. Review the selected course files.''
             [(''bytes_hashed'', VInt (int (sr_bytes_hashed res))),
              (''discovered_count'', VInt (int (sr_discovered_count res))),
              (''failure_count'', VInt (int (sr_failure_count res))),
              (''revision_id'', VStr fresh)] (sr_completed_at res) db) (\<lambda>(db, _).
          bind_res (revision w fresh db) (\<lambda>r. Inr (db, r)))))))))"

section \<open>Reviewing and approving a manifest\<close>

definition get_manifest :: "string \<Rightarrow> string option \<Rightarrow> workspace_db \<Rightarrow> py_error + ManifestRevision" where
  "get_manifest w rid db =
     bind_res (workspace_row w db) (\<lambda>r.
       case (if rid \<noteq> None \<and> rid \<noteq> Some [] then rid else ws_current_draft_revision_id r) of
         None \<Rightarrow> Inl ManifestNotFoundError
       | Some selected \<Rightarrow> revision w selected db)"

definition require_current_draft :: "string \<Rightarrow> string \<Rightarrow> workspace_db \<Rightarrow> py_error + ManifestRevision" where
  "require_current_draft w rid db =
     bind_res (workspace_row w db) (\<lambda>r.
       if ws_current_draft_revision_id r \<noteq> Some rid then Inl StaleManifestError
       else revision w rid db)"

definition update_inclusion :: "string set \<Rightarrow> bool \<Rightarrow> ManifestEntry \<Rightarrow> ManifestEntry" where
  "update_inclusion requested included item =
     (if me_entry_id item \<notin> requested then item
      else if \<not> included \<and> me_state item \<in> {PENDING_APPROVAL, SourceState.APPROVED, CHANGED}
      then item\<lparr>me_state := EXCLUDED, me_included := False,
                me_inclusion_reason := Some ''user_excluded'', me_failure_code := None,
                me_safe_message := None\<rparr>
      else if included \<and> (me_inclusion_reason item = Some ''user_excluded'' \<or> me_state item = CHANGED)
      then item\<lparr>me_state := PENDING_APPROVAL, me_included := True, me_inclusion_reason := None,
                me_failure_code := None, me_safe_message := None\<rparr>
      else item\<lparr>me_included := included\<rparr>)"

text \<open>
  Replacing the current draft by a transformed copy: what \<open>set_inclusion\<close>, \<open>mark_entry_changed\<close>,
  \<open>mark_revision_attention_if_current\<close> and \<open>mark_entries_changed_latest\<close> do after their checks.
\<close>

definition redraft ::
  "int \<Rightarrow> string \<Rightarrow> string \<Rightarrow> ManifestRevision \<Rightarrow> (ManifestEntry \<Rightarrow> ManifestEntry) \<Rightarrow> WorkspaceState
    \<Rightarrow> workspace_db \<Rightarrow> py_error + workspace_db \<times> ManifestRevision" where
  "redraft now fresh w current transform st db =
     bind_res (clone_revision current fresh now transform db) (\<lambda>(db, _).
       let db = update_workspace w (\<lambda>r. r\<lparr>ws_current_draft_revision_id := Some fresh,
                  ws_state := st, ws_updated_at := now\<rparr>) db
       in bind_res (revision w fresh db) (\<lambda>r. Inr (db, r)))"

definition set_inclusion ::
  "string \<Rightarrow> int \<Rightarrow> string \<Rightarrow> string \<Rightarrow> string list \<Rightarrow> bool \<Rightarrow> workspace_db
    \<Rightarrow> py_error + workspace_db \<times> ManifestRevision" where
  "set_inclusion fresh now w rid ids included db =
     bind_res (workspace_row w db) (\<lambda>wr.
       if ws_current_draft_revision_id wr \<noteq> Some rid then Inl StaleManifestError
       else bind_res (revision w rid db) (\<lambda>current.
         if \<not> set ids \<subseteq> me_entry_id ` set (rev_entries current) then Inl ManifestNotFoundError
         else redraft now fresh w current (update_inclusion (set ids) included)
                WorkspaceState.APPROVAL_REQUIRED db))"

definition approval_eligible :: "ManifestEntry \<Rightarrow> bool" where
  "approval_eligible item \<longleftrightarrow>
     me_sha256 item \<noteq> None \<and> me_state item \<in> {PENDING_APPROVAL, SourceState.APPROVED}"

definition approved_entries :: "ManifestEntry list \<Rightarrow> ApprovedEntryHash list" where
  "approved_entries selected = order_by ae_entry_id
     (map (\<lambda>i. \<lparr>ae_entry_id = me_entry_id i, ae_sha256 = the (me_sha256 i)\<rparr>) selected)"

definition approve ::
  "string \<Rightarrow> int \<Rightarrow> string \<Rightarrow> string \<Rightarrow> string \<Rightarrow> int option \<Rightarrow> workspace_db
    \<Rightarrow> py_error + workspace_db \<times> ApprovalRecord" where
  "approve fresh clock w rid policy verified db =
     (let now = (case verified of None \<Rightarrow> clock | Some v \<Rightarrow> v) in
      bind_res (workspace_row w db) (\<lambda>wr.
      if ws_current_draft_revision_id wr \<noteq> Some rid then Inl StaleManifestError
      else bind_res (revision w rid db) (\<lambda>rev.
      if rev_policy_version rev \<noteq> policy then Inl InvalidApprovalError
      else let selected = filter me_included (rev_entries rev) in
      if (\<exists>i \<in> set selected. \<not> approval_eligible i) then Inl InvalidApprovalError
      else if row_of ap_approval_id fresh (approvals db) \<noteq> None then Inl IntegrityError
      else
        let approval = \<lparr>ap_approval_id = fresh, ap_workspace_id = w, ap_revision_id = rid,
                        ap_entries = approved_entries selected, ap_policy_version = policy,
                        ap_approved_at = now\<rparr>;
            ids = set (map me_entry_id selected);
            db = db\<lparr>approvals := approvals db @ [approval],
                    manifest_entries := update_where (\<lambda>(r, e). r = rid \<and> me_entry_id e \<in> ids)
                      (\<lambda>(r, e). (r, e\<lparr>me_state := SourceState.APPROVED\<rparr>)) (manifest_entries db)\<rparr>;
            db = update_workspace w (\<lambda>r. r\<lparr>ws_state := WorkspaceState.APPROVED,
                   ws_current_approved_revision_id := Some rid, ws_updated_at := now,
                   ws_last_access_verified_at :=
                     (case verified of None \<Rightarrow> ws_last_access_verified_at r | Some v \<Rightarrow> Some v)\<rparr>) db
        in Inr (db, approval))))"

definition latest_approval :: "string \<Rightarrow> string \<Rightarrow> workspace_db \<Rightarrow> ApprovalRecord option" where
  "latest_approval w rid db = first_row (rev (order_by ap_approved_at
     (filter (\<lambda>a. ap_workspace_id a = w \<and> ap_revision_id a = rid) (approvals db))))"

definition get_approval :: "string \<Rightarrow> workspace_db \<Rightarrow> ApprovalRecord option" where
  "get_approval w db =
     (case get_workspace w db of
        None \<Rightarrow> None
      | Some wr \<Rightarrow> (case ws_current_approved_revision_id wr of
          None \<Rightarrow> None | Some rid \<Rightarrow> latest_approval w rid db))"

section \<open>Transmission authority\<close>

record TransmissionAuthoritySnapshot =
  ts_workspace :: WorkspaceRow
  ts_approval :: "ApprovalRecord option"
  ts_revision :: "ManifestRevision option"

definition transmission_authority_snapshot ::
  "string \<Rightarrow> workspace_db \<Rightarrow> py_error + TransmissionAuthoritySnapshot option" where
  "transmission_authority_snapshot w db =
     (case get_workspace w db of
        None \<Rightarrow> Inr None
      | Some wr \<Rightarrow>
          let nothing = \<lparr>ts_workspace = wr, ts_approval = None, ts_revision = None\<rparr> in
          (case ws_current_approved_revision_id wr of
             None \<Rightarrow> Inr (Some nothing)
           | Some rid \<Rightarrow>
               (case latest_approval w rid db of
                  None \<Rightarrow> Inr (Some nothing)
                | Some a \<Rightarrow> bind_res (revision w rid db) (\<lambda>r.
                    Inr (Some \<lparr>ts_workspace = wr, ts_approval = Some a, ts_revision = Some r\<rparr>)))))"

definition authority_current :: "string \<Rightarrow> string \<Rightarrow> TransmissionAuthoritySnapshot option \<Rightarrow> bool" where
  "authority_current aid rid snapshot \<longleftrightarrow>
     (case snapshot of
        None \<Rightarrow> False
      | Some s \<Rightarrow>
          (case (ts_approval s, ts_revision s) of
             (Some a, Some r) \<Rightarrow>
               ws_state (ts_workspace s) = WorkspaceState.APPROVED \<and>
               ws_current_draft_revision_id (ts_workspace s) = Some rid \<and>
               ws_current_approved_revision_id (ts_workspace s) = Some rid \<and>
               ap_approval_id a = aid \<and> ap_revision_id a = rid \<and> rev_revision_id r = rid
           | _ \<Rightarrow> False))"

text \<open>
  \<open>hold_transmission_authority\<close>: the check on entry, with the workspace's authority lock held until
  the caller's read is done.
\<close>

definition hold_transmission_authority ::
  "string \<Rightarrow> string \<Rightarrow> string \<Rightarrow> int option \<Rightarrow> workspace_db
    \<Rightarrow> py_error + workspace_db \<times> TransmissionAuthoritySnapshot" where
  "hold_transmission_authority w aid rid verified db =
     bind_res (transmission_authority_snapshot w db) (\<lambda>snapshot.
       if \<not> authority_current aid rid snapshot then Inl TransmissionAuthorityRevokedError
       else case snapshot of
         None \<Rightarrow> Inl TransmissionAuthorityRevokedError
       | Some s \<Rightarrow> Inr
          ((case verified of None \<Rightarrow> db
            | Some v \<Rightarrow> update_workspace w
                (\<lambda>r. r\<lparr>ws_last_access_verified_at := Some v, ws_updated_at := v\<rparr>) db), s))"

section \<open>Jobs\<close>

definition active_job :: "string \<Rightarrow> workspace_db \<Rightarrow> WorkspaceJob option" where
  "active_job w db = first_row (order_by job_created_at
     (filter (\<lambda>j. job_workspace_id j = w \<and> is_active_job j) (workspace_jobs db)))"

definition create_job ::
  "WorkspaceJob \<Rightarrow> string \<Rightarrow> workspace_db \<Rightarrow> py_error + workspace_db \<times> WorkspaceJob" where
  "create_job j key db =
     bind_res (workspace_row (job_workspace_id j) db) (\<lambda>wr.
     bind_res (guard_workspace_accepts_jobs wr) (\<lambda>_.
       case find (\<lambda>r. job_workspace_id r = job_workspace_id j \<and> job_kind r = job_kind j \<and>
                    job_idempotency_key r = key) (workspace_jobs db) of
         Some existing \<Rightarrow> Inr (db, existing)
       | None \<Rightarrow>
           (case insert_job (j\<lparr>job_idempotency_key := key\<rparr>) db of
              Inr db' \<Rightarrow> bind_res (job_row (job_id j) db') (\<lambda>r. Inr (db', r))
            | Inl _ \<Rightarrow>
                (case active_job (job_workspace_id j) db of
                   None \<Rightarrow> Inl ActiveWorkspaceOperationError
                 | Some a \<Rightarrow> if job_kind a = job_kind j \<and> job_idempotency_key a = key
                            then Inr (db, a) else Inl ActiveWorkspaceOperationError))))"

definition jobs_with_status :: "WorkspaceJobStatus \<Rightarrow> workspace_db \<Rightarrow> WorkspaceJob list" where
  "jobs_with_status st db =
     order_by job_created_at (filter (\<lambda>j. job_status j = st) (workspace_jobs db))"

fun requeue_jobs :: "int \<Rightarrow> WorkspaceJob list \<Rightarrow> workspace_db
    \<Rightarrow> py_error + workspace_db \<times> WorkspaceJob list" where
  "requeue_jobs now [] db = Inr (db, [])"
| "requeue_jobs now (j # js) db =
     (let db = db\<lparr>workspace_jobs := update_where
            (\<lambda>r. job_id r = job_id j \<and> job_status r = WorkspaceJobStatus.RUNNING)
            (\<lambda>r. r\<lparr>job_status := WorkspaceJobStatus.QUEUED, job_safe_error_code := None,
                   job_started_at := None, job_finished_at := None\<rparr>) (workspace_jobs db)\<rparr>
      in bind_res (insert_workspace_event (job_id j) ''queued'' ''Workspace operation queued.'' [] now db)
           (\<lambda>(db, _). bind_res (job_row (job_id j) db)
             (\<lambda>r. bind_res (requeue_jobs now js db) (\<lambda>(db, rs). Inr (db, r # rs)))))"

definition recover_running_jobs ::
  "int \<Rightarrow> workspace_db \<Rightarrow> py_error + workspace_db \<times> WorkspaceJob list" where
  "recover_running_jobs now db = requeue_jobs now (jobs_with_status WorkspaceJobStatus.RUNNING db) db"

definition list_queued_jobs :: "workspace_db \<Rightarrow> WorkspaceJob list" where
  "list_queued_jobs db = jobs_with_status WorkspaceJobStatus.QUEUED db"

definition recover_unfinished_jobs ::
  "int \<Rightarrow> workspace_db \<Rightarrow> py_error + workspace_db \<times> WorkspaceJob list" where
  "recover_unfinished_jobs now db =
     bind_res (recover_running_jobs now db) (\<lambda>(db, _). Inr (db, list_queued_jobs db))"

definition start_job :: "int \<Rightarrow> string \<Rightarrow> workspace_db \<Rightarrow> py_error + workspace_db \<times> WorkspaceJob" where
  "start_job now jid db =
     bind_res (job_row jid db) (\<lambda>row.
     bind_res (workspace_row (job_workspace_id row) db) (\<lambda>wr.
     bind_res (guard_workspace_accepts_jobs wr) (\<lambda>_.
       if job_status row = WorkspaceJobStatus.RUNNING then Inr (db, row)
       else if job_status row \<noteq> WorkspaceJobStatus.QUEUED then Inl ActiveWorkspaceOperationError
       else
         let db = update_job_row jid (\<lambda>j. j\<lparr>job_status := WorkspaceJobStatus.RUNNING,
                    job_started_at := Some now\<rparr>) db;
             db = update_workspace (job_workspace_id row)
                    (\<lambda>r. r\<lparr>ws_state := WorkspaceState.SCANNING, ws_updated_at := now\<rparr>) db
         in bind_res (insert_workspace_event jid ''started'' ''Workspace scan started.'' [] now db)
              (\<lambda>(db, _). bind_res (job_row jid db) (\<lambda>r. Inr (db, r))))))"

definition progress_events :: "string \<Rightarrow> workspace_db \<Rightarrow> WorkspaceEvent list" where
  "progress_events jid db =
     filter (\<lambda>e. we_job_id e = jid \<and> we_event_type e = ''scan_progress'') (workspace_events db)"

definition append_progress ::
  "int \<Rightarrow> string \<Rightarrow> ScanProgress \<Rightarrow> workspace_db \<Rightarrow> py_error + workspace_db \<times> WorkspaceEvent" where
  "append_progress now jid p db =
     bind_res
       (case pr_current_relative_path p of
          None \<Rightarrow> Inr None
        | Some s \<Rightarrow> bind_res (normalize_relative_path s)
            (\<lambda>n. if length n > 1024 then Inl ValueError else Inr (Some n)))
       (\<lambda>path.
          let pl = [(''bytes_hashed'', VInt (int (pr_bytes_hashed p))),
                    (''current_relative_path'', case path of None \<Rightarrow> VNone | Some s \<Rightarrow> VStr s),
                    (''discovered_count'', VInt (int (pr_discovered_count p))),
                    (''failure_count'', VInt (int (pr_failure_count p)))]
          in
          bind_res (job_row jid db) (\<lambda>row.
          if job_status row \<noteq> WorkspaceJobStatus.RUNNING then Inl ActiveWorkspaceOperationError
          else if length (progress_events jid db) \<ge> 256
          then (case first_row (rev (order_by we_sequence (progress_events jid db))) of
                  None \<Rightarrow> Inl RuntimeError | Some latest \<Rightarrow> Inr (db, latest))
          else insert_workspace_event jid ''scan_progress'' ''Scanning course files.'' pl now db))"

definition fail_job ::
  "int \<Rightarrow> string \<Rightarrow> string \<Rightarrow> workspace_db \<Rightarrow> py_error + workspace_db \<times> WorkspaceJob" where
  "fail_job now jid code db =
     bind_res (job_row jid db) (\<lambda>row.
     bind_res (check_safe_code code) (\<lambda>_.
       if job_status row \<in> TERMINAL_JOB_STATUSES then Inl ActiveWorkspaceOperationError
       else bind_res (guard_job_transition (job_status row) WorkspaceJobStatus.FAILED) (\<lambda>_.
         let db = update_job_row jid (\<lambda>j. j\<lparr>job_status := WorkspaceJobStatus.FAILED,
                    job_safe_error_code := Some code, job_finished_at := Some now\<rparr>) db;
             db = update_workspace (job_workspace_id row)
                    (\<lambda>r. r\<lparr>ws_state := WorkspaceState.NEEDS_ATTENTION, ws_updated_at := now\<rparr>) db
         in bind_res (insert_workspace_event jid ''failed'' ''Workspace scan failed.''
                        [(''safe_error_code'', VStr code)] now db)
              (\<lambda>(db, _). bind_res (job_row jid db) (\<lambda>r. Inr (db, r))))))"

definition same_job_identity :: "WorkspaceJob \<Rightarrow> WorkspaceJob \<Rightarrow> bool" where
  "same_job_identity stored j \<longleftrightarrow> job_workspace_id stored = job_workspace_id j \<and>
     job_kind stored = job_kind j \<and> job_idempotency_key stored = job_idempotency_key j \<and>
     job_created_at stored = job_created_at j"

definition update_job ::
  "WorkspaceJob \<Rightarrow> WorkspaceEvent \<Rightarrow> workspace_db \<Rightarrow> py_error + workspace_db" where
  "update_job j ev db =
     (if we_job_id ev \<noteq> job_id j then Inl ValueError
      else bind_res (job_row (job_id j) db) (\<lambda>stored.
      if \<not> same_job_identity stored j then Inl ValueError
      else bind_res (guard_job_transition (job_status stored) (job_status j)) (\<lambda>_.
      if we_event_type ev \<notin> set (STATUS_EVENTS (job_status j)) then Inl ValueError
      else if job_status j = WorkspaceJobStatus.RUNNING \<and> job_started_at j = None then Inl ValueError
      else if job_status j \<in> TERMINAL_JOB_STATUSES \<and> job_finished_at j = None then Inl ValueError
      else bind_res (case job_safe_error_code j of None \<Rightarrow> Inr []
                     | Some c \<Rightarrow> check_safe_code c) (\<lambda>_.
        let db = update_job_row (job_id j) (\<lambda>r. r\<lparr>job_status := job_status j,
                   job_safe_error_code := job_safe_error_code j, job_started_at := job_started_at j,
                   job_finished_at := job_finished_at j\<rparr>) db
        in bind_res (insert_workspace_event (we_job_id ev) (we_event_type ev) (we_message ev)
                       (we_payload ev) (we_created_at ev) db) (\<lambda>(db, _). Inr db)))))"

definition list_job_events :: "string \<Rightarrow> nat \<Rightarrow> workspace_db \<Rightarrow> WorkspaceEvent list" where
  "list_job_events jid after db = order_by we_sequence
     (filter (\<lambda>e. we_job_id e = jid \<and> we_sequence e > after) (workspace_events db))"

section \<open>Sources that changed\<close>

definition changed_message :: string where
  "changed_message = ''The selected source changed and needs review.''"

definition mark_changed :: "string set \<Rightarrow> string \<Rightarrow> ManifestEntry \<Rightarrow> ManifestEntry" where
  "mark_changed requested code item =
     (if me_entry_id item \<notin> requested then item
      else item\<lparr>me_state := CHANGED, me_included := False, me_inclusion_reason := Some code,
                me_failure_code := Some code, me_safe_message := Some changed_message\<rparr>)"

definition mark_entries_changed_latest ::
  "string \<Rightarrow> int \<Rightarrow> string \<Rightarrow> string list \<Rightarrow> string \<Rightarrow> workspace_db
    \<Rightarrow> py_error + workspace_db \<times> ManifestRevision" where
  "mark_entries_changed_latest fresh now w ids code db =
     bind_res (workspace_row w db) (\<lambda>wr.
       case ws_current_draft_revision_id wr of
         None \<Rightarrow> Inl ManifestNotFoundError
       | Some rid \<Rightarrow> bind_res (revision w rid db) (\<lambda>rev.
           if \<not> set ids \<subseteq> me_entry_id ` set (rev_entries rev) then Inl ManifestNotFoundError
           else redraft now fresh w rev (mark_changed (set ids) code)
                  WorkspaceState.NEEDS_ATTENTION db))"

definition mark_entry_changed ::
  "string \<Rightarrow> int \<Rightarrow> string \<Rightarrow> string \<Rightarrow> string \<Rightarrow> workspace_db \<Rightarrow> py_error + workspace_db" where
  "mark_entry_changed fresh now w eid code db =
     bind_res (mark_entries_changed_latest fresh now w [eid] code db) (\<lambda>(db, _). Inr db)"

definition mark_revision_attention_if_current ::
  "string \<Rightarrow> int \<Rightarrow> string \<Rightarrow> string \<Rightarrow> string list \<Rightarrow> string \<Rightarrow> workspace_db
    \<Rightarrow> py_error + workspace_db \<times> ManifestRevision" where
  "mark_revision_attention_if_current fresh now w rid ids code db =
     bind_res (workspace_row w db) (\<lambda>wr.
       if ws_current_draft_revision_id wr \<noteq> Some rid then Inl StaleManifestError
       else bind_res (revision w rid db) (\<lambda>rev.
         if \<not> set ids \<subseteq> me_entry_id ` set (rev_entries rev) then Inl ManifestNotFoundError
         else redraft now fresh w rev (mark_changed (set ids) code)
                WorkspaceState.NEEDS_ATTENTION db))"

definition record_access_verified :: "int \<Rightarrow> string \<Rightarrow> workspace_db \<Rightarrow> py_error + workspace_db" where
  "record_access_verified v w db =
     bind_res (workspace_row w db) (\<lambda>_.
       Inr (update_workspace w (\<lambda>r. r\<lparr>ws_last_access_verified_at := Some v, ws_updated_at := v\<rparr>) db))"

section \<open>Deletion\<close>

definition has_active_job :: "string \<Rightarrow> workspace_db \<Rightarrow> bool" where
  "has_active_job w db \<longleftrightarrow> (\<exists>j \<in> set (workspace_jobs db). job_workspace_id j = w \<and> is_active_job j)"

definition mark_deleting :: "int \<Rightarrow> string \<Rightarrow> workspace_db \<Rightarrow> py_error + workspace_db \<times> WorkspaceRow" where
  "mark_deleting now w db =
     bind_res (workspace_row w db) (\<lambda>wr.
       if ws_state wr = SCANNING then Inl ActiveWorkspaceOperationError
       else if has_active_job w db then Inl ActiveWorkspaceOperationError
       else let db = update_workspace w
                  (\<lambda>r. r\<lparr>ws_state := WorkspaceState.DELETING, ws_updated_at := now\<rparr>) db
            in bind_res (workspace_row w db) (\<lambda>r. Inr (db, r)))"

definition mark_deleting_if_settled ::
  "int \<Rightarrow> string \<Rightarrow> bool \<Rightarrow> workspace_db \<Rightarrow> py_error + workspace_db \<times> WorkspaceRow" where
  "mark_deleting_if_settled now w unsettled db =
     (if unsettled then Inl ActiveWorkspaceOperationError else mark_deleting now w db)"

text \<open>\<open>DELETE FROM workspaces\<close> and the \<open>ON DELETE CASCADE\<close> of its references\<close>

definition delete_workspace_cascade :: "string \<Rightarrow> workspace_db \<Rightarrow> workspace_db" where
  "delete_workspace_cascade w db =
     (let revs = map rr_revision_id (filter (\<lambda>r. rr_workspace_id r = w) (manifest_revisions db));
          jobs = map job_id (filter (\<lambda>j. job_workspace_id j = w) (workspace_jobs db)) in
      db\<lparr>workspaces := delete_where (\<lambda>r. ws_workspace_id r = w) (workspaces db),
         manifest_revisions := delete_where (\<lambda>r. rr_workspace_id r = w) (manifest_revisions db),
         manifest_entries := delete_where (\<lambda>(r, e). r \<in> set revs) (manifest_entries db),
         approvals := delete_where (\<lambda>a. ap_workspace_id a = w \<or> ap_revision_id a \<in> set revs) (approvals db),
         workspace_jobs := delete_where (\<lambda>j. job_workspace_id j = w) (workspace_jobs db),
         workspace_events := delete_where (\<lambda>e. we_job_id e \<in> set jobs) (workspace_events db)\<rparr>)"

definition delete_workspace_rows :: "string \<Rightarrow> workspace_db \<Rightarrow> py_error + workspace_db" where
  "delete_workspace_rows w db =
     bind_res (workspace_row w db) (\<lambda>wr.
       if ws_state wr \<noteq> WorkspaceState.DELETING then Inl ActiveWorkspaceOperationError
       else if has_active_job w db then Inl ActiveWorkspaceOperationError
       else Inr (delete_workspace_cascade w db))"

section \<open>Cleanup of owned files\<close>

text \<open>
  A path is its absolute components. \<open>data\<close> is the directory of the database, \<open>cwd\<close> the directory a
  relative native root is resolved against.
\<close>

definition path_parts :: "string list \<Rightarrow> string \<Rightarrow> string list" where
  "path_parts dir s = (if is_absolute s then posix_parts s else dir @ posix_parts s)"

definition owned_relative_path :: "string list \<Rightarrow> string \<Rightarrow> py_error + string \<times> string list" where
  "owned_relative_path data owned =
     (let candidate = path_parts data owned in
      if take (length data) candidate \<noteq> data then Inl ValueError
      else let raw = as_posix (drop (length data) candidate) in
      if raw = [] \<or> NUL \<in> set raw \<or> backslash \<in> set raw then Inl ValueError
      else let parts = posix_parts raw in
      if is_absolute raw \<or> ''..'' \<in> set parts then Inl ValueError
      else case parts of
        [] \<Rightarrow> Inl IndexError
      | p # _ \<Rightarrow>
          if CHR '':'' \<in> set p then Inl ValueError
          else let normalized = as_posix parts in
          if normalized \<in> {[], ''.''} then Inl ValueError else Inr (normalized, candidate))"

definition queue_cleanup ::
  "string \<Rightarrow> int \<Rightarrow> string list \<Rightarrow> string list \<Rightarrow> string \<Rightarrow> string \<Rightarrow> string \<Rightarrow> (string \<times> string) option
    \<Rightarrow> workspace_db \<Rightarrow> py_error + workspace_db \<times> CleanupRecord" where
  "queue_cleanup fresh now data cwd w owned code identity db =
     bind_res (owned_relative_path data owned) (\<lambda>(rel, abs).
       if (case identity of None \<Rightarrow> False | Some (d, f) \<Rightarrow> length d > 128 \<or> length f > 128)
       then Inl ValueError
       else if (case get_workspace w db of None \<Rightarrow> False
                | Some wr \<Rightarrow> ws_source_mode wr = NATIVE_FOLDER \<and>
                    (let native = path_parts cwd (ws_canonical_root wr)
                     in take (length native) abs = native))
       then Inl ValueError
       else case row_of cl_owned_relative_path rel (cleanup_queue db) of
         Some existing \<Rightarrow>
           if (cl_deletion_root_device existing, cl_deletion_root_file_id existing)
                \<noteq> (map_option fst identity, map_option snd identity)
           then Inl ValueError else Inr (db, existing)
       | None \<Rightarrow>
           if row_of cl_cleanup_id fresh (cleanup_queue db) \<noteq> None then Inl IntegrityError
           else let r = \<lparr>cl_cleanup_id = fresh, cl_workspace_id = w, cl_owned_relative_path = rel,
                         cl_safe_error_code = code, cl_attempt_count = 0,
                         cl_deletion_root_device = map_option fst identity,
                         cl_deletion_root_file_id = map_option snd identity,
                         cl_created_at = now, cl_updated_at = now\<rparr>
                in Inr (db\<lparr>cleanup_queue := cleanup_queue db @ [r]\<rparr>, r))"

definition list_cleanup :: "workspace_db \<Rightarrow> CleanupRecord list" where
  "list_cleanup db = order_by cl_created_at (cleanup_queue db)"

definition fail_cleanup ::
  "int \<Rightarrow> string \<Rightarrow> string \<Rightarrow> workspace_db \<Rightarrow> py_error + workspace_db \<times> CleanupRecord option" where
  "fail_cleanup now cid code db =
     bind_res (check_safe_code code) (\<lambda>_.
       case row_of cl_cleanup_id cid (cleanup_queue db) of
         None \<Rightarrow> Inr (db, None)
       | Some row \<Rightarrow>
           let db = db\<lparr>cleanup_queue := update_where (\<lambda>r. cl_cleanup_id r = cid)
                 (\<lambda>r. r\<lparr>cl_safe_error_code := code, cl_attempt_count := cl_attempt_count r + 1,
                        cl_updated_at := now\<rparr>) (cleanup_queue db)\<rparr>;
               db = update_workspace (cl_workspace_id row)
                 (\<lambda>r. r\<lparr>ws_state := CLEANUP_PENDING, ws_updated_at := now\<rparr>) db
           in (case row_of cl_cleanup_id cid (cleanup_queue db) of
                 None \<Rightarrow> Inl RuntimeError | Some updated \<Rightarrow> Inr (db, Some updated)))"

definition complete_cleanup ::
  "string \<Rightarrow> workspace_db \<Rightarrow> py_error + workspace_db \<times> string option" where
  "complete_cleanup cid db =
     (case row_of cl_cleanup_id cid (cleanup_queue db) of
        None \<Rightarrow> Inr (db, None)
      | Some cleanup \<Rightarrow>
          let w = cl_workspace_id cleanup;
              db' = db\<lparr>cleanup_queue := delete_where (\<lambda>r. cl_cleanup_id r = cid) (cleanup_queue db)\<rparr> in
          case get_workspace w db of
            None \<Rightarrow> Inr (db', Some w)
          | Some wr \<Rightarrow>
              if ws_state wr \<notin> {WorkspaceState.DELETING, CLEANUP_PENDING}
              then Inl ActiveWorkspaceOperationError
              else if has_active_job w db then Inl ActiveWorkspaceOperationError
              else Inr (delete_workspace_cascade w db', Some w))"

section \<open>Migration of old databases\<close>

text \<open>
  The data part of \<open>_migrate\<close>, which runs on every start: later active jobs of a workspace are
  failed, later cleanup rows of a path are dropped, and of the revisions committed by one scan job
  only the preferred one keeps the job. A column a migration adds is \<open>None\<close> in every row.
\<close>

definition ranks_before :: "WorkspaceJob \<Rightarrow> WorkspaceJob \<Rightarrow> WorkspaceJob list \<Rightarrow> bool" where
  "ranks_before a b jobs \<longleftrightarrow> job_created_at a < job_created_at b \<or>
     job_created_at a = job_created_at b \<and> b \<in> set (later_rows (job_id a) jobs)"

definition superseded_jobs :: "workspace_db \<Rightarrow> WorkspaceJob list" where
  "superseded_jobs db = filter (\<lambda>b. is_active_job b \<and>
     (\<exists>a \<in> set (workspace_jobs db). is_active_job a \<and> job_workspace_id a = job_workspace_id b \<and>
        ranks_before a b (workspace_jobs db))) (workspace_jobs db)"

fun supersede_jobs :: "int \<Rightarrow> WorkspaceJob list \<Rightarrow> workspace_db \<Rightarrow> py_error + workspace_db" where
  "supersede_jobs now [] db = Inr db"
| "supersede_jobs now (j # js) db =
     (let db = update_job_row (job_id j) (\<lambda>r. r\<lparr>job_status := WorkspaceJobStatus.FAILED,
                 job_safe_error_code := Some ''superseded_active_job'', job_finished_at := Some now\<rparr>) db
      in bind_res (insert_workspace_event (job_id j) ''failed'' ''Workspace scan failed.''
                     [(''safe_error_code'', VStr ''superseded_active_job'')] now db)
           (\<lambda>(db, _). supersede_jobs now js db))"

text \<open>keeping the first row of each key\<close>

fun first_per_key :: "('r \<Rightarrow> 'k) \<Rightarrow> 'k list \<Rightarrow> 'r list \<Rightarrow> 'r list" where
  "first_per_key key seen [] = []"
| "first_per_key key seen (r # rs) =
     (if key r \<in> set seen then first_per_key key seen rs
      else r # first_per_key key (key r # seen) rs)"

definition revision_in_use :: "workspace_db \<Rightarrow> RevisionRow \<Rightarrow> bool" where
  "revision_in_use db r \<longleftrightarrow> (\<exists>w \<in> set (workspaces db).
     ws_current_draft_revision_id w = Some (rr_revision_id r) \<or>
     ws_current_approved_revision_id w = Some (rr_revision_id r))"

text \<open>the rank of a revision among those of its scan job; the last row of the sorted list is first\<close>

definition preferred_revision :: "workspace_db \<Rightarrow> string \<Rightarrow> RevisionRow option" where
  "preferred_revision db jid = first_row (rev (order_by
     (\<lambda>r. (if revision_in_use db r then 1 else 0 :: nat, rr_created_at r))
     (filter (\<lambda>r. rr_scan_job_id r = Some jid) (manifest_revisions db))))"

definition dedupe_scan_jobs :: "workspace_db \<Rightarrow> workspace_db" where
  "dedupe_scan_jobs db = db\<lparr>manifest_revisions := update_where
     (\<lambda>r. case rr_scan_job_id r of None \<Rightarrow> False
           | Some jid \<Rightarrow> map_option rr_revision_id (preferred_revision db jid) \<noteq> Some (rr_revision_id r))
     (\<lambda>r. r\<lparr>rr_scan_job_id := None\<rparr>) (manifest_revisions db)\<rparr>"

definition migrate :: "nat \<Rightarrow> int \<Rightarrow> workspace_db \<Rightarrow> py_error + workspace_db" where
  "migrate version now db =
     (if version > 3 then Inl RuntimeError
      else let db = (if version = 0 then empty_workspace_db else db) in
      bind_res (supersede_jobs now (superseded_jobs db) db)
        (\<lambda>db. Inr (dedupe_scan_jobs
           (db\<lparr>cleanup_queue := first_per_key cl_owned_relative_path [] (cleanup_queue db)\<rparr>))))"

end
