(* ===== verification/Workspace_Inv.thy ===== *)
theory Workspace_Inv
  imports Workspace_Store
begin

text \<open>
  The invariant of the workspace store: keys are unique, references resolve, a workspace has one
  active job, current revisions belong to their workspace, and every approval lists exactly the
  included entries of its revision with their hashes. First the primitive statements, then every
  method keeps it.
\<close>

section \<open>The invariant\<close>

definition entry_key :: "string \<times> ManifestEntry \<Rightarrow> string \<times> string" where
  "entry_key x = (fst x, me_entry_id (snd x))"

definition keys_wf :: "workspace_db \<Rightarrow> bool" where
  "keys_wf db \<longleftrightarrow> distinct (map ws_workspace_id (workspaces db)) \<and>
     distinct (map rr_revision_id (manifest_revisions db)) \<and>
     distinct (map entry_key (manifest_entries db)) \<and>
     distinct (map ap_approval_id (approvals db)) \<and>
     distinct (map job_id (workspace_jobs db)) \<and>
     distinct (map cl_cleanup_id (cleanup_queue db)) \<and>
     distinct (map cl_owned_relative_path (cleanup_queue db)) \<and>
     distinct (map cr_idempotency_key (creation_requests db))"

definition rev_known :: "RevisionRow list \<Rightarrow> string \<Rightarrow> string \<Rightarrow> bool" where
  "rev_known revs w rid \<longleftrightarrow>
     (\<exists>r \<in> set revs. rr_revision_id r = rid \<and> rr_workspace_id r = w)"

definition refs_wf :: "workspace_db \<Rightarrow> bool" where
  "refs_wf db \<longleftrightarrow>
     rr_workspace_id ` set (manifest_revisions db) \<subseteq> ws_workspace_id ` set (workspaces db) \<and>
     fst ` set (manifest_entries db) \<subseteq> rr_revision_id ` set (manifest_revisions db) \<and>
     (\<forall>a \<in> set (approvals db). rev_known (manifest_revisions db) (ap_workspace_id a) (ap_revision_id a)) \<and>
     job_workspace_id ` set (workspace_jobs db) \<subseteq> ws_workspace_id ` set (workspaces db) \<and>
     we_job_id ` set (workspace_events db) \<subseteq> job_id ` set (workspace_jobs db)"

definition job_key :: "WorkspaceJob \<Rightarrow> string \<times> string \<times> string" where
  "job_key j = (job_workspace_id j, job_kind j, job_idempotency_key j)"

definition jobs_wf :: "workspace_db \<Rightarrow> bool" where
  "jobs_wf db \<longleftrightarrow> distinct (map job_workspace_id (filter is_active_job (workspace_jobs db))) \<and>
     distinct (map job_key (workspace_jobs db)) \<and>
     distinct (List.map_filter rr_scan_job_id (manifest_revisions db))"

definition event_ok :: "WorkspaceEvent \<Rightarrow> bool" where
  "event_ok e \<longleftrightarrow>
     validated_event_payload (we_event_type e) (we_message e) (we_payload e) = Inr (we_payload e)"

text \<open>\<open>append_progress\<close> stores at most 256 progress events of a job.\<close>

definition progress_capped :: "WorkspaceEvent list \<Rightarrow> bool" where
  "progress_capped es \<longleftrightarrow> (\<forall>jid.
     length (filter (\<lambda>e. we_job_id e = jid \<and> we_event_type e = ''scan_progress'') es) \<le> 256)"

lemma progress_capped_Nil [simp]: "progress_capped []"
  by (simp add: progress_capped_def)

lemma progress_capped_other:
  "progress_capped es \<Longrightarrow> we_event_type e \<noteq> ''scan_progress'' \<Longrightarrow> progress_capped (es @ [e])"
  by (simp add: progress_capped_def)

lemma progress_capped_filter: "progress_capped es \<Longrightarrow> progress_capped (filter P es)"
proof -
  have "length (filter Q (filter P es)) \<le> length (filter Q es)" for Q
    by (induction es) auto
  then show "progress_capped es \<Longrightarrow> progress_capped (filter P es)"
    unfolding progress_capped_def by (meson le_trans)
qed

definition events_inv :: "workspace_db \<Rightarrow> bool" where
  "events_inv db \<longleftrightarrow> sorted_wrt (<) (map we_sequence (workspace_events db)) \<and>
     (\<forall>e \<in> set (workspace_events db). we_sequence e \<le> workspace_event_sequence db \<and> event_ok e) \<and>
     progress_capped (workspace_events db)"

definition draft_ok :: "RevisionRow list \<Rightarrow> WorkspaceRow \<Rightarrow> bool" where
  "draft_ok revs r \<longleftrightarrow>
     (\<forall>rid. ws_current_draft_revision_id r = Some rid \<longrightarrow> rev_known revs (ws_workspace_id r) rid) \<and>
     (\<forall>rid. ws_current_approved_revision_id r = Some rid \<longrightarrow> rev_known revs (ws_workspace_id r) rid) \<and>
     (ws_state r = WorkspaceState.APPROVED \<longrightarrow>
        ws_current_draft_revision_id r = ws_current_approved_revision_id r \<and>
        ws_current_approved_revision_id r \<noteq> None)"

definition drafts_wf :: "workspace_db \<Rightarrow> bool" where
  "drafts_wf db \<longleftrightarrow> (\<forall>r \<in> set (workspaces db). draft_ok (manifest_revisions db) r)"

definition included_entries :: "string \<Rightarrow> (string \<times> ManifestEntry) list \<Rightarrow> ManifestEntry list" where
  "included_entries rid rows = filter me_included (entries_of rid rows)"

definition approval_ok :: "(string \<times> ManifestEntry) list \<Rightarrow> ApprovalRecord \<Rightarrow> bool" where
  "approval_ok rows a \<longleftrightarrow>
     ap_entries a = approved_entries (included_entries (ap_revision_id a) rows) \<and>
     (\<forall>e \<in> set (included_entries (ap_revision_id a) rows).
        me_sha256 e \<noteq> None \<and> me_state e = SourceState.APPROVED)"

definition approvals_wf :: "workspace_db \<Rightarrow> bool" where
  "approvals_wf db \<longleftrightarrow> (\<forall>a \<in> set (approvals db). approval_ok (manifest_entries db) a)"

definition store_inv :: "workspace_db \<Rightarrow> bool" where
  "store_inv db \<longleftrightarrow> keys_wf db \<and> refs_wf db \<and> jobs_wf db \<and> events_inv db \<and> drafts_wf db \<and>
     approvals_wf db"

lemmas store_inv_defs = store_inv_def keys_wf_def refs_wf_def jobs_wf_def events_inv_def
  drafts_wf_def approvals_wf_def

lemma store_inv_empty: "store_inv empty_workspace_db"
  by (simp add: store_inv_defs empty_workspace_db_def List.map_filter_simps)

section \<open>Primitive statements\<close>

lemma update_workspace_inv:
  assumes inv: "store_inv db" and key: "\<And>r. ws_workspace_id (f r) = ws_workspace_id r"
    and ok: "\<And>r. r \<in> set (workspaces db) \<Longrightarrow> ws_workspace_id r = w \<Longrightarrow> draft_ok (manifest_revisions db) (f r)"
  shows "store_inv (update_workspace w f db)"
proof -
  let ?db = "update_workspace w f db"
  have same: "manifest_revisions ?db = manifest_revisions db" "manifest_entries ?db = manifest_entries db"
    "approvals ?db = approvals db" "workspace_jobs ?db = workspace_jobs db"
    "workspace_events ?db = workspace_events db" "cleanup_queue ?db = cleanup_queue db"
    "creation_requests ?db = creation_requests db"
    "workspace_event_sequence ?db = workspace_event_sequence db"
    by (simp_all add: update_workspace_def)
  have "map ws_workspace_id (workspaces ?db) = map ws_workspace_id (workspaces db)"
    unfolding update_workspace_def by (simp add: keys_update_where key)
  moreover have "ws_workspace_id ` set (workspaces ?db) = ws_workspace_id ` set (workspaces db)"
    unfolding update_workspace_def by (simp add: key_image_update_where key)
  moreover have "drafts_wf ?db"
    using inv ok by (auto simp: store_inv_defs update_workspace_def set_update_where)
  ultimately show ?thesis using inv
    by (simp add: store_inv_def keys_wf_def refs_wf_def jobs_wf_def events_inv_def approvals_wf_def
        same)
qed

lemma distinct_filter_update:
  assumes "distinct (map g (filter P xs))" and "\<And>x. g (f x) = g x"
    and "\<And>x. x \<in> set xs \<Longrightarrow> p x \<Longrightarrow> P (f x) \<Longrightarrow> P x"
  shows "distinct (map g (filter P (update_where p f xs)))"
proof -
  have sub: "set (map g (filter P (update_where p f ys))) \<subseteq> set (map g (filter P ys))"
    if "set ys \<subseteq> set xs" for ys
    using that assms(2,3) by (force simp: set_update_where)
  have "distinct (map g (filter P (update_where p f ys)))"
    if "distinct (map g (filter P ys))" "set ys \<subseteq> set xs" for ys
    using that
  proof (induction ys)
    case (Cons y ys)
    then have IH: "distinct (map g (filter P (update_where p f ys)))"
      by (auto split: if_splits)
    have new: "g y \<notin> set (map g (filter P (update_where p f ys)))" if "P y"
      using Cons.prems that sub [of ys] by auto
    have "P (f y) \<Longrightarrow> p y \<Longrightarrow> P y" using Cons.prems(2) assms(3) by simp
    then show ?case using IH new assms(2)
      by (cases "p y") (auto simp: update_where_def)
  qed (simp add: update_where_def)
  then show ?thesis using assms(1) by simp
qed

lemma update_job_inv:
  assumes inv: "store_inv db"
    and key: "\<And>r. job_id (f r) = job_id r" "\<And>r. job_key (f r) = job_key r"
    and act: "\<And>r. r \<in> set (workspace_jobs db) \<Longrightarrow> p r \<Longrightarrow> is_active_job (f r) \<Longrightarrow> is_active_job r"
  shows "store_inv (db\<lparr>workspace_jobs := update_where p f (workspace_jobs db)\<rparr>)"
proof -
  let ?db = "db\<lparr>workspace_jobs := update_where p f (workspace_jobs db)\<rparr>"
  have ws: "\<And>r. job_workspace_id (f r) = job_workspace_id r" using key(2) by (simp add: job_key_def)
  have "distinct (map job_workspace_id (filter is_active_job (update_where p f (workspace_jobs db))))"
    using inv act by (intro distinct_filter_update ws) (auto simp: store_inv_defs)
  then show ?thesis using inv
    by (simp add: store_inv_defs keys_update_where key_image_update_where key ws)
qed

lemma insert_event_Inr:
  "insert_workspace_event jid et msg pl created db = Inr (db', ev) \<longleftrightarrow>
     event_ok ev \<and> jid \<in> job_id ` set (workspace_jobs db) \<and>
     ev = \<lparr>we_sequence = Suc (workspace_event_sequence db), we_job_id = jid, we_event_type = et,
           we_message = msg, we_payload = pl, we_created_at = created\<rparr> \<and>
     db' = db\<lparr>workspace_events := workspace_events db @ [ev],
              workspace_event_sequence := Suc (workspace_event_sequence db)\<rparr>"
proof -
  have "validated_event_payload et msg pl = Inr x \<Longrightarrow> x = pl" for x
    by (auto simp: validated_event_payload_def bind_res_Inr_iff Let_def split: option.splits if_splits)
  then show ?thesis
    by (auto simp: insert_workspace_event_def bind_res_Inr_iff Let_def event_ok_def row_of_None_iff)
qed

lemma insert_event_inv:
  assumes ins: "insert_workspace_event jid et msg pl created db = Inr (db', ev)" and inv: "store_inv db"
    and cap: "et = ''scan_progress'' \<Longrightarrow> length (progress_events jid db) < 256"
  shows "store_inv db'"
proof -
  from ins have db': "db' = db\<lparr>workspace_events := workspace_events db @ [ev],
        workspace_event_sequence := Suc (workspace_event_sequence db)\<rparr>"
    and ev: "event_ok ev" "jid \<in> job_id ` set (workspace_jobs db)"
      "we_sequence ev = Suc (workspace_event_sequence db)" "we_job_id ev = jid" "we_event_type ev = et"
    by (auto simp: insert_event_Inr)
  have "progress_capped (workspace_events db)" using inv by (simp add: store_inv_def events_inv_def)
  then have "progress_capped (workspace_events db @ [ev])"
    using cap ev by (auto simp: progress_capped_def progress_events_def)
  then have "events_inv db'" using inv ev
    by (auto simp: db' store_inv_def events_inv_def sorted_wrt_append less_Suc_eq_le le_Suc_eq)
  then show ?thesis using inv ev unfolding db'
    by (simp add: store_inv_def keys_wf_def refs_wf_def jobs_wf_def drafts_wf_def approvals_wf_def)
qed

lemma insert_other_event_inv:
  "insert_workspace_event jid et msg pl created db = Inr (db', ev) \<Longrightarrow> store_inv db \<Longrightarrow>
     et \<noteq> ''scan_progress'' \<Longrightarrow> store_inv db'"
  by (rule insert_event_inv) auto

lemma insert_job_Inr:
  "insert_job j db = Inr db' \<longleftrightarrow> job_id j \<notin> job_id ` set (workspace_jobs db) \<and>
     job_key j \<notin> job_key ` set (workspace_jobs db) \<and>
     (is_active_job j \<longrightarrow> \<not> has_active_job (job_workspace_id j) db) \<and>
     job_workspace_id j \<in> ws_workspace_id ` set (workspaces db) \<and>
     db' = db\<lparr>workspace_jobs := workspace_jobs db @ [j]\<rparr>"
  by (auto simp: insert_job_def row_of_None_iff job_key_def has_active_job_def image_iff)

lemma insert_job_inv:
  assumes "insert_job j db = Inr db'" and inv: "store_inv db"
  shows "store_inv db'"
proof -
  from assms(1) have new: "job_id j \<notin> job_id ` set (workspace_jobs db)"
      "job_key j \<notin> job_key ` set (workspace_jobs db)"
      "job_workspace_id j \<in> ws_workspace_id ` set (workspaces db)"
    and act: "is_active_job j \<longrightarrow> \<not> has_active_job (job_workspace_id j) db"
    and db': "db' = db\<lparr>workspace_jobs := workspace_jobs db @ [j]\<rparr>"
    by (simp_all add: insert_job_Inr)
  have "distinct (map job_workspace_id (filter is_active_job (workspace_jobs db')))"
    using inv act by (auto simp: db' store_inv_def jobs_wf_def has_active_job_def)
  then show ?thesis using inv new unfolding db'
    by (simp add: store_inv_defs subset_insertI2)
qed

lemma insert_workspace_Inr:
  "insert_workspace r db = Inr db' \<longleftrightarrow> ws_workspace_id r \<notin> ws_workspace_id ` set (workspaces db) \<and>
     db' = db\<lparr>workspaces := workspaces db @ [r]\<rparr>"
  by (auto simp: insert_workspace_def row_of_None_iff)

lemma insert_workspace_inv:
  assumes "insert_workspace r db = Inr db'" and inv: "store_inv db"
    and "draft_ok (manifest_revisions db) r"
  shows "store_inv db'"
proof -
  from assms(1) have new: "ws_workspace_id r \<notin> ws_workspace_id ` set (workspaces db)"
    and db': "db' = db\<lparr>workspaces := workspaces db @ [r]\<rparr>" by (simp_all add: insert_workspace_Inr)
  show ?thesis using inv new assms(3) unfolding db'
    by (simp add: store_inv_defs subset_insertI2)
qed

lemma rev_known_append: "rev_known revs w rid \<Longrightarrow> rev_known (revs @ xs) w rid"
  by (auto simp: rev_known_def)

lemma rev_known_image: "rev_known revs w rid \<Longrightarrow> rid \<in> rr_revision_id ` set revs"
  by (auto simp: rev_known_def)

lemma draft_ok_redraft:
  "draft_ok revs r \<Longrightarrow> st \<noteq> WorkspaceState.APPROVED \<Longrightarrow> rev_known revs (ws_workspace_id r) rid \<Longrightarrow>
     draft_ok revs (r\<lparr>ws_current_draft_revision_id := Some rid, ws_state := st, ws_updated_at := now\<rparr>)"
  by (simp add: draft_ok_def)

lemma draft_ok_state:
  "draft_ok revs r \<Longrightarrow> st \<noteq> WorkspaceState.APPROVED \<Longrightarrow>
     draft_ok revs (r\<lparr>ws_state := st, ws_updated_at := now\<rparr>)"
  by (simp add: draft_ok_def)

lemma draft_ok_append: "draft_ok revs r \<Longrightarrow> draft_ok (revs @ xs) r"
  by (auto simp: draft_ok_def rev_known_append)

lemma insert_revision_Inr:
  "insert_revision r db = Inr db' \<longleftrightarrow>
     rr_revision_id r \<notin> rr_revision_id ` set (manifest_revisions db) \<and>
     rr_workspace_id r \<in> ws_workspace_id ` set (workspaces db) \<and>
     (rr_scan_job_id r \<noteq> None \<longrightarrow> rr_scan_job_id r \<notin> rr_scan_job_id ` set (manifest_revisions db)) \<and>
     db' = db\<lparr>manifest_revisions := manifest_revisions db @ [r]\<rparr>"
  by (auto simp: insert_revision_def row_of_None_iff)

lemma insert_revision_inv:
  assumes "insert_revision r db = Inr db'" and inv: "store_inv db"
  shows "store_inv db'"
proof -
  from assms(1) have new: "rr_revision_id r \<notin> rr_revision_id ` set (manifest_revisions db)"
      "rr_workspace_id r \<in> ws_workspace_id ` set (workspaces db)"
      "rr_scan_job_id r \<noteq> None \<longrightarrow> rr_scan_job_id r \<notin> rr_scan_job_id ` set (manifest_revisions db)"
    and db': "db' = db\<lparr>manifest_revisions := manifest_revisions db @ [r]\<rparr>"
    by (simp_all add: insert_revision_Inr)
  have "distinct (List.map_filter rr_scan_job_id (manifest_revisions db'))"
    using inv new(3) unfolding db'
    by (cases "rr_scan_job_id r")
      (auto simp: map_filter_append List.map_filter_simps store_inv_defs List.map_filter_def image_iff)
  then show ?thesis using inv new(1,2) unfolding db'
    by (simp add: store_inv_defs rev_known_append draft_ok_append subset_insertI2)
qed

lemma entries_of_append: "entries_of rid (rows @ map (Pair k) es) =
    (if rid = k then order_by entry_order (map snd (filter (\<lambda>(r, e). r = rid) rows) @ es)
     else entries_of rid rows)"
  by (auto simp: entries_of_def comp_def)

lemma insert_entry_Inr:
  "insert_entry rid e db = Inr db' \<longleftrightarrow> entry_key (rid, e) \<notin> entry_key ` set (manifest_entries db) \<and>
     rid \<in> rr_revision_id ` set (manifest_revisions db) \<and>
     db' = db\<lparr>manifest_entries := manifest_entries db @ [(rid, e)]\<rparr>"
proof -
  have "(\<lambda>(r, x). (r, me_entry_id x)) = entry_key" by (auto simp: entry_key_def fun_eq_iff)
  then show ?thesis by (auto simp: insert_entry_def row_of_None_iff entry_key_def)
qed

lemma insert_entry_inv:
  assumes "insert_entry rid e db = Inr db'" and inv: "store_inv db"
    and free: "rid \<notin> ap_revision_id ` set (approvals db)"
  shows "store_inv db'"
proof -
  from assms(1) have new: "entry_key (rid, e) \<notin> entry_key ` set (manifest_entries db)"
      "rid \<in> rr_revision_id ` set (manifest_revisions db)"
    and db': "db' = db\<lparr>manifest_entries := manifest_entries db @ [(rid, e)]\<rparr>"
    by (simp_all add: insert_entry_Inr)
  have "approval_ok (manifest_entries db') a" if a: "a \<in> set (approvals db)" for a
  proof -
    have "ap_revision_id a \<noteq> rid" using free a by auto
    then have "entries_of (ap_revision_id a) (manifest_entries db') =
        entries_of (ap_revision_id a) (manifest_entries db)"
      using entries_of_append [of "ap_revision_id a" "manifest_entries db" rid "[e]"]
      by (simp add: db')
    moreover have "approval_ok (manifest_entries db) a" using inv a by (simp add: store_inv_defs)
    ultimately show ?thesis by (simp add: approval_ok_def included_entries_def)
  qed
  then have "approvals_wf db'" by (simp add: approvals_wf_def db')
  then show ?thesis using inv new unfolding db'
    by (simp add: store_inv_def keys_wf_def refs_wf_def jobs_wf_def events_inv_def drafts_wf_def)
qed

text \<open>Storing a list of entries under a fresh revision.\<close>

lemma insert_entries_Inr:
  assumes "insert_entries rid es db = Inr db'"
  shows "db' = db\<lparr>manifest_entries := manifest_entries db @ map (Pair rid) es\<rparr>"
  using assms
proof (induction es arbitrary: db)
  case (Cons e es)
  then obtain db1 where s: "insert_entry rid e db = Inr db1" "insert_entries rid es db1 = Inr db'"
    by (auto simp: bind_res_Inr_iff)
  have "db1 = db\<lparr>manifest_entries := manifest_entries db @ [(rid, e)]\<rparr>"
    using s(1) by (simp add: insert_entry_Inr)
  then show ?case by (simp add: Cons.IH [OF s(2)])
qed simp

lemma insert_entries_inv:
  "insert_entries rid es db = Inr db' \<Longrightarrow> store_inv db \<Longrightarrow> rid \<notin> ap_revision_id ` set (approvals db)
    \<Longrightarrow> store_inv db'"
proof (induction es arbitrary: db)
  case (Cons e es)
  from Cons.prems(1) obtain db1 where s: "insert_entry rid e db = Inr db1"
      "insert_entries rid es db1 = Inr db'" by (auto simp: bind_res_Inr_iff)
  then have "approvals db1 = approvals db" by (auto simp: insert_entry_Inr)
  then show ?case using Cons.IH [OF s(2) insert_entry_inv [OF s(1) Cons.prems(2,3)]] Cons.prems(3)
    by simp
qed simp

lemma insert_scanned_entries:
  assumes "insert_scanned w rid seen es db = Inr db'"
  shows "insert_entries rid es db = Inr db' \<and> (\<forall>e \<in> set es. me_workspace_id e = w) \<and>
    distinct (map me_entry_id es)"
proof -
  have "insert_entries rid es db = Inr db' \<and> (\<forall>e \<in> set es. me_workspace_id e = w) \<and>
      distinct (map me_entry_id es) \<and> me_entry_id ` set es \<inter> set seen = {}"
    using assms
  proof (induction es arbitrary: seen db)
    case (Cons e es)
    from Cons.prems obtain db1 where s: "insert_entry rid e db = Inr db1"
        "insert_scanned w rid (me_entry_id e # seen) es db1 = Inr db'"
        "me_workspace_id e = w" "me_entry_id e \<notin> set seen"
      by (auto simp: bind_res_Inr_iff split: if_splits)
    from Cons.IH [OF s(2)] s show ?case by auto
  qed simp
  then show ?thesis by blast
qed

section \<open>The methods keep the invariant\<close>

text \<open>Redrafting: the new revision is a transformed copy, every older revision is untouched.\<close>

lemma clone_revision_Inr:
  assumes "clone_revision src rid created f db = Inr (db', r)"
  shows "rid \<notin> rr_revision_id ` set (manifest_revisions db) \<and>
    db' = db\<lparr>manifest_revisions := manifest_revisions db @ [clone_row src rid created],
             manifest_entries := manifest_entries db @ map (Pair rid) (map f (rev_entries src))\<rparr> \<and>
    revision (rev_workspace_id src) rid db' = Inr r"
  using assms
  by (auto simp: clone_revision_def bind_res_Inr_iff insert_revision_Inr clone_row_def
      dest!: insert_entries_Inr)

lemma clone_row_sel [simp]:
  "rr_revision_id (clone_row src rid created) = rid"
  "rr_workspace_id (clone_row src rid created) = rev_workspace_id src"
  "rr_parent_revision_id (clone_row src rid created) = Some (rev_revision_id src)"
  "rr_scan_job_id (clone_row src rid created) = None"
  by (simp_all add: clone_row_def)

lemma fresh_no_approval:
  assumes "store_inv db" and "rid \<notin> rr_revision_id ` set (manifest_revisions db)"
  shows "rid \<notin> ap_revision_id ` set (approvals db)"
proof
  assume "rid \<in> ap_revision_id ` set (approvals db)"
  then obtain a where a: "a \<in> set (approvals db)" "rid = ap_revision_id a" by auto
  with assms(1) have "rev_known (manifest_revisions db) (ap_workspace_id a) rid"
    by (simp add: store_inv_def refs_wf_def)
  then show False using assms(2) rev_known_image by blast
qed

lemma clone_revision_inv:
  assumes "clone_revision src rid created f db = Inr (db', r)" and inv: "store_inv db"
  shows "store_inv db' \<and> rev_known (manifest_revisions db') (rev_workspace_id src) rid"
proof -
  let ?row = "clone_row src rid created"
  from assms(1) obtain db1 where
    ins: "insert_revision ?row db = Inr db1" "insert_entries rid (map f (rev_entries src)) db1 = Inr db'"
    by (auto simp: clone_revision_def bind_res_Inr_iff)
  have inv1: "store_inv db1" using insert_revision_inv [OF ins(1) inv] .
  have "rid \<notin> ap_revision_id ` set (approvals db1)"
    using fresh_no_approval [OF inv, of rid] ins(1) by (auto simp: insert_revision_Inr)
  from insert_entries_inv [OF ins(2) inv1 this] have "store_inv db'" .
  moreover have "manifest_revisions db' = manifest_revisions db @ [?row]"
    using ins(1) insert_entries_Inr [OF ins(2)] by (simp add: insert_revision_Inr)
  ultimately show ?thesis by (auto simp: rev_known_def)
qed

lemma workspace_row_Inr:
  "workspace_row w db = Inr r \<longleftrightarrow> row_of ws_workspace_id w (workspaces db) = Some r"
  by (auto simp: workspace_row_def split: option.split)

lemma workspace_row_in:
  "workspace_row w db = Inr r \<Longrightarrow> r \<in> set (workspaces db) \<and> ws_workspace_id r = w"
  by (auto simp: workspace_row_Inr dest: row_of_Some)

lemma workspace_row_unique:
  assumes "store_inv db" and "workspace_row w db = Inr r" and "x \<in> set (workspaces db)"
    and "ws_workspace_id x = w"
  shows "x = r"
proof -
  have "distinct (map ws_workspace_id (workspaces db))" using assms(1) by (simp add: store_inv_defs)
  with assms(3,4) have "row_of ws_workspace_id w (workspaces db) = Some x"
    using row_of_in_distinct by fastforce
  with assms(2) show ?thesis by (simp add: workspace_row_Inr)
qed

lemma revision_Inr:
  assumes "revision w rid db = Inr r"
  shows "rev_known (manifest_revisions db) w rid \<and> rev_revision_id r = rid \<and> rev_workspace_id r = w \<and>
    rev_entries r = map (\<lambda>e. e\<lparr>me_workspace_id := w\<rparr>) (entries_of rid (manifest_entries db))"
  using assms
  by (auto simp: revision_def rev_known_def find_Some_iff split: option.splits dest: nth_mem)

lemma revision_workspace: "revision w rid db = Inr r \<Longrightarrow> rev_workspace_id r = w"
  by (simp add: revision_Inr)

lemma redraft_inv:
  assumes "redraft now fresh w src f st db = Inr (db', r)" and inv: "store_inv db"
    and st: "st \<noteq> WorkspaceState.APPROVED" and src: "rev_workspace_id src = w"
  shows "store_inv db'"
proof -
  from assms(1) obtain db1 r1 where c: "clone_revision src fresh now f db = Inr (db1, r1)"
    and db': "db' = update_workspace w (\<lambda>r. r\<lparr>ws_current_draft_revision_id := Some fresh,
      ws_state := st, ws_updated_at := now\<rparr>) db1"
    by (auto simp: redraft_def bind_res_Inr_iff Let_def)
  note inv1 = clone_revision_inv [OF c inv]
  have "draft_ok (manifest_revisions db1) x" if "x \<in> set (workspaces db1)" for x
    using inv1 that by (simp add: store_inv_def drafts_wf_def)
  then show ?thesis unfolding db' using inv1 st src
    by (intro update_workspace_inv) (auto intro: draft_ok_redraft)
qed

lemma set_inclusion_inv:
  "set_inclusion fresh now w rid ids b db = Inr (db', r) \<Longrightarrow> store_inv db \<Longrightarrow> store_inv db'"
  by (auto simp: set_inclusion_def bind_res_Inr_iff split: if_splits
      intro: redraft_inv revision_workspace)

lemma mark_entries_changed_latest_inv:
  assumes "mark_entries_changed_latest fresh now w ids code db = Inr (db', r)" and "store_inv db"
  shows "store_inv db'"
proof -
  from assms(1) obtain rid rev where r: "revision w rid db = Inr rev"
    "redraft now fresh w rev (mark_changed (set ids) code) NEEDS_ATTENTION db = Inr (db', r)"
    by (auto simp: mark_entries_changed_latest_def bind_res_Inr_iff split: if_splits option.splits)
  show ?thesis using redraft_inv [OF r(2) assms(2) _ revision_workspace [OF r(1)]] by simp
qed

lemma mark_entry_changed_inv:
  "mark_entry_changed fresh now w eid code db = Inr db' \<Longrightarrow> store_inv db \<Longrightarrow> store_inv db'"
  by (auto simp: mark_entry_changed_def bind_res_Inr_iff dest: mark_entries_changed_latest_inv)

lemma mark_revision_attention_inv:
  "mark_revision_attention_if_current fresh now w rid ids code db = Inr (db', r) \<Longrightarrow> store_inv db
    \<Longrightarrow> store_inv db'"
  by (auto simp: mark_revision_attention_if_current_def bind_res_Inr_iff split: if_splits
      intro: redraft_inv revision_workspace)

lemma store_inv_draft:
  "store_inv db \<Longrightarrow> r \<in> set (workspaces db) \<Longrightarrow> draft_ok (manifest_revisions db) r"
  by (simp add: store_inv_def drafts_wf_def)

text \<open>Changing the state of a workspace (not to APPROVED).\<close>

lemma set_state_inv:
  assumes "store_inv db" and "st \<noteq> WorkspaceState.APPROVED"
  shows "store_inv (update_workspace w (\<lambda>r. r\<lparr>ws_state := st, ws_updated_at := now\<rparr>) db)"
  using assms by (intro update_workspace_inv) (auto intro: draft_ok_state store_inv_draft)

lemma touch_access_inv:
  assumes "store_inv db"
  shows "store_inv (update_workspace w (\<lambda>r. r\<lparr>ws_last_access_verified_at := v, ws_updated_at := now\<rparr>) db)"
proof (rule update_workspace_inv [OF assms])
  fix r assume "r \<in> set (workspaces db)"
  then have "draft_ok (manifest_revisions db) r" using assms by (rule store_inv_draft [rotated])
  then show "draft_ok (manifest_revisions db) (r\<lparr>ws_last_access_verified_at := v, ws_updated_at := now\<rparr>)"
    by (simp add: draft_ok_def)
qed simp

lemma set_job_inv:
  assumes "store_inv db" and "\<And>r. job_id (f r) = job_id r" "\<And>r. job_key (f r) = job_key r"
    and "\<And>r. r \<in> set (workspace_jobs db) \<Longrightarrow> job_id r = jid \<Longrightarrow> is_active_job (f r) \<Longrightarrow> is_active_job r"
  shows "store_inv (update_job_row jid f db)"
  unfolding update_job_row_def using assms by (intro update_job_inv) auto

lemma job_row_Inr: "job_row j db = Inr r \<longleftrightarrow> row_of job_id j (workspace_jobs db) = Some r"
  by (auto simp: job_row_def split: option.split)

lemma job_row_unique:
  assumes "store_inv db" and "job_row j db = Inr r" and "x \<in> set (workspace_jobs db)" and "job_id x = j"
  shows "x = r"
proof -
  have "distinct (map job_id (workspace_jobs db))" using assms(1) by (simp add: store_inv_defs)
  with assms(3,4) have "row_of job_id j (workspace_jobs db) = Some x"
    using row_of_in_distinct by fastforce
  with assms(2) show ?thesis by (simp add: job_row_Inr)
qed

lemma start_job_inv:
  assumes "start_job now jid db = Inr (db', r)" and inv: "store_inv db"
  shows "store_inv db'"
proof -
  from assms(1) obtain row where row: "job_row jid db = Inr row"
    by (auto simp: start_job_def bind_res_Inr_iff)
  show ?thesis
  proof (cases "job_status row = WorkspaceJobStatus.RUNNING")
    case True
    then show ?thesis using assms row by (auto simp: start_job_def bind_res_Inr_iff)
  next
    case False
    let ?db1 = "update_job_row jid (\<lambda>j. j\<lparr>job_status := WorkspaceJobStatus.RUNNING,
      job_started_at := Some now\<rparr>) db"
    from assms(1) row False have q: "job_status row = WorkspaceJobStatus.QUEUED"
      by (auto simp: start_job_def bind_res_Inr_iff split: if_splits)
    have "store_inv ?db1"
      using job_row_unique [OF inv row] q
      by (intro set_job_inv [OF inv]) (auto simp: job_key_def is_active_job_def)
    then have "store_inv (update_workspace (job_workspace_id row)
        (\<lambda>r. r\<lparr>ws_state := SCANNING, ws_updated_at := now\<rparr>) ?db1)"
      by (rule set_state_inv) simp
    then show ?thesis using assms(1) row False
      by (auto simp: start_job_def bind_res_Inr_iff Let_def split: if_splits intro: insert_event_inv)
  qed
qed

lemma append_progress_inv:
  "append_progress now jid p db = Inr (db', e) \<Longrightarrow> store_inv db \<Longrightarrow> store_inv db'"
  by (auto simp: append_progress_def bind_res_Inr_iff Let_def split: if_splits option.splits
      intro: insert_event_inv)

lemma fail_job_inv:
  assumes "fail_job now jid code db = Inr (db', r)" and inv: "store_inv db"
  shows "store_inv db'"
proof -
  let ?db1 = "update_job_row jid (\<lambda>j. j\<lparr>job_status := WorkspaceJobStatus.FAILED,
    job_safe_error_code := Some code, job_finished_at := Some now\<rparr>) db"
  have "store_inv ?db1"
    by (intro set_job_inv [OF inv]) (auto simp: job_key_def is_active_job_def)
  then have "store_inv (update_workspace w (\<lambda>r. r\<lparr>ws_state := NEEDS_ATTENTION, ws_updated_at := now\<rparr>) ?db1)"
    for w by (rule set_state_inv) simp
  then show ?thesis using assms(1)
    by (auto simp: fail_job_def bind_res_Inr_iff Let_def split: if_splits intro: insert_event_inv)
qed

lemma allowed_active:
  "t \<in> ALLOWED_JOB_TRANSITIONS s \<Longrightarrow> s \<in> {WorkspaceJobStatus.QUEUED, WorkspaceJobStatus.RUNNING}"
  by (cases s) auto

lemma status_event_not_progress: "et \<in> set (STATUS_EVENTS st) \<Longrightarrow> et \<noteq> ''scan_progress''"
  by (cases st) auto

lemma update_job_keeps_inv:
  assumes "update_job j ev db = Inr db'" and inv: "store_inv db"
  shows "store_inv db'"
proof -
  from assms(1) obtain row where row: "job_row (job_id j) db = Inr row"
      "job_status j \<in> ALLOWED_JOB_TRANSITIONS (job_status row)"
    by (auto simp: update_job_def bind_res_Inr_iff guard_job_transition_def split: if_splits)
  then have "is_active_job row" by (auto simp: is_active_job_def dest: allowed_active)
  then have "store_inv (update_job_row (job_id j) (\<lambda>r. r\<lparr>job_status := job_status j,
      job_safe_error_code := job_safe_error_code j, job_started_at := job_started_at j,
      job_finished_at := job_finished_at j\<rparr>) db)"
    using job_row_unique [OF inv row(1)]
    by (intro set_job_inv [OF inv]) (auto simp: job_key_def)
  moreover have "\<exists>x. insert_workspace_event (we_job_id ev) (we_event_type ev) (we_message ev)
      (we_payload ev) (we_created_at ev) (update_job_row (job_id j) (\<lambda>r. r\<lparr>job_status := job_status j,
      job_safe_error_code := job_safe_error_code j, job_started_at := job_started_at j,
      job_finished_at := job_finished_at j\<rparr>) db) = Inr (db', x)"
    and "we_event_type ev \<in> set (STATUS_EVENTS (job_status j))"
    using assms(1) by (auto simp: update_job_def bind_res_Inr_iff Let_def split: if_splits)
  ultimately show ?thesis using insert_other_event_inv status_event_not_progress by blast
qed

lemma create_job_inv:
  "create_job j key db = Inr (db', r) \<Longrightarrow> store_inv db \<Longrightarrow> store_inv db'"
  by (auto simp: create_job_def bind_res_Inr_iff split: option.splits sum.splits if_splits
      intro: insert_job_inv)

lemma requeue_jobs_inv:
  "requeue_jobs now js db = Inr (db', rs) \<Longrightarrow> store_inv db \<Longrightarrow> store_inv db'"
proof (induction js arbitrary: db rs)
  case (Cons j js)
  let ?db1 = "db\<lparr>workspace_jobs := update_where
      (\<lambda>r. job_id r = job_id j \<and> job_status r = WorkspaceJobStatus.RUNNING)
      (\<lambda>r. r\<lparr>job_status := WorkspaceJobStatus.QUEUED, job_safe_error_code := None,
             job_started_at := None, job_finished_at := None\<rparr>) (workspace_jobs db)\<rparr>"
  have inv1: "store_inv ?db1"
    by (rule update_job_inv [OF Cons.prems(2)]) (simp_all add: job_key_def is_active_job_def)
  from Cons.prems(1) obtain db2 ev rs2 where
    "insert_workspace_event (job_id j) ''queued'' ''Workspace operation queued.'' [] now ?db1 = Inr (db2, ev)"
    "requeue_jobs now js db2 = Inr (db', rs2)"
    by (auto simp: bind_res_Inr_iff Let_def)
  with Cons.IH insert_event_inv inv1 show ?case by blast
qed simp

lemma recover_running_inv:
  "recover_running_jobs now db = Inr (db', rs) \<Longrightarrow> store_inv db \<Longrightarrow> store_inv db'"
  by (auto simp: recover_running_jobs_def intro: requeue_jobs_inv)

lemma recover_unfinished_inv:
  "recover_unfinished_jobs now db = Inr (db', rs) \<Longrightarrow> store_inv db \<Longrightarrow> store_inv db'"
  by (auto simp: recover_unfinished_jobs_def bind_res_Inr_iff intro: recover_running_inv)

text \<open>What a first commit of a scan does, statement by statement.\<close>

definition scan_row :: "string \<Rightarrow> string \<Rightarrow> string option \<Rightarrow> string \<Rightarrow> int \<Rightarrow> RevisionRow" where
  "scan_row fresh w parent jid t =
     \<lparr>rr_revision_id = fresh, rr_workspace_id = w, rr_parent_revision_id = parent,
      rr_scan_job_id = Some jid, rr_policy_version = sp_policy_version DEFAULT_SCAN_POLICY,
      rr_created_at = t\<rparr>"

definition finish_scan_job :: "int \<Rightarrow> WorkspaceJob \<Rightarrow> WorkspaceJob" where
  "finish_scan_job t j = j\<lparr>job_status := WorkspaceJobStatus.SUCCEEDED, job_safe_error_code := None,
     job_finished_at := Some t\<rparr>"

definition scanned_workspace :: "string \<Rightarrow> int \<Rightarrow> WorkspaceRow \<Rightarrow> WorkspaceRow" where
  "scanned_workspace fresh t r = r\<lparr>ws_state := WorkspaceState.APPROVAL_REQUIRED,
     ws_current_draft_revision_id := Some fresh, ws_last_scanned_at := Some t, ws_updated_at := t\<rparr>"

lemma commit_scan_cases:
  assumes "commit_scan fresh w res jid db = Inr (db', r)"
  obtains (replay) x where "x \<in> set (manifest_revisions db)" "rr_workspace_id x = w"
      "rr_scan_job_id x = Some jid" "revision w (rr_revision_id x) db = Inr r" "db' = db"
  | (commit) wr job db1 db2 db3 ev where
      "workspace_row w db = Inr wr" "job_row jid db = Inr job" "job_workspace_id job = w"
      "job_status job = WorkspaceJobStatus.RUNNING" "\<not> newer_commit w job db"
      "ws_state wr \<notin> {WorkspaceState.DELETING, CLEANUP_PENDING}"
      "insert_revision (scan_row fresh w (ws_current_draft_revision_id wr) jid (sr_completed_at res)) db = Inr db1"
      "insert_scanned w fresh [] (sr_entries res) db1 = Inr db2"
      "db3 = update_workspace w (scanned_workspace fresh (sr_completed_at res))
         (update_job_row jid (finish_scan_job (sr_completed_at res)) db2)"
      "insert_workspace_event jid ''approval_required''
         ''Scan complete. Review the selected course files.''
         [(''bytes_hashed'', VInt (int (sr_bytes_hashed res))),
          (''discovered_count'', VInt (int (sr_discovered_count res))),
          (''failure_count'', VInt (int (sr_failure_count res))),
          (''revision_id'', VStr fresh)] (sr_completed_at res) db3 = Inr (db', ev)"
      "revision w fresh db' = Inr r"
proof (cases "find (\<lambda>r. rr_workspace_id r = w \<and> rr_scan_job_id r = Some jid) (manifest_revisions db)")
  case (Some x)
  then have "x \<in> set (manifest_revisions db) \<and> rr_workspace_id x = w \<and> rr_scan_job_id x = Some jid"
    by (auto simp: find_Some_iff)
  with Some assms show ?thesis
    by (auto simp: commit_scan_def bind_res_Inr_iff split: if_splits intro: replay)
next
  case None
  have f: "finish_scan_job t = (\<lambda>j. j\<lparr>job_status := WorkspaceJobStatus.SUCCEEDED,
      job_safe_error_code := None, job_finished_at := Some t\<rparr>)" for t
    by (simp add: finish_scan_job_def fun_eq_iff)
  have g: "scanned_workspace fresh t = (\<lambda>r. r\<lparr>ws_state := WorkspaceState.APPROVAL_REQUIRED,
      ws_current_draft_revision_id := Some fresh, ws_last_scanned_at := Some t, ws_updated_at := t\<rparr>)" for t
    by (simp add: scanned_workspace_def fun_eq_iff)
  from assms None obtain wr job db1 db2 ev where
    "workspace_row w db = Inr wr" "job_row jid db = Inr job" "job_workspace_id job = w"
    "job_status job = WorkspaceJobStatus.RUNNING" "\<not> newer_commit w job db"
    "guard_workspace_accepts_jobs wr = Inr ()"
    "insert_revision (scan_row fresh w (ws_current_draft_revision_id wr) jid (sr_completed_at res)) db = Inr db1"
    "insert_scanned w fresh [] (sr_entries res) db1 = Inr db2"
    "insert_workspace_event jid ''approval_required''
         ''Scan complete. Review the selected course files.''
         [(''bytes_hashed'', VInt (int (sr_bytes_hashed res))),
          (''discovered_count'', VInt (int (sr_discovered_count res))),
          (''failure_count'', VInt (int (sr_failure_count res))),
          (''revision_id'', VStr fresh)] (sr_completed_at res)
       (update_workspace w (scanned_workspace fresh (sr_completed_at res))
         (update_job_row jid (finish_scan_job (sr_completed_at res)) db2)) = Inr (db', ev)"
    "revision w fresh db' = Inr r"
    by (auto simp: commit_scan_def bind_res_Inr_iff Let_def scan_row_def f g split: if_splits)
  then show ?thesis
    by (intro commit [OF _ _ _ _ _ _ _ _ refl])
      (auto simp: guard_workspace_accepts_jobs_def split: if_splits)
qed

lemma commit_scan_inv:
  assumes c: "commit_scan fresh w res jid db = Inr (db', r)" and inv: "store_inv db"
  shows "store_inv db'"
  using c
proof (cases rule: commit_scan_cases)
  case (commit wr job db1 db2 db3 ev)
  have inv1: "store_inv db1" using insert_revision_inv [OF commit(7) inv] .
  have rev1: "rev_known (manifest_revisions db1) w fresh"
    using commit(7) by (auto simp: insert_revision_Inr rev_known_def scan_row_def)
  note ent = insert_scanned_entries [OF commit(8), THEN conjunct1]
  have "fresh \<notin> ap_revision_id ` set (approvals db1)"
    using fresh_no_approval [OF inv, of fresh] commit(7) by (auto simp: insert_revision_Inr scan_row_def)
  from insert_entries_inv [OF ent inv1 this] have inv2: "store_inv db2" .
  let ?db = "update_job_row jid (finish_scan_job (sr_completed_at res)) db2"
  have inv3: "store_inv ?db"
    by (intro set_job_inv [OF inv2]) (simp_all add: finish_scan_job_def job_key_def is_active_job_def)
  have revs: "rev_known (manifest_revisions ?db) w fresh"
    using rev1 insert_entries_Inr [OF ent] by (simp add: update_job_row_def)
  have "store_inv db3" unfolding commit(9)
  proof (rule update_workspace_inv [OF inv3])
    fix x assume "x \<in> set (workspaces ?db)" "ws_workspace_id x = w"
    then show "draft_ok (manifest_revisions ?db) (scanned_workspace fresh (sr_completed_at res) x)"
      using store_inv_draft [OF inv3] revs by (auto simp: draft_ok_def scanned_workspace_def)
  qed (simp add: scanned_workspace_def)
  then show ?thesis using insert_other_event_inv [OF commit(10)] by simp
qed (use inv in simp)

section \<open>Approving keeps the invariant\<close>

lemma insort_key_map:
  "(\<And>x. k (f x) = k x) \<Longrightarrow> insort_key k (f x) (map f xs) = map f (insort_key k x xs)"
  by (induction xs) auto

lemma sort_key_map: "(\<And>x. k (f x) = k x) \<Longrightarrow> sort_key k (map f xs) = map f (sort_key k xs)"
  by (induction xs) (simp_all add: insort_key_map)

definition approve_entry :: "string set \<Rightarrow> ManifestEntry \<Rightarrow> ManifestEntry" where
  "approve_entry ids e = (if me_entry_id e \<in> ids then e\<lparr>me_state := SourceState.APPROVED\<rparr> else e)"

definition approve_rows ::
  "string \<Rightarrow> string set \<Rightarrow> (string \<times> ManifestEntry) list \<Rightarrow> (string \<times> ManifestEntry) list" where
  "approve_rows rid ids rows = update_where (\<lambda>(r, e). r = rid \<and> me_entry_id e \<in> ids)
     (\<lambda>(r, e). (r, e\<lparr>me_state := SourceState.APPROVED\<rparr>)) rows"

lemma approve_entry_sel [simp]:
  "me_entry_id (approve_entry ids e) = me_entry_id e"
  "me_included (approve_entry ids e) = me_included e"
  "me_sha256 (approve_entry ids e) = me_sha256 e"
  "entry_order (approve_entry ids e) = entry_order e"
  by (simp_all add: approve_entry_def entry_order_def)

lemma entries_of_approve_rows:
  "entries_of k (approve_rows rid ids rows) =
     (if k = rid then map (approve_entry ids) (entries_of k rows) else entries_of k rows)"
proof -
  have "map snd (filter (\<lambda>(r, e). r = k) (approve_rows rid ids rows)) =
      map (if k = rid then approve_entry ids else id) (map snd (filter (\<lambda>(r, e). r = k) rows))"
  proof (induction rows)
    case (Cons x rows)
    then show ?case
      by (cases x; cases "k = rid") (simp_all add: approve_rows_def update_where_def approve_entry_def)
  qed (simp add: approve_rows_def update_where_def)
  then show ?thesis
    by (simp add: entries_of_def order_by_def sort_key_map del: map_map)
qed

lemma approved_entries_cong:
  assumes "map (\<lambda>i. (me_entry_id i, me_sha256 i)) xs = map (\<lambda>i. (me_entry_id i, me_sha256 i)) ys"
  shows "approved_entries xs = approved_entries ys"
proof -
  have "approved_entries zs = order_by ae_entry_id
      (map (\<lambda>(i, h). \<lparr>ae_entry_id = i, ae_sha256 = the h\<rparr>) (map (\<lambda>i. (me_entry_id i, me_sha256 i)) zs))"
    for zs by (simp add: approved_entries_def comp_def)
  then show ?thesis by (simp only: assms)
qed

lemma distinct_map_sort: "distinct (map f (sort_key k xs)) = distinct (map f xs)"
  by (simp add: distinct_map)

lemma distinct_entry_ids:
  assumes "distinct (map entry_key rows)"
  shows "distinct (map me_entry_id (entries_of rid rows))"
proof -
  have "distinct (map me_entry_id (map snd (filter (\<lambda>(r, e). r = rid) rows)))"
    using assms by (induction rows) (auto simp: entry_key_def image_iff)
  then show ?thesis by (simp only: entries_of_def order_by_def distinct_map_sort)
qed

lemma approve_Inr:
  assumes "approve fresh clock w rid policy verified db = Inr (db', a)"
  obtains wr rev ids t where
    "workspace_row w db = Inr wr" "ws_current_draft_revision_id wr = Some rid"
    "revision w rid db = Inr rev" "rev_policy_version rev = policy"
    "\<forall>i \<in> set (filter me_included (rev_entries rev)). approval_eligible i"
    "fresh \<notin> ap_approval_id ` set (approvals db)"
    "ids = me_entry_id ` set (filter me_included (rev_entries rev))"
    "t = (case verified of None \<Rightarrow> clock | Some v \<Rightarrow> v)"
    "a = \<lparr>ap_approval_id = fresh, ap_workspace_id = w, ap_revision_id = rid,
          ap_entries = approved_entries (filter me_included (rev_entries rev)),
          ap_policy_version = policy, ap_approved_at = t\<rparr>"
    "db' = update_workspace w (\<lambda>r. r\<lparr>ws_state := WorkspaceState.APPROVED,
           ws_current_approved_revision_id := Some rid, ws_updated_at := t,
           ws_last_access_verified_at :=
             (case verified of None \<Rightarrow> ws_last_access_verified_at r | Some v \<Rightarrow> Some v)\<rparr>)
         (db\<lparr>approvals := approvals db @ [a],
             manifest_entries := approve_rows rid ids (manifest_entries db)\<rparr>)"
proof -
  from assms obtain wr rev where
    "workspace_row w db = Inr wr" "ws_current_draft_revision_id wr = Some rid"
    "revision w rid db = Inr rev" "rev_policy_version rev = policy"
    "\<forall>i \<in> set (filter me_included (rev_entries rev)). approval_eligible i"
    "fresh \<notin> ap_approval_id ` set (approvals db)"
    by (auto simp: approve_def bind_res_Inr_iff Let_def row_of_None_iff split: if_splits)
  with assms show ?thesis
    by (intro that [OF _ _ _ _ _ _ refl refl])
      (auto simp: approve_def bind_res_Inr_iff Let_def row_of_None_iff approve_rows_def)
qed

lemma included_ids_distinct:
  assumes "store_inv db" and "e \<in> set (entries_of rid (manifest_entries db))"
  shows "me_entry_id e \<in> me_entry_id ` set (included_entries rid (manifest_entries db)) \<longleftrightarrow> me_included e"
proof -
  have "distinct (map me_entry_id (entries_of rid (manifest_entries db)))"
    using assms(1) by (intro distinct_entry_ids) (simp add: store_inv_defs)
  then have "inj_on me_entry_id (set (entries_of rid (manifest_entries db)))"
    by (simp add: distinct_map)
  then show ?thesis using assms(2) by (auto simp: included_entries_def dest: inj_onD)
qed

lemma approve_inv:
  assumes c: "approve fresh clock w rid policy verified db = Inr (db', a)" and inv: "store_inv db"
  shows "store_inv db'"
proof -
  from c obtain wr rev ids t where
    A: "workspace_row w db = Inr wr" "ws_current_draft_revision_id wr = Some rid"
      "revision w rid db = Inr rev"
    and elig: "\<forall>i \<in> set (filter me_included (rev_entries rev)). approval_eligible i"
    and new: "fresh \<notin> ap_approval_id ` set (approvals db)"
    and ids: "ids = me_entry_id ` set (filter me_included (rev_entries rev))"
    and a: "a = \<lparr>ap_approval_id = fresh, ap_workspace_id = w, ap_revision_id = rid,
          ap_entries = approved_entries (filter me_included (rev_entries rev)),
          ap_policy_version = policy, ap_approved_at = t\<rparr>"
    and db': "db' = update_workspace w (\<lambda>r. r\<lparr>ws_state := WorkspaceState.APPROVED,
           ws_current_approved_revision_id := Some rid, ws_updated_at := t,
           ws_last_access_verified_at :=
             (case verified of None \<Rightarrow> ws_last_access_verified_at r | Some v \<Rightarrow> Some v)\<rparr>)
         (db\<lparr>approvals := approvals db @ [a],
             manifest_entries := approve_rows rid ids (manifest_entries db)\<rparr>)" by (rule approve_Inr)
  let ?rows = "manifest_entries db" and ?rows' = "approve_rows rid ids (manifest_entries db)"
  let ?inc = "included_entries rid ?rows"
  let ?db = "db\<lparr>approvals := approvals db @ [a], manifest_entries := ?rows'\<rparr>"
  note rev = revision_Inr [OF A(3)]
  have sel: "filter me_included (rev_entries rev) = map (\<lambda>e. e\<lparr>me_workspace_id := w\<rparr>) ?inc"
    using rev by (simp add: included_entries_def filter_map comp_def)
  have ids': "ids = me_entry_id ` set ?inc" by (simp add: ids sel image_image)
  have inc': "included_entries k ?rows' =
      (if k = rid then map (approve_entry ids) ?inc else included_entries k ?rows)" for k
    by (simp add: included_entries_def entries_of_approve_rows filter_map comp_def)
  have ok_rid: "\<forall>e \<in> set (map (approve_entry ids) ?inc).
      me_sha256 e \<noteq> None \<and> me_state e = SourceState.APPROVED"
    using elig by (auto simp: sel approve_entry_def ids' approval_eligible_def)
  have pairs: "approved_entries (map (approve_entry ids) ?inc) = approved_entries ?inc"
      "approved_entries (map (\<lambda>e. e\<lparr>me_workspace_id := w\<rparr>) ?inc) = approved_entries ?inc"
    by (rule approved_entries_cong; simp add: comp_def)+
  have "approval_ok ?rows' x" if "x \<in> set (approvals db)" for x
    using inv that ok_rid pairs(1) by (auto simp: store_inv_defs approval_ok_def inc')
  moreover have "approval_ok ?rows' a"
    using ok_rid by (simp add: approval_ok_def a inc' pairs sel)
  ultimately have apps: "approvals_wf ?db" by (simp add: approvals_wf_def)
  have "entry_key (case x of (r, e) \<Rightarrow> (r, e\<lparr>me_state := SourceState.APPROVED\<rparr>)) = entry_key x" for x
    by (cases x) (simp add: entry_key_def)
  then have keys: "map entry_key ?rows' = map entry_key ?rows"
    by (simp add: approve_rows_def keys_update_where)
  have "fst (case x of (r, e) \<Rightarrow> (r, e\<lparr>me_state := SourceState.APPROVED\<rparr>)) = fst x"
    for x :: "string \<times> ManifestEntry" by (cases x) simp
  then have fsts: "fst ` set ?rows' = fst ` set ?rows"
    by (simp add: approve_rows_def key_image_update_where)
  have known: "rev_known (manifest_revisions db) w rid" using rev by simp
  have inv1: "store_inv ?db"
    using inv apps new known
    by (simp add: store_inv_def keys_wf_def refs_wf_def jobs_wf_def events_inv_def drafts_wf_def
        keys fsts a)
  show ?thesis unfolding db'
  proof (rule update_workspace_inv [OF inv1])
    fix r assume r: "r \<in> set (workspaces ?db)" "ws_workspace_id r = w"
    then have "r = wr" using workspace_row_unique [OF inv A(1)] by simp
    then show "draft_ok (manifest_revisions ?db) (r\<lparr>ws_state := WorkspaceState.APPROVED,
           ws_current_approved_revision_id := Some rid, ws_updated_at := t,
           ws_last_access_verified_at :=
             (case verified of None \<Rightarrow> ws_last_access_verified_at r | Some v \<Rightarrow> Some v)\<rparr>)"
      using A(2) r known by (simp add: draft_ok_def)
  qed simp
qed

section \<open>Authority, deletion and cleanup keep the invariant\<close>

lemma hold_result:
  "hold_transmission_authority w aid rid v db = Inr (db', s) \<Longrightarrow>
     db' = (case v of None \<Rightarrow> db | Some v \<Rightarrow> update_workspace w
       (\<lambda>r. r\<lparr>ws_last_access_verified_at := Some v, ws_updated_at := v\<rparr>) db)"
  by (auto simp: hold_transmission_authority_def bind_res_Inr_iff split: if_splits
      option.splits [where option = "x :: TransmissionAuthoritySnapshot option" for x])

lemma hold_inv:
  "hold_transmission_authority w aid rid v db = Inr (db', s) \<Longrightarrow> store_inv db \<Longrightarrow> store_inv db'"
proof -
  assume h: "hold_transmission_authority w aid rid v db = Inr (db', s)" and inv: "store_inv db"
  from hold_result [OF h] show "store_inv db'" using inv touch_access_inv [OF inv] by (cases v) simp_all
qed

lemma record_access_inv:
  "record_access_verified v w db = Inr db' \<Longrightarrow> store_inv db \<Longrightarrow> store_inv db'"
  by (auto simp: record_access_verified_def bind_res_Inr_iff touch_access_inv)

lemma mark_deleting_inv:
  "mark_deleting now w db = Inr (db', r) \<Longrightarrow> store_inv db \<Longrightarrow> store_inv db'"
  by (auto simp: mark_deleting_def bind_res_Inr_iff Let_def set_state_inv split: if_splits)

lemma mark_deleting_if_settled_inv:
  "mark_deleting_if_settled now w b db = Inr (db', r) \<Longrightarrow> store_inv db \<Longrightarrow> store_inv db'"
  by (auto simp: mark_deleting_if_settled_def intro: mark_deleting_inv split: if_splits)

lemma distinct_map_filter_filter:
  "distinct (List.map_filter f xs) \<Longrightarrow> distinct (List.map_filter f (filter P xs))"
proof (induction xs)
  case (Cons x xs)
  have "set (List.map_filter f (filter P xs)) \<subseteq> set (List.map_filter f xs)"
    by (auto simp: List.map_filter_def)
  with Cons show ?case by (cases "f x") (auto simp: List.map_filter_simps)
qed (simp add: List.map_filter_simps)

lemma distinct_map_filter_twice:
  "distinct (map f (filter P xs)) \<Longrightarrow> distinct (map f (filter P (filter Q xs)))"
proof -
  assume d: "distinct (map f (filter P xs))"
  have "filter P (filter Q xs) = filter Q (filter P xs)" by (induction xs) auto
  with d show ?thesis by (simp add: distinct_map_filter del: filter_filter)
qed

lemma entries_of_delete:
  "rid \<notin> S \<Longrightarrow> entries_of rid (delete_where (\<lambda>(r, e). r \<in> S) rows) = entries_of rid rows"
proof -
  assume "rid \<notin> S"
  then have "filter (\<lambda>(r, e). r = rid) (delete_where (\<lambda>(r, e). r \<in> S) rows) = filter (\<lambda>(r, e). r = rid) rows"
    by (induction rows) (auto simp: delete_where_def)
  then show ?thesis by (simp add: entries_of_def)
qed

definition revs_of :: "string \<Rightarrow> workspace_db \<Rightarrow> string set" where
  "revs_of w db = rr_revision_id ` {r \<in> set (manifest_revisions db). rr_workspace_id r = w}"

definition jobs_of :: "string \<Rightarrow> workspace_db \<Rightarrow> string set" where
  "jobs_of w db = job_id ` {j \<in> set (workspace_jobs db). job_workspace_id j = w}"

lemma delete_workspace_cascade_eq:
  "delete_workspace_cascade w db =
     db\<lparr>workspaces := filter (\<lambda>r. ws_workspace_id r \<noteq> w) (workspaces db),
        manifest_revisions := filter (\<lambda>r. rr_workspace_id r \<noteq> w) (manifest_revisions db),
        manifest_entries := delete_where (\<lambda>(r, e). r \<in> revs_of w db) (manifest_entries db),
        approvals := filter (\<lambda>a. ap_workspace_id a \<noteq> w \<and> ap_revision_id a \<notin> revs_of w db) (approvals db),
        workspace_jobs := filter (\<lambda>j. job_workspace_id j \<noteq> w) (workspace_jobs db),
        workspace_events := filter (\<lambda>e. we_job_id e \<notin> jobs_of w db) (workspace_events db)\<rparr>"
  by (simp add: delete_workspace_cascade_def Let_def delete_where_def revs_of_def jobs_of_def)

lemma rev_known_filter:
  "rev_known (filter (\<lambda>r. rr_workspace_id r \<noteq> w) revs) v rid \<longleftrightarrow> v \<noteq> w \<and> rev_known revs v rid"
  by (auto simp: rev_known_def)

lemma delete_cascade_inv:
  assumes inv: "store_inv db"
  shows "store_inv (delete_workspace_cascade w db)"
proof -
  let ?db = "delete_workspace_cascade w db"
  have keys: "keys_wf ?db" using inv
    by (simp add: delete_workspace_cascade_eq store_inv_def keys_wf_def distinct_map_filter
        delete_where_def)
  have "fst x \<in> rr_revision_id ` set (filter (\<lambda>r. rr_workspace_id r \<noteq> w) (manifest_revisions db))"
    if "x \<in> set (manifest_entries db)" "fst x \<notin> revs_of w db" for x
  proof -
    from inv that(1) have "fst x \<in> rr_revision_id ` set (manifest_revisions db)"
      by (auto simp: store_inv_def refs_wf_def)
    with that(2) show ?thesis by (auto simp: revs_of_def)
  qed
  then have ents: "fst ` set (manifest_entries ?db) \<subseteq> rr_revision_id ` set (manifest_revisions ?db)"
    by (fastforce simp: delete_workspace_cascade_eq)
  have "we_job_id e \<in> job_id ` set (filter (\<lambda>j. job_workspace_id j \<noteq> w) (workspace_jobs db))"
    if "e \<in> set (workspace_events db)" "we_job_id e \<notin> jobs_of w db" for e
  proof -
    from inv that(1) have "we_job_id e \<in> job_id ` set (workspace_jobs db)"
      by (auto simp: store_inv_def refs_wf_def)
    with that(2) show ?thesis by (auto simp: jobs_of_def)
  qed
  then have evs: "we_job_id ` set (workspace_events ?db) \<subseteq> job_id ` set (workspace_jobs ?db)"
    by (fastforce simp: delete_workspace_cascade_eq)
  have refs: "refs_wf ?db" using inv ents evs
    unfolding refs_wf_def
    by (auto simp: delete_workspace_cascade_eq store_inv_def refs_wf_def rev_known_filter)
  have jobs: "jobs_wf ?db" using inv
    by (simp add: delete_workspace_cascade_eq store_inv_def jobs_wf_def distinct_map_filter
        distinct_map_filter_filter distinct_map_filter_twice del: filter_filter)
  have events: "events_inv ?db" using inv
    by (simp add: delete_workspace_cascade_eq store_inv_def events_inv_def sorted_wrt_map sorted_wrt_filter
        progress_capped_filter)
  have drafts: "drafts_wf ?db" using inv
    by (auto simp: delete_workspace_cascade_eq store_inv_def drafts_wf_def draft_ok_def rev_known_filter)
  have apps: "approvals_wf ?db" using inv
    by (auto simp: delete_workspace_cascade_eq store_inv_def approvals_wf_def approval_ok_def
        included_entries_def entries_of_delete)
  from keys refs jobs events drafts apps show ?thesis by (simp add: store_inv_def)
qed

lemma delete_rows_inv: "delete_workspace_rows w db = Inr db' \<Longrightarrow> store_inv db \<Longrightarrow> store_inv db'"
  by (auto simp: delete_workspace_rows_def bind_res_Inr_iff delete_cascade_inv split: if_splits)

text \<open>The cleanup queue and the creation requests are read by no other clause of the invariant.\<close>

lemma cleanup_inv:
  assumes "store_inv db" and "distinct (map cl_cleanup_id q)" and "distinct (map cl_owned_relative_path q)"
  shows "store_inv (db\<lparr>cleanup_queue := q\<rparr>)"
  using assms by (simp add: store_inv_defs)

lemma creation_inv:
  assumes "store_inv db" and "distinct (map cr_idempotency_key q)"
  shows "store_inv (db\<lparr>creation_requests := q\<rparr>)"
  using assms by (simp add: store_inv_defs)

lemma cleanup_keys:
  "store_inv db \<Longrightarrow> distinct (map cl_cleanup_id (cleanup_queue db)) \<and>
     distinct (map cl_owned_relative_path (cleanup_queue db))"
  by (simp add: store_inv_defs)

lemma queue_cleanup_cases:
  assumes "queue_cleanup fresh now data cwd w owned code identity db = Inr (db', r)"
  shows "\<exists>rel abs. owned_relative_path data owned = Inr (rel, abs) \<and> cl_owned_relative_path r = rel \<and>
    (\<forall>wr. get_workspace w db = Some wr \<longrightarrow> ws_source_mode wr = NATIVE_FOLDER \<longrightarrow>
       take (length (path_parts cwd (ws_canonical_root wr))) abs \<noteq> path_parts cwd (ws_canonical_root wr)) \<and>
    (db' = db \<and> r \<in> set (cleanup_queue db) \<or>
     db' = db\<lparr>cleanup_queue := cleanup_queue db @ [r]\<rparr> \<and>
     cl_cleanup_id r = fresh \<and> cl_workspace_id r = w \<and> cl_attempt_count r = 0 \<and>
     fresh \<notin> cl_cleanup_id ` set (cleanup_queue db) \<and>
     rel \<notin> cl_owned_relative_path ` set (cleanup_queue db))"
  using assms
  by (auto simp: queue_cleanup_def bind_res_Inr_iff Let_def row_of_None_iff
      split: if_splits option.splits dest!: row_of_Some)

lemma queue_cleanup_inv:
  assumes "queue_cleanup fresh now data cwd w owned code identity db = Inr (db', r)" and inv: "store_inv db"
  shows "store_inv db'"
proof (cases "db' = db")
  case False
  with queue_cleanup_cases [OF assms(1)] have
    "db' = db\<lparr>cleanup_queue := cleanup_queue db @ [r]\<rparr>" "cl_cleanup_id r \<notin> cl_cleanup_id ` set (cleanup_queue db)"
    "cl_owned_relative_path r \<notin> cl_owned_relative_path ` set (cleanup_queue db)" by auto
  then show ?thesis using cleanup_keys [OF inv] by (simp add: cleanup_inv [OF inv])
qed (use inv in simp)

lemma fail_cleanup_inv:
  assumes "fail_cleanup now cid code db = Inr (db', r)" and inv: "store_inv db"
  shows "store_inv db'"
proof -
  let ?q = "update_where (\<lambda>r. cl_cleanup_id r = cid)
    (\<lambda>r. r\<lparr>cl_safe_error_code := code, cl_attempt_count := cl_attempt_count r + 1, cl_updated_at := now\<rparr>)
    (cleanup_queue db)"
  have "map cl_cleanup_id ?q = map cl_cleanup_id (cleanup_queue db)"
    and "map cl_owned_relative_path ?q = map cl_owned_relative_path (cleanup_queue db)"
    by (simp_all add: keys_update_where)
  then have "store_inv (db\<lparr>cleanup_queue := ?q\<rparr>)"
    using cleanup_keys [OF inv] by (intro cleanup_inv [OF inv]) simp_all
  then have "store_inv (update_workspace w (\<lambda>r. r\<lparr>ws_state := CLEANUP_PENDING, ws_updated_at := now\<rparr>)
      (db\<lparr>cleanup_queue := ?q\<rparr>))" for w
    by (rule set_state_inv) simp
  with assms show ?thesis
    by (auto simp: fail_cleanup_def bind_res_Inr_iff Let_def split: option.splits)
qed

lemma complete_cleanup_inv:
  assumes "complete_cleanup cid db = Inr (db', r)" and inv: "store_inv db"
  shows "store_inv db'"
proof -
  have "store_inv (db\<lparr>cleanup_queue := delete_where (\<lambda>r. cl_cleanup_id r = cid) (cleanup_queue db)\<rparr>)"
    using cleanup_keys [OF inv]
    by (intro cleanup_inv [OF inv]) (simp_all add: delete_where_def distinct_map_filter)
  with assms delete_cascade_inv show ?thesis
    by (auto simp: complete_cleanup_def Let_def split: option.splits if_splits)
qed

lemma claim_creation_inv:
  "claim_creation now key kind wid db = Inr (db', r) \<Longrightarrow> store_inv db \<Longrightarrow> store_inv db'"
  by (auto simp: claim_creation_def get_creation_request_def Let_def row_of_None_iff
      split: option.splits if_splits intro!: creation_inv) (auto simp: store_inv_defs)

lemma update_creation_inv:
  assumes "store_inv db" and "\<And>r. cr_idempotency_key (f r) = cr_idempotency_key r"
  shows "store_inv (update_creation p f db)"
  using assms by (auto simp: update_creation_def keys_update_where store_inv_defs intro!: creation_inv)

text \<open>A workspace as \<open>WorkspaceService\<close> creates it: READY, without revisions.\<close>

definition fresh_workspace :: "WorkspaceRecord \<Rightarrow> bool" where
  "fresh_workspace w \<longleftrightarrow> ws_state w = READY \<and> ws_current_draft_revision_id w = None \<and>
     ws_current_approved_revision_id w = None"

lemma as_row_sel [simp]:
  "ws_workspace_id (as_row w own) = ws_workspace_id w" "ws_state (as_row w own) = ws_state w"
  "ws_current_draft_revision_id (as_row w own) = ws_current_draft_revision_id w"
  "ws_current_approved_revision_id (as_row w own) = ws_current_approved_revision_id w"
  by (simp_all add: as_row_def WorkspaceRecord.defs)

lemma create_with_job_inv:
  assumes "create_workspace_with_initial_job now w j key owned db = Inr (db', r)" and inv: "store_inv db"
    and w: "fresh_workspace w"
  shows "store_inv db'"
proof -
  have ok: "draft_ok revs (as_row w owned)" for revs
    using w by (simp add: draft_ok_def fresh_workspace_def)
  show ?thesis
  proof (cases "db' = db")
    case False
    with assms(1) obtain db1 db2 where
      "insert_workspace (as_row w owned) db = Inr db1"
      "insert_job (j\<lparr>job_idempotency_key := key\<rparr>) db1 = Inr db2"
      "db' = update_creation (\<lambda>r. cr_idempotency_key r = key \<and> cr_state r = ''claimed'')
         (\<lambda>r. r\<lparr>cr_state := ''completed'', cr_job_id := Some (job_id j), cr_updated_at := now\<rparr>) db2"
      by (auto simp: create_workspace_with_initial_job_def bind_res_Inr_iff Let_def
          split: if_splits option.splits)
    then show ?thesis
      using insert_job_inv insert_workspace_inv [OF _ inv ok] by (auto intro!: update_creation_inv)
  qed (use inv in simp)
qed

section \<open>Steps\<close>

text \<open>
  One transaction of the store; a call that raises leaves the tables alone and is no step.
  A workspace is created as \<open>WorkspaceService\<close> creates it.
\<close>

inductive workspace_step :: "workspace_db \<Rightarrow> workspace_db \<Rightarrow> bool" where
  ws_claim: "claim_creation now key kind wid db = Inr (db', r) \<Longrightarrow> workspace_step db db'"
| ws_create: "create_workspace_with_initial_job now w j key owned db = Inr (db', x) \<Longrightarrow>
    fresh_workspace w \<Longrightarrow> workspace_step db db'"
| ws_cancel_creation: "workspace_step db (finish_cancelled_creation now key db)"
| ws_fail_creation: "fail_creation now key code db = Inr db' \<Longrightarrow> workspace_step db db'"
| ws_interrupt_creations: "workspace_step db (interrupt_claimed_creations now db)"
| ws_commit: "commit_scan fresh w res jid db = Inr (db', r) \<Longrightarrow> workspace_step db db'"
| ws_inclusion: "set_inclusion fresh now w rid ids b db = Inr (db', r) \<Longrightarrow> workspace_step db db'"
| ws_approve: "approve fresh clock w rid policy verified db = Inr (db', a) \<Longrightarrow> workspace_step db db'"
| ws_hold: "hold_transmission_authority w aid rid v db = Inr (db', s) \<Longrightarrow> workspace_step db db'"
| ws_create_job: "create_job j key db = Inr (db', r) \<Longrightarrow> workspace_step db db'"
| ws_recover: "recover_unfinished_jobs now db = Inr (db', rs) \<Longrightarrow> workspace_step db db'"
| ws_start: "start_job now jid db = Inr (db', r) \<Longrightarrow> workspace_step db db'"
| ws_progress: "append_progress now jid p db = Inr (db', e) \<Longrightarrow> workspace_step db db'"
| ws_fail: "fail_job now jid code db = Inr (db', r) \<Longrightarrow> workspace_step db db'"
| ws_update: "update_job j ev db = Inr db' \<Longrightarrow> workspace_step db db'"
| ws_entry_changed: "mark_entry_changed fresh now w eid code db = Inr db' \<Longrightarrow> workspace_step db db'"
| ws_attention: "mark_revision_attention_if_current fresh now w rid ids code db = Inr (db', r) \<Longrightarrow>
    workspace_step db db'"
| ws_changed: "mark_entries_changed_latest fresh now w ids code db = Inr (db', r) \<Longrightarrow> workspace_step db db'"
| ws_access: "record_access_verified v w db = Inr db' \<Longrightarrow> workspace_step db db'"
| ws_deleting: "mark_deleting_if_settled now w b db = Inr (db', r) \<Longrightarrow> workspace_step db db'"
| ws_delete: "delete_workspace_rows w db = Inr db' \<Longrightarrow> workspace_step db db'"
| ws_queue_cleanup: "queue_cleanup fresh now data cwd w owned code identity db = Inr (db', r) \<Longrightarrow>
    workspace_step db db'"
| ws_fail_cleanup: "fail_cleanup now cid code db = Inr (db', r) \<Longrightarrow> workspace_step db db'"
| ws_complete_cleanup: "complete_cleanup cid db = Inr (db', r) \<Longrightarrow> workspace_step db db'"

lemma creation_steps_inv:
  "store_inv db \<Longrightarrow> store_inv (finish_cancelled_creation now key db)"
  "store_inv db \<Longrightarrow> store_inv (interrupt_claimed_creations now db)"
  "fail_creation now key code db = Inr db' \<Longrightarrow> store_inv db \<Longrightarrow> store_inv db'"
  by (auto simp: finish_cancelled_creation_def interrupt_claimed_creations_def fail_creation_def
      bind_res_Inr_iff intro: update_creation_inv)

lemma workspace_step_inv:
  assumes "workspace_step db db'" and "store_inv db"
  shows "store_inv db'"
  using assms(1)
proof cases
  case (ws_create now w j key owned x)
  obtain a b c where "x = (a, b, c)" by (cases x)
  with ws_create create_with_job_inv assms(2) show ?thesis by blast
qed (use assms(2) in \<open>auto intro: claim_creation_inv creation_steps_inv commit_scan_inv set_inclusion_inv
      approve_inv hold_inv create_job_inv recover_unfinished_inv start_job_inv append_progress_inv
      fail_job_inv update_job_keeps_inv mark_entry_changed_inv mark_revision_attention_inv
      mark_entries_changed_latest_inv record_access_inv mark_deleting_if_settled_inv delete_rows_inv
      queue_cleanup_inv fail_cleanup_inv complete_cleanup_inv\<close>)

interpretation workspace_store: transition_system "\<lambda>db. db = empty_workspace_db" workspace_step store_inv
  by unfold_locales (auto simp: store_inv_empty intro: workspace_step_inv)

end
