(* ===== verification/Workspace_Migration.thy ===== *)
theory Workspace_Migration
  imports Workspace_Inv
begin

text \<open>
  The data part of \<open>WorkspaceStore._migrate\<close>: on a database written by an older version, whose
  schema lacked three unique indexes, it succeeds and establishes the invariant of the store.
\<close>

section \<open>Old databases\<close>

text \<open>What the schema of the first version guarantees, without the unique indexes added later.\<close>

definition legacy_wf :: "workspace_db \<Rightarrow> bool" where
  "legacy_wf db \<longleftrightarrow> distinct (map ws_workspace_id (workspaces db)) \<and>
     distinct (map rr_revision_id (manifest_revisions db)) \<and>
     distinct (map entry_key (manifest_entries db)) \<and>
     distinct (map ap_approval_id (approvals db)) \<and>
     distinct (map job_id (workspace_jobs db)) \<and>
     distinct (map cl_cleanup_id (cleanup_queue db)) \<and>
     distinct (map cr_idempotency_key (creation_requests db)) \<and>
     distinct (map job_key (workspace_jobs db)) \<and>
     refs_wf db \<and> events_inv db \<and> drafts_wf db \<and> approvals_wf db"

lemma later_rows_total:
  assumes "distinct (map job_id jobs)" and "a \<in> set jobs" and "b \<in> set jobs" and "a \<noteq> b"
  shows "b \<in> set (later_rows (job_id a) jobs) \<or> a \<in> set (later_rows (job_id b) jobs)"
  using assms
proof (induction jobs)
  case (Cons x jobs)
  have skip: "set (later_rows (job_id y) (x # jobs)) = set (later_rows (job_id y) jobs)"
    if "y \<in> set jobs" for y
    using that Cons.prems(1) by (auto simp: later_rows_def image_iff)
  show ?case
  proof (cases "a = x \<or> b = x")
    case True
    then show ?thesis using Cons.prems by (auto simp: later_rows_def)
  next
    case False
    then show ?thesis using Cons skip by auto
  qed
qed simp

definition superseded :: "int \<Rightarrow> WorkspaceJob \<Rightarrow> WorkspaceJob" where
  "superseded now r = r\<lparr>job_status := WorkspaceJobStatus.FAILED,
     job_safe_error_code := Some ''superseded_active_job'', job_finished_at := Some now\<rparr>"

lemma superseded_event:
  "validated_event_payload ''failed'' ''Workspace scan failed.''
     [(''safe_error_code'', VStr ''superseded_active_job'')] =
   Inr [(''safe_error_code'', VStr ''superseded_active_job'')]"
  by code_simp

lemma supersede_jobs_result:
  assumes "\<forall>j \<in> set js. job_id j \<in> job_id ` set (workspace_jobs db)" and "events_inv db"
    and "we_job_id ` set (workspace_events db) \<subseteq> job_id ` set (workspace_jobs db)"
  shows "\<exists>evs n. supersede_jobs now js db = Inr (db\<lparr>workspace_jobs := update_where
      (\<lambda>r. job_id r \<in> job_id ` set js) (superseded now) (workspace_jobs db),
      workspace_events := evs, workspace_event_sequence := n\<rparr>) \<and>
    events_inv (db\<lparr>workspace_events := evs, workspace_event_sequence := n\<rparr>) \<and>
    we_job_id ` set evs \<subseteq> job_id ` set (workspace_jobs db)"
  using assms
proof (induction js arbitrary: db)
  case Nil
  then show ?case
    by (intro exI [of _ "workspace_events db"] exI [of _ "workspace_event_sequence db"])
      (simp add: update_where_def)
next
  case (Cons j js)
  let ?db1 = "update_job_row (job_id j) (\<lambda>r. r\<lparr>job_status := WorkspaceJobStatus.FAILED,
     job_safe_error_code := Some ''superseded_active_job'', job_finished_at := Some now\<rparr>) db"
  let ?ev = "\<lparr>we_sequence = Suc (workspace_event_sequence db), we_job_id = job_id j,
     we_event_type = ''failed'', we_message = ''Workspace scan failed.'',
     we_payload = [(''safe_error_code'', VStr ''superseded_active_job'')], we_created_at = now\<rparr>"
  let ?db2 = "?db1\<lparr>workspace_events := workspace_events db @ [?ev],
     workspace_event_sequence := Suc (workspace_event_sequence db)\<rparr>"
  have ids: "job_id ` set (workspace_jobs ?db1) = job_id ` set (workspace_jobs db)"
    unfolding update_job_row_def by (simp add: key_image_update_where)
  have "event_ok ?ev" using superseded_event by (simp add: event_ok_def)
  then have ins: "insert_workspace_event (job_id j) ''failed'' ''Workspace scan failed.''
      [(''safe_error_code'', VStr ''superseded_active_job'')] now ?db1 = Inr (?db2, ?ev)"
    using Cons.prems(1) ids by (auto simp: insert_event_Inr update_job_row_def)
  have step: "supersede_jobs now (j # js) db = supersede_jobs now js ?db2"
    using ins by (simp add: Let_def)
  have "events_inv ?db2"
    using Cons.prems(2) \<open>event_ok ?ev\<close>
    by (auto simp: events_inv_def sorted_wrt_append update_job_row_def less_Suc_eq_le
        intro!: progress_capped_other)
  moreover have "we_job_id ` set (workspace_events ?db2) \<subseteq> job_id ` set (workspace_jobs ?db2)"
    using Cons.prems(1,3) ids by (auto simp: update_job_row_def)
  moreover have "\<forall>j \<in> set js. job_id j \<in> job_id ` set (workspace_jobs ?db2)"
    using Cons.prems(1) ids by simp
  ultimately obtain evs n where IH: "supersede_jobs now js ?db2 = Inr (?db2\<lparr>workspace_jobs := update_where
      (\<lambda>r. job_id r \<in> job_id ` set js) (superseded now) (workspace_jobs ?db2),
      workspace_events := evs, workspace_event_sequence := n\<rparr>)"
      "events_inv (?db2\<lparr>workspace_events := evs, workspace_event_sequence := n\<rparr>)"
      "we_job_id ` set evs \<subseteq> job_id ` set (workspace_jobs ?db2)"
    using Cons.IH [of ?db2] by blast
  have "update_where (\<lambda>r. job_id r \<in> job_id ` set js) (superseded now) (workspace_jobs ?db2) =
      update_where (\<lambda>r. job_id r \<in> job_id ` set (j # js)) (superseded now) (workspace_jobs db)"
    by (simp add: update_job_row_def update_where_def superseded_def)
  with IH ids show ?case unfolding step
    by (intro exI [of _ evs] exI [of _ n]) (simp add: update_job_row_def events_inv_def)
qed

section \<open>One active job per workspace\<close>

lemma ranks_before_total:
  assumes "distinct (map job_id jobs)" and "a \<in> set jobs" and "b \<in> set jobs" and "a \<noteq> b"
  shows "ranks_before a b jobs \<or> ranks_before b a jobs"
  using later_rows_total [OF assms] by (auto simp: ranks_before_def)

lemma distinct_map_if:
  assumes "distinct xs" and "\<And>x y. x \<in> set xs \<Longrightarrow> y \<in> set xs \<Longrightarrow> f x = f y \<Longrightarrow> x = y"
  shows "distinct (map f xs)"
  using assms by (auto simp: distinct_map inj_on_def)

lemma one_active_after:
  assumes d: "distinct (map job_id (workspace_jobs db))"
  shows "distinct (map job_workspace_id (filter is_active_job
    (update_where (\<lambda>r. job_id r \<in> job_id ` set (superseded_jobs db)) (superseded now) (workspace_jobs db))))"
proof -
  let ?keep = "filter (\<lambda>j. is_active_job j \<and> j \<notin> set (superseded_jobs db)) (workspace_jobs db)"
  have inj: "inj_on job_id (set (workspace_jobs db))" using d by (simp add: distinct_map)
  have sub: "set (superseded_jobs db) \<subseteq> set (workspace_jobs db)" by (auto simp: superseded_jobs_def)
  have mem: "job_id r \<in> job_id ` set (superseded_jobs db) \<longleftrightarrow> r \<in> set (superseded_jobs db)"
    if "r \<in> set (workspace_jobs db)" for r using that inj sub by (auto dest: inj_onD)
  have "filter is_active_job (update_where (\<lambda>r. job_id r \<in> job_id ` set (superseded_jobs db))
      (superseded now) rows) = filter (\<lambda>j. is_active_job j \<and> j \<notin> set (superseded_jobs db)) rows"
    if "set rows \<subseteq> set (workspace_jobs db)" for rows
    using that mem
    by (induction rows) (auto simp: update_where_def superseded_def is_active_job_def)
  then have eq: "filter is_active_job (update_where (\<lambda>r. job_id r \<in> job_id ` set (superseded_jobs db))
      (superseded now) (workspace_jobs db)) = ?keep" by simp
  have "x = y" if x: "x \<in> set ?keep" and y: "y \<in> set ?keep" and w: "job_workspace_id x = job_workspace_id y"
    for x y
  proof (rule ccontr)
    assume "x \<noteq> y"
    then have "ranks_before x y (workspace_jobs db) \<or> ranks_before y x (workspace_jobs db)"
      using ranks_before_total [OF d] x y by simp
    then show False using x y w by (auto simp: superseded_jobs_def)
  qed
  then show ?thesis unfolding eq using d by (intro distinct_map_if) (auto simp: distinct_map)
qed

section \<open>One cleanup row per path, one revision per scan job\<close>

lemma first_per_key_keys:
  "distinct (map key (first_per_key key seen rs)) \<and>
     key ` set (first_per_key key seen rs) \<inter> set seen = {}"
  by (induction key seen rs rule: first_per_key.induct) auto

lemma first_per_key_subset: "set (first_per_key key seen rs) \<subseteq> set rs"
  by (induction key seen rs rule: first_per_key.induct) auto

lemma first_per_key_distinct:
  "distinct (map f rs) \<Longrightarrow> distinct (map f (first_per_key key seen rs))"
proof (induction key seen rs rule: first_per_key.induct)
  case (2 key seen r rs)
  have "f ` set (first_per_key key (key r # seen) rs) \<subseteq> f ` set rs"
    by (rule image_mono) (rule first_per_key_subset)
  then show ?case using 2 by (cases "key r \<in> set seen") auto
qed simp

lemma distinct_map_filter_if:
  assumes "distinct xs"
    and "\<And>x y k. x \<in> set xs \<Longrightarrow> y \<in> set xs \<Longrightarrow> f x = Some k \<Longrightarrow> f y = Some k \<Longrightarrow> x = y"
  shows "distinct (List.map_filter f xs)"
  using assms
proof (induction xs)
  case (Cons x xs)
  have "distinct (List.map_filter f xs)" using Cons.IH Cons.prems by simp
  moreover have "k \<notin> set (List.map_filter f xs)" if "f x = Some k" for k
  proof
    assume "k \<in> set (List.map_filter f xs)"
    then obtain y where "y \<in> set xs" "f y = Some k" by (auto simp: List.map_filter_def)
    with Cons.prems that show False by auto
  qed
  ultimately show ?case by (cases "f x") (simp_all add: List.map_filter_simps)
qed (simp add: List.map_filter_simps)

lemma dedupe_scan_jobs_inv:
  assumes inv: "keys_wf db" "refs_wf db" "events_inv db" "drafts_wf db" "approvals_wf db"
    and jobs: "distinct (map job_workspace_id (filter is_active_job (workspace_jobs db)))"
      "distinct (map job_key (workspace_jobs db))"
  shows "store_inv (dedupe_scan_jobs db)"
proof -
  let ?p = "\<lambda>r. case rr_scan_job_id r of None \<Rightarrow> False
     | Some jid \<Rightarrow> map_option rr_revision_id (preferred_revision db jid) \<noteq> Some (rr_revision_id r)"
  let ?revs = "update_where ?p (\<lambda>r. r\<lparr>rr_scan_job_id := None\<rparr>) (manifest_revisions db)"
  have db': "dedupe_scan_jobs db = db\<lparr>manifest_revisions := ?revs\<rparr>" by (simp add: dedupe_scan_jobs_def)
  have ids: "map rr_revision_id ?revs = map rr_revision_id (manifest_revisions db)"
    and wss: "map rr_workspace_id ?revs = map rr_workspace_id (manifest_revisions db)"
    by (simp_all add: keys_update_where)
  have pairs: "map (\<lambda>r. (rr_revision_id r, rr_workspace_id r)) ?revs =
      map (\<lambda>r. (rr_revision_id r, rr_workspace_id r)) (manifest_revisions db)"
    by (rule keys_update_where) simp
  have "rev_known revs w rid \<longleftrightarrow> (rid, w) \<in> set (map (\<lambda>r. (rr_revision_id r, rr_workspace_id r)) revs)"
    for revs w rid by (auto simp: rev_known_def)
  then have known: "rev_known ?revs w rid = rev_known (manifest_revisions db) w rid" for w rid
    by (simp only: pairs)
  have d: "distinct (map rr_revision_id ?revs)" unfolding ids using inv(1) by (simp add: keys_wf_def)
  have "distinct (List.map_filter rr_scan_job_id ?revs)"
  proof (rule distinct_map_filter_if)
    show "distinct ?revs" using d by (simp add: distinct_map)
    fix x y k
    assume x: "x \<in> set ?revs" "rr_scan_job_id x = Some k" and y: "y \<in> set ?revs" "rr_scan_job_id y = Some k"
    have pref: "map_option rr_revision_id (preferred_revision db k) = Some (rr_revision_id z)"
      if "z \<in> set ?revs" "rr_scan_job_id z = Some k" for z
      using that by (auto simp: set_update_where split: if_splits)
    from pref [OF x] pref [OF y] have "rr_revision_id x = rr_revision_id y" by simp
    with d x(1) y(1) show "x = y" by (simp add: distinct_map inj_on_def)
  qed
  moreover have "rr_workspace_id ` set ?revs = rr_workspace_id ` set (manifest_revisions db)"
    "rr_revision_id ` set ?revs = rr_revision_id ` set (manifest_revisions db)"
    using arg_cong [OF wss, of set] arg_cong [OF ids, of set] by simp_all
  ultimately show ?thesis using inv jobs d unfolding db'
    by (simp add: store_inv_def keys_wf_def refs_wf_def jobs_wf_def events_inv_def drafts_wf_def
        draft_ok_def approvals_wf_def known)
qed

lemma migrate_result:
  assumes wf: "legacy_wf db" and v: "0 < version" "version \<le> 3"
  shows "\<exists>db'. migrate version now db = Inr db' \<and> store_inv db' \<and>
    workspace_jobs db' = update_where (\<lambda>r. job_id r \<in> job_id ` set (superseded_jobs db))
      (superseded now) (workspace_jobs db) \<and>
    workspaces db' = workspaces db \<and> manifest_entries db' = manifest_entries db \<and>
    approvals db' = approvals db"
proof -
  have "\<forall>j \<in> set (superseded_jobs db). job_id j \<in> job_id ` set (workspace_jobs db)"
    by (auto simp: superseded_jobs_def)
  moreover have "events_inv db" "we_job_id ` set (workspace_events db) \<subseteq> job_id ` set (workspace_jobs db)"
    using wf by (simp_all add: legacy_wf_def refs_wf_def)
  ultimately obtain evs n where
    s: "supersede_jobs now (superseded_jobs db) db = Inr (db\<lparr>workspace_jobs := update_where
        (\<lambda>r. job_id r \<in> job_id ` set (superseded_jobs db)) (superseded now) (workspace_jobs db),
        workspace_events := evs, workspace_event_sequence := n\<rparr>)"
    and ev: "events_inv (db\<lparr>workspace_events := evs, workspace_event_sequence := n\<rparr>)"
      "we_job_id ` set evs \<subseteq> job_id ` set (workspace_jobs db)"
    using supersede_jobs_result [of "superseded_jobs db" db now] by blast
  let ?jobs = "update_where (\<lambda>r. job_id r \<in> job_id ` set (superseded_jobs db)) (superseded now) (workspace_jobs db)"
  let ?q = "first_per_key cl_owned_relative_path [] (cleanup_queue db)"
  let ?db = "db\<lparr>workspace_jobs := ?jobs, workspace_events := evs, workspace_event_sequence := n,
     cleanup_queue := ?q\<rparr>"
  have m: "migrate version now db = Inr (dedupe_scan_jobs ?db)"
    using v s by (simp add: migrate_def)
  have same: "\<And>r. job_id (superseded now r) = job_id r" "\<And>r. job_key (superseded now r) = job_key r"
    "\<And>r. job_workspace_id (superseded now r) = job_workspace_id r"
    by (simp_all add: superseded_def job_key_def)
  have jids: "map job_id ?jobs = map job_id (workspace_jobs db)" "map job_key ?jobs = map job_key (workspace_jobs db)"
    "map job_workspace_id ?jobs = map job_workspace_id (workspace_jobs db)"
    by (rule keys_update_where; simp add: same)+
  have jset: "job_id ` set ?jobs = job_id ` set (workspace_jobs db)"
    "job_workspace_id ` set ?jobs = job_workspace_id ` set (workspace_jobs db)"
    using arg_cong [OF jids(1), of set] arg_cong [OF jids(3), of set] by simp_all
  have q: "distinct (map cl_cleanup_id ?q)" "distinct (map cl_owned_relative_path ?q)"
    using first_per_key_keys wf by (auto simp: legacy_wf_def intro: first_per_key_distinct)
  have "store_inv (dedupe_scan_jobs ?db)"
  proof (rule dedupe_scan_jobs_inv)
    show "keys_wf ?db" using wf q by (simp add: legacy_wf_def keys_wf_def jids)
    show "refs_wf ?db" using wf ev(2) by (simp add: legacy_wf_def refs_wf_def jset)
    show "events_inv ?db" using ev(1) by (simp add: events_inv_def)
    show "drafts_wf ?db" "approvals_wf ?db"
      using wf by (simp_all add: legacy_wf_def drafts_wf_def approvals_wf_def)
    have "distinct (map job_id (workspace_jobs db))" using wf by (simp add: legacy_wf_def)
    from one_active_after [OF this] show "distinct (map job_workspace_id (filter is_active_job (workspace_jobs ?db)))"
      by simp
    show "distinct (map job_key (workspace_jobs ?db))" using wf by (simp add: legacy_wf_def jids)
  qed
  then show ?thesis using m by (auto simp: dedupe_scan_jobs_def)
qed

end
