(* ===== verification/Workspace_Authority.thy ===== *)
theory Workspace_Authority
  imports Workspace_Migration
begin

text \<open>
  What the approval of a workspace authorises: the authority a transmission holds is the approval of
  the current draft, every change of the draft revokes it, and a fresh approval grants it.
\<close>

section \<open>Holding authority\<close>

lemma get_workspace_row: "workspace_row w db = Inr wr \<longleftrightarrow> get_workspace w db = Some wr"
  by (simp add: workspace_row_Inr get_workspace_def)

lemma hold_Inr:
  assumes "hold_transmission_authority w aid rid v db = Inr (db', s)"
  shows "\<exists>wr a r. get_workspace w db = Some wr \<and> ws_state wr = WorkspaceState.APPROVED \<and>
    ws_current_draft_revision_id wr = Some rid \<and> ws_current_approved_revision_id wr = Some rid \<and>
    latest_approval w rid db = Some a \<and> ap_approval_id a = aid \<and> revision w rid db = Inr r \<and>
    s = \<lparr>ts_workspace = wr, ts_approval = Some a, ts_revision = Some r\<rparr>"
proof -
  from assms have s: "transmission_authority_snapshot w db = Inr (Some s)"
    and cur: "authority_current aid rid (Some s)"
    by (auto simp: hold_transmission_authority_def bind_res_Inr_iff
        split: if_splits option.splits [where option = "x :: TransmissionAuthoritySnapshot option" for x])
  from s cur obtain wr where wr: "get_workspace w db = Some wr" "ts_workspace s = wr"
    by (auto simp: transmission_authority_snapshot_def bind_res_Inr_iff Let_def split: option.splits)
  from cur wr have app: "ws_state wr = WorkspaceState.APPROVED"
    "ws_current_draft_revision_id wr = Some rid" "ws_current_approved_revision_id wr = Some rid"
    by (auto simp: authority_current_def split: option.splits)
  from s cur wr(1) app(3) show ?thesis
    using app by (auto simp: transmission_authority_snapshot_def bind_res_Inr_iff Let_def
        authority_current_def split: option.splits)
qed

lemma snapshot_returns:
  assumes inv: "store_inv db"
  shows "\<exists>s. transmission_authority_snapshot w db = Inr s \<and>
    (\<forall>x. s = Some x \<longrightarrow> get_workspace w db = Some (ts_workspace x))"
proof (cases "get_workspace w db")
  case None
  then show ?thesis by (simp add: transmission_authority_snapshot_def)
next
  case (Some wr)
  then have wr: "wr \<in> set (workspaces db)" "ws_workspace_id wr = w"
    using workspace_row_in [of w db wr] by (simp_all add: get_workspace_row)
  have "\<exists>r. revision w rid db = Inr r" if "ws_current_approved_revision_id wr = Some rid" for rid
  proof -
    have "rev_known (manifest_revisions db) w rid"
      using store_inv_draft [OF inv wr(1)] wr(2) that by (simp add: draft_ok_def)
    then have "find (\<lambda>r. rr_workspace_id r = w \<and> rr_revision_id r = rid) (manifest_revisions db) \<noteq> None"
      by (auto simp: rev_known_def find_None_iff)
    then show ?thesis by (auto simp: revision_def)
  qed
  then show ?thesis using Some
    by (auto simp: transmission_authority_snapshot_def Let_def bind_res_def split: option.split)
qed

lemma hold_needs_approved:
  assumes "store_inv db" and "get_workspace w db = Some wr" and "ws_state wr \<noteq> WorkspaceState.APPROVED"
  shows "hold_transmission_authority w aid rid v db = Inl TransmissionAuthorityRevokedError"
proof -
  from snapshot_returns [OF assms(1), of w] obtain s where
    s: "transmission_authority_snapshot w db = Inr s"
      "\<forall>x. s = Some x \<longrightarrow> get_workspace w db = Some (ts_workspace x)" by blast
  then have "\<not> authority_current aid rid s"
    using assms(2,3) by (auto simp: authority_current_def split: option.splits)
  then show ?thesis using s(1) by (simp add: hold_transmission_authority_def)
qed

section \<open>What an approval lists\<close>

lemma set_approved_entries:
  "set (approved_entries es) = (\<lambda>i. \<lparr>ae_entry_id = me_entry_id i, ae_sha256 = the (me_sha256 i)\<rparr>) ` set es"
  by (simp add: approved_entries_def)

lemma latest_approval_in:
  "latest_approval w rid db = Some a \<Longrightarrow> a \<in> set (approvals db) \<and> ap_workspace_id a = w \<and> ap_revision_id a = rid"
  by (auto simp: latest_approval_def dest!: first_row_Some_in)

lemma approval_lists_included:
  assumes inv: "store_inv db" and a: "latest_approval w rid db = Some a" and r: "revision w rid db = Inr r"
  shows "(\<lparr>ae_entry_id = i, ae_sha256 = h\<rparr> \<in> set (ap_entries a)) \<longleftrightarrow>
    (\<exists>e \<in> set (rev_entries r). me_included e \<and> me_state e = SourceState.APPROVED \<and>
       me_entry_id e = i \<and> me_sha256 e = Some h)"
proof -
  note l = latest_approval_in [OF a]
  have ok: "approval_ok (manifest_entries db) a" using inv l by (simp add: store_inv_def approvals_wf_def)
  have ent: "rev_entries r = map (\<lambda>e. e\<lparr>me_workspace_id := w\<rparr>) (entries_of rid (manifest_entries db))"
    using revision_Inr [OF r] by simp
  have "(\<lparr>ae_entry_id = i, ae_sha256 = h\<rparr> \<in> set (ap_entries a)) \<longleftrightarrow>
      (\<exists>e \<in> set (included_entries rid (manifest_entries db)).
         me_entry_id e = i \<and> me_sha256 e = Some h \<and> me_state e = SourceState.APPROVED)"
    using ok l by (fastforce simp: approval_ok_def set_approved_entries image_iff)
  then show ?thesis by (auto simp: ent included_entries_def)
qed

section \<open>Changing the draft revokes\<close>

lemma get_workspace_update:
  assumes "\<And>r. ws_workspace_id (f r) = ws_workspace_id r"
  shows "get_workspace w (update_workspace w f db) = map_option f (get_workspace w db)"
proof -
  have "get_workspace w (update_workspace w f db) =
      map_option (\<lambda>r. if ws_workspace_id r = w then f r else r) (get_workspace w db)"
    by (simp add: get_workspace_def update_workspace_def row_of_update_where assms)
  also have "\<dots> = map_option f (get_workspace w db)"
    by (cases "get_workspace w db") (auto simp: get_workspace_def dest: row_of_Some)
  finally show ?thesis .
qed

lemma redraft_state:
  assumes "redraft now fresh w src f st db = Inr (db', r)" and "get_workspace w db = Some wr"
  shows "get_workspace w db' = Some (wr\<lparr>ws_current_draft_revision_id := Some fresh, ws_state := st,
    ws_updated_at := now\<rparr>)"
proof -
  from assms(1) obtain db1 x where c: "clone_revision src fresh now f db = Inr (db1, x)"
    and db': "db' = update_workspace w (\<lambda>r. r\<lparr>ws_current_draft_revision_id := Some fresh,
      ws_state := st, ws_updated_at := now\<rparr>) db1"
    by (auto simp: redraft_def bind_res_Inr_iff Let_def)
  have "get_workspace w db1 = get_workspace w db"
    using clone_revision_Inr [OF c] by (simp add: get_workspace_def)
  then show ?thesis using assms(2) unfolding db' by (simp add: get_workspace_update)
qed

lemma redraft_revokes:
  assumes "redraft now fresh w src f st db = Inr (db', r)" and "get_workspace w db = Some wr"
    and "store_inv db'" and "st \<noteq> WorkspaceState.APPROVED"
  shows "hold_transmission_authority w aid rid v db' = Inl TransmissionAuthorityRevokedError"
  using hold_needs_approved [OF assms(3) redraft_state [OF assms(1,2)]] assms(4) by simp

lemma set_inclusion_redraft:
  assumes "set_inclusion fresh now w rid ids b db = Inr (db', r)"
  shows "\<exists>wr cur. get_workspace w db = Some wr \<and> ws_current_draft_revision_id wr = Some rid \<and>
    revision w rid db = Inr cur \<and> set ids \<subseteq> me_entry_id ` set (rev_entries cur) \<and>
    redraft now fresh w cur (update_inclusion (set ids) b) WorkspaceState.APPROVAL_REQUIRED db = Inr (db', r)"
  using assms by (auto simp: set_inclusion_def bind_res_Inr_iff get_workspace_row split: if_splits)

lemma mark_latest_redraft:
  assumes "mark_entries_changed_latest fresh now w ids code db = Inr (db', r)"
  shows "\<exists>wr rid cur. get_workspace w db = Some wr \<and> ws_current_draft_revision_id wr = Some rid \<and>
    revision w rid db = Inr cur \<and>
    redraft now fresh w cur (mark_changed (set ids) code) NEEDS_ATTENTION db = Inr (db', r)"
  using assms by (auto simp: mark_entries_changed_latest_def bind_res_Inr_iff get_workspace_row
      split: if_splits option.splits)

lemma mark_attention_redraft:
  assumes "mark_revision_attention_if_current fresh now w rid ids code db = Inr (db', r)"
  shows "\<exists>wr cur. get_workspace w db = Some wr \<and> revision w rid db = Inr cur \<and>
    redraft now fresh w cur (mark_changed (set ids) code) NEEDS_ATTENTION db = Inr (db', r)"
  using assms by (auto simp: mark_revision_attention_if_current_def bind_res_Inr_iff get_workspace_row
      split: if_splits)

lemma commit_scan_state:
  assumes c: "commit_scan fresh w res jid db = Inr (db', r)" and "db' \<noteq> db"
  shows "\<exists>wr. get_workspace w db' = Some wr \<and> ws_state wr = WorkspaceState.APPROVAL_REQUIRED \<and>
    ws_current_draft_revision_id wr = Some fresh"
  using c
proof (cases rule: commit_scan_cases)
  case (commit wr job db1 db2 db3 ev)
  have "get_workspace w db2 = get_workspace w db"
    using commit(7) insert_entries_Inr [OF insert_scanned_entries [OF commit(8), THEN conjunct1]]
    by (simp add: get_workspace_def insert_revision_Inr)
  moreover have "get_workspace w db' = get_workspace w db3"
    using commit(10) by (auto simp: insert_event_Inr get_workspace_def)
  moreover have "get_workspace w (update_job_row jid g db2) = get_workspace w db2" for g
    by (simp add: get_workspace_def update_job_row_def)
  ultimately have "get_workspace w db' = map_option (scanned_workspace fresh (sr_completed_at res)) (get_workspace w db)"
    unfolding commit(9) by (simp add: get_workspace_update scanned_workspace_def)
  then show ?thesis using commit(1) by (simp add: get_workspace_row scanned_workspace_def)
qed (use assms(2) in simp)

section \<open>A fresh approval grants authority\<close>

lemma insort_key_snoc: "k x \<le> k y \<Longrightarrow> insort_key k x (zs @ [y]) = insort_key k x zs @ [y]"
  by (induction zs) auto

lemma sort_key_snoc: "\<forall>x \<in> set xs. k x \<le> k y \<Longrightarrow> sort_key k (xs @ [y]) = sort_key k xs @ [y]"
  by (induction xs) (simp_all add: insort_key_snoc)

lemma latest_of_append:
  assumes "\<forall>x \<in> set xs. k x \<le> k y"
  shows "first_row (rev (order_by k (xs @ [y]))) = Some y"
proof -
  have "sort_key k (xs @ [y]) = sort_key k xs @ [y]"
    using assms by (rule sort_key_snoc)
  then show ?thesis by (simp add: order_by_def first_row_def)
qed

lemma approve_grants:
  assumes c: "approve fresh clock w rid policy verified db = Inr (db', a)"
    and old: "\<forall>x \<in> set (approvals db). ap_workspace_id x = w \<longrightarrow> ap_revision_id x = rid \<longrightarrow>
      ap_approved_at x \<le> ap_approved_at a"
  shows "\<exists>s. hold_transmission_authority w fresh rid None db' = Inr (db', s) \<and> ts_approval s = Some a"
proof -
  from c obtain wr rev ids t where
    A: "workspace_row w db = Inr wr" "ws_current_draft_revision_id wr = Some rid"
      "revision w rid db = Inr rev"
    and a: "a = \<lparr>ap_approval_id = fresh, ap_workspace_id = w, ap_revision_id = rid,
          ap_entries = approved_entries (filter me_included (rev_entries rev)),
          ap_policy_version = policy, ap_approved_at = t\<rparr>"
    and db': "db' = update_workspace w (\<lambda>r. r\<lparr>ws_state := WorkspaceState.APPROVED,
           ws_current_approved_revision_id := Some rid, ws_updated_at := t,
           ws_last_access_verified_at :=
             (case verified of None \<Rightarrow> ws_last_access_verified_at r | Some v \<Rightarrow> Some v)\<rparr>)
         (db\<lparr>approvals := approvals db @ [a],
             manifest_entries := approve_rows rid ids (manifest_entries db)\<rparr>)" by (rule approve_Inr)
  have "get_workspace w (db\<lparr>approvals := approvals db @ [a],
      manifest_entries := approve_rows rid ids (manifest_entries db)\<rparr>) = Some wr"
    using A(1) by (simp add: get_workspace_row get_workspace_def)
  then have wr': "\<exists>wr'. get_workspace w db' = Some wr' \<and> ws_state wr' = WorkspaceState.APPROVED \<and>
      ws_current_draft_revision_id wr' = Some rid \<and> ws_current_approved_revision_id wr' = Some rid"
    unfolding db' using A(2) by (simp add: get_workspace_update)
  have "filter (\<lambda>x. ap_workspace_id x = w \<and> ap_revision_id x = rid) (approvals db') =
      filter (\<lambda>x. ap_workspace_id x = w \<and> ap_revision_id x = rid) (approvals db) @ [a]"
    by (simp add: db' update_workspace_def a)
  then have latest: "latest_approval w rid db' = Some a"
    unfolding latest_approval_def using old by (simp add: latest_of_append)
  have "find (\<lambda>r. rr_workspace_id r = w \<and> rr_revision_id r = rid) (manifest_revisions db') \<noteq> None"
    using A(3) by (auto simp: db' update_workspace_def revision_def split: option.splits)
  then obtain r where r: "revision w rid db' = Inr r" by (auto simp: revision_def)
  then have "rev_revision_id r = rid" using revision_Inr by blast
  with wr' latest r a show ?thesis
    by (auto simp: hold_transmission_authority_def transmission_authority_snapshot_def
        authority_current_def Let_def)
qed

text \<open>Approving succeeds exactly when its checks pass.\<close>

lemma approve_succeeds_iff:
  assumes "fresh \<notin> ap_approval_id ` set (approvals db)"
  shows "(\<exists>x. approve fresh clock w rid policy verified db = Inr x) \<longleftrightarrow>
    (\<exists>wr rev. get_workspace w db = Some wr \<and> ws_current_draft_revision_id wr = Some rid \<and>
       revision w rid db = Inr rev \<and> rev_policy_version rev = policy \<and>
       (\<forall>e \<in> set (rev_entries rev). me_included e \<longrightarrow> approval_eligible e))"
proof -
  have "row_of ap_approval_id fresh (approvals db) = None" using assms by (simp add: row_of_None_iff)
  then show ?thesis
    by (auto simp: approve_def bind_res_Inr_iff Let_def get_workspace_row)
qed

end
