(* ===== verification/Workspace_Effects.thy ===== *)
theory Workspace_Effects
  imports Workspace_Authority
begin

text \<open>
  What the methods of the store leave behind: the revision a scan, an inclusion change or a marked
  source writes, the replay of a committed scan and of a creation, the deletion of a workspace, the
  events of a job and the queue of cleanups.
\<close>

section \<open>Revisions\<close>

lemma find_snoc: "find P (xs @ [x]) = (case find P xs of None \<Rightarrow> if P x then Some x else None | Some y \<Rightarrow> Some y)"
  by (induction xs) auto

lemma entries_of_add:
  "rid \<noteq> k \<Longrightarrow> entries_of rid (rows @ map (Pair k) es) = entries_of rid rows"
  by (simp add: entries_of_append)

lemma revision_append_other:
  assumes "manifest_revisions db' = manifest_revisions db @ [x]"
    and "manifest_entries db' = manifest_entries db @ map (Pair (rr_revision_id x)) es"
    and "rid \<noteq> rr_revision_id x"
  shows "revision v rid db' = revision v rid db"
  using assms by (auto simp: revision_def find_snoc entries_of_add split: option.split)

lemma revision_append_new:
  assumes "manifest_revisions db' = manifest_revisions db @ [x]"
    and "manifest_entries db' = manifest_entries db @ map (Pair (rr_revision_id x)) es"
    and inv: "store_inv db" and new: "rr_revision_id x \<notin> rr_revision_id ` set (manifest_revisions db)"
  shows "revision (rr_workspace_id x) (rr_revision_id x) db' = Inr
    \<lparr>rev_revision_id = rr_revision_id x, rev_workspace_id = rr_workspace_id x,
     rev_parent_revision_id = rr_parent_revision_id x, rev_scan_job_id = rr_scan_job_id x,
     rev_policy_version = rr_policy_version x,
     rev_entries = map (\<lambda>e. e\<lparr>me_workspace_id := rr_workspace_id x\<rparr>) (order_by entry_order es),
     rev_created_at = rr_created_at x\<rparr>"
proof -
  have "find (\<lambda>r. rr_workspace_id r = rr_workspace_id x \<and> rr_revision_id r = rr_revision_id x)
      (manifest_revisions db) = None"
    using new by (auto simp: find_None_iff image_iff)
  moreover have "filter (\<lambda>(r, e). r = rr_revision_id x) (manifest_entries db) = []"
    using inv new by (auto simp: filter_empty_conv store_inv_def refs_wf_def)
  ultimately show ?thesis
    using assms(1,2) by (simp add: revision_def find_snoc entries_of_append)
qed

lemma same_workspace_id: "me_workspace_id e = w \<Longrightarrow> e\<lparr>me_workspace_id := w\<rparr> = e"
  by (cases e) simp

section \<open>The revision a scan commits\<close>

lemma commit_scan_effect:
  assumes c: "commit_scan fresh w res jid db = Inr (db', r)" and "db' \<noteq> db" and inv: "store_inv db"
  shows "\<exists>wr. get_workspace w db = Some wr \<and>
    r = \<lparr>rev_revision_id = fresh, rev_workspace_id = w,
         rev_parent_revision_id = ws_current_draft_revision_id wr, rev_scan_job_id = Some jid,
         rev_policy_version = sp_policy_version DEFAULT_SCAN_POLICY,
         rev_entries = order_by entry_order (sr_entries res), rev_created_at = sr_completed_at res\<rparr> \<and>
    (\<forall>v rid. rid \<noteq> fresh \<longrightarrow> revision v rid db' = revision v rid db)"
  using c
proof (cases rule: commit_scan_cases)
  case (commit wr job db1 db2 db3 ev)
  let ?x = "scan_row fresh w (ws_current_draft_revision_id wr) jid (sr_completed_at res)"
  note scanned = insert_scanned_entries [OF commit(8)]
  have db': "manifest_revisions db' = manifest_revisions db @ [?x]"
    "manifest_entries db' = manifest_entries db @ map (Pair (rr_revision_id ?x)) (sr_entries res)"
    using commit(7,9,10) insert_entries_Inr [OF scanned [THEN conjunct1]]
    by (auto simp: insert_revision_Inr insert_event_Inr update_workspace_def update_job_row_def scan_row_def)
  have new: "rr_revision_id ?x \<notin> rr_revision_id ` set (manifest_revisions db)"
    using commit(7) by (simp add: insert_revision_Inr)
  have "map (\<lambda>e. e\<lparr>me_workspace_id := w\<rparr>) (order_by entry_order (sr_entries res)) =
      order_by entry_order (sr_entries res)"
    using scanned by (intro map_idI same_workspace_id) simp
  with revision_append_new [OF db' inv new] commit(11) revision_append_other [OF db'] commit(1)
  show ?thesis by (auto simp: scan_row_def get_workspace_row)
qed (use assms(2) in simp)

text \<open>A committed scan is replayed from the table, whatever the second call brings.\<close>

lemma commit_scan_replay:
  assumes c: "commit_scan fresh w res jid db = Inr (db', r)" and res: "sr_workspace_id res' = w"
    and inv: "store_inv db"
  shows "commit_scan fresh' w res' jid db' = Inr (db', r)"
  using c
proof (cases rule: commit_scan_cases)
  case (replay x)
  from replay(1-3) have "find (\<lambda>r. rr_workspace_id r = w \<and> rr_scan_job_id r = Some jid) (manifest_revisions db) \<noteq> None"
    by (auto simp: find_None_iff)
  with c res replay(5) show ?thesis
    by (auto simp: commit_scan_def bind_res_Inr_iff bind_res_def split: if_splits option.splits sum.splits)
next
  case (commit wr job db1 db2 db3 ev)
  let ?x = "scan_row fresh w (ws_current_draft_revision_id wr) jid (sr_completed_at res)"
  note ent = insert_scanned_entries [OF commit(8), THEN conjunct1]
  have "Some jid \<notin> rr_scan_job_id ` set (manifest_revisions db)"
    using commit(7) by (auto simp: insert_revision_Inr scan_row_def)
  then have "find (\<lambda>r. rr_workspace_id r = w \<and> rr_scan_job_id r = Some jid) (manifest_revisions db) = None"
    by (auto simp: find_None_iff image_iff)
  moreover have revs: "manifest_revisions db' = manifest_revisions db @ [?x]"
    using commit(7,9,10) insert_entries_Inr [OF ent]
    by (auto simp: insert_revision_Inr insert_event_Inr update_workspace_def update_job_row_def)
  ultimately have f: "find (\<lambda>r. rr_workspace_id r = w \<and> rr_scan_job_id r = Some jid) (manifest_revisions db') = Some ?x"
    by (simp add: find_snoc scan_row_def)
  have "db' \<noteq> db" using revs by auto
  from commit_scan_state [OF c this] obtain wr' where "get_workspace w db' = Some wr'" by blast
  then have w: "workspace_row w db' = Inr wr'" by (simp add: get_workspace_row)
  have "workspace_jobs db' = update_where (\<lambda>r. job_id r = jid) (finish_scan_job (sr_completed_at res)) (workspace_jobs db)"
    using commit(7,9,10) insert_entries_Inr [OF ent]
    by (auto simp: insert_revision_Inr insert_event_Inr update_workspace_def update_job_row_def)
  then have "job_row jid db' = Inr (finish_scan_job (sr_completed_at res) job)"
    using commit(2) by (auto simp: job_row_Inr row_of_update_where finish_scan_job_def dest: row_of_Some)
  with w f res commit(3,11) show ?thesis
    by (simp add: commit_scan_def finish_scan_job_def scan_row_def)
qed

section \<open>The revision a change of the draft writes\<close>

lemma entry_order_workspace: "entry_order (e\<lparr>me_workspace_id := w\<rparr>) = entry_order e"
  by (simp add: entry_order_def)

lemma redraft_effect:
  assumes c: "redraft now fresh w cur f st db = Inr (db', r)" and cur: "revision w rid db = Inr cur"
    and inv: "store_inv db" and key: "\<And>e. entry_order (f e) = entry_order e"
    and ws: "\<And>e. me_workspace_id (f e) = me_workspace_id e"
  shows "r = \<lparr>rev_revision_id = fresh, rev_workspace_id = w, rev_parent_revision_id = Some rid,
      rev_scan_job_id = None, rev_policy_version = rev_policy_version cur,
      rev_entries = map f (rev_entries cur), rev_created_at = now\<rparr> \<and>
    (\<forall>v k. k \<noteq> fresh \<longrightarrow> revision v k db' = revision v k db)"
proof -
  note cur' = revision_Inr [OF cur]
  from c obtain db1 x where d: "clone_revision cur fresh now f db = Inr (db1, x)"
    and db': "db' = update_workspace w (\<lambda>r. r\<lparr>ws_current_draft_revision_id := Some fresh,
      ws_state := st, ws_updated_at := now\<rparr>) db1" and r: "revision w fresh db' = Inr r"
    by (auto simp: redraft_def bind_res_Inr_iff Let_def)
  let ?x = "clone_row cur fresh now"
  have rows: "manifest_revisions db' = manifest_revisions db @ [?x]"
    "manifest_entries db' = manifest_entries db @ map (Pair (rr_revision_id ?x)) (map f (rev_entries cur))"
    and new: "rr_revision_id ?x \<notin> rr_revision_id ` set (manifest_revisions db)"
    using clone_revision_Inr [OF d] by (simp_all add: db' update_workspace_def)
  let ?es = "entries_of rid (manifest_entries db)"
  have "sorted (map entry_order ?es)" by (simp add: entries_of_def order_by_def)
  then have "sorted (map entry_order (map f (rev_entries cur)))"
    using cur' by (simp add: comp_def key entry_order_workspace)
  then have "order_by entry_order (map f (rev_entries cur)) = map f (rev_entries cur)"
    unfolding order_by_def by (rule sort_key_id_if_sorted)
  moreover have "map (\<lambda>e. e\<lparr>me_workspace_id := w\<rparr>) (map f (rev_entries cur)) = map f (rev_entries cur)"
    using cur' by (intro map_idI same_workspace_id) (auto simp: ws)
  ultimately show ?thesis
    using revision_append_new [OF rows inv new] revision_append_other [OF rows] r cur'
    by (simp add: clone_row_def)
qed

lemma update_inclusion_keeps [simp]:
  "entry_order (update_inclusion ids b e) = entry_order e"
  "me_workspace_id (update_inclusion ids b e) = me_workspace_id e"
  by (simp_all add: update_inclusion_def entry_order_def)

lemma mark_changed_keeps [simp]:
  "entry_order (mark_changed ids code e) = entry_order e"
  "me_workspace_id (mark_changed ids code e) = me_workspace_id e"
  by (simp_all add: mark_changed_def entry_order_def)

section \<open>Creation\<close>

lemma claim_again:
  assumes "claim_creation now key kind wid db = Inr (db', x, b)"
  shows "claim_creation now' key kind wid' db' = Inr (db', x, False)"
  using assms
  by (auto simp: claim_creation_def get_creation_request_def Let_def row_of_append
      split: option.splits if_splits)

lemma create_again:
  assumes c: "create_workspace_with_initial_job now w j key owned db = Inr (db', wr, jr, b)"
    and j2: "job_workspace_id j2 = ws_workspace_id w2" "job_kind j2 = ''initial_scan''"
      "job_status j2 = WorkspaceJobStatus.QUEUED"
  shows "create_workspace_with_initial_job now' w2 j2 key owned' db' = Inr (db', wr, jr, False)"
proof -
  from c obtain request where req: "get_creation_request key db = Some request"
    by (auto simp: create_workspace_with_initial_job_def split: if_splits option.splits)
  show ?thesis
  proof (cases "cr_state request = ''completed''")
    case True
    with c req j2 show ?thesis
      by (auto simp: create_workspace_with_initial_job_def bind_res_Inr_iff split: if_splits option.splits)
  next
    case False
    with c req obtain db1 db2 where
      r: "cr_state request = ''claimed''" "cr_workspace_id request = ws_workspace_id w"
        "insert_workspace (as_row w owned) db = Inr db1" "insert_job (j\<lparr>job_idempotency_key := key\<rparr>) db1 = Inr db2"
      and db': "db' = update_creation (\<lambda>r. cr_idempotency_key r = key \<and> cr_state r = ''claimed'')
         (\<lambda>r. r\<lparr>cr_state := ''completed'', cr_job_id := Some (job_id j), cr_updated_at := now\<rparr>) db2"
      and rows: "workspace_row (ws_workspace_id w) db' = Inr wr" "job_row (job_id j) db' = Inr jr"
      by (auto simp: create_workspace_with_initial_job_def bind_res_Inr_iff Let_def split: if_splits)
    have "creation_requests db2 = creation_requests db"
      using r(3,4) by (auto simp: insert_workspace_Inr insert_job_Inr)
    then have "get_creation_request key db' =
        Some (request\<lparr>cr_state := ''completed'', cr_job_id := Some (job_id j), cr_updated_at := now\<rparr>)"
      using req r(1) unfolding db'
      by (auto simp: get_creation_request_def update_creation_def row_of_update_where dest: row_of_Some)
    with rows r(2) j2 show ?thesis by (simp add: create_workspace_with_initial_job_def)
  qed
qed

section \<open>Deletion\<close>

lemma filter_delete_other:
  "(\<And>x. P x \<Longrightarrow> Q x) \<Longrightarrow> filter P (filter Q xs) = filter P xs"
  by (induction xs) auto

lemma find_filter_other: "(\<And>x. P x \<Longrightarrow> Q x) \<Longrightarrow> find P (filter Q xs) = find P xs"
  by (induction xs) auto

lemma revs_of_other:
  assumes inv: "store_inv db" and r: "rev_known (manifest_revisions db) v rid" and "v \<noteq> w"
  shows "rid \<notin> revs_of w db"
proof
  assume "rid \<in> revs_of w db"
  then obtain x where x: "x \<in> set (manifest_revisions db)" "rr_workspace_id x = w" "rr_revision_id x = rid"
    by (auto simp: revs_of_def)
  from r obtain y where y: "y \<in> set (manifest_revisions db)" "rr_workspace_id y = v" "rr_revision_id y = rid"
    by (auto simp: rev_known_def)
  have "distinct (map rr_revision_id (manifest_revisions db))" using inv by (simp add: store_inv_defs)
  with x y have "x = y" by (simp add: distinct_map inj_on_def)
  with x y assms(3) show False by simp
qed

lemma cascade_revision:
  assumes inv: "store_inv db" and "v \<noteq> w"
  shows "revision v rid (delete_workspace_cascade w db) = revision v rid db"
proof -
  have f: "find (\<lambda>r. rr_workspace_id r = v \<and> rr_revision_id r = rid)
      (manifest_revisions (delete_workspace_cascade w db)) =
    find (\<lambda>r. rr_workspace_id r = v \<and> rr_revision_id r = rid) (manifest_revisions db)"
    unfolding delete_workspace_cascade_eq by simp (rule find_filter_other, use assms(2) in simp)
  show ?thesis
  proof (cases "find (\<lambda>r. rr_workspace_id r = v \<and> rr_revision_id r = rid) (manifest_revisions db)")
    case None
    then show ?thesis by (simp add: revision_def f)
  next
    case (Some x)
    then have "rev_known (manifest_revisions db) v rid" by (auto simp: find_Some_iff rev_known_def)
    from revs_of_other [OF inv this assms(2)] have "entries_of rid (manifest_entries (delete_workspace_cascade w db)) =
        entries_of rid (manifest_entries db)"
      by (simp add: delete_workspace_cascade_eq entries_of_delete)
    then show ?thesis by (simp add: revision_def f split: option.split)
  qed
qed

lemma cascade_approval:
  assumes inv: "store_inv db" and "v \<noteq> w"
  shows "latest_approval v rid (delete_workspace_cascade w db) = latest_approval v rid db"
proof -
  have "ap_revision_id a \<notin> revs_of w db" if "a \<in> set (approvals db)" "ap_workspace_id a = v" for a
    using inv that revs_of_other [OF inv _ assms(2)] by (auto simp: store_inv_def refs_wf_def)
  then have "filter (\<lambda>a. ap_workspace_id a = v \<and> ap_revision_id a = rid) (approvals (delete_workspace_cascade w db)) =
      filter (\<lambda>a. ap_workspace_id a = v \<and> ap_revision_id a = rid) (approvals db)"
    using assms(2) by (auto simp: delete_workspace_cascade_eq intro!: filter_cong)
  then show ?thesis by (simp add: latest_approval_def)
qed

lemma cascade_rest:
  assumes "v \<noteq> w"
  shows "get_workspace v (delete_workspace_cascade w db) = get_workspace v db"
    and "filter (\<lambda>j. job_workspace_id j = v) (workspace_jobs (delete_workspace_cascade w db)) =
      filter (\<lambda>j. job_workspace_id j = v) (workspace_jobs db)"
proof -
  have "workspaces (delete_workspace_cascade w db) = delete_where (\<lambda>r. ws_workspace_id r = w) (workspaces db)"
    by (simp add: delete_workspace_cascade_def Let_def)
  then show "get_workspace v (delete_workspace_cascade w db) = get_workspace v db"
    using assms by (simp add: get_workspace_def row_of_delete_where)
  show "filter (\<lambda>j. job_workspace_id j = v) (workspace_jobs (delete_workspace_cascade w db)) =
      filter (\<lambda>j. job_workspace_id j = v) (workspace_jobs db)"
    using assms by (auto simp: delete_workspace_cascade_eq intro!: filter_cong)
qed

lemma cascade_gone:
  assumes inv: "store_inv db"
  shows "get_workspace w (delete_workspace_cascade w db) = None \<and>
    revs_of w (delete_workspace_cascade w db) = {} \<and> jobs_of w (delete_workspace_cascade w db) = {} \<and>
    fst ` set (manifest_entries (delete_workspace_cascade w db)) \<inter> revs_of w db = {} \<and>
    ap_revision_id ` set (approvals (delete_workspace_cascade w db)) \<inter> revs_of w db = {} \<and>
    w \<notin> ap_workspace_id ` set (approvals (delete_workspace_cascade w db)) \<and>
    we_job_id ` set (workspace_events (delete_workspace_cascade w db)) \<inter> jobs_of w db = {}"
  by (auto simp: delete_workspace_cascade_eq get_workspace_def row_of_None_iff revs_of_def jobs_of_def
      delete_where_def)

section \<open>Events\<close>

lemma event_payload_ok:
  assumes "event_ok e"
  shows "\<exists>allowed required. map_of EVENT_RULES (we_event_type e) = Some (we_message e, allowed, required) \<and>
    set required \<subseteq> fst ` set (we_payload e) \<and> fst ` set (we_payload e) \<subseteq> set allowed \<and>
    (\<forall>key \<in> fst ` set (we_payload e). \<forall>part \<in> set SECRET_KEY_PARTS. \<not> contains part (map fold_char key)) \<and>
    check_payload_values (we_payload e) = Inr ()"
  using assms
  by (auto simp: event_ok_def validated_event_payload_def bind_res_Inr_iff Let_def
      split: option.splits if_splits)

section \<open>Cleanup of owned files\<close>

lemma owned_relative_path_Inr:
  assumes "owned_relative_path data owned = Inr (rel, full)"
  shows "full = path_parts data owned \<and> full = data @ posix_parts rel \<and> confined_parts (posix_parts rel) \<and>
    posix_parts rel \<noteq> []"
proof -
  let ?rest = "drop (length data) (path_parts data owned)"
  from assms have pre: "take (length data) (path_parts data owned) = data"
    and raw: "NUL \<notin> set (as_posix ?rest)" "backslash \<notin> set (as_posix ?rest)"
      "''..'' \<notin> set (posix_parts (as_posix ?rest))" "posix_parts (as_posix ?rest) \<noteq> []"
      "CHR '':'' \<notin> set (hd (posix_parts (as_posix ?rest)))"
    and rel: "rel = as_posix (posix_parts (as_posix ?rest))" and full: "full = path_parts data owned"
    by (auto simp: owned_relative_path_def Let_def split: if_splits list.splits)
  have sub: "set ?rest \<subseteq> set (posix_parts owned)"
    using pre by (auto simp: path_parts_def split: if_splits dest: in_set_dropD)
  have ne: "?rest \<noteq> []"
  proof
    assume "?rest = []"
    then have "posix_parts (as_posix ?rest) = []" by (simp add: as_posix_def posix_parts_def)
    with raw(4) show False by simp
  qed
  from posix_parts_joined [OF sub ne] ne have parts: "posix_parts (as_posix ?rest) = ?rest"
    by (simp add: as_posix_def)
  have "\<forall>p \<in> set ?rest. set p \<subseteq> set (as_posix ?rest)"
    using posix_parts_props parts by metis
  then have conf: "confined_parts ?rest"
    using raw parts ne sub posix_parts_shape unfolding confined_parts_def by fastforce
  have "posix_parts rel = ?rest" using parts rel by simp
  moreover have "path_parts data owned = data @ ?rest" using pre append_take_drop_id by metis
  ultimately show ?thesis using full conf ne by simp
qed

lemma queue_cleanup_again:
  assumes "queue_cleanup fresh now data cwd w owned code identity db = Inr (db', r)"
  shows "queue_cleanup fresh' now' data cwd w owned code' identity db' = Inr (db', r)"
proof -
  let ?native = "\<lambda>db full. case get_workspace w db of None \<Rightarrow> False
    | Some wr \<Rightarrow> ws_source_mode wr = NATIVE_FOLDER \<and>
        (let native = path_parts cwd (ws_canonical_root wr) in take (length native) full = native)"
  let ?bad = "case identity of None \<Rightarrow> False | Some (d, f) \<Rightarrow> length d > 128 \<or> length f > 128"
  from assms obtain rel full where o: "owned_relative_path data owned = Inr (rel, full)"
    and ok: "\<not> ?bad" "\<not> ?native db full"
    by (auto simp: queue_cleanup_def bind_res_Inr_iff split: if_splits)
  from queue_cleanup_cases [OF assms] have "get_workspace w db' = get_workspace w db"
    by (auto simp: get_workspace_def)
  with ok(2) have native: "\<not> ?native db' full" by simp
  have "row_of cl_owned_relative_path rel (cleanup_queue db') = Some r \<and>
      (cl_deletion_root_device r, cl_deletion_root_file_id r) = (map_option fst identity, map_option snd identity)"
    using assms o ok
    by (cases "row_of cl_owned_relative_path rel (cleanup_queue db)")
      (auto simp: queue_cleanup_def Let_def row_of_append split: if_splits)
  with o ok(1) native show ?thesis by (simp add: queue_cleanup_def)
qed

end
