(* ===== verification/Workspace_Jobs.thy ===== *)
theory Workspace_Jobs
  imports Workspace_Inv
begin

text \<open>
  The life cycle of workspace jobs: every step of the store moves a job along the allowed
  transitions, or puts a running job back in the queue after a restart; terminal jobs are final.
\<close>

section \<open>Allowed moves\<close>

definition job_move :: "WorkspaceJobStatus \<Rightarrow> WorkspaceJobStatus \<Rightarrow> bool" where
  "job_move s t \<longleftrightarrow> t \<in> ALLOWED_JOB_TRANSITIONS s \<or>
     s = WorkspaceJobStatus.RUNNING \<and> t = WorkspaceJobStatus.QUEUED"

interpretation job_cycle: life_cycle job_move "\<lambda>s. s \<in> TERMINAL_JOB_STATUSES"
  by unfold_locales (auto simp: job_move_def TERMINAL_JOB_STATUSES_def)

definition jobs_move :: "WorkspaceJob list \<Rightarrow> WorkspaceJob list \<Rightarrow> bool" where
  "jobs_move js ks \<longleftrightarrow> (\<forall>a \<in> set js. \<forall>b \<in> set ks. job_id a = job_id b \<longrightarrow>
     job_status a = job_status b \<or> job_move (job_status a) (job_status b))"

lemma jobs_move_subset:
  "distinct (map job_id js) \<Longrightarrow> set ks \<subseteq> set js \<Longrightarrow> jobs_move js ks"
  by (auto simp: jobs_move_def distinct_map dest: inj_onD)

lemma jobs_move_append:
  assumes "distinct (map job_id js)" and "job_id j \<notin> job_id ` set js"
  shows "jobs_move js (js @ [j])"
proof -
  have "job_id a \<noteq> job_id j" if "a \<in> set js" for a using assms(2) that by (metis imageI)
  then show ?thesis using jobs_move_subset [OF assms(1) subset_refl] by (auto simp: jobs_move_def)
qed

lemma jobs_move_update:
  assumes d: "distinct (map job_id js)" and key: "\<And>r. job_id (f r) = job_id r"
    and mv: "\<And>r. r \<in> set js \<Longrightarrow> p r \<Longrightarrow> job_status r = job_status (f r) \<or> job_move (job_status r) (job_status (f r))"
  shows "jobs_move js (update_where p f js)"
proof -
  have "job_status a = job_status b \<or> job_move (job_status a) (job_status b)"
    if a: "a \<in> set js" and b: "b \<in> set (update_where p f js)" and eq: "job_id a = job_id b" for a b
  proof -
    from b obtain c where c: "c \<in> set js" "b = (if p c then f c else c)" by (auto simp: set_update_where)
    with eq key have "job_id a = job_id c" by (auto split: if_splits)
    with a c(1) d have "a = c" by (auto simp: distinct_map dest: inj_onD)
    with mv c show ?thesis by auto
  qed
  then show ?thesis by (simp add: jobs_move_def)
qed

section \<open>What the methods do to the jobs\<close>

lemma insert_event_jobs:
  "insert_workspace_event jid et msg pl t db = Inr (db', ev) \<Longrightarrow> workspace_jobs db' = workspace_jobs db"
  by (auto simp: insert_event_Inr)

lemma update_workspace_jobs [simp]: "workspace_jobs (update_workspace w f db) = workspace_jobs db"
  by (simp add: update_workspace_def)

lemma redraft_jobs:
  "redraft now fresh w src f st db = Inr (db', r) \<Longrightarrow> workspace_jobs db' = workspace_jobs db"
  by (auto simp: redraft_def bind_res_Inr_iff Let_def dest!: clone_revision_Inr)

lemma draft_methods_jobs:
  "set_inclusion fresh now w rid ids b db = Inr (db', r) \<Longrightarrow> workspace_jobs db' = workspace_jobs db"
  "mark_entries_changed_latest fresh now w ids code db = Inr (db', r) \<Longrightarrow> workspace_jobs db' = workspace_jobs db"
  "mark_revision_attention_if_current fresh now w rid ids code db = Inr (db', r) \<Longrightarrow>
     workspace_jobs db' = workspace_jobs db"
  "mark_entry_changed fresh now w eid code db = Inr db' \<Longrightarrow> workspace_jobs db' = workspace_jobs db"
  by (auto simp: set_inclusion_def mark_entries_changed_latest_def mark_revision_attention_if_current_def
      mark_entry_changed_def bind_res_Inr_iff split: if_splits option.splits dest: redraft_jobs)

lemma creation_methods_jobs:
  "claim_creation now key kind wid db = Inr (db', x) \<Longrightarrow> workspace_jobs db' = workspace_jobs db"
  "fail_creation now key code db = Inr db' \<Longrightarrow> workspace_jobs db' = workspace_jobs db"
  "workspace_jobs (finish_cancelled_creation now key db) = workspace_jobs db"
  "workspace_jobs (interrupt_claimed_creations now db) = workspace_jobs db"
  by (auto simp: claim_creation_def fail_creation_def update_creation_def finish_cancelled_creation_def
      interrupt_claimed_creations_def bind_res_Inr_iff Let_def split: if_splits option.splits)

lemma approve_jobs:
  assumes "approve fresh clock w rid policy verified db = Inr (db', a)"
  shows "workspace_jobs db' = workspace_jobs db"
  using assms by (rule approve_Inr) simp

lemma append_progress_jobs:
  "append_progress now jid p db = Inr (db', e) \<Longrightarrow> workspace_jobs db' = workspace_jobs db"
  by (auto simp: append_progress_def bind_res_Inr_iff Let_def split: if_splits option.splits
      dest: insert_event_jobs)

lemma state_methods_jobs:
  "record_access_verified v w db = Inr db' \<Longrightarrow> workspace_jobs db' = workspace_jobs db"
  "mark_deleting_if_settled now w b db = Inr (db', y) \<Longrightarrow> workspace_jobs db' = workspace_jobs db"
  "fail_cleanup now cid code db = Inr (db', z) \<Longrightarrow> workspace_jobs db' = workspace_jobs db"
  by (auto simp: record_access_verified_def mark_deleting_if_settled_def mark_deleting_def
      fail_cleanup_def bind_res_Inr_iff Let_def split: if_splits option.splits)

lemma hold_jobs:
  "hold_transmission_authority w aid rid v db = Inr (db', s) \<Longrightarrow> workspace_jobs db' = workspace_jobs db"
  by (cases v) (auto dest!: hold_result)

lemma queue_cleanup_jobs:
  "queue_cleanup fresh now data cwd w owned code identity db = Inr (db', r) \<Longrightarrow>
     workspace_jobs db' = workspace_jobs db"
  by (auto dest: queue_cleanup_cases)

lemma cascade_jobs: "set (workspace_jobs (delete_workspace_cascade w db)) \<subseteq> set (workspace_jobs db)"
  by (auto simp: delete_workspace_cascade_eq)

lemma deleting_methods_jobs:
  "delete_workspace_rows w db = Inr db' \<Longrightarrow> set (workspace_jobs db') \<subseteq> set (workspace_jobs db)"
  "complete_cleanup cid db = Inr (db', r) \<Longrightarrow> set (workspace_jobs db') \<subseteq> set (workspace_jobs db)"
  using cascade_jobs
  by (fastforce simp: delete_workspace_rows_def complete_cleanup_def bind_res_Inr_iff Let_def
      delete_workspace_cascade_eq split: if_splits option.splits)+

lemma start_job_moves:
  assumes "start_job now jid db = Inr (db', r)" and inv: "store_inv db"
  shows "jobs_move (workspace_jobs db) (workspace_jobs db')"
proof -
  have d: "distinct (map job_id (workspace_jobs db))" using inv by (simp add: store_inv_defs)
  from assms(1) obtain row where row: "job_row jid db = Inr row"
    by (auto simp: start_job_def bind_res_Inr_iff)
  show ?thesis
  proof (cases "job_status row = WorkspaceJobStatus.QUEUED")
    case False
    then have "db' = db" using assms(1) row
      by (auto simp: start_job_def bind_res_Inr_iff split: if_splits)
    then show ?thesis by (simp add: jobs_move_subset [OF d])
  next
    case True
    then have "workspace_jobs db' = update_where (\<lambda>r. job_id r = jid)
        (\<lambda>j. j\<lparr>job_status := WorkspaceJobStatus.RUNNING, job_started_at := Some now\<rparr>) (workspace_jobs db)"
      using assms(1) row by (auto simp: start_job_def bind_res_Inr_iff Let_def update_job_row_def
          dest!: insert_event_jobs)
    then show ?thesis
      using job_row_unique [OF inv row] True by (auto intro!: jobs_move_update [OF d] simp: job_move_def)
  qed
qed

lemma fail_job_moves:
  assumes "fail_job now jid code db = Inr (db', r)" and inv: "store_inv db"
  shows "jobs_move (workspace_jobs db) (workspace_jobs db')"
proof -
  have d: "distinct (map job_id (workspace_jobs db))" using inv by (simp add: store_inv_defs)
  from assms(1) obtain row where row: "job_row jid db = Inr row"
      "WorkspaceJobStatus.FAILED \<in> ALLOWED_JOB_TRANSITIONS (job_status row)"
    and jobs: "workspace_jobs db' = update_where (\<lambda>r. job_id r = jid)
        (\<lambda>j. j\<lparr>job_status := WorkspaceJobStatus.FAILED, job_safe_error_code := Some code,
               job_finished_at := Some now\<rparr>) (workspace_jobs db)"
    by (auto simp: fail_job_def bind_res_Inr_iff Let_def update_job_row_def guard_job_transition_def
        split: if_splits dest!: insert_event_jobs)
  show ?thesis unfolding jobs
    using job_row_unique [OF inv row(1)] row(2)
    by (auto intro!: jobs_move_update [OF d] simp: job_move_def)
qed

lemma update_job_moves:
  assumes "update_job j ev db = Inr db'" and inv: "store_inv db"
  shows "jobs_move (workspace_jobs db) (workspace_jobs db')"
proof -
  have d: "distinct (map job_id (workspace_jobs db))" using inv by (simp add: store_inv_defs)
  from assms(1) obtain row where row: "job_row (job_id j) db = Inr row"
      "job_status j \<in> ALLOWED_JOB_TRANSITIONS (job_status row)"
    and jobs: "workspace_jobs db' = update_where (\<lambda>r. job_id r = job_id j)
        (\<lambda>r. r\<lparr>job_status := job_status j, job_safe_error_code := job_safe_error_code j,
               job_started_at := job_started_at j, job_finished_at := job_finished_at j\<rparr>) (workspace_jobs db)"
    by (auto simp: update_job_def bind_res_Inr_iff Let_def update_job_row_def guard_job_transition_def
        split: if_splits dest!: insert_event_jobs)
  show ?thesis unfolding jobs
    using job_row_unique [OF inv row(1)] row(2)
    by (auto intro!: jobs_move_update [OF d] simp: job_move_def)
qed

lemma commit_scan_moves:
  assumes c: "commit_scan fresh w res jid db = Inr (db', r)" and inv: "store_inv db"
  shows "jobs_move (workspace_jobs db) (workspace_jobs db')"
proof -
  have d: "distinct (map job_id (workspace_jobs db))" using inv by (simp add: store_inv_defs)
  from c show ?thesis
  proof (cases rule: commit_scan_cases)
    case (commit wr job db1 db2 db3 ev)
    have "workspace_jobs db2 = workspace_jobs db"
      using commit(7) insert_entries_Inr [OF insert_scanned_entries [OF commit(8), THEN conjunct1]]
      by (simp add: insert_revision_Inr)
    then have jobs: "workspace_jobs db' =
        update_where (\<lambda>r. job_id r = jid) (finish_scan_job (sr_completed_at res)) (workspace_jobs db)"
      using insert_event_jobs [OF commit(10)] by (simp add: commit(9) update_job_row_def)
    show ?thesis unfolding jobs
      using job_row_unique [OF inv commit(2)] commit(4)
      by (auto intro!: jobs_move_update [OF d] simp: job_move_def finish_scan_job_def)
  qed (simp add: jobs_move_subset [OF d])
qed

lemma requeue_jobs_jobs:
  "requeue_jobs now js db = Inr (db', rs) \<Longrightarrow>
     \<exists>p. workspace_jobs db' = update_where (\<lambda>r. p r \<and> job_status r = WorkspaceJobStatus.RUNNING)
       (\<lambda>r. r\<lparr>job_status := WorkspaceJobStatus.QUEUED, job_safe_error_code := None,
              job_started_at := None, job_finished_at := None\<rparr>) (workspace_jobs db)"
proof (induction js arbitrary: db rs)
  case Nil
  then show ?case by (intro exI [of _ "\<lambda>r. False"]) (simp add: update_where_def)
next
  case (Cons j js)
  let ?f = "\<lambda>r. r\<lparr>job_status := WorkspaceJobStatus.QUEUED, job_safe_error_code := None,
     job_started_at := None, job_finished_at := None\<rparr>"
  from Cons.prems obtain db2 rs2 where
    db2: "workspace_jobs db2 = update_where (\<lambda>r. job_id r = job_id j \<and>
        job_status r = WorkspaceJobStatus.RUNNING) ?f (workspace_jobs db)"
    and rest: "requeue_jobs now js db2 = Inr (db', rs2)"
    by (auto simp: bind_res_Inr_iff Let_def dest!: insert_event_jobs)
  from Cons.IH [OF rest] obtain p where
    "workspace_jobs db' = update_where (\<lambda>r. p r \<and> job_status r = WorkspaceJobStatus.RUNNING) ?f
       (workspace_jobs db2)" by blast
  then have "workspace_jobs db' = update_where (\<lambda>r. (job_id r = job_id j \<or> p r) \<and>
      job_status r = WorkspaceJobStatus.RUNNING) ?f (workspace_jobs db)"
    by (auto simp: db2 update_where_def)
  then show ?case by (rule exI [of _ "\<lambda>r. job_id r = job_id j \<or> p r"])
qed

lemma recover_moves:
  assumes "recover_unfinished_jobs now db = Inr (db', rs)" and inv: "store_inv db"
  shows "jobs_move (workspace_jobs db) (workspace_jobs db')"
proof -
  have d: "distinct (map job_id (workspace_jobs db))" using inv by (simp add: store_inv_defs)
  from assms(1) obtain ks where "requeue_jobs now (jobs_with_status WorkspaceJobStatus.RUNNING db) db = Inr (db', ks)"
    by (auto simp: recover_unfinished_jobs_def recover_running_jobs_def bind_res_Inr_iff)
  from requeue_jobs_jobs [OF this] show ?thesis
    by (auto intro!: jobs_move_update [OF d] simp: job_move_def)
qed

lemma insert_job_moves:
  assumes "insert_job j db = Inr db'" and inv: "store_inv db"
  shows "jobs_move (workspace_jobs db) (workspace_jobs db')"
  using assms by (auto simp: insert_job_Inr store_inv_defs intro: jobs_move_append)

lemma create_job_moves:
  assumes "create_job j key db = Inr (db', r)" and inv: "store_inv db"
  shows "jobs_move (workspace_jobs db) (workspace_jobs db')"
proof -
  have d: "distinct (map job_id (workspace_jobs db))" using inv by (simp add: store_inv_defs)
  from assms(1) have "db' = db \<or> insert_job (j\<lparr>job_idempotency_key := key\<rparr>) db = Inr db'"
    by (auto simp: create_job_def bind_res_Inr_iff split: option.splits sum.splits if_splits)
  then show ?thesis using insert_job_moves [OF _ inv] jobs_move_subset [OF d] by auto
qed

lemma create_with_job_moves:
  assumes "create_workspace_with_initial_job now w j key owned db = Inr (db', x)" and inv: "store_inv db"
  shows "jobs_move (workspace_jobs db) (workspace_jobs db')"
proof -
  have d: "distinct (map job_id (workspace_jobs db))" using inv by (simp add: store_inv_defs)
  show ?thesis
  proof (cases "db' = db")
    case False
    with assms(1) obtain db1 db2 where
      "insert_workspace (as_row w owned) db = Inr db1"
      "insert_job (j\<lparr>job_idempotency_key := key\<rparr>) db1 = Inr db2" "workspace_jobs db' = workspace_jobs db2"
      by (auto simp: create_workspace_with_initial_job_def bind_res_Inr_iff Let_def update_creation_def
          split: if_splits option.splits)
    then show ?thesis using jobs_move_append [OF d]
      by (auto simp: insert_workspace_Inr insert_job_Inr)
  qed (simp add: jobs_move_subset [OF d])
qed

text \<open>Every step moves every job along its life cycle.\<close>

lemma step_moves_jobs:
  assumes "workspace_step db db'" and inv: "store_inv db"
  shows "jobs_move (workspace_jobs db) (workspace_jobs db')"
proof -
  have d: "distinct (map job_id (workspace_jobs db))" using inv by (simp add: store_inv_defs)
  have same: "workspace_jobs db' = workspace_jobs db \<Longrightarrow> ?thesis" by (simp add: jobs_move_subset [OF d])
  have sub: "set (workspace_jobs db') \<subseteq> set (workspace_jobs db) \<Longrightarrow> ?thesis" by (rule jobs_move_subset [OF d])
  from assms(1) show ?thesis
    by cases (auto intro: same sub creation_methods_jobs create_with_job_moves [OF _ inv]
        commit_scan_moves [OF _ inv] draft_methods_jobs approve_jobs hold_jobs
        create_job_moves [OF _ inv] recover_moves [OF _ inv] start_job_moves [OF _ inv]
        append_progress_jobs fail_job_moves [OF _ inv] update_job_moves [OF _ inv] state_methods_jobs
        deleting_methods_jobs [THEN sub] queue_cleanup_jobs
        simp: jobs_move_subset [OF d] creation_methods_jobs(3,4))
qed

end
