(* ===== verification/Workspace_Correctness.thy ===== *)
theory Workspace_Correctness
  imports Workspace_Effects Workspace_Jobs
begin

text \<open>
  The properties of the workspace store and of the paths it accepts, and a concrete course whose
  life (creation, scan, approval, change, deletion) they are evaluated on.
\<close>

section \<open>A concrete course\<close>

definition demo_sha :: "char \<Rightarrow> string" where
  "demo_sha c = (let q = [c, c, c, c, c, c, c, c]; h = q @ q @ q @ q in h @ h)"

definition demo_entry :: "string \<Rightarrow> string \<Rightarrow> string \<Rightarrow> bool \<Rightarrow> ManifestEntry" where
  "demo_entry i p h b =
     \<lparr>me_entry_id = i, me_workspace_id = ''c1'', me_relative_path = p, me_item_kind = ''file'',
      me_format_category = Some ''pdf'', me_size_bytes = 10, me_modified_ns = None,
      me_device_id = None, me_file_id = None, me_sha256 = Some h, me_state = PENDING_APPROVAL,
      me_included = b, me_inclusion_reason = None, me_proposed_course_group = ''unclassified'',
      me_failure_code = None, me_safe_message = None, me_archive_parent_entry_id = None,
      me_archive_member_path = None, me_archive_member_index = None,
      me_archive_member_crc32 = None, me_archive_member_compressed_bytes = None\<rparr>"

definition demo_record :: WorkspaceRecord where
  "demo_record =
     \<lparr>ws_workspace_id = ''c1'', ws_display_name = ''Course'', ws_source_mode = NATIVE_FOLDER,
      ws_canonical_root = ''/home/u/course'', ws_root_device = None, ws_root_file_id = None,
      ws_state = READY, ws_current_draft_revision_id = None, ws_current_approved_revision_id = None,
      ws_created_at = 0, ws_updated_at = 0, ws_last_scanned_at = None,
      ws_last_access_verified_at = None\<rparr>"

definition demo_job :: "string \<Rightarrow> string \<Rightarrow> WorkspaceJob" where
  "demo_job j kind =
     \<lparr>job_id = j, job_workspace_id = ''c1'', job_kind = kind, job_status = WorkspaceJobStatus.QUEUED,
      job_idempotency_key = ''k'', job_safe_error_code = None, job_created_at = 1,
      job_started_at = None, job_finished_at = None\<rparr>"

definition demo_scan :: ScanResult where
  "demo_scan =
     \<lparr>sr_workspace_id = ''c1'',
      sr_entries = [demo_entry ''e1'' ''notes/a.pdf'' (demo_sha CHR ''a'') True,
                    demo_entry ''e2'' ''exam.pdf'' (demo_sha CHR ''b'') False],
      sr_discovered_count = 2, sr_bytes_hashed = 20, sr_failure_count = 0, sr_completed_at = 5\<rparr>"

text \<open>the tables after a call that succeeds\<close>

definition db_after :: "py_error + workspace_db \<times> 'a \<Rightarrow> workspace_db" where
  "db_after r = (case r of Inl _ \<Rightarrow> empty_workspace_db | Inr (db, _) \<Rightarrow> db)"

definition succeeded :: "py_error + 'a \<Rightarrow> bool" where
  "succeeded r \<longleftrightarrow> (case r of Inl _ \<Rightarrow> False | Inr _ \<Rightarrow> True)"

lemma db_after_Inr: "succeeded r \<Longrightarrow> \<exists>x. r = Inr (db_after r, x)"
  by (auto simp: succeeded_def db_after_def split: sum.splits)

definition course_claimed :: workspace_db where
  "course_claimed = db_after (claim_creation 1 ''k'' NATIVE_FOLDER ''c1'' empty_workspace_db)"

definition course_created :: workspace_db where
  "course_created = db_after (create_workspace_with_initial_job 1 demo_record
     (demo_job ''j1'' ''initial_scan'') ''k'' None course_claimed)"

definition course_started :: workspace_db where
  "course_started = db_after (start_job 2 ''j1'' course_created)"

definition course_scanned :: workspace_db where
  "course_scanned = db_after (commit_scan ''r1'' ''c1'' demo_scan ''j1'' course_started)"

definition course_approved :: workspace_db where
  "course_approved = db_after (approve ''a1'' 6 ''c1'' ''r1'' ''workspace-v1'' None course_scanned)"

definition course_changed :: workspace_db where
  "course_changed = db_after (mark_entries_changed_latest ''r2'' 7 ''c1'' [''e1''] ''source_changed''
     course_approved)"

lemma course_calls_succeed:
  "succeeded (claim_creation 1 ''k'' NATIVE_FOLDER ''c1'' empty_workspace_db)"
  "succeeded (create_workspace_with_initial_job 1 demo_record (demo_job ''j1'' ''initial_scan'') ''k'' None
     course_claimed)"
  "succeeded (start_job 2 ''j1'' course_created)"
  "succeeded (commit_scan ''r1'' ''c1'' demo_scan ''j1'' course_started)"
  "succeeded (approve ''a1'' 6 ''c1'' ''r1'' ''workspace-v1'' None course_scanned)"
  "succeeded (mark_entries_changed_latest ''r2'' 7 ''c1'' [''e1''] ''source_changed'' course_approved)"
  by code_simp+

abbreviation reachable_store :: "workspace_db \<Rightarrow> bool" where
  "reachable_store \<equiv> reach (\<lambda>db. db = empty_workspace_db) workspace_step"

lemma fresh_demo: "fresh_workspace demo_record"
  by (simp add: fresh_workspace_def demo_record_def)

lemma reach_call:
  assumes "reachable_store db" and "succeeded r" and "\<And>db' x. r = Inr (db', x) \<Longrightarrow> workspace_step db db'"
  shows "reachable_store (db_after r)"
  using db_after_Inr [OF assms(2)] assms(1,3) by (blast intro: reach_step)

lemma reach_created: "reachable_store course_created"
proof -
  have "reachable_store empty_workspace_db" by (rule reach_init) simp
  then have "reachable_store course_claimed"
    unfolding course_claimed_def by (rule reach_call [OF _ course_calls_succeed(1)]) (auto intro: ws_claim)
  then show ?thesis
    unfolding course_created_def
    by (rule reach_call [OF _ course_calls_succeed(2)]) (rule ws_create [OF _ fresh_demo])
qed

lemma reach_started: "reachable_store course_started"
  unfolding course_started_def
  by (rule reach_call [OF reach_created course_calls_succeed(3)]) (rule ws_start)

lemma reach_scanned: "reachable_store course_scanned"
  unfolding course_scanned_def
  by (rule reach_call [OF reach_started course_calls_succeed(4)]) (rule ws_commit)

lemma reach_approved: "reachable_store course_approved"
  unfolding course_approved_def
  by (rule reach_call [OF reach_scanned course_calls_succeed(5)]) (rule ws_approve)

lemma reach_changed: "reachable_store course_changed"
  unfolding course_changed_def
  by (rule reach_call [OF reach_approved course_calls_succeed(6)]) (rule ws_changed)


lemma reach_store_inv: "reachable_store db \<Longrightarrow> store_inv db"
  by (rule workspace_store.reach_inv)

lemma call_result: "succeeded r \<Longrightarrow> db_after r = db \<Longrightarrow> \<exists>x. r = Inr (db, x)"
  using db_after_Inr by blast

section \<open>Paths\<close>

text \<open>
  A path that \<open>normalize_relative_path\<close> returns is confined below the workspace root: it has the
  components of the value it was given, none of them empty, \<open>.\<close>, \<open>..\<close> or with a separator, the first
  without a drive colon; and normalising it again returns it unchanged.
\<close>

theorem normalize_confines:
  assumes "normalize_relative_path v = Inr q"
  shows "confined_parts (posix_parts q) \<and> posix_parts q = posix_parts v \<and> normalize_relative_path q = Inr q"
  using normalize_relative_path_Inr [OF assms] posix_parts_join [of "posix_parts v"]
    normalize_idempotent [OF assms] by simp

theorem normalize_confines_witness:
  "normalize_relative_path ''notes//./a.pdf'' = Inr ''notes/a.pdf'' \<and>
   confined_parts (posix_parts ''notes/a.pdf'') \<and>
   normalize_relative_path ''notes/a.pdf'' = Inr ''notes/a.pdf''"
proof -
  have "normalize_relative_path ''notes//./a.pdf'' = Inr ''notes/a.pdf''" by code_simp
  then show ?thesis using normalize_confines by blast
qed

text \<open>
  A relative value without a single proper component, such as \<open>.\<close> or \<open>./\<close>, escapes the intended
  \<open>ValueError\<close>: \<open>path.parts[0]\<close> raises \<open>IndexError\<close> first, and for no other value.
\<close>

theorem normalize_index_error:
  "normalize_relative_path v = Inl IndexError \<longleftrightarrow>
     v \<noteq> [] \<and> NUL \<notin> set v \<and> backslash \<notin> set v \<and> \<not> is_absolute v \<and>
     set (split_on CHR ''/'' v) \<subseteq> {[], ''.''}"
proof -
  have "posix_parts v = [] \<longleftrightarrow> set (split_on CHR ''/'' v) \<subseteq> {[], ''.''}"
    by (auto simp: posix_parts_def filter_empty_conv)
  then show ?thesis
    by (auto simp: normalize_relative_path_def Let_def split: list.splits)
qed

section \<open>Transmission authority\<close>

text \<open>
  C6: Whoever holds transmission authority in a reachable store holds the approval of the current
  draft: the workspace is APPROVED, draft and approved revision are the requested one, the approval
  is its latest, and the approval lists exactly the hashes of the included, approved entries.
\<close>

theorem held_authority_is_the_approval:
  assumes "reachable_store db" and "hold_transmission_authority w aid rid v db = Inr (db', s)"
  shows "\<exists>wr a r. get_workspace w db = Some wr \<and> ws_state wr = WorkspaceState.APPROVED \<and>
    ws_current_draft_revision_id wr = Some rid \<and> ws_current_approved_revision_id wr = Some rid \<and>
    latest_approval w rid db = Some a \<and> ap_approval_id a = aid \<and> revision w rid db = Inr r \<and>
    s = \<lparr>ts_workspace = wr, ts_approval = Some a, ts_revision = Some r\<rparr> \<and>
    (\<forall>i h. \<lparr>ae_entry_id = i, ae_sha256 = h\<rparr> \<in> set (ap_entries a) \<longleftrightarrow>
      (\<exists>e \<in> set (rev_entries r). me_included e \<and> me_state e = SourceState.APPROVED \<and>
         me_entry_id e = i \<and> me_sha256 e = Some h))"
  using hold_Inr [OF assms(2)] approval_lists_included [OF reach_store_inv [OF assms(1)]] by blast

theorem held_authority_is_the_approval_witness:
  "\<exists>s a r. hold_transmission_authority ''c1'' ''a1'' ''r1'' None course_approved = Inr (course_approved, s) \<and>
     ts_approval s = Some a \<and> ts_revision s = Some r \<and>
     \<lparr>ae_entry_id = ''e1'', ae_sha256 = demo_sha CHR ''a''\<rparr> \<in> set (ap_entries a) \<and>
     (\<exists>e \<in> set (rev_entries r). me_entry_id e = ''e1'' \<and> me_state e = SourceState.APPROVED)"
proof -
  have "succeeded (hold_transmission_authority ''c1'' ''a1'' ''r1'' None course_approved)" by code_simp
  then obtain s where "hold_transmission_authority ''c1'' ''a1'' ''r1'' None course_approved =
      Inr (db_after (hold_transmission_authority ''c1'' ''a1'' ''r1'' None course_approved), s)"
    using db_after_Inr by blast
  then have s: "hold_transmission_authority ''c1'' ''a1'' ''r1'' None course_approved = Inr (course_approved, s)"
    using hold_result by fastforce
  from held_authority_is_the_approval [OF reach_approved s] obtain a r where
    a: "latest_approval ''c1'' ''r1'' course_approved = Some a" "ts_approval s = Some a" "ts_revision s = Some r"
    and iff: "\<lparr>ae_entry_id = ''e1'', ae_sha256 = demo_sha CHR ''a''\<rparr> \<in> set (ap_entries a) \<longleftrightarrow>
      (\<exists>e \<in> set (rev_entries r). me_included e \<and> me_state e = SourceState.APPROVED \<and>
         me_entry_id e = ''e1'' \<and> me_sha256 e = Some (demo_sha CHR ''a''))" by auto
  have "map_option ap_entries (latest_approval ''c1'' ''r1'' course_approved) =
      Some [\<lparr>ae_entry_id = ''e1'', ae_sha256 = demo_sha CHR ''a''\<rparr>]" by code_simp
  with a(1) have "\<lparr>ae_entry_id = ''e1'', ae_sha256 = demo_sha CHR ''a''\<rparr> \<in> set (ap_entries a)" by simp
  with iff a s show ?thesis by blast
qed

text \<open>
  C7: Changing the draft revokes: after \<open>set_inclusion\<close>, \<open>mark_entries_changed_latest\<close>,
  \<open>mark_revision_attention_if_current\<close> or the first commit of a scan, every
  \<open>hold_transmission_authority\<close> of the workspace raises \<open>TransmissionAuthorityRevokedError\<close>, whatever
  approval and revision it names.
\<close>

theorem draft_change_revokes:
  assumes "reachable_store db"
    and "set_inclusion fresh now w rid ids b db = Inr (db', r) \<or>
      mark_entries_changed_latest fresh now w ids code db = Inr (db', r) \<or>
      mark_revision_attention_if_current fresh now w rid ids code db = Inr (db', r) \<or>
      commit_scan fresh w res jid db = Inr (db', r) \<and> db' \<noteq> db"
  shows "hold_transmission_authority w aid rid' v db' = Inl TransmissionAuthorityRevokedError"
proof -
  have inv: "store_inv db'"
    using assms(2) reach_store_inv [OF assms(1)]
    by (auto intro: set_inclusion_inv mark_entries_changed_latest_inv mark_revision_attention_inv commit_scan_inv)
  from assms(2) show ?thesis
  proof (elim disjE conjE)
    assume "set_inclusion fresh now w rid ids b db = Inr (db', r)"
    from set_inclusion_redraft [OF this] show ?thesis using redraft_revokes [OF _ _ inv] by blast
  next
    assume "mark_entries_changed_latest fresh now w ids code db = Inr (db', r)"
    from mark_latest_redraft [OF this] show ?thesis using redraft_revokes [OF _ _ inv] by blast
  next
    assume "mark_revision_attention_if_current fresh now w rid ids code db = Inr (db', r)"
    from mark_attention_redraft [OF this] show ?thesis using redraft_revokes [OF _ _ inv] by blast
  next
    assume "commit_scan fresh w res jid db = Inr (db', r)" "db' \<noteq> db"
    from commit_scan_state [OF this] show ?thesis using hold_needs_approved [OF inv] by fastforce
  qed
qed

theorem draft_change_revokes_witness:
  "hold_transmission_authority ''c1'' ''a1'' ''r1'' None course_changed = Inl TransmissionAuthorityRevokedError \<and>
   succeeded (hold_transmission_authority ''c1'' ''a1'' ''r1'' None course_approved)"
proof -
  from call_result [OF course_calls_succeed(6) course_changed_def [symmetric]] obtain r where
    "mark_entries_changed_latest ''r2'' 7 ''c1'' [''e1''] ''source_changed'' course_approved = Inr (course_changed, r)"
    by blast
  moreover have "succeeded (hold_transmission_authority ''c1'' ''a1'' ''r1'' None course_approved)" by code_simp
  ultimately show ?thesis using draft_change_revokes [OF reach_approved] by blast
qed

text \<open>
  \<open>approve\<close> succeeds exactly when the named revision is the current draft, has the presented
  policy version and every included entry is eligible; and when approval times do not run backwards
  the new approval grants transmission authority at once.
\<close>

theorem approve_outcome:
  assumes "fresh \<notin> ap_approval_id ` set (approvals db)"
    and "\<forall>x \<in> set (approvals db). ap_approved_at x \<le> (case verified of None \<Rightarrow> clock | Some t \<Rightarrow> t)"
  shows "((\<exists>x. approve fresh clock w rid policy verified db = Inr x) \<longleftrightarrow>
      (\<exists>wr rev. get_workspace w db = Some wr \<and> ws_current_draft_revision_id wr = Some rid \<and>
         revision w rid db = Inr rev \<and> rev_policy_version rev = policy \<and>
         (\<forall>e \<in> set (rev_entries rev). me_included e \<longrightarrow> approval_eligible e))) \<and>
    (\<forall>db' a. approve fresh clock w rid policy verified db = Inr (db', a) \<longrightarrow>
      (\<exists>s. hold_transmission_authority w fresh rid None db' = Inr (db', s) \<and> ts_approval s = Some a))"
proof -
  have "ap_approved_at a = (case verified of None \<Rightarrow> clock | Some t \<Rightarrow> t)"
    if "approve fresh clock w rid policy verified db = Inr (db', a)" for db' a
    using that by (auto simp: approve_def bind_res_Inr_iff Let_def split: if_splits)
  with assms(2) have "\<exists>s. hold_transmission_authority w fresh rid None db' = Inr (db', s) \<and> ts_approval s = Some a"
    if "approve fresh clock w rid policy verified db = Inr (db', a)" for db' a
    using that by (intro approve_grants [OF that]) simp
  then show ?thesis using approve_succeeds_iff [OF assms(1)] by simp
qed

theorem approve_outcome_witness:
  "\<exists>s. hold_transmission_authority ''c1'' ''a1'' ''r1'' None course_approved = Inr (course_approved, s)"
proof -
  from call_result [OF course_calls_succeed(5) course_approved_def [symmetric]] obtain a where
    a: "approve ''a1'' 6 ''c1'' ''r1'' ''workspace-v1'' None course_scanned = Inr (course_approved, a)" by blast
  have "approvals course_scanned = []" by code_simp
  then show ?thesis
    using approve_outcome [where fresh = "''a1''" and db = course_scanned and w = "''c1''" and rid = "''r1''"
      and clock = 6 and policy = "''workspace-v1''" and verified = None] a
    by simp blast
qed


section \<open>Scans and manifests\<close>

text \<open>
  C8: Committing a scan is idempotent: the first commit of a job writes one revision, with the entries
  of the scan in manifest order and the previous draft as its parent, and leaves every other revision
  readable unchanged; committing the same job again, with any result, returns that revision and
  changes nothing.
\<close>

theorem commit_scan_outcome:
  assumes "reachable_store db" and "commit_scan fresh w res jid db = Inr (db', r)"
  shows "(db' \<noteq> db \<longrightarrow> (\<exists>wr. get_workspace w db = Some wr \<and>
      r = \<lparr>rev_revision_id = fresh, rev_workspace_id = w,
           rev_parent_revision_id = ws_current_draft_revision_id wr, rev_scan_job_id = Some jid,
           rev_policy_version = sp_policy_version DEFAULT_SCAN_POLICY,
           rev_entries = order_by entry_order (sr_entries res), rev_created_at = sr_completed_at res\<rparr> \<and>
      (\<forall>v rid. rid \<noteq> fresh \<longrightarrow> revision v rid db' = revision v rid db))) \<and>
    (sr_workspace_id res' = w \<longrightarrow> commit_scan fresh' w res' jid db' = Inr (db', r))"
  using commit_scan_effect [OF assms(2) _ reach_store_inv [OF assms(1)]]
    commit_scan_replay [OF assms(2) _ reach_store_inv [OF assms(1)]] by blast

theorem commit_scan_outcome_witness:
  "\<exists>r. commit_scan ''r1'' ''c1'' demo_scan ''j1'' course_started = Inr (course_scanned, r) \<and>
     commit_scan ''r9'' ''c1'' demo_scan ''j1'' course_scanned = Inr (course_scanned, r) \<and>
     map me_entry_id (rev_entries r) = [''e2'', ''e1'']"
proof -
  from call_result [OF course_calls_succeed(4) course_scanned_def [symmetric]] obtain r where
    r: "commit_scan ''r1'' ''c1'' demo_scan ''j1'' course_started = Inr (course_scanned, r)" by blast
  have "manifest_revisions course_started = []" "map rr_revision_id (manifest_revisions course_scanned) = [''r1'']"
    by code_simp+
  then have "course_scanned \<noteq> course_started" by auto
  moreover have "map me_entry_id (order_by entry_order (sr_entries demo_scan)) = [''e2'', ''e1'']" by code_simp
  moreover have "sr_workspace_id demo_scan = ''c1''" by code_simp
  moreover have "(course_scanned \<noteq> course_started \<longrightarrow>
      rev_entries r = order_by entry_order (sr_entries demo_scan)) \<and>
    (sr_workspace_id demo_scan = ''c1'' \<longrightarrow>
      commit_scan ''r9'' ''c1'' demo_scan ''j1'' course_scanned = Inr (course_scanned, r))"
    using commit_scan_outcome [OF reach_started r, of demo_scan "''r9''"] by (elim conjE, intro conjI) auto
  ultimately show ?thesis using r by simp
qed

text \<open>
  Changing the inclusion of entries copies the draft: it needs the named revision to be the
  current draft and every named entry to be in it, and it writes a child revision in which exactly the
  named entries have changed, in the same order; every earlier revision stays readable unchanged.
\<close>

theorem set_inclusion_outcome:
  assumes "reachable_store db" and "set_inclusion fresh now w rid ids b db = Inr (db', r)"
  shows "\<exists>wr cur. get_workspace w db = Some wr \<and> ws_current_draft_revision_id wr = Some rid \<and>
    revision w rid db = Inr cur \<and> set ids \<subseteq> me_entry_id ` set (rev_entries cur) \<and>
    r = \<lparr>rev_revision_id = fresh, rev_workspace_id = w, rev_parent_revision_id = Some rid,
         rev_scan_job_id = None, rev_policy_version = rev_policy_version cur,
         rev_entries = map (update_inclusion (set ids) b) (rev_entries cur), rev_created_at = now\<rparr> \<and>
    (\<forall>v k. k \<noteq> fresh \<longrightarrow> revision v k db' = revision v k db)"
proof -
  from set_inclusion_redraft [OF assms(2)] obtain wr cur where
    wr: "get_workspace w db = Some wr" "ws_current_draft_revision_id wr = Some rid"
      "revision w rid db = Inr cur" "set ids \<subseteq> me_entry_id ` set (rev_entries cur)"
    and re: "redraft now fresh w cur (update_inclusion (set ids) b) WorkspaceState.APPROVAL_REQUIRED db = Inr (db', r)"
    by blast
  from redraft_effect [OF re wr(3) reach_store_inv [OF assms(1)]] wr show ?thesis by simp
qed

theorem set_inclusion_outcome_witness:
  "\<exists>db' r. set_inclusion ''r2'' 8 ''c1'' ''r1'' [''e2''] True course_scanned = Inr (db', r) \<and>
     rev_parent_revision_id r = Some ''r1'' \<and> revision ''c1'' ''r1'' db' = revision ''c1'' ''r1'' course_scanned"
proof -
  have "succeeded (set_inclusion ''r2'' 8 ''c1'' ''r1'' [''e2''] True course_scanned)" by code_simp
  then obtain db' r where r: "set_inclusion ''r2'' 8 ''c1'' ''r1'' [''e2''] True course_scanned = Inr (db', r)"
    using db_after_Inr by blast
  from set_inclusion_outcome [OF reach_scanned r] r show ?thesis by auto
qed

section \<open>Jobs and events\<close>



text \<open>
  Every event in the log has the message of its type, carries all keys the type requires and
  only keys it allows, none of which looks like a secret, with values that passed the checks; and a
  job has at most 256 progress events.
\<close>

theorem event_log_safe:
  assumes "reachable_store db" and "e \<in> set (workspace_events db)"
  shows "(\<exists>allowed required. map_of EVENT_RULES (we_event_type e) = Some (we_message e, allowed, required) \<and>
      set required \<subseteq> fst ` set (we_payload e) \<and> fst ` set (we_payload e) \<subseteq> set allowed \<and>
      (\<forall>key \<in> fst ` set (we_payload e). \<forall>part \<in> set SECRET_KEY_PARTS. \<not> contains part (map fold_char key)) \<and>
      check_payload_values (we_payload e) = Inr ()) \<and>
    length (progress_events (we_job_id e) db) \<le> 256"
  using event_payload_ok [of e] reach_store_inv [OF assms(1)] assms(2)
  by (simp add: store_inv_def events_inv_def progress_capped_def progress_events_def)

theorem event_log_safe_witness:
  "workspace_events course_scanned \<noteq> [] \<and>
   length (progress_events (we_job_id (hd (workspace_events course_scanned))) course_scanned) \<le> 256"
proof -
  have "workspace_events course_scanned \<noteq> []" by code_simp
  then show ?thesis using event_log_safe [OF reach_scanned hd_in_set] by blast
qed

section \<open>Creation and deletion\<close>

text \<open>
  Creation is idempotent: claiming a creation key again returns the first claim as not new, and
  creating the workspace of a key again returns the workspace and the job of the first call; neither
  repetition changes the store, whatever identifiers it proposes.
\<close>

theorem creation_idempotent:
  "(claim_creation now key kind wid db = Inr (db', x, b) \<longrightarrow>
     claim_creation now' key kind wid' db' = Inr (db', x, False)) \<and>
   (create_workspace_with_initial_job now w j key owned db = Inr (db', wr, jr, b') \<longrightarrow>
    job_workspace_id j2 = ws_workspace_id w2 \<and> job_kind j2 = ''initial_scan'' \<and>
    job_status j2 = WorkspaceJobStatus.QUEUED \<longrightarrow>
     create_workspace_with_initial_job now' w2 j2 key owned' db' = Inr (db', wr, jr, False))"
  by (intro conjI impI, erule claim_again) (elim conjE, erule create_again; assumption)

theorem creation_idempotent_witness:
  "\<exists>wr jr. create_workspace_with_initial_job 9 demo_record (demo_job ''j2'' ''initial_scan'') ''k'' None
     course_created = Inr (course_created, wr, jr, False)"
proof -
  from call_result [OF course_calls_succeed(2) course_created_def [symmetric]] obtain wr jr b where
    "create_workspace_with_initial_job 1 demo_record (demo_job ''j1'' ''initial_scan'') ''k'' None
       course_claimed = Inr (course_created, wr, jr, b)" by (metis prod.collapse)
  moreover have "job_workspace_id (demo_job ''j2'' ''initial_scan'') = ws_workspace_id demo_record"
    "job_kind (demo_job ''j2'' ''initial_scan'') = ''initial_scan''"
    "job_status (demo_job ''j2'' ''initial_scan'') = WorkspaceJobStatus.QUEUED" by code_simp+
  ultimately show ?thesis
    using creation_idempotent [THEN conjunct2, of 1 demo_record "demo_job ''j1'' ''initial_scan''" "''k''" None
        course_claimed course_created wr jr b "demo_job ''j2'' ''initial_scan''" demo_record 9 None] by blast
qed




text \<open>
  A path queued for cleanup lies strictly below the data directory, never in the native folder of
  its own workspace, and queueing the same path again returns the queued row and changes nothing.
\<close>

theorem cleanup_confined:
  assumes "queue_cleanup fresh now data cwd w owned code identity db = Inr (db', r)"
  shows "path_parts data owned = data @ posix_parts (cl_owned_relative_path r) \<and>
    confined_parts (posix_parts (cl_owned_relative_path r)) \<and>
    (\<forall>wr. get_workspace w db = Some wr \<longrightarrow> ws_source_mode wr = NATIVE_FOLDER \<longrightarrow>
       take (length (path_parts cwd (ws_canonical_root wr))) (path_parts data owned) \<noteq>
         path_parts cwd (ws_canonical_root wr)) \<and>
    queue_cleanup fresh' now' data cwd w owned code' identity db' = Inr (db', r)"
proof -
  from queue_cleanup_cases [OF assms] obtain full where
    o: "owned_relative_path data owned = Inr (cl_owned_relative_path r, full)"
    and n: "\<forall>wr. get_workspace w db = Some wr \<longrightarrow> ws_source_mode wr = NATIVE_FOLDER \<longrightarrow>
       take (length (path_parts cwd (ws_canonical_root wr))) full \<noteq> path_parts cwd (ws_canonical_root wr)" by blast
  note parts = owned_relative_path_Inr [OF o]
  then have "path_parts data owned = data @ posix_parts (cl_owned_relative_path r)" by metis
  then show ?thesis using parts n queue_cleanup_again [OF assms] by simp
qed

theorem cleanup_confined_witness:
  "\<exists>db' r. queue_cleanup ''q1'' 9 [''var'', ''data''] [] ''c1'' ''/var/data/snap/c1'' ''busy'' None course_approved =
       Inr (db', r) \<and> posix_parts (cl_owned_relative_path r) = [''snap'', ''c1'']"
proof -
  have "succeeded (queue_cleanup ''q1'' 9 [''var'', ''data''] [] ''c1'' ''/var/data/snap/c1'' ''busy'' None course_approved)"
    by code_simp
  then obtain db' r where r: "queue_cleanup ''q1'' 9 [''var'', ''data''] [] ''c1'' ''/var/data/snap/c1'' ''busy'' None
      course_approved = Inr (db', r)" using db_after_Inr by blast
  have "path_parts [''var'', ''data''] ''/var/data/snap/c1'' = [''var'', ''data''] @ [''snap'', ''c1'']" by code_simp
  with cleanup_confined [OF r] r show ?thesis by auto
qed

section \<open>Migration\<close>





end
