(* ===== verification/Archive.thy ===== *)
theory Archive
  imports Workspace_Models
begin

text \<open>
  The archive preview of \<^verbatim>\<open>exam_predictor/workspace/archive.py\<close>: locating the end record of a ZIP
  file, counting the records of its central directory within a bound, and classifying the members
  \<open>zipfile\<close> then lists. A byte string is a list of characters, one per byte; \<open>zipfile.ZipFile\<close> is
  the standard library's, and its list of members is an argument of \<open>inspect\<close>.
\<close>

section \<open>Data\<close>

record ArchiveMember =
  am_parent_entry_id :: string
  am_display_path :: string
  am_item_kind :: string
  am_size_bytes :: nat
  am_compressed_bytes :: nat
  am_member_index :: "nat option"
  am_crc32 :: "nat option"
  am_state :: SourceState
  am_failure_code :: "string option"

text \<open>what the preview reads of a \<open>zipfile.ZipInfo\<close>\<close>

record ZipInfo =
  zi_filename :: string
  zi_file_size :: nat
  zi_compress_size :: nat
  zi_CRC :: nat
  zi_external_attr :: nat
  zi_flag_bits :: nat

datatype zip_error = BadZipFile

section \<open>Members\<close>

definition normalized_member_path :: "ZipInfo \<Rightarrow> string" where
  "normalized_member_path info = map (\<lambda>c. if c = backslash then CHR ''/'' else c) (zi_filename info)"

text \<open>\<open>re.match(r"^[A-Za-z]:", raw)\<close>\<close>

definition drive_prefix :: "string \<Rightarrow> bool" where
  "drive_prefix raw = (case raw of c # d # _ \<Rightarrow> (is_lower c \<or> is_upper c) \<and> d = CHR '':'' | _ \<Rightarrow> False)"

definition rstrip_slash :: "string \<Rightarrow> string" where
  "rstrip_slash s = rev (dropWhile (\<lambda>c. c = CHR ''/'') (rev s))"

text \<open>
  \<open>str(PurePosixPath(raw))\<close>: the root is one slash, or two when there are exactly two leading ones.
\<close>

definition posix_root :: "string \<Rightarrow> string" where
  "posix_root s = (if \<not> is_absolute s then []
     else if take 2 s = ''//'' \<and> take 3 s \<noteq> ''///'' then ''//'' else ''/'')"

definition path_as_posix :: "string \<Rightarrow> string" where
  "path_as_posix s = (if posix_root s = [] then as_posix (posix_parts s)
     else posix_root s @ join_with CHR ''/'' (posix_parts s))"

text \<open>\<open>len(path.parts)\<close>: the root is a part of its own\<close>

definition path_depth :: "string \<Rightarrow> nat" where
  "path_depth s = (if is_absolute s then 1 else 0) + length (posix_parts s)"

text \<open>
  The quotient \<open>file_size / max(compress_size, 1)\<close> is compared with an integer; for sizes below
  \<open>2^45\<close> its rounding as a float does not change the comparison, and it is written without division.
\<close>

definition ratio_exceeded :: "ZipInfo \<Rightarrow> ScanPolicy \<Rightarrow> bool" where
  "ratio_exceeded info policy \<longleftrightarrow>
     int (zi_file_size info) > sp_max_archive_ratio policy * int (max (zi_compress_size info) 1)"

definition member_failure :: "ZipInfo \<Rightarrow> ScanPolicy \<Rightarrow> string option" where
  "member_failure info policy =
     (let raw = normalized_member_path info; shown = path_as_posix raw in
      if is_absolute raw \<or> drive_prefix raw then Some ''archive_absolute_path''
      else if ''..'' \<in> set (posix_parts raw) then Some ''archive_traversal''
      else if rstrip_slash raw \<noteq> shown then Some ''archive_path_collision''
      else if take (nat (sp_max_path_chars policy)) (filter (\<lambda>c. \<not> is_control c) shown) \<noteq> shown
      then Some ''archive_path_collision''
      else if int (zi_external_attr info) div 65536 div 4096 mod 16 = 10 then Some ''archive_link''
      else if zi_flag_bits info mod 2 = 1 then Some ''archive_encrypted''
      else if int (path_depth raw) > sp_max_depth policy then Some ''archive_depth_limit''
      else if ratio_exceeded info policy then Some ''archive_ratio_limit''
      else None)"

section \<open>Bytes\<close>

text \<open>little-endian fields of \<open>struct.unpack\<close>\<close>

fun le_uint :: "string \<Rightarrow> nat" where
  "le_uint [] = 0"
| "le_uint (b # bs) = of_char b + 256 * le_uint bs"

definition field :: "nat \<Rightarrow> nat \<Rightarrow> string \<Rightarrow> nat" where
  "field offset width s = le_uint (take width (drop offset s))"

definition END_SIGNATURE :: string where
  "END_SIGNATURE = [CHR ''P'', CHR ''K'', CHR 0x05, CHR 0x06]"

definition HEADER_SIGNATURE :: string where
  "HEADER_SIGNATURE = [CHR ''P'', CHR ''K'', CHR 0x01, CHR 0x02]"

text \<open>\<open>s.rfind(sub, 0, end)\<close>\<close>

fun rfind_below :: "string \<Rightarrow> string \<Rightarrow> nat \<Rightarrow> nat option" where
  "rfind_below sub s 0 = None"
| "rfind_below sub s (Suc i) =
     (if take (length sub) (drop i s) = sub then Some i else rfind_below sub s i)"

definition rfind :: "string \<Rightarrow> string \<Rightarrow> nat \<Rightarrow> nat option" where
  "rfind sub s e =
     (let n = min e (length s) in
      if n < length sub then None else rfind_below sub s (Suc (n - length sub)))"

lemma rfind_below_Some:
  "rfind_below sub s n = Some i \<Longrightarrow> i < n \<and> take (length sub) (drop i s) = sub"
  by (induction n) (auto split: if_splits)

lemma rfind_Some:
  assumes "rfind sub s e = Some i"
  shows "i + length sub \<le> e \<and> i + length sub \<le> length s \<and> take (length sub) (drop i s) = sub"
  using assms rfind_below_Some [of sub s "Suc (min e (length s) - length sub)" i]
  by (auto simp: rfind_def Let_def split: if_splits)

section \<open>The end record\<close>

definition end_record_at :: "string \<Rightarrow> nat \<Rightarrow> bool" where
  "end_record_at tail i \<longleftrightarrow> i + 22 \<le> length tail \<and> i + 22 + field (i + 20) 2 tail = length tail"

function find_end_record :: "string \<Rightarrow> nat \<Rightarrow> nat option" where
  "find_end_record tail search_end =
     (case rfind END_SIGNATURE tail search_end of
        None \<Rightarrow> None
      | Some i \<Rightarrow> if end_record_at tail i then Some i else find_end_record tail i)"
  by pat_completeness auto
termination
  by (relation "measure snd") (auto dest!: rfind_Some simp: END_SIGNATURE_def)

declare find_end_record.simps [simp del]

text \<open>entries, size and offset of the central directory, and the position of the end record\<close>

definition declared_central_directory :: "string \<Rightarrow> zip_error + nat \<times> nat \<times> nat \<times> nat" where
  "declared_central_directory archive =
     (let size = int (length archive); tail_size = min size (22 + 65535);
          start = nat (size - tail_size); tail = drop start archive in
      case find_end_record tail (length tail) of
        None \<Rightarrow> Inl BadZipFile
      | Some i \<Rightarrow> Inr (field (i + 10) 2 tail, field (i + 12) 4 tail, field (i + 16) 4 tail, start + i))"

section \<open>Counting the central directory\<close>

definition record_bytes :: "string \<Rightarrow> nat" where
  "record_bytes header = 46 + (field 28 2 header + field 30 2 header + field 32 2 header)"

function count_records :: "string \<Rightarrow> nat \<Rightarrow> nat \<Rightarrow> nat \<Rightarrow> nat \<Rightarrow> zip_error + nat" where
  "count_records archive pos remaining count max_members =
     (if remaining = 0 then Inr count
      else if remaining < 46 then Inl BadZipFile
      else let header = take 46 (drop pos archive) in
      if length header \<noteq> 46 then Inl BadZipFile
      else if take 4 header \<noteq> HEADER_SIGNATURE then Inl BadZipFile
      else if record_bytes header > remaining then Inl BadZipFile
      else if Suc count > max_members then Inr (Suc count)
      else count_records archive (pos + record_bytes header) (remaining - record_bytes header)
             (Suc count) max_members)"
  by pat_completeness auto
termination
  by (relation "measure (\<lambda>(archive, pos, remaining, count, max_members). remaining)")
    (auto simp: record_bytes_def)

declare count_records.simps [simp del]

definition count_central_directory_records ::
  "string \<Rightarrow> nat \<Rightarrow> nat \<Rightarrow> nat \<Rightarrow> nat \<Rightarrow> zip_error + nat" where
  "count_central_directory_records archive cd_bytes cd_offset eocd_offset max_members =
     (let prefix = int eocd_offset - int cd_bytes - int cd_offset;
          actual = int cd_offset + prefix in
      if prefix < 0 \<or> actual < 0 then Inl BadZipFile
      else if actual + int cd_bytes > int eocd_offset then Inl BadZipFile
      else count_records archive (nat actual) cd_bytes 0 max_members)"

section \<open>Inspection\<close>

definition archive_limit_member :: "string \<Rightarrow> string \<Rightarrow> ArchiveMember" where
  "archive_limit_member parent code =
     \<lparr>am_parent_entry_id = parent, am_display_path = ''[archive limit exceeded]'',
      am_item_kind = ''archive_limit'', am_size_bytes = 0, am_compressed_bytes = 0,
      am_member_index = None, am_crc32 = None, am_state = SourceState.FAILED,
      am_failure_code = Some code\<rparr>"

text \<open>
  The loop over \<open>infolist()\<close>: \<open>n\<close> members and \<open>expanded\<close> bytes so far, \<open>seen\<close> display paths. The display
  path passes the validator of \<open>ArchiveMember\<close>; \<open>is_dir\<close> is a trailing slash of the name.
\<close>

definition inspected_member ::
  "ScanPolicy \<Rightarrow> string \<Rightarrow> nat \<Rightarrow> nat \<Rightarrow> string list \<Rightarrow> ZipInfo \<Rightarrow> ArchiveMember" where
  "inspected_member policy parent n expanded seen info =
     (let failure = (case member_failure info policy of
            Some f \<Rightarrow> Some f
          | None \<Rightarrow> if int n > sp_max_archive_members policy then Some ''archive_member_limit''
                   else if int expanded > sp_max_archive_expanded_bytes policy
                   then Some ''archive_size_limit'' else None);
          shown = normalize_display_path (path_as_posix (normalized_member_path info));
          failure = (if shown \<in> set seen \<and> failure = None then Some ''archive_path_collision'' else failure)
      in \<lparr>am_parent_entry_id = parent, am_display_path = shown,
          am_item_kind = (if zi_filename info \<noteq> [] \<and> last (zi_filename info) = CHR ''/'' then ''folder'' else ''file''),
          am_size_bytes = zi_file_size info, am_compressed_bytes = zi_compress_size info,
          am_member_index = Some n, am_crc32 = Some (zi_CRC info),
          am_state = (if failure \<noteq> None then SourceState.FAILED else PENDING_APPROVAL),
          am_failure_code = failure\<rparr>)"

fun inspect_members ::
  "ScanPolicy \<Rightarrow> string \<Rightarrow> nat \<Rightarrow> nat \<Rightarrow> string list \<Rightarrow> ZipInfo list \<Rightarrow> ArchiveMember list" where
  "inspect_members policy parent n expanded seen [] = []"
| "inspect_members policy parent n expanded seen (info # infos) =
     (let expanded = expanded + zi_file_size info;
          m = inspected_member policy parent (Suc n) expanded seen info in
      m # (if int (Suc n) > sp_max_archive_members policy \<or>
              int expanded > sp_max_archive_expanded_bytes policy
           then [] else inspect_members policy parent (Suc n) expanded (am_display_path m # seen) infos))"

definition inspect ::
  "ScanPolicy \<Rightarrow> (string \<Rightarrow> zip_error + ZipInfo list) \<Rightarrow> string \<Rightarrow> string \<Rightarrow> zip_error + ArchiveMember list" where
  "inspect policy infolist parent archive =
     bind_res (declared_central_directory archive) (\<lambda>(declared, cd_bytes, cd_offset, eocd_offset).
       let max_bytes = max 4096 (sp_max_archive_members policy * (46 + sp_max_path_chars policy * 4 + 1024)) in
       if int declared > sp_max_archive_members policy \<or> int declared = 65535 \<or> int cd_bytes = 4294967295 \<or>
          int cd_bytes > max_bytes
       then Inr [archive_limit_member parent ''archive_member_limit'']
       else bind_res (count_central_directory_records archive cd_bytes cd_offset eocd_offset
                        (nat (sp_max_archive_members policy))) (\<lambda>actual.
         if int actual > sp_max_archive_members policy
         then Inr [archive_limit_member parent ''archive_member_limit'']
         else if actual \<noteq> declared then Inl BadZipFile
         else bind_res (infolist archive) (\<lambda>infos. Inr (inspect_members policy parent 0 0 [] infos))))"

end
