(* ===== verification/Archive_Correctness.thy ===== *)
theory Archive_Correctness
  imports Archive
begin

text \<open>
  The archive preview finds the last valid end record, counts exactly the records of a well-formed
  central directory, and accepts only members that are confined, distinct and within the limits.
\<close>

section \<open>The end record\<close>

definition is_end_record :: "string \<Rightarrow> nat \<Rightarrow> bool" where
  "is_end_record tail i \<longleftrightarrow> take 4 (drop i tail) = END_SIGNATURE \<and> end_record_at tail i"

lemma rfind_below_greatest:
  "rfind_below sub s n = r \<Longrightarrow>
     (case r of None \<Rightarrow> \<forall>j < n. take (length sub) (drop j s) \<noteq> sub
      | Some i \<Rightarrow> \<forall>j. i < j \<longrightarrow> j < n \<longrightarrow> take (length sub) (drop j s) \<noteq> sub)"
proof (induction n arbitrary: r)
  case (Suc n)
  then show ?case by (auto simp: less_Suc_eq split: if_splits option.splits)
qed simp

lemma rfind_greatest:
  assumes "rfind sub s e = r" and "j + length sub \<le> e" and "take (length sub) (drop j s) = sub"
    and "sub \<noteq> []"
  shows "\<exists>i. r = Some i \<and> j \<le> i"
proof -
  have j: "j + length sub \<le> length s"
    using arg_cong [OF assms(3), of length] assms(4) by (cases sub) (auto simp: min_def split: if_splits)
  then have eq: "rfind sub s e = rfind_below sub s (Suc (min e (length s) - length sub))"
    and lt: "j < Suc (min e (length s) - length sub)"
    using assms(2) by (auto simp: rfind_def Let_def)
  from rfind_below_greatest [OF eq [symmetric]] assms(1,3) lt show ?thesis
    by (cases r) (auto, meson not_le)
qed

lemma find_end_record_greatest:
  assumes "e \<le> length tail" and "\<And>j. is_end_record tail j \<Longrightarrow> j + 4 \<le> e"
  shows "(find_end_record tail e = Some i) = (is_end_record tail i \<and> (\<forall>j > i. \<not> is_end_record tail j))"
  using assms
proof (induction tail e rule: find_end_record.induct)
  case (1 tail e)
  have sig: "length END_SIGNATURE = 4" "END_SIGNATURE \<noteq> []" by (simp_all add: END_SIGNATURE_def)
  show ?case
  proof (cases "rfind END_SIGNATURE tail e")
    case None
    have "\<not> is_end_record tail j" for j
      using rfind_greatest [OF None, of j] "1.prems"(2) [of j] by (auto simp: is_end_record_def sig)
    then show ?thesis using None by (simp add: find_end_record.simps [of tail e])
  next
    case (Some k)
    note k = rfind_Some [OF Some, unfolded sig]
    have below: "j \<le> k" if "is_end_record tail j" for j
      using rfind_greatest [OF Some, of j] that "1.prems"(2) [OF that] by (auto simp: is_end_record_def sig)
    show ?thesis
    proof (cases "end_record_at tail k")
      case True
      then have last: "is_end_record tail k" using k by (simp add: is_end_record_def)
      have "find_end_record tail e = Some k"
        using Some True by (simp add: find_end_record.simps [of tail e])
      moreover have "k = i \<longleftrightarrow> is_end_record tail i \<and> (\<forall>j > i. \<not> is_end_record tail j)"
        using last below by (metis leD le_neq_implies_less)
      ultimately show ?thesis by simp
    next
      case False
      have "j + 4 \<le> k" if last: "is_end_record tail j" for j
      proof -
        have "j \<noteq> k" using last False by (auto simp: is_end_record_def)
        with below [OF last] have jk: "j < k" by simp
        have "take 4 (drop j tail) = END_SIGNATURE" "take 4 (drop k tail) = END_SIGNATURE"
          using last k by (simp_all add: is_end_record_def)
        then have "tail ! (j + d) = END_SIGNATURE ! d" "tail ! (k + d) = END_SIGNATURE ! d" if "d < 4" for d
          using that k jk by (metis (no_types, lifting) add_leD1 less_imp_le nth_drop nth_take le_trans)+
        then have eq: "\<And>d. d < 4 \<Longrightarrow> tail ! (j + d) = END_SIGNATURE ! d"
          "\<And>d. d < 4 \<Longrightarrow> tail ! (k + d) = END_SIGNATURE ! d" by blast+
        show ?thesis
        proof (rule ccontr)
          assume "\<not> j + 4 \<le> k"
          then have d: "k - j < 4" "0 < k - j" using jk by auto
          then have "END_SIGNATURE ! (k - j) = END_SIGNATURE ! 0"
            using eq(1) [of "k - j"] eq(2) [of 0] jk by simp
          then show False using d by (auto simp: END_SIGNATURE_def nth_Cons' split: if_splits)
        qed
      qed
      moreover have "k \<le> length tail" using k by simp
      ultimately have "(find_end_record tail k = Some i) = (is_end_record tail i \<and> (\<forall>j > i. \<not> is_end_record tail j))"
        using "1.IH" [OF Some False] by simp
      then show ?thesis using Some False by (simp add: find_end_record.simps [of tail e])
    qed
  qed
qed

section \<open>The central directory\<close>

definition central_record :: "string \<Rightarrow> bool" where
  "central_record r \<longleftrightarrow> 46 \<le> length r \<and> take 4 r = HEADER_SIGNATURE \<and>
     length r = record_bytes (take 46 r)"

lemma count_records_step:
  assumes "central_record r" and "take (length r) (drop pos archive) = r"
    and "remaining = length r + rest"
  shows "count_records archive pos remaining count m =
    (if Suc count > m then Inr (Suc count) else count_records archive (pos + length r) rest (Suc count) m)"
proof -
  have h: "take 46 (drop pos archive) = take 46 r"
    using assms(1,2) by (metis central_record_def min.absorb1 take_take)
  have "remaining \<noteq> 0" "\<not> remaining < 46" "length (take 46 r) = 46"
    "take 4 (take 46 r) = HEADER_SIGNATURE" "record_bytes (take 46 r) = length r"
    using assms(1,3) by (simp_all add: central_record_def)
  then show ?thesis using assms(3)
    by (subst count_records.simps) (simp only: h Let_def, simp)
qed

lemma count_records_concat:
  assumes "\<forall>r \<in> set rs. central_record r" and "take (length (concat rs)) (drop pos archive) = concat rs"
  shows "count_records archive pos (length (concat rs)) count m =
    Inr (if rs = [] then count else if count + length rs > m then max (Suc count) (Suc m) else count + length rs)"
  using assms
proof (induction rs arbitrary: pos count)
  case Nil
  then show ?case by (simp add: count_records.simps)
next
  case (Cons r rs)
  have r: "take (length r) (drop pos archive) = r"
    using arg_cong [OF Cons.prems(2), of "take (length r)"] by (simp add: take_drop)
  have rest: "take (length (concat rs)) (drop (pos + length r) archive) = concat rs"
    using arg_cong [OF Cons.prems(2), of "drop (length r)"] by (simp add: drop_take add.commute)
  have "count_records archive pos (length (concat (r # rs))) count m =
      (if Suc count > m then Inr (Suc count)
       else count_records archive (pos + length r) (length (concat rs)) (Suc count) m)"
    using Cons.prems(1) r by (intro count_records_step) simp_all
  then show ?case using Cons.IH [OF _ rest, of "Suc count"] Cons.prems(1) by auto
qed

lemma count_records_exact:
  assumes "count_records archive pos remaining count m = Inr n" and "n \<le> m"
    and "pos + remaining \<le> length archive"
  shows "\<exists>rs. n = count + length rs \<and> (\<forall>r \<in> set rs. central_record r) \<and>
    take remaining (drop pos archive) = concat rs"
  using assms
proof (induction archive pos remaining count m rule: count_records.induct)
  case (1 archive pos remaining count m)
  show ?case
  proof (cases "remaining = 0")
    case True
    then show ?thesis using "1.prems"(1) by (intro exI [of _ "[]"]) (simp add: count_records.simps)
  next
    case False
    let ?h = "take 46 (drop pos archive)"
    let ?k = "record_bytes ?h"
    from "1.prems"(1) False have ok: "\<not> remaining < 46" "length ?h = 46" "take 4 ?h = HEADER_SIGNATURE"
      "\<not> ?k > remaining"
      by (auto simp: count_records.simps [of archive pos remaining] Let_def split: if_splits)
    from "1.prems"(1) False ok have "\<not> Suc count > m"
      and rec: "count_records archive (pos + ?k) (remaining - ?k) (Suc count) m = Inr n"
      using "1.prems"(2) by (auto simp: count_records.simps [of archive pos remaining] Let_def split: if_splits)
    from "1.IH" [OF False ok(1) refl _ _ ok(4) this(1) rec "1.prems"(2)] ok "1.prems"(3) obtain rs where
      rs: "n = Suc count + length rs" "\<forall>r \<in> set rs. central_record r"
        "take (remaining - ?k) (drop (pos + ?k) archive) = concat rs" by auto
    let ?r = "take ?k (drop pos archive)"
    have k: "46 \<le> ?k" by (simp add: record_bytes_def)
    have len: "length ?r = ?k" using ok(4) "1.prems"(3) by simp
    have "take 46 ?r = ?h" using k by (simp add: min_def)
    moreover have "take 4 ?r = take 4 ?h" using k by (simp add: min_def)
    ultimately have "central_record ?r" using len k ok(3) by (simp add: central_record_def)
    moreover have "take remaining (drop pos archive) = ?r @ take (remaining - ?k) (drop (pos + ?k) archive)"
      using ok(4) by (metis add.commute drop_drop le_add_diff_inverse not_le take_add)
    ultimately show ?thesis using rs by (intro exI [of _ "?r # rs"]) simp
  qed
qed

lemma count_records_bound:
  "count_records archive pos remaining count m = Inr n \<Longrightarrow> count \<le> m \<Longrightarrow> n \<le> Suc m"
proof (induction archive pos remaining count m rule: count_records.induct)
  case (1 archive pos remaining count m)
  then show ?case
    by (auto simp: count_records.simps [of archive pos remaining] Let_def split: if_splits) 
qed

section \<open>Members\<close>

definition safe_member :: "ScanPolicy \<Rightarrow> ArchiveMember \<Rightarrow> bool" where
  "safe_member policy m \<longleftrightarrow>
     (let d = am_display_path m in
      \<not> is_absolute d \<and> \<not> drive_prefix d \<and> ''..'' \<notin> set (posix_parts d) \<and> as_posix (posix_parts d) = d \<and>
      list_all (\<lambda>c. \<not> is_control c \<and> c \<noteq> backslash) d \<and>
      int (length (posix_parts d)) \<le> sp_max_depth policy \<and> am_state m = PENDING_APPROVAL \<and>
      int (am_size_bytes m) \<le> sp_max_archive_ratio policy * int (max (am_compressed_bytes m) 1))"

lemma rstrip_slash_prefix: "\<exists>t. s = rstrip_slash s @ t"
  unfolding rstrip_slash_def by (metis rev_append rev_rev_ident takeWhile_dropWhile_id)

lemma take_filter_same:
  assumes "take n (filter P xs) = xs"
  shows "filter P xs = xs \<and> length xs \<le> n"
proof -
  have l: "length xs \<le> length (filter P xs)" "length xs \<le> n"
    using arg_cong [OF assms, of length] by (simp_all add: min_def split: if_splits)
  then have "length (filter P xs) = length xs" using length_filter_le [of P xs] by simp
  then show ?thesis using assms l by simp
qed

lemma member_ok:
  assumes "member_failure info policy = None" and pol: "sp_max_path_chars policy \<le> 1024"
  shows "let d = normalize_display_path (path_as_posix (normalized_member_path info)) in
    \<not> is_absolute d \<and> \<not> drive_prefix d \<and> ''..'' \<notin> set (posix_parts d) \<and> as_posix (posix_parts d) = d \<and>
    list_all (\<lambda>c. \<not> is_control c \<and> c \<noteq> backslash) d \<and> int (length (posix_parts d)) \<le> sp_max_depth policy \<and>
    \<not> ratio_exceeded info policy"
proof -
  let ?s = "normalized_member_path info"
  let ?d = "path_as_posix ?s"
  from assms(1) have f: "\<not> is_absolute ?s" "\<not> drive_prefix ?s" "''..'' \<notin> set (posix_parts ?s)"
    "rstrip_slash ?s = ?d" "take (nat (sp_max_path_chars policy)) (filter (\<lambda>c. \<not> is_control c) ?d) = ?d"
    "int (path_depth ?s) \<le> sp_max_depth policy" "\<not> ratio_exceeded info policy"
    by (auto simp: member_failure_def Let_def split: if_splits)
  from take_filter_same [OF f(5)] pol have same: "normalize_display_path ?d = ?d"
    and ctl: "\<forall>c \<in> set ?d. \<not> is_control c"
    by (auto simp: normalize_display_path_def filter_id_conv)
  have d: "?d = as_posix (posix_parts ?s)" using f(1) by (simp add: path_as_posix_def posix_root_def)
  have parts: "posix_parts ?d = posix_parts ?s"
    using posix_parts_joined [of "posix_parts ?s" ?s]
    by (cases "posix_parts ?s = []") (auto simp: d as_posix_def posix_parts_def)
  from rstrip_slash_prefix [of ?s] f(4) obtain t where t: "?s = ?d @ t" by metis
  have "\<not> is_absolute ?d" using f(1) t by (cases ?d) (auto simp: is_absolute_def)
  moreover have "\<not> drive_prefix ?d"
    using f(2) t by (auto simp: drive_prefix_def split: list.splits)
  moreover have "backslash \<notin> set ?s" by (auto simp: normalized_member_path_def backslash_def)
  then have "backslash \<notin> set ?d" using t by (metis UnCI set_append)
  ultimately show ?thesis unfolding Let_def same
    using f(3,6,7) f(1) ctl parts d by (auto simp: list_all_iff path_depth_def)
qed

definition accepted :: "ArchiveMember list \<Rightarrow> ArchiveMember list" where
  "accepted ms = filter (\<lambda>m. am_failure_code m = None) ms"

lemma accepted_Cons [simp]:
  "accepted (m # ms) = (if am_failure_code m = None then m # accepted ms else accepted ms)"
  "accepted [] = []"
  by (simp_all add: accepted_def)

lemma inspected_accepted:
  assumes "am_failure_code (inspected_member policy parent n expanded seen info) = None"
    and "sp_max_path_chars policy \<le> 1024"
  shows "safe_member policy (inspected_member policy parent n expanded seen info) \<and>
    am_display_path (inspected_member policy parent n expanded seen info) \<notin> set seen \<and>
    int n \<le> sp_max_archive_members policy \<and> int expanded \<le> sp_max_archive_expanded_bytes policy"
proof -
  from assms(1) have "member_failure info policy = None"
    and rest: "int n \<le> sp_max_archive_members policy" "int expanded \<le> sp_max_archive_expanded_bytes policy"
      "normalize_display_path (path_as_posix (normalized_member_path info)) \<notin> set seen"
    by (auto simp: inspected_member_def Let_def split: option.splits if_splits)
  from member_ok [OF this(1) assms(2)] this(1) rest show ?thesis
    by (simp add: safe_member_def inspected_member_def Let_def ratio_exceeded_def not_less)
qed

lemma inspected_size [simp]:
  "am_size_bytes (inspected_member policy parent n expanded seen info) = zi_file_size info"
  by (simp add: inspected_member_def Let_def)

lemma inspect_members_accepted:
  assumes pol: "sp_max_path_chars policy \<le> 1024"
  shows "list_all (safe_member policy) (accepted (inspect_members policy parent n expanded seen infos)) \<and>
    distinct (map am_display_path (accepted (inspect_members policy parent n expanded seen infos))) \<and>
    am_display_path ` set (accepted (inspect_members policy parent n expanded seen infos)) \<inter> set seen = {}"
proof (induction infos arbitrary: n expanded seen)
  case (Cons info infos)
  let ?e = "expanded + zi_file_size info"
  let ?m = "inspected_member policy parent (Suc n) ?e seen info"
  note rest = Cons.IH [of "Suc n" ?e "am_display_path ?m # seen"]
  show ?case
    using inspected_accepted [OF _ pol, of parent "Suc n" ?e seen info] rest
    by (auto simp: Let_def list_all_iff)
qed simp

lemma inspect_members_limits:
  "int (n + length (accepted (inspect_members policy parent n expanded seen infos)))
     \<le> max (int n) (sp_max_archive_members policy) \<and>
   int (expanded + sum_list (map am_size_bytes (accepted (inspect_members policy parent n expanded seen infos))))
     \<le> max (int expanded) (sp_max_archive_expanded_bytes policy)"
proof (induction infos arbitrary: n expanded seen)
  case (Cons info infos)
  let ?e = "expanded + zi_file_size info"
  let ?m = "inspected_member policy parent (Suc n) ?e seen info"
  have acc: "int (Suc n) \<le> sp_max_archive_members policy" "int ?e \<le> sp_max_archive_expanded_bytes policy"
    if "am_failure_code ?m = None"
    using that by (auto simp: inspected_member_def Let_def split: option.splits if_splits)
  show ?case
    using Cons.IH [of "Suc n" ?e "am_display_path ?m # seen"] acc
    by (cases "am_failure_code ?m = None") (auto simp: Let_def)
qed simp

lemma inspect_cases:
  assumes "inspect policy infolist parent archive = Inr ms"
  shows "(\<exists>code. ms = [archive_limit_member parent code]) \<or>
    (\<exists>infos. ms = inspect_members policy parent 0 0 [] infos)"
  using assms by (auto simp: inspect_def bind_res_Inr_iff Let_def split: if_splits)

section \<open>Properties\<close>

text \<open>
  C13: The end record the preview reads is the last one of the searched tail that is valid, that is,
  whose comment length leads exactly to the end of the file; \<open>BadZipFile\<close> means there is none.
\<close>

theorem end_record_is_last:
  "(find_end_record tail (length tail) = Some i) =
     (is_end_record tail i \<and> (\<forall>j > i. \<not> is_end_record tail j))"
proof (rule find_end_record_greatest)
  fix j
  assume "is_end_record tail j"
  then show "j + 4 \<le> length tail" by (simp add: is_end_record_def end_record_at_def)
qed simp

theorem end_record_is_last_witness:
  "find_end_record ([CHR ''x''] @ END_SIGNATURE @ map (\<lambda>_. CHR 0x00) [0..<18]) 23 = Some 1 \<and>
   is_end_record ([CHR ''x''] @ END_SIGNATURE @ map (\<lambda>_. CHR 0x00) [0..<18]) 1"
proof -
  let ?s = "[CHR ''x''] @ END_SIGNATURE @ map (\<lambda>_. CHR 0x00) [0..<18]"
  have f: "find_end_record ?s 23 = Some 1" by code_simp
  have l: "length ?s = 23" by code_simp
  from f have "find_end_record ?s (length ?s) = Some 1" by (simp only: l)
  then have "is_end_record ?s 1" unfolding end_record_is_last by (rule conjunct1)
  with f show ?thesis by (intro conjI)
qed

text \<open>
  Counting is exact: within the bound, the count of a central directory is \<open>n\<close> exactly when its
  bytes are a concatenation of \<open>n\<close> well-formed records; the loop stops at the first record beyond
  the bound.
\<close>

theorem directory_count_exact:
  assumes "pos + remaining \<le> length archive" and "n \<le> m"
  shows "(count_records archive pos remaining 0 m = Inr n) =
    (\<exists>rs. length rs = n \<and> list_all central_record rs \<and> take remaining (drop pos archive) = concat rs)"
proof
  assume "count_records archive pos remaining 0 m = Inr n"
  from count_records_exact [OF this assms(2,1)]
  show "\<exists>rs. length rs = n \<and> list_all central_record rs \<and> take remaining (drop pos archive) = concat rs"
    by (auto simp: list_all_iff)
next
  assume "\<exists>rs. length rs = n \<and> list_all central_record rs \<and> take remaining (drop pos archive) = concat rs"
  then obtain rs where rs: "length rs = n" "\<forall>r \<in> set rs. central_record r"
    "take remaining (drop pos archive) = concat rs"
    by (auto simp: list_all_iff)
  have len: "length (concat rs) = remaining"
    using arg_cong [OF rs(3), of length] assms(1) by simp
  have "count_records archive pos (length (concat rs)) 0 m = Inr n"
    using count_records_concat [OF rs(2), of pos archive 0 m] rs len assms(2) by auto
  then show "count_records archive pos remaining 0 m = Inr n" unfolding len .
qed

definition demo_record :: string where
  "demo_record = HEADER_SIGNATURE @ map (\<lambda>_. CHR 0x00) [0..<24 :: nat] @ [CHR 0x01] @
     map (\<lambda>_. CHR 0x00) [0..<17 :: nat] @ ''a''"

theorem directory_count_exact_witness:
  "count_records (''x'' @ demo_record) 1 47 0 3 = Inr 1 \<and> central_record demo_record"
proof -
  have r: "central_record demo_record" by code_simp
  have l: "length demo_record = 47" by code_simp
  have "list_all central_record [demo_record] \<and> take 47 (drop 1 (''x'' @ demo_record)) = concat [demo_record]"
    using r l by simp
  then have "\<exists>rs. length rs = 1 \<and> list_all central_record rs \<and> take 47 (drop 1 (''x'' @ demo_record)) = concat rs"
    by (intro exI [of _ "[demo_record]"]) simp
  with directory_count_exact [of 1 47 "''x'' @ demo_record" 1 3] l r show ?thesis by simp
qed

text \<open>
  C12: Whatever the archive declares and \<open>zipfile\<close> lists, the members the preview accepts are
  within the policy: their display paths are relative, without a drive, \<open>..\<close>, control character or
  backslash, in canonical form, within the depth and pairwise distinct; none exceeds the compression
  ratio, and together they respect the limits on members and on expanded bytes.
\<close>

theorem archive_preview_safe:
  assumes "inspect policy infolist parent archive = Inr ms" and "sp_max_path_chars policy \<le> 1024"
    and "0 \<le> sp_max_archive_members policy" and "0 \<le> sp_max_archive_expanded_bytes policy"
  shows "list_all (safe_member policy) (accepted ms) \<and> distinct (map am_display_path (accepted ms)) \<and>
    int (length (accepted ms)) \<le> sp_max_archive_members policy \<and>
    int (sum_list (map am_size_bytes (accepted ms))) \<le> sp_max_archive_expanded_bytes policy"
proof -
  consider (limit) code where "ms = [archive_limit_member parent code]"
    | (members) infos where "ms = inspect_members policy parent 0 0 [] infos"
    using inspect_cases [OF assms(1)] by blast
  then show ?thesis
  proof cases
    case limit
    then show ?thesis using assms(3,4) by (simp add: archive_limit_member_def)
  next
    case members
    show ?thesis
      using inspect_members_accepted [OF assms(2), of parent 0 0 "[]" infos]
        inspect_members_limits [of 0 policy parent 0 "[]" infos] assms(3,4)
      unfolding members by simp
  qed
qed

text \<open>a small archive, whose end record is its whole tail, with members as \<open>zipfile\<close> lists them\<close>

definition demo_zip :: string where
  "demo_zip = demo_record @ demo_record @ END_SIGNATURE @
     map (\<lambda>_. CHR 0x00) [0..<6 :: nat] @ [CHR 0x02, CHR 0x00] @ [CHR 0x5E, CHR 0x00, CHR 0x00, CHR 0x00] @
     map (\<lambda>_. CHR 0x00) [0..<6 :: nat]"

definition demo_info :: "string \<Rightarrow> ZipInfo" where
  "demo_info name = \<lparr>zi_filename = name, zi_file_size = 5, zi_compress_size = 4, zi_CRC = 0,
     zi_external_attr = 0, zi_flag_bits = 0\<rparr>"

definition demo_zip_policy :: ScanPolicy where
  "demo_zip_policy = DEFAULT_SCAN_POLICY\<lparr>sp_max_archive_members := 3, sp_max_path_chars := 20, sp_max_archive_expanded_bytes := 20\<rparr>"

definition demo_preview :: "zip_error + ArchiveMember list" where
  "demo_preview = inspect demo_zip_policy
     (\<lambda>_. Inr [demo_info ''a/b'', demo_info ''../c'', demo_info ''a/b'']) ''e1'' demo_zip"

lemma demo_record_central: "central_record demo_record" "length demo_record = 47"
  by code_simp+

lemma demo_directory:
  "declared_central_directory demo_zip = Inr (2, 94, 0, 94)"
  "count_central_directory_records demo_zip 94 0 94 3 = Inr 2"
proof -
  show "declared_central_directory demo_zip = Inr (2, 94, 0, 94)" by code_simp
  have "count_records demo_zip 0 (length (concat [demo_record, demo_record])) 0 3 = Inr 2"
    using count_records_concat [of "[demo_record, demo_record]" 0 demo_zip 0 3]
    by (simp add: demo_record_central demo_zip_def)
  then show "count_central_directory_records demo_zip 94 0 94 3 = Inr 2"
    by (simp add: count_central_directory_records_def demo_record_central)
qed

lemma demo_member_ok: "member_failure (demo_info ''a/b'') demo_zip_policy = None"
  by code_simp

lemma demo_member_path: "path_as_posix (normalized_member_path (demo_info ''a/b'')) = ''a/b''"
  by code_simp

lemma demo_member_bad_path: "path_as_posix (normalized_member_path (demo_info ''../c'')) = ''../c''"
  by code_simp

lemma demo_member_bad: "member_failure (demo_info ''../c'') demo_zip_policy = Some ''archive_traversal''"
  by code_simp

lemmas demo_members = demo_member_ok demo_member_bad demo_member_path demo_member_bad_path

lemma demo_preview_members:
  "demo_preview = Inr (inspect_members demo_zip_policy ''e1'' 0 0 []
     [demo_info ''a/b'', demo_info ''../c'', demo_info ''a/b''])"
  unfolding demo_preview_def inspect_def demo_directory
  by (simp add: demo_directory demo_zip_policy_def DEFAULT_SCAN_POLICY_def)

lemma demo_preview_codes:
  "map am_failure_code (inspect_members demo_zip_policy ''e1'' 0 0 []
     [demo_info ''a/b'', demo_info ''../c'', demo_info ''a/b'']) =
   [None, Some ''archive_traversal'', Some ''archive_path_collision''] \<and>
   map am_display_path (accepted (inspect_members demo_zip_policy ''e1'' 0 0 []
     [demo_info ''a/b'', demo_info ''../c'', demo_info ''a/b''])) = [''a/b'']"
proof -
  have size: "zi_file_size (demo_info n) = 5" for n by (simp add: demo_info_def)
  have pol: "sp_max_archive_members demo_zip_policy = 3" "sp_max_archive_expanded_bytes demo_zip_policy = 20"
    by (simp_all add: demo_zip_policy_def)
  show ?thesis
    by (simp add: inspected_member_def Let_def demo_members size pol normalize_display_path_def
        is_control_def)
qed

theorem archive_preview_safe_witness:
  "\<exists>ms. demo_preview = Inr ms \<and> map am_display_path (accepted ms) = [''a/b''] \<and>
     map am_failure_code ms = [None, Some ''archive_traversal'', Some ''archive_path_collision''] \<and>
     list_all (safe_member demo_zip_policy) (accepted ms)"
proof -
  have "sp_max_path_chars demo_zip_policy \<le> 1024" "0 \<le> sp_max_archive_members demo_zip_policy"
    "0 \<le> sp_max_archive_expanded_bytes demo_zip_policy" by (simp_all add: demo_zip_policy_def)
  from archive_preview_safe [OF demo_preview_members [unfolded demo_preview_def] this]
  have "list_all (safe_member demo_zip_policy) (accepted (inspect_members demo_zip_policy ''e1'' 0 0 []
     [demo_info ''a/b'', demo_info ''../c'', demo_info ''a/b'']))" by (rule conjunct1)
  with demo_preview_codes show ?thesis
    by (intro exI conjI, elim conjE) (rule demo_preview_members, (elim conjE, assumption)+)
qed

end
