(* ===== verification/Py_Text.thy ===== *)
theory Py_Text
  imports Prelude
begin

text \<open>
  What the components use of Python's text handling: the decimal form of an integer, the character
  classes and \<open>casefold\<close> of the code points below 256, a matcher for the regular expressions the
  evidence models search for, and the canonical JSON text that is hashed and compared.
\<close>

section \<open>Integers and character classes\<close>

text \<open>\<open>str\<close> of an integer\<close>

fun nat_str :: "nat \<Rightarrow> string" where
  "nat_str n = (if n < 10 then [char_of (48 + n)] else nat_str (n div 10) @ [char_of (48 + n mod 10)])"

declare nat_str.simps [simp del]

definition int_str :: "int \<Rightarrow> string" where
  "int_str i = (if i < 0 then CHR ''-'' # nat_str (nat (- i)) else nat_str (nat i))"

text \<open>
  \<open>isalpha\<close>, \<open>isdigit\<close> and \<open>isalnum\<close> on the code points below 256: the ASCII ones, the ordinal
  indicators, micro and the letters from 192, the superscript digits, and the fractions.
\<close>

definition py_alpha :: "char \<Rightarrow> bool" where
  "py_alpha c = (let n = of_char c :: int in is_lower c \<or> is_upper c \<or> n = 170 \<or> n = 181 \<or> n = 186 \<or>
     192 \<le> n \<and> n \<noteq> 215 \<and> n \<noteq> 247)"

definition py_digit :: "char \<Rightarrow> bool" where
  "py_digit c = (let n = of_char c :: int in is_digit c \<or> n = 178 \<or> n = 179 \<or> n = 185)"

definition py_alnum :: "char \<Rightarrow> bool" where
  "py_alnum c = (let n = of_char c :: int in py_alpha c \<or> py_digit c \<or> 188 \<le> n \<and> n \<le> 190)"

text \<open>
  \<open>casefold\<close> of the code points below 256: sharp s becomes two letters, micro the Greek letter.
\<close>

definition casefold_char :: "char \<Rightarrow> int list" where
  "casefold_char c = (let n = of_char c :: int in
     if n = 223 then [115, 115] else if n = 181 then [956]
     else if 65 \<le> n \<and> n \<le> 90 \<or> 192 \<le> n \<and> n \<le> 222 \<and> n \<noteq> 215 then [n + 32] else [n])"

definition casefold :: "string \<Rightarrow> int list" where
  "casefold s = concat (map casefold_char s)"

section \<open>Regular expressions\<close>

text \<open>
  The part of \<open>re\<close> the code uses. A position in the text is the character prior it, if any, and
  what follows; an expression takes a position to the positions its matches end at. Only the
  existence of a match is read, so the order in which \<open>re\<close> tries them does not matter.
  \<open>RSpan p n\<close> is \<open>[p]{n,}\<close>, \<open>RLitI\<close> a literal under \<open>IGNORECASE\<close>, \<open>RWordB\<close> is \<open>\b\<close>,
  \<open>RNotAfterText\<close> is \<open>(?<!\S)\<close>, \<open>RLineBegin\<close> is \<open>^\<close> under \<open>MULTILINE\<close>.
\<close>

datatype rx =
    RLit string
  | RLitI string
  | ROne "char \<Rightarrow> bool"
  | RSpan "char \<Rightarrow> bool" nat
  | RSeq "rx list"
  | RAlt "rx list"
  | RWordB
  | RNotAfterText
  | RBegin
  | RLineBegin
  | REnd

type_synonym rx_pos = "char option \<times> string"

definition py_word :: "char \<Rightarrow> bool" where
  "py_word c \<longleftrightarrow> py_alnum c \<or> c = CHR ''_''"

fun lit_end :: "(char \<Rightarrow> char) \<Rightarrow> string \<Rightarrow> rx_pos \<Rightarrow> rx_pos list" where
  "lit_end f [] pos = [pos]"
| "lit_end f (c # cs) (_, []) = []"
| "lit_end f (c # cs) (_, x # xs) = (if f x = f c then lit_end f cs (Some x, xs) else [])"

fun span_ends :: "(char \<Rightarrow> bool) \<Rightarrow> nat \<Rightarrow> char option \<Rightarrow> string \<Rightarrow> rx_pos list" where
  "span_ends p n prior [] = (if n = 0 then [(prior, [])] else [])"
| "span_ends p n prior (x # xs) =
     (if n = 0 then [(prior, x # xs)] else []) @ (if p x then span_ends p (n - 1) (Some x) xs else [])"

definition boundary :: "rx_pos \<Rightarrow> bool" where
  "boundary pos \<longleftrightarrow>
     (case fst pos of None \<Rightarrow> False | Some c \<Rightarrow> py_word c) \<noteq> (case snd pos of [] \<Rightarrow> False | c # _ \<Rightarrow> py_word c)"

definition newline :: char where
  "newline = CHR 0x0A"

fun rx_ends :: "rx \<Rightarrow> rx_pos \<Rightarrow> rx_pos list" and rx_seq :: "rx list \<Rightarrow> rx_pos \<Rightarrow> rx_pos list" and
  rx_alt :: "rx list \<Rightarrow> rx_pos \<Rightarrow> rx_pos list" where
  "rx_ends (RLit s) pos = lit_end id s pos"
| "rx_ends (RLitI s) pos = lit_end fold_char s pos"
| "rx_ends (ROne p) pos = (case snd pos of [] \<Rightarrow> [] | x # xs \<Rightarrow> if p x then [(Some x, xs)] else [])"
| "rx_ends (RSpan p n) pos = span_ends p n (fst pos) (snd pos)"
| "rx_ends (RSeq rs) pos = rx_seq rs pos"
| "rx_ends (RAlt rs) pos = rx_alt rs pos"
| "rx_ends RWordB pos = (if boundary pos then [pos] else [])"
| "rx_ends RNotAfterText pos =
     (if (case fst pos of None \<Rightarrow> True | Some c \<Rightarrow> py_space c) then [pos] else [])"
| "rx_ends RBegin pos = (if fst pos = None then [pos] else [])"
| "rx_ends RLineBegin pos = (if fst pos = None \<or> fst pos = Some newline then [pos] else [])"
| "rx_ends REnd pos = (if snd pos = [] \<or> snd pos = [newline] then [pos] else [])"
| "rx_seq [] pos = [pos]"
| "rx_seq (r # rs) pos = concat (map (rx_seq rs) (rx_ends r pos))"
| "rx_alt [] pos = []"
| "rx_alt (r # rs) pos = rx_ends r pos @ rx_alt rs pos"

text \<open>\<open>pattern.search(text)\<close>\<close>

fun rx_search_from :: "rx \<Rightarrow> char option \<Rightarrow> string \<Rightarrow> bool" where
  "rx_search_from r prior [] \<longleftrightarrow> rx_ends r (prior, []) \<noteq> []"
| "rx_search_from r prior (x # xs) \<longleftrightarrow>
     rx_ends r (prior, x # xs) \<noteq> [] \<or> rx_search_from r (Some x) xs"

definition rx_search :: "rx \<Rightarrow> string \<Rightarrow> bool" where
  "rx_search r s = rx_search_from r None s"

section \<open>Canonical JSON\<close>

text \<open>
  \<open>json.dumps(value, ensure_ascii=False, allow_nan=False, sort_keys=True, separators=(",", ":"))\<close> of
  the values without floats (\<open>canonical_json\<close>). Backslash and quote are escaped, and the control characters below 32.
\<close>

definition hex_digit :: "nat \<Rightarrow> char" where
  "hex_digit n = ''0123456789abcdef'' ! n"

definition json_char :: "char \<Rightarrow> string" where
  "json_char c = (let n = of_char c :: nat in
     if c = CHR 0x22 then [CHR 0x5C, CHR 0x22] else if c = CHR 0x5C then [CHR 0x5C, CHR 0x5C]
     else if n = 10 then [CHR 0x5C, CHR ''n''] else if n = 13 then [CHR 0x5C, CHR ''r'']
     else if n = 9 then [CHR 0x5C, CHR ''t''] else if n = 12 then [CHR 0x5C, CHR ''f'']
     else if n = 8 then [CHR 0x5C, CHR ''b'']
     else if n < 32 then CHR 0x5C # ''u00'' @ [hex_digit (n div 16), hex_digit (n mod 16)]
     else [c])"

text \<open>with the default \<open>ensure_ascii=True\<close> everything outside the printable ASCII characters is escaped\<close>

definition ascii_json_char :: "char \<Rightarrow> string" where
  "ascii_json_char c = (let n = of_char c :: nat in
     if n < 127 then json_char c
     else CHR 0x5C # ''u00'' @ [hex_digit (n div 16), hex_digit (n mod 16)])"

definition json_string :: "(char \<Rightarrow> string) \<Rightarrow> string \<Rightarrow> string" where
  "json_string enc s = [CHR 0x22] @ concat (map enc s) @ [CHR 0x22]"

fun json_text :: "(char \<Rightarrow> string) \<Rightarrow> pyval \<Rightarrow> string" where
  "json_text enc VNone = ''null''"
| "json_text enc (VBool b) = (if b then ''true'' else ''false'')"
| "json_text enc (VInt i) = int_str i"
| "json_text enc (VStr s) = json_string enc s"
| "json_text enc (VList vs) = ''['' @ join_with CHR '','' (map (json_text enc) vs) @ '']''"
| "json_text enc (VDict kvs) =
     ''{'' @ join_with CHR '','' (map snd (sort_key fst
       (map (\<lambda>(k, v). (k, json_string enc k @ '':'' @ json_text enc v)) kvs))) @ ''}''"
| "json_text enc _ = []"

definition canonical_json :: "pyval \<Rightarrow> string" where
  "canonical_json = json_text json_char"

section \<open>Lemmas: decimal numbers\<close>

lemma digit_chars: "list_all (\<lambda>k. is_digit (char_of (48 + k))) [0, 1, 2, 3, 4, 5, 6, 7, 8, 9 :: nat]"
  by code_simp

lemma is_digit_char:
  assumes "k < (10 :: nat)"
  shows "is_digit (char_of (48 + k))"
proof -
  have "k \<in> set [0, 1, 2, 3, 4, 5, 6, 7, 8, 9]" using assms by auto
  then show ?thesis using digit_chars by (auto simp only: list_all_iff)
qed

lemma nat_str_digits: "c \<in> set (nat_str n) \<Longrightarrow> is_digit c"
proof (induction n rule: nat_str.induct)
  case (1 n)
  then show ?case
    by (subst (asm) nat_str.simps) (auto simp: is_digit_char split: if_splits)
qed

lemma nat_str_not_Nil [simp]: "nat_str n \<noteq> []"
  by (subst nat_str.simps) simp

fun digits_value :: "string \<Rightarrow> nat" where
  "digits_value s = foldl (\<lambda>n c. 10 * n + (of_char c - 48)) 0 s"

lemma digits_value_nat_str: "digits_value (nat_str n) = n"
proof (induction n rule: nat_str.induct)
  case (1 n)
  have code: "of_char (char_of (48 + k) :: char) = 48 + k" if "k < 10" for k :: nat
    using that by (simp add: of_char_of)
  show ?case
    using 1 by (subst nat_str.simps) (simp add: code)
qed

lemma nat_str_inject [simp]: "nat_str m = nat_str n \<longleftrightarrow> m = n"
  by (metis digits_value_nat_str)

end
