(* ===== verification/Scanner.thy ===== *)
theory Scanner
  imports Archive Py_Text "HOL-Library.Multiset"
begin

text \<open>
  \<open>WorkspaceScanner\<close> of \<^verbatim>\<open>exam_predictor/workspace/scanner.py\<close>: the bounded walk of an approved
  folder, the classification and hashing of what it finds, the reuse of an earlier manifest, and the
  revalidation of approved entries before they are read. What the operating system answers (listings,
  \<open>stat\<close> results, the bytes of each read) is an argument, one answer per call, so that files may
  change between any two calls; SHA-256, UUID generation and path normalisation are parameters.
\<close>

section \<open>Answers of the operating system\<close>

datatype os_error = SecureOpenError string | OSError

datatype file_kind = REGULAR | DIRECTORY | OTHER_KIND

record stat_result =
  st_kind :: file_kind
  st_dev :: int
  st_ino :: int
  st_size :: int
  st_mtime_ns :: int

text \<open>
  One file during \<open>_reusable_metadata\<close> and \<open>_read\<close>: the outcome of every call in order. The reads are
  those of a file that ends; an empty chunk or the end of the list is the end of the file. An error on
  closing the handle is an error of the \<open>stat\<close> that follows it.
\<close>

record file_access =
  fa_reusable :: "os_error + stat_result"
  fa_before :: "os_error + stat_result"
  fa_open :: "os_error + unit"
  fa_opened_before :: "os_error + stat_result"
  fa_reads :: "(os_error + string) list"
  fa_archive :: "os_error + string"
  fa_opened_after :: "os_error + stat_result"
  fa_after :: "os_error + stat_result"

text \<open>an entry of \<open>os.scandir\<close>, with what opening, listing and closing it gives when it is a folder\<close>

datatype dir_entry = DirEntry
  (de_name: string)
  (de_stat: "os_error + stat_result")
  (de_link: "os_error + bool")
  (de_open: "os_error option")
  (de_listing: "os_error + dir_entry list")
  (de_close: "os_error option")

text \<open>the calls of \<open>_canonical_root\<close>\<close>

record root_access =
  rt_link :: "os_error + bool"
  rt_resolve :: "os_error + string"
  rt_stat :: "os_error + stat_result"
  rt_reparse :: "os_error + bool"

record RootAnchor =
  ra_canonical_root :: string
  ra_platform :: string
  ra_identity :: "(int \<times> int) option"

text \<open>
  \<open>hashlib.sha256(..).hexdigest()\<close>, \<open>uuid5\<close>, the text of \<open>UUID(value)\<close> unless it raises,
  \<open>ZipFile(..).infolist()\<close> and \<open>os.path.normcase(os.path.abspath(..))\<close>
\<close>

record scan_env =
  se_sha256 :: "string \<Rightarrow> string"
  se_uuid5 :: "string \<Rightarrow> string \<Rightarrow> string"
  se_parse_uuid :: "string \<Rightarrow> string option"
  se_infolist :: "string \<Rightarrow> zip_error + ZipInfo list"
  se_normal_path :: "string \<Rightarrow> string"

text \<open>what a scan raises: an error of the opener, or a validation error of a model\<close>

datatype scan_error = Opening os_error | Raised py_error

lemma map_sum_Inr [simp]: "(map_sum f id r = Inr x) = (r = Inr x)"
  by (cases r) simp_all

section \<open>Data\<close>

record Candidate =
  ca_relative_path :: string
  ca_item_kind :: string
  ca_stat_result :: "stat_result option"
  ca_failure_code :: "string option"

record ReadOutcome =
  ro_sha256 :: "string option"
  ro_bytes_hashed :: nat
  ro_archive_members :: "ArchiveMember list"
  ro_failure_code :: "string option"
  ro_stat_result :: "stat_result option"

record RevalidatedEntry =
  rv_entry_id :: string
  rv_sha256 :: "string option"
  rv_size_bytes :: nat
  rv_modified_ns :: "int option"
  rv_device_id :: "string option"
  rv_file_id :: "string option"
  rv_failure_code :: "string option"

record RevalidationResult =
  vr_canonical_root :: string
  vr_root_device :: string
  vr_root_file_id :: string
  vr_entries :: "RevalidatedEntry list"

record ScanExecution =
  sx_result :: ScanResult
  sx_canonical_root :: string
  sx_root_device :: string
  sx_root_file_id :: string

section \<open>Helpers\<close>

definition stat_identity :: "stat_result \<Rightarrow> int \<times> int \<times> int \<times> int" where
  "stat_identity s = (st_dev s, st_ino s, st_size s, st_mtime_ns s)"

definition NAMESPACE_URL :: string where
  "NAMESPACE_URL = ''6ba7b811-9dad-11d1-80b4-00c04fd430c8''"

definition workspace_namespace :: "scan_env \<Rightarrow> string \<Rightarrow> string" where
  "workspace_namespace env w =
     (case se_parse_uuid env w of Some u \<Rightarrow> u | None \<Rightarrow> se_uuid5 env NAMESPACE_URL w)"

definition stable_entry_id :: "scan_env \<Rightarrow> string \<Rightarrow> string \<Rightarrow> string" where
  "stable_entry_id env namespace identity = se_uuid5 env namespace identity"

definition safe_message :: "string \<Rightarrow> string \<Rightarrow> string" where
  "safe_message path code = ''Could not scan '' @ path @ '': '' @ code @ ''.''"

text \<open>\<open>" ".join(text.split())[:120]\<close>: only spaces are left as white space\<close>

definition words :: "string \<Rightarrow> string list" where
  "words s = filter (\<lambda>w. w \<noteq> []) (split_on CHR '' '' s)"

definition sanitize_group :: "string \<Rightarrow> string" where
  "sanitize_group value = take 120 (join_with CHR '' '' (words (map (\<lambda>c. if py_alnum c then c else CHR '' '') value)))"

text \<open>\<open>re.fullmatch(r"(?i)(week|lecture|notes?|materials?)\s*\d*", candidate)\<close>\<close>

definition generic_group :: "string \<Rightarrow> bool" where
  "generic_group candidate = list_ex (\<lambda>w. take (length w) (map fold_char candidate) = w \<and>
       list_all is_digit (dropWhile (\<lambda>c. c = CHR '' '') (drop (length w) candidate)))
     [''week'', ''lecture'', ''note'', ''notes'', ''material'', ''materials'']"

definition path_stem :: "string \<Rightarrow> string" where
  "path_stem s = take (length (path_name s) - length (path_suffix s)) (path_name s)"

definition propose_course_group :: "string \<Rightarrow> string" where
  "propose_course_group path =
     (case posix_parts path of
        first # _ # _ \<Rightarrow>
          let candidate = sanitize_group first in
          if candidate \<noteq> [] \<and> \<not> generic_group candidate then candidate else ''unclassified''
      | _ \<Rightarrow>
          (case find (\<lambda>t. list_ex py_alpha t \<and> list_ex py_digit t) (words (sanitize_group (path_stem path))) of
             Some t \<Rightarrow> t | None \<Rightarrow> ''unclassified''))"

section \<open>The root\<close>

definition SOURCE_LINK_OR_REPARSE :: string where
  "SOURCE_LINK_OR_REPARSE = ''source_link_or_reparse''"

definition canonical_root :: "scan_env \<Rightarrow> root_access \<Rightarrow> RootAnchor \<Rightarrow> os_error + string" where
  "canonical_root env rt anchor =
     (case bind_res (rt_link rt) (\<lambda>link.
             if link then Inl (SecureOpenError SOURCE_LINK_OR_REPARSE)
             else bind_res (rt_resolve rt) (\<lambda>root.
               bind_res (rt_stat rt) (\<lambda>st.
               if st_kind st \<noteq> DIRECTORY then Inl (SecureOpenError ''source_root_invalid'')
               else bind_res (rt_reparse rt) (\<lambda>reparse.
                 if reparse then Inl (SecureOpenError ''source_root_invalid'') else Inr (root, st))))) of
        Inl (SecureOpenError code) \<Rightarrow> Inl (SecureOpenError code)
      | Inl OSError \<Rightarrow> Inl (SecureOpenError ''source_root_invalid'')
      | Inr (root, st) \<Rightarrow>
          if ra_identity anchor \<noteq> None \<and> ra_platform anchor = ''posix''
          then if ra_identity anchor \<noteq> Some (st_dev st, st_ino st)
               then Inl (SecureOpenError SOURCE_LINK_OR_REPARSE) else Inr root
          else if se_normal_path env root \<noteq> se_normal_path env (ra_canonical_root anchor)
          then Inl (SecureOpenError SOURCE_LINK_OR_REPARSE) else Inr root)"

text \<open>the root with the identity of its anchor, which the callers then require\<close>

definition identified_root ::
  "scan_env \<Rightarrow> root_access \<Rightarrow> RootAnchor \<Rightarrow> os_error + string \<times> int \<times> int" where
  "identified_root env rt anchor =
     bind_res (canonical_root env rt anchor) (\<lambda>root.
       case ra_identity anchor of
         None \<Rightarrow> Inl (SecureOpenError ''source_root_identity_unavailable'')
       | Some (dev, ino) \<Rightarrow> Inr (root, dev, ino))"

section \<open>Enumeration\<close>

definition path_limit_failure :: "ScanPolicy \<Rightarrow> string \<Rightarrow> string option" where
  "path_limit_failure policy path =
     (if int (path_depth path) > sp_max_depth policy then Some ''source_depth_limit''
      else if int (length path) > sp_max_path_chars policy then Some ''source_path_limit''
      else None)"

record walk_state =
  wk_candidates :: "Candidate list"
  wk_consumed :: int
  wk_processed :: int
  wk_limit_reached :: bool

definition candidate :: "string \<Rightarrow> string \<Rightarrow> stat_result option \<Rightarrow> string option \<Rightarrow> walk_state \<Rightarrow> walk_state" where
  "candidate path kind st code w = w\<lparr>wk_candidates := wk_candidates w @
     [\<lparr>ca_relative_path = path, ca_item_kind = kind, ca_stat_result = st, ca_failure_code = code\<rparr>]\<rparr>"

definition error_code :: "os_error \<Rightarrow> string" where
  "error_code e = (case e of SecureOpenError code \<Rightarrow> code | OSError \<Rightarrow> ''source_open_failed'')"

definition name_key :: "dir_entry \<Rightarrow> int list \<times> string" where
  "name_key d = (casefold (de_name d), de_name d)"

text \<open>the entries of a folder that are listed: \<open>sorted(islice(iterator, budget))\<close>\<close>

definition listed :: "int \<Rightarrow> dir_entry list \<Rightarrow> dir_entry list" where
  "listed budget ds = sort_key name_key (take (nat budget) ds)"

fun dir_size :: "dir_entry \<Rightarrow> nat" where
  "dir_size (DirEntry name st link opened (Inl e) closed) = 1"
| "dir_size (DirEntry name st link opened (Inr ds) closed) = 2 + sum_list (map dir_size ds)"

lemma dir_size_positive [simp]: "0 < dir_size d"
  by (cases d rule: dir_size.cases) auto

lemma dir_size_listed: "sum_list (map dir_size (listed n ds)) \<le> sum_list (map dir_size ds)"
proof -
  have "mset (map dir_size (listed n ds)) = mset (map dir_size (take (nat n) ds))"
    by (simp add: listed_def mset_map mset_sort)
  then have "sum_list (map dir_size (listed n ds)) = sum_list (map dir_size (take (nat n) ds))"
    by (metis sum_mset_sum_list)
  also have "\<dots> \<le> sum_list (map dir_size (take (nat n) ds)) + sum_list (map dir_size (drop (nat n) ds))"
    by simp
  also have "\<dots> = sum_list (map dir_size ds)"
    by (metis append_take_drop_id map_append sum_list_append)
  finally show ?thesis .
qed

text \<open>
  One entry of a folder: it becomes a candidate (\<open>Inl\<close>), or it is a folder whose entries are walked
  next (\<open>Inr\<close>). A folder met when the budget of listed entries is used up is opened and closed only.
\<close>

definition close_folder :: "string \<Rightarrow> dir_entry \<Rightarrow> walk_state \<Rightarrow> walk_state" where
  "close_folder path d w =
     (case (de_close d, de_stat d) of
        (Some e, Inr st) \<Rightarrow> candidate path ''folder'' (Some st) (Some (error_code e)) w
      | _ \<Rightarrow> w)"

definition visit ::
  "ScanPolicy \<Rightarrow> string \<Rightarrow> dir_entry \<Rightarrow> walk_state \<Rightarrow> walk_state + walk_state \<times> dir_entry list" where
  "visit policy path d w =
     (case de_stat d of
        Inl e \<Rightarrow> Inl (candidate path ''file'' None (Some ''source_open_failed'') w)
      | Inr st \<Rightarrow>
        (case de_link d of
           Inl e \<Rightarrow> Inl (candidate path ''file'' (Some st) (Some ''source_open_failed'') w)
         | Inr link \<Rightarrow>
           if link then Inl (candidate path ''link'' (Some st) (Some SOURCE_LINK_OR_REPARSE) w)
           else if st_kind st \<noteq> DIRECTORY then Inl (candidate path ''file'' (Some st) None w)
           else (case path_limit_failure policy path of
             Some code \<Rightarrow> Inl (candidate path ''folder'' (Some st) (Some code) w)
           | None \<Rightarrow>
             (case de_open d of
                Some e \<Rightarrow> Inl (candidate path ''folder'' (Some st) (Some (error_code e)) w)
              | None \<Rightarrow>
                let budget = sp_max_files policy + 1 - wk_consumed w in
                if budget \<le> 0 then Inl (close_folder path d w)
                else (case de_listing d of
                  Inl e \<Rightarrow> Inl (candidate path ''folder'' (Some st) (Some (error_code e)) w)
                | Inr ds \<Rightarrow>
                    let found = listed budget ds in
                    Inr (w\<lparr>wk_consumed := wk_consumed w + int (length found)\<rparr>, found))))))"

lemma visit_smaller:
  "visit policy path d w = Inr (w', found) \<Longrightarrow> sum_list (map dir_size found) < dir_size d"
  using dir_size_listed
  by (cases d rule: dir_size.cases)
    (auto simp: visit_def Let_def less_Suc_eq_le intro: le_SucI split: sum.splits if_splits option.splits)

function walk_entries :: "ScanPolicy \<Rightarrow> string list \<Rightarrow> dir_entry list \<Rightarrow> walk_state \<Rightarrow> walk_state" where
  "walk_entries policy parent [] w = w"
| "walk_entries policy parent (d # ds) w =
     (if wk_limit_reached w then w
      else let path = as_posix (parent @ [de_name d]) in
      if wk_processed w \<ge> sp_max_files policy
      then (candidate path ''file'' None (Some ''source_file_count_limit'') w)\<lparr>wk_limit_reached := True\<rparr>
      else case visit policy path d (w\<lparr>wk_processed := wk_processed w + 1\<rparr>) of
        Inl w' \<Rightarrow> walk_entries policy parent ds w'
      | Inr (w', found) \<Rightarrow> walk_entries policy parent ds
          (close_folder path d (walk_entries policy (parent @ [de_name d]) found w')))"
  by pat_completeness auto
termination
  by (relation "measure (\<lambda>(policy, parent, ds, w). sum_list (map dir_size ds))")
    (auto dest!: visit_smaller intro: trans_less_add1)

declare walk_entries.simps(2) [simp del]

definition candidate_key :: "Candidate \<Rightarrow> int list \<times> string" where
  "candidate_key c = (casefold (ca_relative_path c), ca_relative_path c)"

definition enumerate_root :: "ScanPolicy \<Rightarrow> os_error + dir_entry list \<Rightarrow> os_error + Candidate list" where
  "enumerate_root policy listing =
     (let start = \<lparr>wk_candidates = [], wk_consumed = 0, wk_processed = 0, wk_limit_reached = False\<rparr>;
          budget = sp_max_files policy + 1 in
      if budget \<le> 0 then Inr []
      else (case listing of
        Inl (SecureOpenError code) \<Rightarrow> Inl (SecureOpenError code)
      | Inl OSError \<Rightarrow> Inl (SecureOpenError ''source_root_unreadable'')
      | Inr ds \<Rightarrow>
          let found = listed budget ds in
          Inr (sort_key candidate_key (wk_candidates
            (walk_entries policy [] found (start\<lparr>wk_consumed := int (length found)\<rparr>))))))"

section \<open>Reading a source\<close>

fun read_all :: "(os_error + string) list \<Rightarrow> string \<Rightarrow> string \<times> os_error option" where
  "read_all [] data = (data, None)"
| "read_all (Inl e # reads) data = (data, Some e)"
| "read_all (Inr chunk # reads) data =
     (if chunk = [] then (data, None) else read_all reads (data @ chunk))"

text \<open>the archive preview of an opened source; \<open>BadZipFile\<close> is handled like an \<open>OSError\<close>\<close>

definition inspect_source ::
  "scan_env \<Rightarrow> ScanPolicy \<Rightarrow> file_access \<Rightarrow> bool \<Rightarrow> os_error + ArchiveMember list" where
  "inspect_source env policy fa archive =
     (if \<not> archive then Inr []
      else bind_res (fa_archive fa) (\<lambda>bytes.
        case inspect policy (se_infolist env) ''pending'' bytes of
          Inl BadZipFile \<Rightarrow> Inl OSError | Inr members \<Rightarrow> Inr members))"

text \<open>an error together with the number of bytes hashed before it\<close>

definition located :: "nat \<Rightarrow> os_error + 'a \<Rightarrow> nat \<times> os_error + 'a" where
  "located n r = map_sum (\<lambda>e. (n, e)) id r"

text \<open>the calls of \<open>_read\<close> up to the first that fails\<close>

definition read_steps ::
  "scan_env \<Rightarrow> ScanPolicy \<Rightarrow> file_access \<Rightarrow> bool
    \<Rightarrow> nat \<times> os_error + stat_result \<times> stat_result \<times> stat_result \<times> stat_result \<times> ArchiveMember list" where
  "read_steps env policy fa archive =
     (let hashed = length (fst (read_all (fa_reads fa) [])) in
      bind_res (located 0 (fa_before fa)) (\<lambda>initial.
      bind_res (located 0 (fa_open fa)) (\<lambda>_.
      bind_res (located 0 (fa_opened_before fa)) (\<lambda>opened_before.
      bind_res (case snd (read_all (fa_reads fa) []) of
                  Some e \<Rightarrow> Inl (hashed, e) | None \<Rightarrow> Inr ()) (\<lambda>_.
      bind_res (located hashed (inspect_source env policy fa archive)) (\<lambda>members.
      bind_res (located hashed (fa_opened_after fa)) (\<lambda>opened_after.
      bind_res (located hashed (fa_after fa)) (\<lambda>after.
        Inr (initial, opened_before, opened_after, after, members)))))))))"

definition failed_read :: "nat \<Rightarrow> string \<Rightarrow> ReadOutcome" where
  "failed_read n code = \<lparr>ro_sha256 = None, ro_bytes_hashed = n, ro_archive_members = [],
     ro_failure_code = Some code, ro_stat_result = None\<rparr>"

definition read_source :: "scan_env \<Rightarrow> ScanPolicy \<Rightarrow> file_access \<Rightarrow> bool \<Rightarrow> ReadOutcome" where
  "read_source env policy fa archive =
     (let data = fst (read_all (fa_reads fa) []) in
      case read_steps env policy fa archive of
        Inl (n, SecureOpenError code) \<Rightarrow> failed_read n code
      | Inl (n, OSError) \<Rightarrow> failed_read n (if archive then ''archive_invalid'' else ''source_open_failed'')
      | Inr (initial, opened_before, opened_after, after, members) \<Rightarrow>
          if stat_identity opened_before \<noteq> stat_identity initial \<or>
             stat_identity opened_after \<noteq> stat_identity initial \<or> stat_identity after \<noteq> stat_identity initial
          then failed_read (length data) ''source_changed_during_scan''
          else \<lparr>ro_sha256 = Some (se_sha256 env data), ro_bytes_hashed = length data,
                ro_archive_members = members, ro_failure_code = None,
                ro_stat_result = Some opened_before\<rparr>)"

text \<open>\<open>None\<close> unless the file still has the identity, size and time of the previous entry\<close>

definition reusable_metadata :: "file_access \<Rightarrow> ManifestEntry \<Rightarrow> stat_result option" where
  "reusable_metadata fa previous =
     (if me_sha256 previous = None then None
      else case fa_reusable fa of
        Inl e \<Rightarrow> None
      | Inr initial \<Rightarrow>
          if me_device_id previous = Some (int_str (st_dev initial)) \<and>
             me_file_id previous = Some (int_str (st_ino initial)) \<and>
             int (me_size_bytes previous) = st_size initial \<and>
             me_modified_ns previous = Some (st_mtime_ns initial)
          then Some initial else None)"

section \<open>Scanning a candidate\<close>

text \<open>
  The keyword arguments \<open>base\<close> of the entries one candidate can become, as an entry whose state,
  inclusion, hash and failure are filled in later.
\<close>

definition base_entry :: "scan_env \<Rightarrow> string \<Rightarrow> Candidate \<Rightarrow> ManifestEntry" where
  "base_entry env w c =
     \<lparr>me_entry_id = stable_entry_id env (workspace_namespace env w) (ca_relative_path c),
      me_workspace_id = w, me_relative_path = ca_relative_path c, me_item_kind = ca_item_kind c,
      me_format_category = None,
      me_size_bytes = (case ca_stat_result c of None \<Rightarrow> 0 | Some s \<Rightarrow> nat (st_size s)),
      me_modified_ns = map_option st_mtime_ns (ca_stat_result c),
      me_device_id = map_option (\<lambda>s. int_str (st_dev s)) (ca_stat_result c),
      me_file_id = map_option (\<lambda>s. int_str (st_ino s)) (ca_stat_result c),
      me_sha256 = None, me_state = PENDING_APPROVAL, me_included = False, me_inclusion_reason = None,
      me_proposed_course_group = propose_course_group (ca_relative_path c),
      me_failure_code = None, me_safe_message = None, me_archive_parent_entry_id = None,
      me_archive_member_path = None, me_archive_member_index = None, me_archive_member_crc32 = None,
      me_archive_member_compressed_bytes = None\<rparr>"

definition with_metadata :: "stat_result option \<Rightarrow> ManifestEntry \<Rightarrow> ManifestEntry" where
  "with_metadata st e = e\<lparr>
     me_size_bytes := (case st of None \<Rightarrow> 0 | Some s \<Rightarrow> nat (st_size s)),
     me_modified_ns := map_option st_mtime_ns st,
     me_device_id := map_option (\<lambda>s. int_str (st_dev s)) st,
     me_file_id := map_option (\<lambda>s. int_str (st_ino s)) st\<rparr>"

definition failed_entry :: "ManifestEntry \<Rightarrow> string \<Rightarrow> py_error + ManifestEntry" where
  "failed_entry base code = ManifestEntry_validate (base\<lparr>me_state := SourceState.FAILED,
     me_included := False, me_inclusion_reason := Some code, me_failure_code := Some code,
     me_safe_message := Some (safe_message (me_relative_path base) code)\<rparr>)"

definition excluded_entry :: "ManifestEntry \<Rightarrow> string \<Rightarrow> py_error + ManifestEntry" where
  "excluded_entry base reason = ManifestEntry_validate (base\<lparr>me_state := EXCLUDED,
     me_included := False, me_inclusion_reason := Some reason\<rparr>)"

text \<open>an entry, its archive members, the bytes hashed and the bytes reserved\<close>

type_synonym scanned = "ManifestEntry \<times> ArchiveMember list \<times> nat \<times> int"

definition user_excluded :: "ManifestEntry option \<Rightarrow> bool" where
  "user_excluded previous = (case previous of None \<Rightarrow> False
     | Some p \<Rightarrow> me_state p = EXCLUDED \<and> me_inclusion_reason p = Some ''user_excluded'')"

text \<open>state, inclusion and reason of a freshly hashed source, given its previous entry\<close>

definition carried_over ::
  "ManifestEntry option \<Rightarrow> string option \<Rightarrow> SourceState \<times> bool \<times> string option" where
  "carried_over previous sha =
     (case previous of
        None \<Rightarrow> (PENDING_APPROVAL, True, None)
      | Some p \<Rightarrow>
          if me_state p = SourceState.APPROVED
          then (if me_sha256 p = sha then SourceState.APPROVED else CHANGED, True, None)
          else if me_state p = CHANGED then (CHANGED, True, None)
          else if user_excluded previous then (EXCLUDED, False, Some ''user_excluded'')
          else (PENDING_APPROVAL, True, None))"

definition hashed_candidate ::
  "scan_env \<Rightarrow> ScanPolicy \<Rightarrow> file_access \<Rightarrow> ManifestEntry \<Rightarrow> ManifestEntry option \<Rightarrow> int
    \<Rightarrow> py_error + scanned" where
  "hashed_candidate env policy fa base previous selected_bytes =
     (let outcome = read_source env policy fa (me_format_category base = Some ''archive'') in
      case ro_failure_code outcome of
        Some code \<Rightarrow> bind_res (failed_entry base code) (\<lambda>e. Inr (e, [], ro_bytes_hashed outcome, 0))
      | None \<Rightarrow>
        let base = with_metadata (ro_stat_result outcome) base;
            actual = (case ro_stat_result outcome of None \<Rightarrow> 0 | Some s \<Rightarrow> st_size s) in
        if \<not> user_excluded previous \<and> selected_bytes + actual > sp_max_workspace_bytes policy
        then bind_res (failed_entry base ''source_workspace_size_limit'')
               (\<lambda>e. Inr (e, [], ro_bytes_hashed outcome, 0))
        else (case carried_over previous (ro_sha256 outcome) of (state, included, reason) \<Rightarrow>
          bind_res (ManifestEntry_validate (base\<lparr>me_sha256 := ro_sha256 outcome, me_state := state,
              me_included := included, me_inclusion_reason := reason\<rparr>))
            (\<lambda>e. Inr (e, ro_archive_members outcome, ro_bytes_hashed outcome,
                       if user_excluded previous then 0 else actual))))"

definition reused_candidate ::
  "file_access \<Rightarrow> ManifestEntry \<Rightarrow> ManifestEntry option \<Rightarrow> (ManifestEntry \<times> stat_result) option" where
  "reused_candidate fa base previous =
     (case previous of
        None \<Rightarrow> None
      | Some p \<Rightarrow>
          if me_state p = PENDING_APPROVAL \<and> me_format_category base \<noteq> Some ''archive''
          then map_option (\<lambda>st. ((with_metadata (Some st) base)\<lparr>me_sha256 := me_sha256 p,
                 me_state := PENDING_APPROVAL, me_included := me_included p,
                 me_inclusion_reason := me_inclusion_reason p\<rparr>, st)) (reusable_metadata fa p)
          else None)"

definition scan_candidate ::
  "scan_env \<Rightarrow> ScanPolicy \<Rightarrow> string \<Rightarrow> file_access \<Rightarrow> Candidate \<Rightarrow> ManifestEntry option \<Rightarrow> int \<Rightarrow> int
    \<Rightarrow> py_error + scanned" where
  "scan_candidate env policy w fa c previous file_count selected_bytes =
     (let base = base_entry env w c;
          code = (case ca_failure_code c of Some f \<Rightarrow> Some f
                  | None \<Rightarrow> path_limit_failure policy (ca_relative_path c));
          code = (if code = None \<and> ca_item_kind c \<noteq> ''folder'' \<and> file_count > sp_max_files policy
                  then Some ''source_file_count_limit'' else code) in
      case code of
        Some f \<Rightarrow> bind_res (failed_entry base f) (\<lambda>e. Inr (e, [], 0, 0))
      | None \<Rightarrow>
        if ca_item_kind c = ''folder'' then bind_res (failed_entry base ''source_open_failed'') (\<lambda>e. Inr (e, [], 0, 0))
        else (case ca_stat_result c of
          None \<Rightarrow> bind_res (excluded_entry base ''source_not_regular'') (\<lambda>e. Inr (e, [], 0, 0))
        | Some st \<Rightarrow>
          if st_kind st \<noteq> REGULAR
          then bind_res (excluded_entry base ''source_not_regular'') (\<lambda>e. Inr (e, [], 0, 0))
          else let base = base\<lparr>me_format_category := classify_format (ca_relative_path c)\<rparr> in
          if me_format_category base = None
          then bind_res (excluded_entry base ''unsupported_format'') (\<lambda>e. Inr (e, [], 0, 0))
          else if \<not> user_excluded previous \<and> selected_bytes + st_size st > sp_max_workspace_bytes policy
          then bind_res (failed_entry base ''source_workspace_size_limit'') (\<lambda>e. Inr (e, [], 0, 0))
          else (case reused_candidate fa base previous of
            Some (e, reused) \<Rightarrow>
              bind_res (ManifestEntry_validate e) (\<lambda>e. Inr (e, [], 0, st_size reused))
          | None \<Rightarrow> hashed_candidate env policy fa base previous selected_bytes)))"

definition archive_member_entry ::
  "scan_env \<Rightarrow> string \<Rightarrow> ManifestEntry \<Rightarrow> ArchiveMember \<Rightarrow> nat \<Rightarrow> py_error + ManifestEntry" where
  "archive_member_entry env w parent m index = ManifestEntry_validate
     \<lparr>me_entry_id = stable_entry_id env (workspace_namespace env w)
        (me_relative_path parent @ ''!/'' @ am_display_path m @ ''#'' @ nat_str index),
      me_workspace_id = w, me_relative_path = me_relative_path parent,
      me_item_kind = ''archive_member'', me_format_category = classify_format (am_display_path m),
      me_size_bytes = am_size_bytes m, me_modified_ns = None, me_device_id = None, me_file_id = None,
      me_sha256 = None, me_state = am_state m, me_included = False,
      me_inclusion_reason = Some ''archive_preview'',
      me_proposed_course_group = me_proposed_course_group parent,
      me_failure_code = am_failure_code m,
      me_safe_message = map_option (safe_message (me_relative_path parent)) (am_failure_code m),
      me_archive_parent_entry_id = Some (me_entry_id parent),
      me_archive_member_path = Some (am_display_path m),
      me_archive_member_index = am_member_index m, me_archive_member_crc32 = am_crc32 m,
      me_archive_member_compressed_bytes = Some (am_compressed_bytes m)\<rparr>"

section \<open>Scanning a folder\<close>

text \<open>The local variables of \<open>_scan_anchored\<close>; the progress reports are what \<open>emit\<close> was called with.\<close>

record scan_state =
  ss_entries :: "ManifestEntry list"
  ss_discovered :: nat
  ss_bytes_hashed :: nat
  ss_failures :: nat
  ss_selected_bytes :: int
  ss_file_count :: int
  ss_emitted :: "ScanProgress list"

definition bounded_emit :: "ScanPolicy \<Rightarrow> string \<Rightarrow> scan_state \<Rightarrow> scan_state" where
  "bounded_emit policy path s =
     (if int (length (ss_emitted s)) \<ge> sp_max_files policy then s
      else s\<lparr>ss_emitted := ss_emitted s @
        [\<lparr>pr_discovered_count = ss_discovered s, pr_bytes_hashed = ss_bytes_hashed s,
          pr_failure_count = ss_failures s, pr_current_relative_path = Some path\<rparr>]\<rparr>)"

definition add_entry :: "ScanPolicy \<Rightarrow> string \<Rightarrow> ManifestEntry \<Rightarrow> scan_state \<Rightarrow> scan_state" where
  "add_entry policy path e s = bounded_emit policy path
     (s\<lparr>ss_entries := ss_entries s @ [e], ss_discovered := Suc (ss_discovered s),
        ss_failures := ss_failures s + (if me_state e = SourceState.FAILED then 1 else 0)\<rparr>)"

fun add_members ::
  "scan_env \<Rightarrow> ScanPolicy \<Rightarrow> string \<Rightarrow> string \<Rightarrow> ManifestEntry \<Rightarrow> nat \<Rightarrow> ArchiveMember list \<Rightarrow> scan_state
    \<Rightarrow> py_error + scan_state" where
  "add_members env policy w path parent index [] s = Inr s"
| "add_members env policy w path parent index (m # ms) s =
     bind_res (archive_member_entry env w parent m index)
       (\<lambda>e. add_members env policy w path parent (Suc index) ms (add_entry policy path e s))"

definition previous_native :: "ManifestEntry list \<Rightarrow> string \<Rightarrow> ManifestEntry option" where
  "previous_native previous path = map_of
     (rev (map (\<lambda>e. (me_relative_path e, e)) (filter (\<lambda>e. me_archive_parent_entry_id e = None) previous))) path"

text \<open>\<open>access k\<close> is what the operating system answers for the candidate with index \<open>k\<close>\<close>

fun scan_candidates ::
  "scan_env \<Rightarrow> ScanPolicy \<Rightarrow> string \<Rightarrow> (nat \<Rightarrow> file_access) \<Rightarrow> ManifestEntry list \<Rightarrow> nat \<Rightarrow> Candidate list
    \<Rightarrow> scan_state \<Rightarrow> py_error + scan_state" where
  "scan_candidates env policy w access previous k [] s = Inr s"
| "scan_candidates env policy w access previous k (c # cs) s =
     (let s = s\<lparr>ss_file_count := ss_file_count s + (if ca_item_kind c \<noteq> ''folder'' then 1 else 0)\<rparr> in
      bind_res (scan_candidate env policy w (access k) c (previous_native previous (ca_relative_path c))
                  (ss_file_count s) (ss_selected_bytes s))
        (\<lambda>(e, members, read_bytes, reserved).
          bind_res (add_members env policy w (ca_relative_path c) e 0 members
              (add_entry policy (ca_relative_path c) e
                (s\<lparr>ss_selected_bytes := ss_selected_bytes s + reserved,
                   ss_bytes_hashed := ss_bytes_hashed s + read_bytes\<rparr>)))
            (scan_candidates env policy w access previous (Suc k) cs)))"

definition removed_entry :: "ManifestEntry \<Rightarrow> ManifestEntry" where
  "removed_entry p = p\<lparr>me_state := REMOVED, me_included := False,
     me_inclusion_reason := Some ''source_removed'', me_failure_code := None, me_safe_message := None\<rparr>"

definition removed_entries :: "ManifestEntry list \<Rightarrow> ManifestEntry list \<Rightarrow> ManifestEntry list" where
  "removed_entries current previous =
     map removed_entry (filter (\<lambda>p. me_entry_id p \<notin> me_entry_id ` set current) previous)"

definition manifest_key :: "ManifestEntry \<Rightarrow> int list \<times> string \<times> int list \<times> string \<times> string" where
  "manifest_key e =
     (let member = (case me_archive_member_path e of None \<Rightarrow> [] | Some p \<Rightarrow> p) in
      (casefold (me_relative_path e), me_relative_path e, casefold member, member, me_entry_id e))"

definition scan_start :: scan_state where
  "scan_start = \<lparr>ss_entries = [], ss_discovered = 0, ss_bytes_hashed = 0, ss_failures = 0,
     ss_selected_bytes = 0, ss_file_count = 0, ss_emitted = []\<rparr>"

definition scan_anchored ::
  "scan_env \<Rightarrow> ScanPolicy \<Rightarrow> int \<Rightarrow> string \<Rightarrow> os_error + dir_entry list \<Rightarrow> (nat \<Rightarrow> file_access)
    \<Rightarrow> ManifestEntry list \<Rightarrow> scan_error + ScanResult \<times> ScanProgress list" where
  "scan_anchored env policy now w listing access previous =
     bind_res (map_sum Opening id (enumerate_root policy listing)) (\<lambda>cs.
     bind_res (map_sum Raised id (scan_candidates env policy w access previous 0 cs scan_start)) (\<lambda>s.
       Inr (\<lparr>sr_workspace_id = w,
             sr_entries = sort_key manifest_key (ss_entries s @ removed_entries (ss_entries s) previous),
             sr_discovered_count = ss_discovered s, sr_bytes_hashed = ss_bytes_hashed s,
             sr_failure_count = ss_failures s, sr_completed_at = now\<rparr>, ss_emitted s)))"

definition scan_with_identity ::
  "scan_env \<Rightarrow> ScanPolicy \<Rightarrow> int \<Rightarrow> string \<Rightarrow> os_error + RootAnchor \<Rightarrow> root_access
    \<Rightarrow> os_error + dir_entry list \<Rightarrow> (nat \<Rightarrow> file_access) \<Rightarrow> ManifestEntry list
    \<Rightarrow> scan_error + ScanExecution \<times> ScanProgress list" where
  "scan_with_identity env policy now w anchored rt listing access previous =
     bind_res (map_sum Opening id (bind_res anchored (identified_root env rt))) (\<lambda>(root, dev, ino).
     bind_res (scan_anchored env policy now w listing access previous) (\<lambda>(result, emitted).
       Inr (\<lparr>sx_result = result, sx_canonical_root = root, sx_root_device = int_str dev,
             sx_root_file_id = int_str ino\<rparr>, emitted)))"

section \<open>Revalidation\<close>

text \<open>
  One entry of \<open>revalidate_entries\<close>: \<open>fa_reusable\<close> is the \<open>stat\<close> before its bytes are read, \<open>used\<close> the
  sizes so far.
\<close>

definition revalidate_entry ::
  "scan_env \<Rightarrow> ScanPolicy \<Rightarrow> file_access \<Rightarrow> int \<Rightarrow> ManifestEntry
    \<Rightarrow> os_error + int \<times> RevalidatedEntry" where
  "revalidate_entry env policy fa used e =
     (let build = (\<lambda>outcome code.
        \<lparr>rv_entry_id = me_entry_id e, rv_sha256 = ro_sha256 outcome,
         rv_size_bytes = (case ro_stat_result outcome of None \<Rightarrow> 0 | Some s \<Rightarrow> nat (st_size s)),
         rv_modified_ns = map_option st_mtime_ns (ro_stat_result outcome),
         rv_device_id = map_option (\<lambda>s. int_str (st_dev s)) (ro_stat_result outcome),
         rv_file_id = map_option (\<lambda>s. int_str (st_ino s)) (ro_stat_result outcome),
         rv_failure_code = code\<rparr>);
        unread = failed_read 0 ''source_not_regular'' in
      if me_archive_parent_entry_id e = None \<and> me_item_kind e = ''file''
      then (case fa_reusable fa of
        Inl OSError \<Rightarrow> Inl OSError
      | Inl (SecureOpenError code) \<Rightarrow> Inr (used, build unread (Some code))
      | Inr st \<Rightarrow>
          let used = used + max (st_size st) 0 in
          if used > sp_max_workspace_bytes policy
          then Inr (used, build unread (Some ''source_workspace_size_limit''))
          else let outcome = read_source env policy fa False in
            Inr (used, build outcome (ro_failure_code outcome)))
      else Inr (used, build unread None))"

fun revalidate_loop ::
  "scan_env \<Rightarrow> ScanPolicy \<Rightarrow> (nat \<Rightarrow> file_access) \<Rightarrow> nat \<Rightarrow> int \<Rightarrow> ManifestEntry list
    \<Rightarrow> os_error + RevalidatedEntry list" where
  "revalidate_loop env policy access k used [] = Inr []"
| "revalidate_loop env policy access k used (e # es) =
     bind_res (revalidate_entry env policy (access k) used e) (\<lambda>(used, v).
     bind_res (revalidate_loop env policy access (Suc k) used es) (\<lambda>vs. Inr (v # vs)))"

definition revalidate_entries ::
  "scan_env \<Rightarrow> ScanPolicy \<Rightarrow> RootAnchor \<Rightarrow> root_access \<Rightarrow> (nat \<Rightarrow> file_access) \<Rightarrow> ManifestEntry list
    \<Rightarrow> scan_error + RevalidationResult" where
  "revalidate_entries env policy anchor rt access entries =
     (if int (length entries) > sp_max_files policy then Inl (Raised ValueError)
      else bind_res (map_sum Opening id (identified_root env rt anchor)) (\<lambda>(root, dev, ino).
      bind_res (map_sum Opening id (revalidate_loop env policy access 0 0 entries)) (\<lambda>vs.
        Inr \<lparr>vr_canonical_root = root, vr_root_device = int_str dev, vr_root_file_id = int_str ino,
             vr_entries = vs\<rparr>)))"

text \<open>
  \<open>copy_revalidated_entry\<close> on an opened handle: \<open>reads k n\<close> is what the \<open>k\<close>-th \<open>source.read(n)\<close>
  returns, \<open>written k\<close> whether \<open>destination.write\<close> took the whole chunk. Every chunk is at most as
  long as what is missing of the approved size, so the loop ends.
\<close>

record copy_access =
  cp_open :: "os_error + unit"
  cp_before :: "os_error + stat_result"
  cp_reads :: "nat \<Rightarrow> int \<Rightarrow> os_error + string"
  cp_written :: "nat \<Rightarrow> bool"
  cp_after :: "os_error + stat_result"

definition SOURCE_CHANGED_DURING_SCAN :: string where
  "SOURCE_CHANGED_DURING_SCAN = ''source_changed_during_scan''"

function copy_loop ::
  "copy_access \<Rightarrow> int \<Rightarrow> nat \<Rightarrow> nat \<Rightarrow> string \<Rightarrow> os_error + string" where
  "copy_loop cp chunk_limit expected k spool =
     (let remaining = int expected - int (length spool) in
      case cp_reads cp k (min chunk_limit (remaining + 1)) of
        Inl e \<Rightarrow> Inl e
      | Inr chunk \<Rightarrow>
          if chunk = [] then Inr spool
          else if int (length chunk) > remaining then Inl (SecureOpenError SOURCE_CHANGED_DURING_SCAN)
          else if \<not> cp_written cp k then Inl (SecureOpenError ''source_open_failed'')
          else copy_loop cp chunk_limit expected (Suc k) (spool @ chunk))"
  by pat_completeness auto
termination
  by (relation "measure (\<lambda>(cp, chunk_limit, expected, k, spool). expected - length spool)")
    (auto simp flip: length_greater_0_conv)

declare copy_loop.simps [simp del]

text \<open>the spooled bytes, which stay in \<open>destination\<close>, and the validation of the entry\<close>

definition copy_revalidated_entry ::
  "scan_env \<Rightarrow> ScanPolicy \<Rightarrow> RootAnchor \<Rightarrow> root_access \<Rightarrow> copy_access \<Rightarrow> ManifestEntry
    \<Rightarrow> os_error + RevalidatedEntry \<times> string" where
  "copy_revalidated_entry env policy anchor rt cp e =
     bind_res (identified_root env rt anchor) (\<lambda>_.
       if me_archive_parent_entry_id e \<noteq> None \<or> me_item_kind e \<noteq> ''file''
       then Inl (SecureOpenError ''source_not_regular'')
       else bind_res (cp_open cp) (\<lambda>_.
       bind_res (cp_before cp) (\<lambda>initial.
       if int (me_size_bytes e) > sp_max_workspace_bytes policy
       then Inl (SecureOpenError ''source_workspace_size_limit'')
       else if st_size initial \<noteq> int (me_size_bytes e)
       then Inl (SecureOpenError SOURCE_CHANGED_DURING_SCAN)
       else bind_res (copy_loop cp (max 1 (sp_hash_chunk_bytes policy)) (me_size_bytes e) 0 []) (\<lambda>spool.
       if length spool \<noteq> me_size_bytes e then Inl (SecureOpenError SOURCE_CHANGED_DURING_SCAN)
       else bind_res (cp_after cp) (\<lambda>after.
       if stat_identity initial \<noteq> stat_identity after
       then Inl (SecureOpenError SOURCE_CHANGED_DURING_SCAN)
       else Inr (\<lparr>rv_entry_id = me_entry_id e, rv_sha256 = Some (se_sha256 env spool),
                  rv_size_bytes = nat (st_size after), rv_modified_ns = Some (st_mtime_ns after),
                  rv_device_id = Some (int_str (st_dev after)),
                  rv_file_id = Some (int_str (st_ino after)), rv_failure_code = None\<rparr>, spool))))))"

end
