(* ===== verification/Scanner_Correctness.thy ===== *)
theory Scanner_Correctness
  imports Scanner Archive_Correctness
begin

text \<open>
  The walk of a folder is bounded, and complete when the folder is within the bound; a rescan keeps
  an approval only for unchanged bytes; what a first scan selects is within the size limit.
\<close>

section \<open>The walk is bounded\<close>

lemma candidate_simps [simp]:
  "length (wk_candidates (candidate path kind st code w)) = Suc (length (wk_candidates w))"
  "wk_consumed (candidate path kind st code w) = wk_consumed w"
  "wk_processed (candidate path kind st code w) = wk_processed w"
  "wk_limit_reached (candidate path kind st code w) = wk_limit_reached w"
  by (simp_all add: candidate_def)

lemma close_folder_simps [simp]:
  "wk_consumed (close_folder path d w) = wk_consumed w"
  "wk_processed (close_folder path d w) = wk_processed w"
  "wk_limit_reached (close_folder path d w) = wk_limit_reached w"
  "length (wk_candidates w) \<le> length (wk_candidates (close_folder path d w))"
  "length (wk_candidates (close_folder path d w)) \<le> Suc (length (wk_candidates w))"
  by (simp_all add: close_folder_def split: option.splits sum.splits)

lemma visit_bounds:
  "visit policy path d w = Inl w' \<Longrightarrow> length (wk_candidates w') \<le> Suc (length (wk_candidates w)) \<and>
     wk_processed w' = wk_processed w \<and> wk_limit_reached w' = wk_limit_reached w"
  "visit policy path d w = Inr (w'', found) \<Longrightarrow> wk_candidates w'' = wk_candidates w \<and>
     wk_processed w'' = wk_processed w \<and> wk_limit_reached w'' = wk_limit_reached w"
  by (auto simp: visit_def Let_def split: sum.splits if_splits option.splits)

definition within :: "ScanPolicy \<Rightarrow> nat \<Rightarrow> walk_state \<Rightarrow> bool" where
  "within policy pending w \<longleftrightarrow> wk_processed w \<le> sp_max_files policy \<and>
     int (length (wk_candidates w) + pending) \<le> wk_processed w + (if wk_limit_reached w then 1 else 0)"

lemma within_close: "within policy (Suc n) w \<Longrightarrow> within policy n (close_folder path d w)"
proof -
  assume w: "within policy (Suc n) w"
  have "int (length (wk_candidates (close_folder path d w))) \<le> int (length (wk_candidates w)) + 1"
    using close_folder_simps(5) [of path d w, folded of_nat_le_iff [where 'a = int]] by simp
  with w show ?thesis by (auto simp: within_def)
qed

text \<open>\<open>pending\<close> counts the open folders, each of which may still become a candidate\<close>

lemma walk_within: "within policy pending w \<Longrightarrow> within policy pending (walk_entries policy parent ds w)"
proof (induction policy parent ds w arbitrary: pending rule: walk_entries.induct)
  case (2 policy parent d ds w)
  let ?path = "as_posix (parent @ [de_name d])"
  let ?w = "w\<lparr>wk_processed := wk_processed w + 1\<rparr>"
  consider (limit) "wk_limit_reached w" | (full) "\<not> wk_limit_reached w" "wk_processed w \<ge> sp_max_files policy"
    | (more) "\<not> wk_limit_reached w" "\<not> wk_processed w \<ge> sp_max_files policy" by blast
  then show ?case
  proof cases
    case limit
    then show ?thesis using "2.prems" by (simp add: walk_entries.simps(2))
  next
    case full
    then show ?thesis using "2.prems" by (simp add: walk_entries.simps(2) within_def)
  next
    case more
    have opened: "within policy (Suc pending) ?w" using more "2.prems" by (simp add: within_def)
    show ?thesis
    proof (cases "visit policy ?path d ?w")
      case (Inl w')
      have "within policy pending w'"
        using visit_bounds(1) [OF Inl] opened by (auto simp: within_def)
      from "2.IH"(1) [OF more(1) refl more(2) Inl this] show ?thesis
        using more Inl by (simp add: walk_entries.simps(2))
    next
      case (Inr r)
      then obtain w' found where v: "visit policy ?path d ?w = Inr (w', found)" by (cases r) auto
      have "within policy (Suc pending) w'"
        using visit_bounds(2) [OF v] opened by (auto simp: within_def)
      from "2.IH"(2) [OF more(1) refl more(2) v refl this]
      have inner: "within policy (Suc pending) (walk_entries policy (parent @ [de_name d]) found w')" .
      from "2.IH"(3) [OF more(1) refl more(2) v refl within_close [OF inner, of ?path d]] show ?thesis
        using more v by (simp add: walk_entries.simps(2))
    qed
  qed
qed simp

section \<open>A small folder is enumerated completely\<close>

text \<open>what the entries of a tree become, without budget, order or state\<close>

fun entry_candidates :: "ScanPolicy \<Rightarrow> string list \<Rightarrow> dir_entry \<Rightarrow> Candidate list" where
  "entry_candidates policy parent (DirEntry name st link opened listing closed) =
     (let path = as_posix (parent @ [name]);
          one = (\<lambda>kind st code. [\<lparr>ca_relative_path = path, ca_item_kind = kind, ca_stat_result = st,
                                  ca_failure_code = code\<rparr>]) in
      case st of
        Inl e \<Rightarrow> one ''file'' None (Some ''source_open_failed'')
      | Inr s \<Rightarrow> (case link of
          Inl e \<Rightarrow> one ''file'' (Some s) (Some ''source_open_failed'')
        | Inr is_link \<Rightarrow>
            if is_link then one ''link'' (Some s) (Some SOURCE_LINK_OR_REPARSE)
            else if st_kind s \<noteq> DIRECTORY then one ''file'' (Some s) None
            else (case path_limit_failure policy path of
              Some code \<Rightarrow> one ''folder'' (Some s) (Some code)
            | None \<Rightarrow> (case opened of
                Some e \<Rightarrow> one ''folder'' (Some s) (Some (error_code e))
              | None \<Rightarrow> (case listing of
                  Inl e \<Rightarrow> one ''folder'' (Some s) (Some (error_code e))
                | Inr ds \<Rightarrow> concat (map (entry_candidates policy (parent @ [name])) ds) @
                    (case closed of None \<Rightarrow> [] | Some e \<Rightarrow> one ''folder'' (Some s) (Some (error_code e))))))))"

text \<open>the number of entries of a tree\<close>

fun entry_count :: "dir_entry \<Rightarrow> nat" where
  "entry_count (DirEntry name st link opened (Inl e) closed) = 1"
| "entry_count (DirEntry name st link opened (Inr ds) closed) = Suc (sum_list (map entry_count ds))"

lemma entry_count_positive: "Suc 0 \<le> entry_count d"
  by (cases d rule: entry_count.cases) auto

text \<open>how many listed entries lie below some entries\<close>

definition below :: "dir_entry list \<Rightarrow> nat" where
  "below ds = sum_list (map entry_count ds) - length ds"

lemma count_ge_length: "length ds \<le> sum_list (map entry_count ds)"
proof (induction ds)
  case (Cons d ds)
  then show ?case using entry_count_positive [of d] by simp
qed simp

lemma below_Cons: "below (d # ds) = (entry_count d - 1) + below ds"
  using count_ge_length [of ds] entry_count_positive [of d] by (simp add: below_def)

lemma listed_all: "int (length ds) \<le> n \<Longrightarrow> listed n ds = sort_key name_key ds"
  by (simp add: listed_def)

lemma count_sorted: "sum_list (map entry_count (sort_key f ds)) = sum_list (map entry_count ds)"
  by (metis mset_map mset_sort sum_mset_sum_list)

lemma below_sorted: "below (sort_key f ds) = below ds"
  by (simp add: below_def count_sorted)

lemma mset_concat_map_sorted:
  "mset (concat (map f (sort_key g ds))) = mset (concat (map f ds))"
  by (metis mset_concat mset_map mset_sort sum_mset_sum_list)

lemma visit_small:
  assumes "wk_consumed w + int (entry_count d - 1) \<le> sp_max_files policy" and "path = as_posix (parent @ [de_name d])"
  shows "(\<exists>c. visit policy path d w = Inl (w\<lparr>wk_candidates := wk_candidates w @ c\<rparr>) \<and>
            entry_candidates policy parent d = c) \<or>
    (\<exists>ds c. visit policy path d w = Inr (w\<lparr>wk_consumed := wk_consumed w + int (length ds)\<rparr>, sort_key name_key ds) \<and>
       entry_count d = Suc (sum_list (map entry_count ds)) \<and>
       (\<forall>v. close_folder path d v = v\<lparr>wk_candidates := wk_candidates v @ c\<rparr>) \<and>
       entry_candidates policy parent d = concat (map (entry_candidates policy (parent @ [de_name d])) ds) @ c)"
proof (cases d)
  case (DirEntry name st link opened listing closed)
  show ?thesis
  proof (cases "\<exists>s ds. st = Inr s \<and> link = Inr False \<and> st_kind s = DIRECTORY \<and>
      path_limit_failure policy path = None \<and> opened = None \<and> listing = Inr ds")
    case True
    then obtain s ds where f: "st = Inr s" "link = Inr False" "st_kind s = DIRECTORY"
      "path_limit_failure policy path = None" "opened = None" "listing = Inr ds" by blast
    have n: "wk_consumed w + int (length ds) \<le> sp_max_files policy"
      using assms(1) count_ge_length [of ds] by (simp add: DirEntry f)
    then have "\<not> sp_max_files policy + 1 - wk_consumed w \<le> 0"
      and "int (length ds) \<le> sp_max_files policy + 1 - wk_consumed w" by auto
    then show ?thesis using f assms(2)
      by (intro disjI2 exI [of _ ds]
            exI [of _ "case closed of None \<Rightarrow> [] | Some e \<Rightarrow> [\<lparr>ca_relative_path = path,
              ca_item_kind = ''folder'', ca_stat_result = Some s, ca_failure_code = Some (error_code e)\<rparr>]"])
        (auto simp: visit_def DirEntry listed_all close_folder_def candidate_def split: option.splits)
  next
    case False
    have pos: "\<not> sp_max_files policy + 1 - wk_consumed w \<le> 0" using assms(1) by simp
    show ?thesis using False assms(2) pos
      by (intro disjI1) (auto simp: visit_def DirEntry candidate_def Let_def split: sum.splits option.splits)
  qed
qed

definition small_walk :: "ScanPolicy \<Rightarrow> dir_entry list \<Rightarrow> walk_state \<Rightarrow> bool" where
  "small_walk policy ds w \<longleftrightarrow> \<not> wk_limit_reached w \<and>
     wk_processed w + int (sum_list (map entry_count ds)) \<le> sp_max_files policy \<and>
     wk_consumed w + int (below ds) \<le> sp_max_files policy"

definition walked ::
  "ScanPolicy \<Rightarrow> string list \<Rightarrow> dir_entry list \<Rightarrow> walk_state \<Rightarrow> walk_state \<Rightarrow> bool" where
  "walked policy parent ds w w' \<longleftrightarrow> \<not> wk_limit_reached w' \<and>
     wk_processed w' \<le> wk_processed w + int (sum_list (map entry_count ds)) \<and>
     wk_consumed w' \<le> wk_consumed w + int (below ds) \<and>
     mset (wk_candidates w') =
       mset (wk_candidates w) + mset (concat (map (entry_candidates policy parent) ds))"

lemma walk_complete:
  "small_walk policy ds w \<Longrightarrow> walked policy parent ds w (walk_entries policy parent ds w)"
proof (induction policy parent ds w rule: walk_entries.induct)
  case (1 policy parent w)
  then show ?case by (simp add: walked_def small_walk_def below_def)
next
  case (2 policy parent d ds w)
  let ?path = "as_posix (parent @ [de_name d])"
  let ?w = "w\<lparr>wk_processed := wk_processed w + 1\<rparr>"
  note pos = entry_count_positive [of d]
  have more: "\<not> wk_limit_reached w" "\<not> wk_processed w \<ge> sp_max_files policy"
    and room: "wk_consumed ?w + int (entry_count d - 1) \<le> sp_max_files policy"
    using "2.prems" pos by (auto simp: small_walk_def below_Cons)
  from visit_small [OF room refl, of parent] show ?case
  proof (elim disjE exE conjE)
    fix c
    assume v: "visit policy ?path d ?w = Inl (?w\<lparr>wk_candidates := wk_candidates ?w @ c\<rparr>)"
      and c: "entry_candidates policy parent d = c"
    have "small_walk policy ds (?w\<lparr>wk_candidates := wk_candidates ?w @ c\<rparr>)"
      using "2.prems" pos by (auto simp: small_walk_def below_Cons)
    from "2.IH"(1) [OF more(1) refl more(2) v this] show ?thesis
      using more v c pos by (auto simp: walk_entries.simps(2) walked_def below_Cons)
  next
    fix es :: "dir_entry list" and c
    let ?v = "?w\<lparr>wk_consumed := wk_consumed ?w + int (length es)\<rparr>"
    let ?inner = "walk_entries policy (parent @ [de_name d]) (sort_key name_key es) ?v"
    assume v: "visit policy ?path d ?w = Inr (?v, sort_key name_key es)"
      and n: "entry_count d = Suc (sum_list (map entry_count es))"
      and close: "\<forall>v. close_folder ?path d v = v\<lparr>wk_candidates := wk_candidates v @ c\<rparr>"
      and cs: "entry_candidates policy parent d =
        concat (map (entry_candidates policy (parent @ [de_name d])) es) @ c"
    have es: "length es \<le> sum_list (map entry_count es)" by (rule count_ge_length)
    then have "small_walk policy (sort_key name_key es) ?v"
      using "2.prems" n by (auto simp: small_walk_def below_Cons count_sorted below_sorted) (auto simp: below_def)
    from "2.IH"(2) [OF more(1) refl more(2) v refl this]
    have inner: "walked policy (parent @ [de_name d]) (sort_key name_key es) ?v ?inner" .
    have "small_walk policy ds (close_folder ?path d ?inner)"
      using inner "2.prems" n es unfolding small_walk_def walked_def
      by (auto simp: below_Cons count_sorted below_sorted) (auto simp: below_def)
    from "2.IH"(3) [OF more(1) refl more(2) v refl this]
    have rest: "walked policy parent ds (close_folder ?path d ?inner)
      (walk_entries policy parent ds (close_folder ?path d ?inner))" .
    have eq: "walk_entries policy parent (d # ds) w = walk_entries policy parent ds (close_folder ?path d ?inner)"
      using more v by (simp add: walk_entries.simps(2))
    show ?thesis unfolding eq
      using inner rest n es close cs
      by (auto simp: walked_def below_Cons count_sorted below_sorted mset_concat_map_sorted)
        (auto simp: below_def)
  qed
qed

section \<open>Reading and classifying one source\<close>

text \<open>the bytes of a read during which the file kept its identity, size and time\<close>

definition stable_read :: "file_access \<Rightarrow> string \<Rightarrow> stat_result \<Rightarrow> bool" where
  "stable_read fa data st \<longleftrightarrow> read_all (fa_reads fa) [] = (data, None) \<and> fa_opened_before fa = Inr st \<and>
     map_sum id stat_identity (fa_before fa) = Inr (stat_identity st) \<and>
     map_sum id stat_identity (fa_opened_after fa) = Inr (stat_identity st) \<and>
     map_sum id stat_identity (fa_after fa) = Inr (stat_identity st)"

lemma located_Inr [simp]: "(located n r = Inr x) = (r = Inr x)"
  by (cases r) (simp_all add: located_def)

lemma read_source_ok:
  assumes "ro_failure_code (read_source env policy fa archive) = None"
  shows "\<exists>data st. stable_read fa data st \<and>
    ro_sha256 (read_source env policy fa archive) = Some (se_sha256 env data) \<and>
    ro_stat_result (read_source env policy fa archive) = Some st \<and>
    inspect_source env policy fa archive = Inr (ro_archive_members (read_source env policy fa archive))"
proof -
  let ?data = "fst (read_all (fa_reads fa) [])"
  from assms obtain before st opened_after after members where
    steps: "read_steps env policy fa archive = Inr (before, st, opened_after, after, members)"
    by (cases "read_steps env policy fa archive")
      (auto simp: read_source_def failed_read_def Let_def split: os_error.splits)
  with assms have same: "stat_identity before = stat_identity st" "stat_identity opened_after = stat_identity st"
    "stat_identity after = stat_identity st" and
    r: "read_source env policy fa archive = \<lparr>ro_sha256 = Some (se_sha256 env ?data),
      ro_bytes_hashed = length ?data, ro_archive_members = members, ro_failure_code = None, ro_stat_result = Some st\<rparr>"
    by (auto simp: read_source_def failed_read_def Let_def split: if_splits)
  from steps have "fa_before fa = Inr before" "fa_opened_before fa = Inr st" "snd (read_all (fa_reads fa) []) = None"
    "fa_opened_after fa = Inr opened_after" "fa_after fa = Inr after"
    and members: "inspect_source env policy fa archive = Inr members"
    by (auto simp: read_steps_def Let_def bind_res_Inr_iff split: option.splits)
  moreover have "read_all (fa_reads fa) [] = (?data, snd (read_all (fa_reads fa) []))" by simp
  ultimately have "stable_read fa ?data st" using same by (simp add: stable_read_def)
  then show ?thesis using r members
    by (intro exI [of _ ?data] exI [of _ st]) simp
qed

lemma validate_entry:
  "ManifestEntry_validate e = Inr e' \<Longrightarrow>
     \<exists>p. normalize_relative_path (me_relative_path e) = Inr p \<and> e' = e\<lparr>me_relative_path := p\<rparr>"
  by (auto simp: ManifestEntry_validate_def bind_res_Inr_iff split: if_splits)

lemma failed_entry_Inr: "failed_entry base code = Inr e \<Longrightarrow>
    me_state e = SourceState.FAILED \<and> \<not> me_included e \<and> me_archive_parent_entry_id e = me_archive_parent_entry_id base"
  unfolding failed_entry_def by (drule validate_entry) auto

lemma excluded_entry_Inr: "excluded_entry base reason = Inr e \<Longrightarrow>
    me_state e = EXCLUDED \<and> \<not> me_included e \<and> me_archive_parent_entry_id e = me_archive_parent_entry_id base"
  unfolding excluded_entry_def by (drule validate_entry) auto

text \<open>the outcome of hashing a source, in one of three ways\<close>

lemma hashed_candidate_cases:
  assumes "hashed_candidate env policy fa base previous selected = Inr (e, ms, n, reserved)"
  obtains (failed) code where "failed_entry base code = Inr e \<or> (\<exists>st. failed_entry (with_metadata st base) code = Inr e)"
      "ms = []" "reserved = 0"
  | (hashed) data st state included reason where "stable_read fa data st"
      "carried_over previous (Some (se_sha256 env data)) = (state, included, reason)"
      "ManifestEntry_validate ((with_metadata (Some st) base)\<lparr>me_sha256 := Some (se_sha256 env data),
         me_state := state, me_included := included, me_inclusion_reason := reason\<rparr>) = Inr e"
      "inspect_source env policy fa (me_format_category base = Some ''archive'') = Inr ms"
      "user_excluded previous \<or> selected + st_size st \<le> sp_max_workspace_bytes policy"
      "reserved = (if user_excluded previous then 0 else st_size st)"
proof -
  let ?r = "read_source env policy fa (me_format_category base = Some ''archive'')"
  show thesis
  proof (cases "ro_failure_code ?r")
    case (Some code)
    with assms show thesis by (intro failed) (auto simp: hashed_candidate_def Let_def bind_res_Inr_iff)
  next
    case None
    from read_source_ok [OF None] obtain data st where
      r: "stable_read fa data st" "ro_sha256 ?r = Some (se_sha256 env data)" "ro_stat_result ?r = Some st"
        "inspect_source env policy fa (me_format_category base = Some ''archive'') = Inr (ro_archive_members ?r)"
      by blast
    show thesis
    proof (cases "\<not> user_excluded previous \<and> selected + st_size st > sp_max_workspace_bytes policy")
      case True
      with assms None r show thesis
        by (intro failed [of "''source_workspace_size_limit''"]) (auto simp: hashed_candidate_def Let_def bind_res_Inr_iff)
    next
      case False
      obtain state included reason where c:
        "carried_over previous (Some (se_sha256 env data)) = (state, included, reason)" by (metis prod_cases3)
      from False assms None r c show thesis
        by (intro hashed [OF r(1) c]) (auto simp: hashed_candidate_def Let_def bind_res_Inr_iff)
    qed
  qed
qed

text \<open>every outcome of a candidate: a failure, an exclusion, a reuse of the previous entry, or a read\<close>

lemma scan_candidate_cases:
  assumes "scan_candidate env policy w fa c previous files selected = Inr (e, ms, n, reserved)"
  obtains (rejected) base where "(\<exists>code. failed_entry base code = Inr e) \<or> (\<exists>code. excluded_entry base code = Inr e)"
      "ms = []" "reserved = 0"
  | (reused) p where "previous = Some p" "me_state p = PENDING_APPROVAL" "me_state e = PENDING_APPROVAL" "ms = []"
  | (hashed) base data st state included reason where "stable_read fa data st"
      "carried_over previous (Some (se_sha256 env data)) = (state, included, reason)"
      "ManifestEntry_validate ((with_metadata (Some st) base)\<lparr>me_sha256 := Some (se_sha256 env data),
         me_state := state, me_included := included, me_inclusion_reason := reason\<rparr>) = Inr e"
      "inspect_source env policy fa (me_format_category base = Some ''archive'') = Inr ms"
      "user_excluded previous \<or> selected + st_size st \<le> sp_max_workspace_bytes policy"
      "reserved = (if user_excluded previous then 0 else st_size st)"
      "me_relative_path base = ca_relative_path c"
proof -
  let ?base = "(base_entry env w c)\<lparr>me_format_category := classify_format (ca_relative_path c)\<rparr>"
  from assms consider
    "(\<exists>base code. failed_entry base code = Inr e) \<or> (\<exists>base code. excluded_entry base code = Inr e)"
      "ms = []" "reserved = 0"
  | e' st where "reused_candidate fa ?base previous = Some (e', st)" "ManifestEntry_validate e' = Inr e" "ms = []"
  | "hashed_candidate env policy fa ?base previous selected = Inr (e, ms, n, reserved)"
    unfolding scan_candidate_def Let_def
    by (auto simp: bind_res_Inr_iff split: option.splits if_splits)
  then show thesis
  proof cases
    case 1
    from 1(1) show thesis
    proof (elim disjE exE)
      fix base code
      assume "failed_entry base code = Inr e"
      then show thesis using 1(2,3) by (intro rejected [of base]) blast+
    next
      fix base code
      assume "excluded_entry base code = Inr e"
      then show thesis using 1(2,3) by (intro rejected [of base]) blast+
    qed
  next
    case 2
    from 2(1) obtain p where "previous = Some p" "me_state p = PENDING_APPROVAL" "me_state e' = PENDING_APPROVAL"
      by (auto simp: reused_candidate_def split: option.splits if_splits)
    with validate_entry [OF 2(2)] 2(3) show thesis by (intro reused) auto
  next
    case 3
    from 3 show thesis
    proof (cases rule: hashed_candidate_cases)
      case (failed code)
      from failed(1) show thesis
      proof (elim disjE exE)
        assume "failed_entry ?base code = Inr e"
        then show thesis using failed(2,3) by (intro rejected [of ?base]) blast+
      next
        fix st
        assume "failed_entry (with_metadata st ?base) code = Inr e"
        then show thesis using failed(2,3) by (intro rejected [of "with_metadata st ?base"]) blast+
      qed
    next
      case (hashed data st state included reason)
      then show thesis
        by (intro that(3) [where base = ?base and data = data and st = st]) (auto simp: base_entry_def)
    qed
  qed
qed

section \<open>The loop over the candidates\<close>

lemma add_entry_simps [simp]:
  "ss_entries (add_entry policy path e s) = ss_entries s @ [e]"
  "ss_selected_bytes (add_entry policy path e s) = ss_selected_bytes s"
  by (simp_all add: add_entry_def bounded_emit_def)

definition members_of ::
  "scan_env \<Rightarrow> string \<Rightarrow> ManifestEntry \<Rightarrow> ArchiveMember list \<Rightarrow> ManifestEntry list \<Rightarrow> bool" where
  "members_of env w parent ms xs \<longleftrightarrow>
     (\<forall>x \<in> set xs. \<exists>m \<in> set ms. \<exists>i. archive_member_entry env w parent m i = Inr x)"

lemma add_members_effect:
  "add_members env policy w path parent i ms s = Inr s' \<Longrightarrow>
     \<exists>xs. ss_entries s' = ss_entries s @ xs \<and> ss_selected_bytes s' = ss_selected_bytes s \<and>
       members_of env w parent ms xs"
proof (induction ms arbitrary: i s)
  case Nil
  then show ?case by (intro exI [of _ "[]"]) (simp add: members_of_def)
next
  case (Cons m ms)
  from Cons.prems obtain e where e: "archive_member_entry env w parent m i = Inr e"
    and rest: "add_members env policy w path parent (Suc i) ms (add_entry policy path e s) = Inr s'"
    by (auto simp: bind_res_Inr_iff)
  from Cons.IH [OF rest] obtain xs where "ss_entries s' = ss_entries s @ e # xs"
    "ss_selected_bytes s' = ss_selected_bytes s" "members_of env w parent ms xs" by auto
  with e show ?case by (intro exI [of _ "e # xs"]) (auto simp: members_of_def)
qed

lemma scan_candidates_inv:
  assumes "scan_candidates env policy w access previous k cs s = Inr s'"
    and "keeps (ss_entries s) (ss_selected_bytes s)"
    and step: "\<And>k c files es selected e ms n reserved members.
      keeps es selected \<Longrightarrow> c \<in> set cs \<Longrightarrow>
      scan_candidate env policy w (access k) c (previous_native previous (ca_relative_path c)) files selected
        = Inr (e, ms, n, reserved) \<Longrightarrow>
      members_of env w e ms members \<Longrightarrow> keeps (es @ e # members) (selected + reserved)"
  shows "keeps (ss_entries s') (ss_selected_bytes s')"
  using assms
proof (induction cs arbitrary: k s)
  case (Cons c cs)
  let ?s = "s\<lparr>ss_file_count := ss_file_count s + (if ca_item_kind c \<noteq> ''folder'' then 1 else 0)\<rparr>"
  from Cons.prems(1) obtain e ms n reserved s'' where
    one: "scan_candidate env policy w (access k) c (previous_native previous (ca_relative_path c))
      (ss_file_count ?s) (ss_selected_bytes s) = Inr (e, ms, n, reserved)"
    and add: "add_members env policy w (ca_relative_path c) e 0 ms
      (add_entry policy (ca_relative_path c) e (?s\<lparr>ss_selected_bytes := ss_selected_bytes s + reserved,
         ss_bytes_hashed := ss_bytes_hashed s + n\<rparr>)) = Inr s''"
    and rest: "scan_candidates env policy w access previous (Suc k) cs s'' = Inr s'"
    by (auto simp: Let_def bind_res_Inr_iff)
  from add_members_effect [OF add] obtain xs where
    xs: "ss_entries s'' = ss_entries s @ e # xs" "ss_selected_bytes s'' = ss_selected_bytes s + reserved"
      "members_of env w e ms xs" by auto
  have "keeps (ss_entries s'') (ss_selected_bytes s'')"
    unfolding xs by (rule Cons.prems(3) [OF Cons.prems(2) _ one xs(3)]) simp
  show ?case
    by (rule Cons.IH [where k = "Suc k", OF rest \<open>keeps (ss_entries s'') (ss_selected_bytes s'')\<close>])
      (rule Cons.prems(3), simp_all)
qed simp

text \<open>members of an archive are never approved or included\<close>

lemma inspect_members_states:
  "m \<in> set (inspect_members policy parent n expanded seen infos) \<Longrightarrow> am_state m \<noteq> SourceState.APPROVED"
  by (induction infos arbitrary: n expanded seen)
    (auto simp: Let_def inspected_member_def split: if_splits)

lemma inspect_source_states:
  assumes "inspect_source env policy fa archive = Inr ms" and "m \<in> set ms"
  shows "am_state m \<noteq> SourceState.APPROVED"
proof (cases archive)
  case True
  with assms(1) obtain bytes where
    "inspect policy (se_infolist env) ''pending'' bytes = Inr ms"
    by (cases "fa_archive fa"; cases "inspect policy (se_infolist env) ''pending'' (projr (fa_archive fa))")
      (auto simp: inspect_source_def split: zip_error.splits)
  from inspect_cases [OF this] assms(2) show ?thesis
    by (auto simp: archive_limit_member_def dest: inspect_members_states)
qed (use assms in \<open>simp add: inspect_source_def\<close>)

lemma members_of_states:
  assumes "scan_candidate env policy w fa c previous files selected = Inr (e, ms, n, reserved)"
    and "members_of env w e ms xs" and "x \<in> set xs"
  shows "me_state x \<noteq> SourceState.APPROVED \<and> \<not> me_included x"
proof -
  from assms(2,3) obtain m i where m: "m \<in> set ms" and x: "archive_member_entry env w e m i = Inr x"
    by (auto simp: members_of_def)
  from assms(1) have "am_state m \<noteq> SourceState.APPROVED"
  proof (cases rule: scan_candidate_cases)
    case (hashed base data st state included reason)
    from inspect_source_states [OF hashed(4) m] show ?thesis .
  qed (use m in auto)
  with validate_entry [OF x [unfolded archive_member_entry_def]] show ?thesis by auto
qed

text \<open>an approved entry of a new scan\<close>

definition keeps_approval ::
  "scan_env \<Rightarrow> (nat \<Rightarrow> file_access) \<Rightarrow> ManifestEntry list \<Rightarrow> ManifestEntry \<Rightarrow> bool" where
  "keeps_approval env access previous e \<longleftrightarrow>
     (\<exists>p \<in> set previous. me_state p = SourceState.APPROVED \<and> me_archive_parent_entry_id p = None \<and>
        normalize_relative_path (me_relative_path p) = Inr (me_relative_path e) \<and> me_sha256 p = me_sha256 e) \<and>
     (\<exists>k data st. stable_read (access k) data st \<and> me_sha256 e = Some (se_sha256 env data) \<and>
        int (me_size_bytes e) = max 0 (st_size st) \<and> me_modified_ns e = Some (st_mtime_ns st) \<and>
        me_device_id e = Some (int_str (st_dev st)) \<and> me_file_id e = Some (int_str (st_ino st)))"

lemma previous_native_Some:
  "previous_native previous path = Some p \<Longrightarrow>
     p \<in> set previous \<and> me_archive_parent_entry_id p = None \<and> me_relative_path p = path"
  unfolding previous_native_def by (drule map_of_SomeD) auto

lemma scan_candidate_approved:
  assumes "scan_candidate env policy w (access k) c (previous_native previous (ca_relative_path c)) files selected
      = Inr (e, ms, n, reserved)" and "me_state e = SourceState.APPROVED"
  shows "keeps_approval env access previous e"
  using assms(1)
proof (cases rule: scan_candidate_cases)
  case (rejected base)
  then show ?thesis using assms(2) by (auto dest: failed_entry_Inr excluded_entry_Inr)
next
  case (reused p)
  then show ?thesis using assms(2) by simp
next
  case (hashed base data st state included reason)
  from validate_entry [OF hashed(3)] obtain path where
    path: "normalize_relative_path (ca_relative_path c) = Inr path" and
    e: "e = (with_metadata (Some st) base)\<lparr>me_sha256 := Some (se_sha256 env data), me_state := state,
      me_included := included, me_inclusion_reason := reason, me_relative_path := path\<rparr>"
    using hashed(7) by (auto simp: with_metadata_def)
  with assms(2) have "state = SourceState.APPROVED" by simp
  with hashed(2) obtain p where p: "previous_native previous (ca_relative_path c) = Some p"
    "me_state p = SourceState.APPROVED" "me_sha256 p = Some (se_sha256 env data)"
    by (auto simp: carried_over_def split: option.splits if_splits)
  from previous_native_Some [OF p(1)] p(2,3) path hashed(1) show ?thesis
    unfolding keeps_approval_def
    by (intro conjI bexI [of _ p] exI [of _ k] exI [of _ data] exI [of _ st]) (simp_all add: e with_metadata_def)
qed

section \<open>Names a manifest cannot hold\<close>

definition storable :: "string \<Rightarrow> bool" where
  "storable path \<longleftrightarrow> (\<exists>p. normalize_relative_path path = Inr p)"

lemma validate_storable: "ManifestEntry_validate e = Inr e' \<Longrightarrow> storable (me_relative_path e)"
  by (auto simp: storable_def dest: validate_entry)

lemma failed_storable: "failed_entry base code = Inr e \<Longrightarrow> storable (me_relative_path base)"
  unfolding failed_entry_def by (drule validate_storable) simp

lemma excluded_storable: "excluded_entry base reason = Inr e \<Longrightarrow> storable (me_relative_path base)"
  unfolding excluded_entry_def by (drule validate_storable) simp

lemma with_metadata_path [simp]: "me_relative_path (with_metadata st e) = me_relative_path e"
  by (simp add: with_metadata_def)

lemma base_entry_path [simp]: "me_relative_path (base_entry env w c) = ca_relative_path c"
  by (simp add: base_entry_def)

lemma hashed_storable:
  assumes "hashed_candidate env policy fa base previous selected = Inr (e, ms, n, reserved)"
  shows "storable (me_relative_path base)"
  using assms
proof (cases rule: hashed_candidate_cases)
  case (failed code)
  then show ?thesis by (auto dest: failed_storable)
next
  case (hashed data st state included reason)
  from validate_storable [OF hashed(3)] show ?thesis by simp
qed

lemma reused_storable:
  "reused_candidate fa base previous = Some (e', st) \<Longrightarrow> ManifestEntry_validate e' = Inr e \<Longrightarrow>
     storable (me_relative_path base)"
  by (drule validate_storable) (auto simp: reused_candidate_def split: option.splits if_splits)

lemma scan_candidate_storable:
  assumes "scan_candidate env policy w fa c previous files selected = Inr r"
  shows "storable (ca_relative_path c)"
proof -
  let ?base = "(base_entry env w c)\<lparr>me_format_category := classify_format (ca_relative_path c)\<rparr>"
  obtain e ms n reserved where r: "r = (e, ms, n, reserved)" by (metis prod_cases4)
  from assms [unfolded r] consider
    code where "failed_entry (base_entry env w c) code = Inr e"
  | code where "failed_entry ?base code = Inr e"
  | code where "excluded_entry (base_entry env w c) code = Inr e"
  | code where "excluded_entry ?base code = Inr e"
  | e' st where "reused_candidate fa ?base previous = Some (e', st)" "ManifestEntry_validate e' = Inr e"
  | "hashed_candidate env policy fa ?base previous selected = Inr (e, ms, n, reserved)"
    unfolding scan_candidate_def Let_def
    by (auto simp: bind_res_Inr_iff split: option.splits if_splits)
  then show ?thesis
    by cases (auto dest: failed_storable excluded_storable reused_storable hashed_storable)
qed

lemma scan_candidates_storable:
  "scan_candidates env policy w access previous k cs s = Inr s' \<Longrightarrow> c \<in> set cs \<Longrightarrow> storable (ca_relative_path c)"
  by (induction cs arbitrary: k s)
    (auto simp: Let_def bind_res_Inr_iff dest: scan_candidate_storable)

section \<open>The size of what is selected\<close>

definition included_bytes :: "ManifestEntry list \<Rightarrow> nat" where
  "included_bytes es = sum_list (map me_size_bytes (filter me_included es))"

lemma included_bytes_add: "included_bytes (xs @ ys) = included_bytes xs + included_bytes ys"
  by (simp add: included_bytes_def)

lemma included_bytes_append [simp]:
  "included_bytes (es @ e # xs) = included_bytes es + (if me_included e then me_size_bytes e else 0) + included_bytes xs"
  by (simp add: included_bytes_def)

lemma included_bytes_sorted: "included_bytes (sort_key f es) = included_bytes es"
proof -
  have "mset (map me_size_bytes (filter me_included (sort_key f es))) = mset (map me_size_bytes (filter me_included es))"
    by (simp add: mset_map mset_filter mset_sort)
  then show ?thesis unfolding included_bytes_def by (metis sum_mset_sum_list)
qed

lemma no_included_bytes: "\<forall>e \<in> set es. \<not> me_included e \<Longrightarrow> included_bytes es = 0"
  by (simp add: included_bytes_def filter_empty_conv)

lemma scan_candidate_size:
  assumes "scan_candidate env policy w fa c previous files selected = Inr (e, ms, n, reserved)"
    and "\<And>p. previous = Some p \<Longrightarrow> me_state p \<noteq> PENDING_APPROVAL"
    and "\<And>st. fa_opened_before fa = Inr st \<Longrightarrow> 0 \<le> st_size st"
  shows "0 \<le> reserved \<and> (if me_included e then int (me_size_bytes e) else 0) \<le> reserved \<and>
    (reserved = 0 \<or> selected + reserved \<le> sp_max_workspace_bytes policy)"
  using assms(1)
proof (cases rule: scan_candidate_cases)
  case (rejected base)
  then show ?thesis by (auto dest: failed_entry_Inr excluded_entry_Inr)
next
  case (reused p)
  then show ?thesis using assms(2) by simp
next
  case (hashed base data st state included reason)
  from hashed(1) assms(3) have size: "0 \<le> st_size st" by (simp add: stable_read_def)
  from validate_entry [OF hashed(3)] have e: "me_included e = included" "me_size_bytes e = nat (st_size st)"
    by (auto simp: with_metadata_def)
  have "\<not> included" if "user_excluded previous"
    using that hashed(2) by (auto simp: carried_over_def user_excluded_def split: option.splits if_splits)
  with hashed(5,6) size e show ?thesis by auto
qed

section \<open>A concrete folder\<close>

definition hash_a :: string where
  "hash_a = ''aaaaaaaaaaaaaaaaaaaaaaaaaaaaaaaaaaaaaaaaaaaaaaaaaaaaaaaaaaaaaaaa''"

definition hash_b :: string where
  "hash_b = ''bbbbbbbbbbbbbbbbbbbbbbbbbbbbbbbbbbbbbbbbbbbbbbbbbbbbbbbbbbbbbbbb''"

definition demo_scan_env :: scan_env where
  "demo_scan_env = \<lparr>se_sha256 = (\<lambda>data. if data = ''one'' then hash_a else hash_b),
     se_uuid5 = (\<lambda>namespace identity. identity), se_parse_uuid = Some,
     se_infolist = (\<lambda>_. Inl BadZipFile), se_normal_path = (\<lambda>path. path)\<rparr>"

definition demo_stat :: "file_kind \<Rightarrow> int \<Rightarrow> int \<Rightarrow> stat_result" where
  "demo_stat kind ino bytes = \<lparr>st_kind = kind, st_dev = 1, st_ino = ino, st_size = bytes, st_mtime_ns = 5\<rparr>"

definition demo_access :: "int \<Rightarrow> string \<Rightarrow> file_access" where
  "demo_access ino data =
     (let st = demo_stat REGULAR ino (int (length data)) in
      \<lparr>fa_reusable = Inr st, fa_before = Inr st, fa_open = Inr (), fa_opened_before = Inr st,
       fa_reads = [Inr data], fa_archive = Inr data, fa_opened_after = Inr st, fa_after = Inr st\<rparr>)"

definition demo_file :: "string \<Rightarrow> int \<Rightarrow> dir_entry" where
  "demo_file name ino = DirEntry name (Inr (demo_stat REGULAR ino 3)) (Inr False) None (Inl OSError) None"

text \<open>a folder with a file in a subfolder and two files\<close>

definition demo_tree :: "dir_entry list" where
  "demo_tree = [demo_file ''c.exe'' 4, demo_file ''b.pdf'' 3,
     DirEntry ''Week 1'' (Inr (demo_stat DIRECTORY 2 0)) (Inr False) None (Inr [demo_file ''a.txt'' 1]) None]"

definition demo_scan_policy :: ScanPolicy where
  "demo_scan_policy = DEFAULT_SCAN_POLICY\<lparr>sp_max_files := 6, sp_max_workspace_bytes := 10\<rparr>"

definition demo_previous :: "string \<Rightarrow> string \<Rightarrow> ManifestEntry" where
  "demo_previous path sha = (base_entry demo_scan_env ''w''
     \<lparr>ca_relative_path = path, ca_item_kind = ''file'', ca_stat_result = None, ca_failure_code = None\<rparr>)
     \<lparr>me_state := SourceState.APPROVED, me_included := True, me_sha256 := Some sha\<rparr>"

definition demo_accesses :: "nat \<Rightarrow> file_access" where
  "demo_accesses k = (if k = 0 then demo_access 3 ''two'' else if k = 1 then demo_access 4 ''exe''
     else demo_access 1 ''one'')"

definition folder_manifest :: "ManifestEntry list" where
  "folder_manifest = [demo_previous ''Week 1/a.txt'' hash_a, demo_previous ''b.pdf'' hash_a,
     demo_previous ''old.md'' hash_b]"

definition folder_scan :: "scan_error + ScanResult \<times> ScanProgress list" where
  "folder_scan = scan_anchored demo_scan_env demo_scan_policy 9 ''w'' (Inr demo_tree) demo_accesses folder_manifest"

definition scan_states :: "scan_error + ScanResult \<times> ScanProgress list \<Rightarrow> (string \<times> SourceState) list" where
  "scan_states r = (case r of Inl e \<Rightarrow> [] | Inr (result, _) \<Rightarrow>
     map (\<lambda>e. (me_relative_path e, me_state e)) (sr_entries result))"

lemma demo_enumeration:
  "map_sum id (map ca_relative_path) (enumerate_root demo_scan_policy (Inr demo_tree)) =
     Inr [''b.pdf'', ''c.exe'', ''Week 1/a.txt'']"
  by code_simp

lemma folder_scan_states:
  "scan_states folder_scan = [(''b.pdf'', CHANGED), (''c.exe'', EXCLUDED), (''old.md'', REMOVED),
     (''Week 1/a.txt'', SourceState.APPROVED)]"
  by code_simp

lemma scan_states_simps:
  "scan_states (Inl e) = []"
  "scan_states (Inr (result, emitted)) = map (\<lambda>e. (me_relative_path e, me_state e)) (sr_entries result)"
  by (simp_all add: scan_states_def)

lemma folder_scan_result:
  obtains result emitted where "folder_scan = Inr (result, emitted)"
    "map (\<lambda>e. (me_relative_path e, me_state e)) (sr_entries result) =
       [(''b.pdf'', CHANGED), (''c.exe'', EXCLUDED), (''old.md'', REMOVED), (''Week 1/a.txt'', SourceState.APPROVED)]"
proof (cases folder_scan)
  case (Inl e)
  from folder_scan_states [unfolded Inl scan_states_simps] show thesis by simp
next
  case (Inr r)
  obtain result emitted where r: "r = (result, emitted)" by (cases r)
  from folder_scan_states [unfolded Inr r scan_states_simps] show thesis by (rule that [OF Inr [unfolded r]])
qed

lemma demo_previous_simps [simp]:
  "me_state (demo_previous path sha) = SourceState.APPROVED"
  "me_relative_path (demo_previous path sha) = path"
  "me_sha256 (demo_previous path sha) = Some sha"
  by (simp_all add: demo_previous_def base_entry_def)

section \<open>Properties of the walk\<close>

text \<open>
  Enumeration is bounded and complete: a folder of any size and shape, with any errors, gives at
  most \<open>max_files + 1\<close> candidates in the order of their paths; a tree of at most \<open>max_files\<close> entries
  gives exactly the candidates of its entries, each once.
\<close>

theorem enumeration_complete:
  assumes "enumerate_root policy (Inr ds) = Inr cs" and "0 \<le> sp_max_files policy"
  shows "int (length cs) \<le> sp_max_files policy + 1 \<and> sorted (map candidate_key cs) \<and>
    (int (sum_list (map entry_count ds)) \<le> sp_max_files policy \<longrightarrow>
       mset cs = mset (concat (map (entry_candidates policy []) ds)))"
proof -
  let ?found = "listed (sp_max_files policy + 1) ds"
  let ?w = "\<lparr>wk_candidates = [], wk_consumed = int (length ?found), wk_processed = 0, wk_limit_reached = False\<rparr>"
  have cs: "cs = sort_key candidate_key (wk_candidates (walk_entries policy [] ?found ?w))"
    using assms by (auto simp: enumerate_root_def Let_def)
  have "within policy 0 (walk_entries policy [] ?found ?w)"
    using assms(2) by (intro walk_within) (simp add: within_def)
  then have "int (length cs) \<le> sp_max_files policy + 1"
    by (auto simp: within_def cs split: if_splits)
  moreover have "mset cs = mset (concat (map (entry_candidates policy []) ds))"
    if small: "int (sum_list (map entry_count ds)) \<le> sp_max_files policy"
  proof -
    have "length ds \<le> sum_list (map entry_count ds)" by (rule count_ge_length)
    with small have f: "?found = sort_key name_key ds" by (intro listed_all) simp
    have "small_walk policy ?found ?w"
      using small count_ge_length [of ds] by (auto simp: small_walk_def f count_sorted below_sorted) (auto simp: below_def)
    from walk_complete [OF this, of "[]"] show ?thesis
      by (simp add: walked_def cs mset_sort f mset_concat_map_sorted)
  qed
  ultimately show ?thesis by (simp add: cs)
qed

lemma previous_ids_kept:
  "me_entry_id ` set previous \<subseteq> me_entry_id ` set (es @ removed_entries es previous)"
proof
  fix i
  assume "i \<in> me_entry_id ` set previous"
  then obtain p where p: "p \<in> set previous" "i = me_entry_id p" by auto
  show "i \<in> me_entry_id ` set (es @ removed_entries es previous)"
  proof (cases "i \<in> me_entry_id ` set es")
    case False
    then have "removed_entry p \<in> set (removed_entries es previous)" using p by (simp add: removed_entries_def)
    then have "me_entry_id (removed_entry p) \<in> me_entry_id ` set (es @ removed_entries es previous)"
      by (intro imageI) simp
    then show ?thesis by (simp add: p(2) removed_entry_def)
  qed auto
qed

theorem enumeration_complete_witness:
  "\<exists>cs. enumerate_root demo_scan_policy (Inr demo_tree) = Inr cs \<and>
     map ca_relative_path cs = [''b.pdf'', ''c.exe'', ''Week 1/a.txt''] \<and>
     mset cs = mset (concat (map (entry_candidates demo_scan_policy []) demo_tree))"
proof -
  from demo_enumeration obtain cs where cs: "enumerate_root demo_scan_policy (Inr demo_tree) = Inr cs"
    and paths: "map ca_relative_path cs = [''b.pdf'', ''c.exe'', ''Week 1/a.txt'']"
    by (cases "enumerate_root demo_scan_policy (Inr demo_tree)") auto
  have n: "0 \<le> sp_max_files demo_scan_policy" by (simp add: demo_scan_policy_def)
  have small: "int (sum_list (map entry_count demo_tree)) \<le> sp_max_files demo_scan_policy"
    by (simp add: demo_tree_def demo_file_def demo_scan_policy_def)
  from enumeration_complete [OF cs n] small have "mset cs = mset (concat (map (entry_candidates demo_scan_policy []) demo_tree))"
    by blast
  with cs paths show ?thesis by (intro exI [of _ cs] conjI)
qed

text \<open>
  C14: A rescan keeps an approval only for unchanged content: every approved entry of the new manifest
  was approved before under the same path with the same hash, and that hash is of the bytes this scan
  read while the file kept its identity, size and time. No previous entry disappears: what is no
  longer found stays in the manifest under its identifier.
\<close>

theorem rescan_keeps_approval:
  assumes "scan_anchored env policy now w listing access previous = Inr (result, emitted)"
  shows "list_all (\<lambda>e. me_state e = SourceState.APPROVED \<longrightarrow> keeps_approval env access previous e)
      (sr_entries result) \<and>
    me_entry_id ` set previous \<subseteq> me_entry_id ` set (sr_entries result)"
proof -
  let ?ok = "\<lambda>es (_ :: int). \<forall>e \<in> set es. me_state e = SourceState.APPROVED \<longrightarrow> keeps_approval env access previous e"
  from assms obtain cs s where cs: "scan_candidates env policy w access previous 0 cs scan_start = Inr s"
    and entries: "sr_entries result = sort_key manifest_key (ss_entries s @ removed_entries (ss_entries s) previous)"
    by (auto simp: scan_anchored_def bind_res_Inr_iff)
  have "?ok (ss_entries s) (ss_selected_bytes s)"
  proof (rule scan_candidates_inv [where keeps = ?ok, OF cs], goal_cases)
    case (2 k c files es selected e ms n reserved members)
    then show ?case using scan_candidate_approved [where access = access and k = k, OF 2(3)] members_of_states [OF 2(3,4)] by auto
  qed (simp add: scan_start_def)
  then have "list_all (\<lambda>e. me_state e = SourceState.APPROVED \<longrightarrow> keeps_approval env access previous e)
      (sr_entries result)"
    by (auto simp: entries list_all_iff removed_entries_def removed_entry_def)
  with previous_ids_kept [of previous "ss_entries s"] show ?thesis by (simp add: entries)
qed

theorem rescan_keeps_approval_witness:
  "\<exists>result emitted e. folder_scan = Inr (result, emitted) \<and> e \<in> set (sr_entries result) \<and>
     me_relative_path e = ''Week 1/a.txt'' \<and> me_state e = SourceState.APPROVED \<and> me_sha256 e = Some hash_a"
proof -
  from folder_scan_result obtain result emitted where r: "folder_scan = Inr (result, emitted)"
    "map (\<lambda>e. (me_relative_path e, me_state e)) (sr_entries result) =
       [(''b.pdf'', CHANGED), (''c.exe'', EXCLUDED), (''old.md'', REMOVED), (''Week 1/a.txt'', SourceState.APPROVED)]" .
  have "(''Week 1/a.txt'', SourceState.APPROVED) \<in> (\<lambda>e. (me_relative_path e, me_state e)) ` set (sr_entries result)"
    using arg_cong [OF r(2), of set] by simp
  then obtain e where e: "e \<in> set (sr_entries result)" "me_relative_path e = ''Week 1/a.txt''"
    "me_state e = SourceState.APPROVED" by (elim imageE) simp
  from rescan_keeps_approval [OF r(1) [unfolded folder_scan_def]]
  have "list_all (\<lambda>e. me_state e = SourceState.APPROVED \<longrightarrow>
      keeps_approval demo_scan_env demo_accesses folder_manifest e) (sr_entries result)" by (rule conjunct1)
  with e have "keeps_approval demo_scan_env demo_accesses folder_manifest e" by (simp add: list_all_iff)
  then obtain p where p: "p \<in> set folder_manifest"
    "normalize_relative_path (me_relative_path p) = Inr (me_relative_path e)" "me_sha256 p = me_sha256 e"
    by (auto simp: keeps_approval_def)
  have "normalize_relative_path ''b.pdf'' = Inr ''b.pdf''" "normalize_relative_path ''old.md'' = Inr ''old.md''"
    by code_simp+
  with p e(2) have "me_sha256 e = Some hash_a" by (auto simp: folder_manifest_def)
  with r e show ?thesis by blast
qed

text \<open>
  Whatever sizes the files report and however they change, a scan that reuses no earlier hash
  selects at most \<open>max_workspace_bytes\<close>: the files it includes have sizes that add up to no more.
\<close>

theorem scan_within_size_limit:
  assumes "scan_anchored env policy now w listing access previous = Inr (result, emitted)"
    and "\<And>p. p \<in> set previous \<Longrightarrow> me_state p \<noteq> PENDING_APPROVAL"
    and "\<And>k st. fa_opened_before (access k) = Inr st \<Longrightarrow> 0 \<le> st_size st"
  shows "int (included_bytes (sr_entries result)) \<le> max 0 (sp_max_workspace_bytes policy)"
proof -
  let ?ok = "\<lambda>es selected. int (included_bytes es) \<le> selected \<and> 0 \<le> selected \<and>
    selected \<le> max 0 (sp_max_workspace_bytes policy)"
  from assms(1) obtain cs s where cs: "scan_candidates env policy w access previous 0 cs scan_start = Inr s"
    and entries: "sr_entries result = sort_key manifest_key (ss_entries s @ removed_entries (ss_entries s) previous)"
    by (auto simp: scan_anchored_def bind_res_Inr_iff)
  have "?ok (ss_entries s) (ss_selected_bytes s)"
  proof (rule scan_candidates_inv [where keeps = ?ok, OF cs], goal_cases)
    case (2 k c files es selected e ms n reserved members)
    have "included_bytes members = 0"
      using members_of_states [OF 2(3,4)] by (intro no_included_bytes) simp
    moreover have "0 \<le> reserved \<and> (if me_included e then int (me_size_bytes e) else 0) \<le> reserved \<and>
        (reserved = 0 \<or> selected + reserved \<le> sp_max_workspace_bytes policy)"
      using assms(2,3) by (intro scan_candidate_size [OF 2(3)]) (auto dest: previous_native_Some)
    ultimately show ?case using 2(1) by (auto split: if_splits)
  qed (simp add: scan_start_def included_bytes_def)
  moreover have "included_bytes (removed_entries (ss_entries s) previous) = 0"
    by (intro no_included_bytes) (auto simp: removed_entries_def removed_entry_def)
  ultimately show ?thesis
    by (simp add: entries included_bytes_sorted included_bytes_add)
qed

theorem scan_within_size_limit_witness:
  "\<exists>result emitted. folder_scan = Inr (result, emitted) \<and> included_bytes (sr_entries result) \<le> 10"
proof -
  from folder_scan_result obtain result emitted where r: "folder_scan = Inr (result, emitted)" by metis
  have "me_state p \<noteq> PENDING_APPROVAL" if "p \<in> set folder_manifest" for p
    using that by (auto simp: folder_manifest_def)
  moreover have "0 \<le> st_size st" if "fa_opened_before (demo_accesses k) = Inr st" for k st
    using that by (auto simp: demo_accesses_def demo_access_def demo_stat_def Let_def split: if_splits)
  ultimately have "int (included_bytes (sr_entries result)) \<le> max 0 (sp_max_workspace_bytes demo_scan_policy)"
    by (rule scan_within_size_limit [OF r [unfolded folder_scan_def]])
  then have "included_bytes (sr_entries result) \<le> 10" by (simp add: demo_scan_policy_def)
  with r show ?thesis by blast
qed

text \<open>
  One name that a manifest cannot hold (a backslash, or a colon in the first component, both legal
  on POSIX) makes the whole scan raise a validation error instead of failing that source.
\<close>

theorem scan_rejects_bad_name:
  assumes "enumerate_root policy listing = Inr cs" and "c \<in> set cs"
    and "normalize_relative_path (ca_relative_path c) = Inl err"
  shows "\<exists>e. scan_anchored env policy now w listing access previous = Inl (Raised e)"
proof (cases "scan_candidates env policy w access previous 0 cs scan_start")
  case (Inl e)
  then show ?thesis by (simp add: scan_anchored_def assms(1))
next
  case (Inr s)
  from scan_candidates_storable [OF Inr assms(2)] assms(3) show ?thesis by (simp add: storable_def)
qed

theorem scan_rejects_bad_name_witness:
  "\<exists>e. scan_anchored demo_scan_env demo_scan_policy 9 ''w'' (Inr [demo_file ''10: notes.txt'' 1])
     (\<lambda>_. demo_access 1 ''one'') [] = Inl (Raised e)"
proof -
  have "map_sum id (map ca_relative_path) (enumerate_root demo_scan_policy (Inr [demo_file ''10: notes.txt'' 1])) =
      Inr [''10: notes.txt'']" by code_simp
  then obtain c where c: "enumerate_root demo_scan_policy (Inr [demo_file ''10: notes.txt'' 1]) = Inr [c]"
    "ca_relative_path c = ''10: notes.txt''"
    by (cases "enumerate_root demo_scan_policy (Inr [demo_file ''10: notes.txt'' 1])") auto
  have "normalize_relative_path ''10: notes.txt'' = Inl ValueError" by code_simp
  with scan_rejects_bad_name [OF c(1), of c] c(2) show ?thesis by simp
qed

end
