(* ===== verification/Transmission.thy ===== *)
theory Transmission
  imports Scanner Workspace_Store Complex_Main "HOL-Library.AList"
begin

text \<open>
  \<open>WorkspaceTransmissionGate\<close> of \<^verbatim>\<open>exam_predictor/workspace/transmission.py\<close>: it revalidates approved
  sources and issues short-lived tokens for them, and it opens a source once per token, while the
  approval is held. The state is the table of grants together with the workspace database. Between
  the locked sections other threads may do anything: what they do is an argument. Monotonic times
  are rational numbers of seconds.
\<close>

section \<open>Data\<close>

record ReadGrant =
  rg_workspace_id :: string
  rg_approval_id :: string
  rg_revision_id :: string
  rg_entry_id :: string
  rg_relative_path :: string
  rg_size_bytes :: nat
  rg_modified_ns :: "int option"
  rg_device_id :: "string option"
  rg_file_id :: "string option"
  rg_sha256 :: string
  rg_root_device :: "string option"
  rg_root_file_id :: "string option"
  rg_expires_at :: rat

record ApprovedSource =
  src_workspace_id :: string
  src_entry_id :: string
  src_relative_path :: string
  src_size_bytes :: nat
  src_sha256 :: string
  src_read_token :: string

record tx_state =
  tx_grants :: "(string \<times> ReadGrant) list"
  tx_db :: workspace_db

text \<open>
  The exceptions of the gate: \<open>SourceAuthorizationError\<close> with code, workspace and entry, and what it
  lets through.
\<close>

datatype gate_error =
    SourceAuthorization (ge_code: string) (ge_workspace: string) (ge_entry: string)
  | Passed scan_error
  | ConsumerError

record gate_config =
  gc_env :: scan_env
  gc_policy :: ScanPolicy
  gc_token_ttl_seconds :: rat

definition new_gate :: "scan_env \<Rightarrow> ScanPolicy \<Rightarrow> rat \<Rightarrow> py_error + gate_config" where
  "new_gate env policy ttl =
     (if ttl \<le> 0 \<or> ttl > 60 then Inl ValueError
      else Inr \<lparr>gc_env = env, gc_policy = policy, gc_token_ttl_seconds = ttl\<rparr>)"

section \<open>Helpers\<close>

definition same_path :: "scan_env \<Rightarrow> string \<Rightarrow> string \<Rightarrow> bool" where
  "same_path env left right \<longleftrightarrow> se_normal_path env left = se_normal_path env right"

definition root_matches :: "scan_env \<Rightarrow> WorkspaceRow \<Rightarrow> RootAnchor \<Rightarrow> bool" where
  "root_matches env wr anchor =
     (case (ra_identity anchor, ws_root_device wr, ws_root_file_id wr) of
        (Some (dev, ino), Some root_device, Some root_file_id) \<Rightarrow>
          same_path env (ws_canonical_root wr) (ra_canonical_root anchor) \<and>
          int_str dev = root_device \<and> int_str ino = root_file_id
      | _ \<Rightarrow> False)"

definition entry_matches :: "ManifestEntry \<Rightarrow> RevalidatedEntry \<Rightarrow> string \<Rightarrow> bool" where
  "entry_matches e v approved_sha256 \<longleftrightarrow>
     rv_failure_code v = None \<and> rv_entry_id v = me_entry_id e \<and> rv_size_bytes v = me_size_bytes e \<and>
     rv_modified_ns v = me_modified_ns e \<and> rv_device_id v = me_device_id e \<and>
     rv_file_id v = me_file_id e \<and> rv_sha256 v = me_sha256 e \<and> rv_sha256 v = Some approved_sha256"

definition grant_entry :: "ReadGrant \<Rightarrow> py_error + ManifestEntry" where
  "grant_entry g = ManifestEntry_validate
     \<lparr>me_entry_id = rg_entry_id g, me_workspace_id = rg_workspace_id g,
      me_relative_path = rg_relative_path g, me_item_kind = ''file'', me_format_category = None,
      me_size_bytes = rg_size_bytes g, me_modified_ns = rg_modified_ns g,
      me_device_id = rg_device_id g, me_file_id = rg_file_id g, me_sha256 = Some (rg_sha256 g),
      me_state = SourceState.APPROVED, me_included = True, me_inclusion_reason = None,
      me_proposed_course_group = ''unclassified'', me_failure_code = None, me_safe_message = None,
      me_archive_parent_entry_id = None, me_archive_member_path = None,
      me_archive_member_index = None, me_archive_member_crc32 = None,
      me_archive_member_compressed_bytes = None\<rparr>"

text \<open>\<open>_purge_expired_locked\<close> and the dict operations on the grants\<close>

definition purge_expired :: "rat \<Rightarrow> (string \<times> ReadGrant) list \<Rightarrow> (string \<times> ReadGrant) list" where
  "purge_expired now grants = filter (\<lambda>(token, g). \<not> rg_expires_at g \<le> now) grants"

definition update_grants ::
  "(string \<times> ReadGrant) list \<Rightarrow> (string \<times> ReadGrant) list \<Rightarrow> (string \<times> ReadGrant) list" where
  "update_grants new grants = fold (\<lambda>(token, g). AList.update token g) new grants"

definition pop_grants :: "string list \<Rightarrow> (string \<times> ReadGrant) list \<Rightarrow> (string \<times> ReadGrant) list" where
  "pop_grants tokens grants = fold AList.delete tokens grants"

text \<open>\<open>_mark_changed\<close>: \<open>fails\<close> when the store raises for another reason\<close>

record mark_access =
  mk_fails :: bool
  mk_fresh :: string
  mk_now :: int

definition mark_source_changed ::
  "mark_access \<Rightarrow> string \<Rightarrow> string list \<Rightarrow> tx_state \<Rightarrow> tx_state \<times> (gate_error + unit)" where
  "mark_source_changed mk w ids st =
     (if ids = [] then (st, Inr ())
      else case (if mk_fails mk then Inl RuntimeError
            else mark_entries_changed_latest (mk_fresh mk) (mk_now mk) w ids ''approved_source_changed'' (tx_db st)) of
        Inl e \<Rightarrow> (st, Inl (SourceAuthorization ''source_state_update_failed'' w (hd ids)))
      | Inr (db, _) \<Rightarrow> (st\<lparr>tx_db := db\<rparr>, Inr ()))"

section \<open>Authorization\<close>

text \<open>the checks of the request against the snapshot\<close>

definition select_entry ::
  "string \<Rightarrow> ManifestRevision \<Rightarrow> ApprovalRecord \<Rightarrow> string \<Rightarrow> gate_error + ManifestEntry \<times> string" where
  "select_entry w r approval entry_id =
     (case (map_of (List.rev (map (\<lambda>e. (me_entry_id e, e)) (rev_entries r))) entry_id,
            map_of (List.rev (map (\<lambda>a. (ae_entry_id a, ae_sha256 a)) (ap_entries approval))) entry_id) of
        (Some e, Some sha) \<Rightarrow>
          if me_sha256 e \<noteq> Some sha then Inl (SourceAuthorization ''source_approval_mismatch'' w entry_id)
          else if me_item_kind e \<noteq> ''file'' \<or> me_archive_parent_entry_id e \<noteq> None \<or> \<not> me_included e \<or>
             me_state e \<noteq> SourceState.APPROVED \<or> me_modified_ns e = None \<or> me_device_id e = None \<or>
             me_file_id e = None \<or> me_sha256 e = None
          then Inl (SourceAuthorization ''source_not_approved'' w entry_id)
          else Inr (e, sha)
      | _ \<Rightarrow> Inl (SourceAuthorization ''source_not_approved'' w entry_id))"

fun select_entries ::
  "string \<Rightarrow> ManifestRevision \<Rightarrow> ApprovalRecord \<Rightarrow> string list \<Rightarrow> gate_error + (ManifestEntry \<times> string) list" where
  "select_entries w r approval [] = Inr []"
| "select_entries w r approval (i # ids) =
     bind_res (select_entry w r approval i) (\<lambda>x.
     bind_res (select_entries w r approval ids) (\<lambda>xs. Inr (x # xs)))"

definition select_sources ::
  "ScanPolicy \<Rightarrow> string \<Rightarrow> string list \<Rightarrow> py_error + TransmissionAuthoritySnapshot option
    \<Rightarrow> gate_error + WorkspaceRow \<times> ApprovalRecord \<times> ManifestRevision \<times> (ManifestEntry \<times> string) list" where
  "select_sources policy w requested snapshot =
     (let refuse = (\<lambda>code. Inl (SourceAuthorization code w (hd requested))) in
      case snapshot of
        Inl e \<Rightarrow> refuse ''source_store_unavailable''
      | Inr None \<Rightarrow> refuse ''workspace_not_found''
      | Inr (Some authority) \<Rightarrow>
        (case ts_approval authority of
           None \<Rightarrow> refuse ''source_approval_required''
         | Some approval \<Rightarrow>
           if ws_state (ts_workspace authority) \<noteq> WorkspaceState.APPROVED
           then refuse ''source_approval_required''
           else if ap_policy_version approval \<noteq> sp_policy_version policy
           then refuse ''source_approval_stale_policy''
           else (case ts_revision authority of
             None \<Rightarrow> refuse ''source_approval_required''
           | Some r \<Rightarrow>
             if rev_policy_version r \<noteq> sp_policy_version policy then refuse ''source_approval_stale_policy''
             else bind_res (select_entries w r approval requested)
                    (\<lambda>selected. Inr (ts_workspace authority, approval, r, selected)))))"

text \<open>
  The revalidation: a failure is a code, the entry to name and the entries to mark as changed; a
  success is the dictionary of validated entries.
\<close>

datatype validation =
    Invalid (va_code: string) (va_entry: string) (va_changed: "string list")
  | Valid "string \<Rightarrow> RevalidatedEntry option"

definition mismatched ::
  "(string \<Rightarrow> RevalidatedEntry option) \<Rightarrow> (ManifestEntry \<times> string) list \<Rightarrow> string list" where
  "mismatched validated selected = map (\<lambda>(e, sha). me_entry_id e) (filter (\<lambda>(e, sha).
     (case validated (me_entry_id e) of None \<Rightarrow> True | Some v \<Rightarrow> \<not> entry_matches e v sha)) selected)"

definition ROOT_ERRORS :: "string list" where
  "ROOT_ERRORS = [''source_link_or_reparse'', ''source_open_failed'', ''source_root_invalid'',
     ''source_root_identity_unavailable'']"

definition validate_sources ::
  "gate_config \<Rightarrow> WorkspaceRow \<Rightarrow> os_error + RootAnchor \<Rightarrow> root_access \<Rightarrow> (nat \<Rightarrow> file_access)
    \<Rightarrow> string list \<Rightarrow> (ManifestEntry \<times> string) list \<Rightarrow> scan_error + validation" where
  "validate_sources gc wr anchored rt files requested selected =
     (let root_changed = Invalid ''source_root_identity_changed'' (hd requested) requested in
      case bind_res (map_sum Opening id anchored) (\<lambda>anchor.
          if \<not> root_matches (gc_env gc) wr anchor then Inr root_changed
          else bind_res (revalidate_entries (gc_env gc) (gc_policy gc) anchor rt files (map fst selected))
            (\<lambda>result.
              if \<not> same_path (gc_env gc) (vr_canonical_root result) (ra_canonical_root anchor) \<or>
                 Some (vr_root_device result) \<noteq> ws_root_device wr \<or>
                 Some (vr_root_file_id result) \<noteq> ws_root_file_id wr
              then Inr root_changed
              else let validated = map_of (rev (map (\<lambda>v. (rv_entry_id v, v)) (vr_entries result)));
                       bad = mismatched validated selected in
                if bad \<noteq> [] then Inr (Invalid ''approved_source_changed'' (hd bad) bad)
                else Inr (Valid validated))) of
        Inl (Opening (SecureOpenError code)) \<Rightarrow>
          Inr (Invalid (if code \<in> set ROOT_ERRORS then ''source_root_invalid'' else ''approved_source_changed'')
                 (hd requested) requested)
      | Inl e \<Rightarrow> Inl e
      | Inr v \<Rightarrow> Inr v)"

text \<open>the grant and the descriptor of one selected entry\<close>

definition issue ::
  "string \<Rightarrow> ApprovalRecord \<Rightarrow> ManifestRevision \<Rightarrow> WorkspaceRow \<Rightarrow> rat \<Rightarrow> string \<Rightarrow> ManifestEntry \<Rightarrow> string
    \<Rightarrow> RevalidatedEntry \<Rightarrow> (string \<times> ReadGrant) \<times> ApprovedSource" where
  "issue w approval r wr expires token e sha v =
     ((token, \<lparr>rg_workspace_id = w, rg_approval_id = ap_approval_id approval,
        rg_revision_id = rev_revision_id r, rg_entry_id = me_entry_id e,
        rg_relative_path = me_relative_path e, rg_size_bytes = rv_size_bytes v,
        rg_modified_ns = rv_modified_ns v, rg_device_id = rv_device_id v, rg_file_id = rv_file_id v,
        rg_sha256 = sha, rg_root_device = ws_root_device wr, rg_root_file_id = ws_root_file_id wr,
        rg_expires_at = expires\<rparr>),
      \<lparr>src_workspace_id = w, src_entry_id = me_entry_id e, src_relative_path = me_relative_path e,
       src_size_bytes = rv_size_bytes v, src_sha256 = sha, src_read_token = token\<rparr>)"

text \<open>
  What one call of \<open>authorize\<close> meets: two readings of the clock, the files, the fresh tokens, what
  other threads do between its locked sections (\<open>others 0\<close> before the snapshot, \<open>others 1\<close> after it),
  and whether the store fails for reasons of its own.
\<close>

record authorize_access =
  aa_purged_at :: rat
  aa_issued_at :: rat
  aa_snapshot_fails :: bool
  aa_anchor :: "os_error + RootAnchor"
  aa_root :: root_access
  aa_files :: "nat \<Rightarrow> file_access"
  aa_mark :: mark_access
  aa_tokens :: "nat \<Rightarrow> string"
  aa_verified_at :: int
  aa_hold_fails :: bool
  aa_release_error :: "py_error option"
  aa_others :: "nat \<Rightarrow> tx_state \<Rightarrow> tx_state"

definition issued ::
  "string \<Rightarrow> ApprovalRecord \<Rightarrow> ManifestRevision \<Rightarrow> WorkspaceRow \<Rightarrow> rat \<Rightarrow> (nat \<Rightarrow> string)
    \<Rightarrow> (string \<Rightarrow> RevalidatedEntry option) \<Rightarrow> (ManifestEntry \<times> string) list
    \<Rightarrow> ((string \<times> ReadGrant) \<times> ApprovedSource) list" where
  "issued w approval r wr expires tokens validated selected =
     map (\<lambda>(k, e, sha). issue w approval r wr expires (tokens k) e sha (the (validated (me_entry_id e))))
       (zip [0..<length selected] selected)"

text \<open>
  Publication under the held approval: a revocation leaves what was published, any other failure
  removes the tokens again.
\<close>

definition publish ::
  "authorize_access \<Rightarrow> string \<Rightarrow> ApprovalRecord \<Rightarrow> ManifestRevision \<Rightarrow> string
    \<Rightarrow> ((string \<times> ReadGrant) \<times> ApprovedSource) list \<Rightarrow> tx_state
    \<Rightarrow> tx_state \<times> (gate_error + ApprovedSource list)" where
  "publish aa w approval r first_id items st =
     (let tokens = map (\<lambda>i. fst (fst i)) items;
          withdraw = (\<lambda>st. (st\<lparr>tx_grants := pop_grants tokens (tx_grants st)\<rparr>,
                        Inl (SourceAuthorization ''source_store_unavailable'' w first_id)));
          revoked = Inl (SourceAuthorization ''source_approval_revoked'' w first_id) in
      case (if aa_hold_fails aa then Inl RuntimeError
            else hold_transmission_authority w (ap_approval_id approval) (rev_revision_id r)
                   (Some (aa_verified_at aa)) (tx_db st)) of
        Inl TransmissionAuthorityRevokedError \<Rightarrow> (st, revoked)
      | Inl e \<Rightarrow> withdraw st
      | Inr (db, _) \<Rightarrow>
          let st = \<lparr>tx_grants = update_grants (map fst items) (purge_expired (aa_issued_at aa) (tx_grants st)),
                    tx_db = db\<rparr> in
          (case aa_release_error aa of
             None \<Rightarrow> (st, Inr (map snd items))
           | Some TransmissionAuthorityRevokedError \<Rightarrow> (st, revoked)
           | Some e \<Rightarrow> withdraw st))"

definition authorize ::
  "gate_config \<Rightarrow> authorize_access \<Rightarrow> string \<Rightarrow> string list \<Rightarrow> tx_state
    \<Rightarrow> tx_state \<times> (gate_error + ApprovedSource list)" where
  "authorize gc aa w requested st =
     (let st = st\<lparr>tx_grants := purge_expired (aa_purged_at aa) (tx_grants st)\<rparr> in
      if requested = [] \<or> \<not> distinct requested
      then (st, Inl (SourceAuthorization ''source_request_invalid'' w (if requested = [] then [] else hd requested)))
      else let st = aa_others aa 0 st in
      case select_sources (gc_policy gc) w requested
             (if aa_snapshot_fails aa then Inl RuntimeError else transmission_authority_snapshot w (tx_db st)) of
        Inl e \<Rightarrow> (st, Inl e)
      | Inr (wr, approval, r, selected) \<Rightarrow>
        let st = aa_others aa 1 st in
        (case validate_sources gc wr (aa_anchor aa) (aa_root aa) (aa_files aa) requested selected of
           Inl e \<Rightarrow> (st, Inl (Passed e))
         | Inr (Invalid code entry_id changed) \<Rightarrow>
             (case mark_source_changed (aa_mark aa) (ws_workspace_id wr) changed st of
                (st, Inl e) \<Rightarrow> (st, Inl e)
              | (st, Inr _) \<Rightarrow> (st, Inl (SourceAuthorization code w entry_id)))
         | Inr (Valid validated) \<Rightarrow>
             publish aa w approval r (hd requested)
               (issued w approval r wr (aa_issued_at aa + gc_token_ttl_seconds gc) (aa_tokens aa) validated selected)
               st))"

section \<open>Opening an approved source\<close>

definition grant_remains_authorized :: "TransmissionAuthoritySnapshot \<Rightarrow> ReadGrant \<Rightarrow> bool" where
  "grant_remains_authorized authority g =
     (case (ts_approval authority, ts_revision authority) of
        (Some approval, Some r) \<Rightarrow>
          map_option ae_sha256 (find (\<lambda>a. ae_entry_id a = rg_entry_id g) (ap_entries approval)) = Some (rg_sha256 g) \<and>
          (case find (\<lambda>e. me_entry_id e = rg_entry_id g) (rev_entries r) of
             None \<Rightarrow> False
           | Some e \<Rightarrow> me_state e = SourceState.APPROVED \<and> me_included e \<and> me_sha256 e = Some (rg_sha256 g))
      | _ \<Rightarrow> False)"

text \<open>
  How the code that reads the opened source ends. The generator is suspended inside \<open>anchor_root\<close>,
  whose \<open>except OSError\<close> turns every \<open>OSError\<close> of that code into a \<open>SecureOpenError\<close>.
\<close>

datatype consumer = Returns | Raises_OSError | Raises_SecureOpenError | Raises_other

text \<open>\<open>others 0\<close> runs after the token is taken, \<open>others 1\<close> after the approval is released\<close>

record open_access =
  oa_consumed_at :: rat
  oa_others :: "nat \<Rightarrow> tx_state \<Rightarrow> tx_state"
  oa_hold_fails :: bool
  oa_anchor :: "os_error + RootAnchor"
  oa_root :: root_access
  oa_copy :: copy_access
  oa_consumer :: consumer
  oa_release_error :: "py_error option"
  oa_mark :: mark_access

text \<open>
  The block under the held approval: the bytes handed to the reading code, if any, and either an
  exception that passes through, a failure code, or a normal return.
\<close>

definition held_read ::
  "gate_config \<Rightarrow> open_access \<Rightarrow> ReadGrant \<Rightarrow> TransmissionAuthoritySnapshot
    \<Rightarrow> string option \<times> (gate_error + string option)" where
  "held_read gc oa g authority =
     (let wr = ts_workspace authority;
          failed = (\<lambda>code. (None, Inr (Some code))) in
      if \<not> grant_remains_authorized authority g then failed ''source_approval_revoked''
      else if ws_root_device wr \<noteq> rg_root_device g \<or> ws_root_file_id wr \<noteq> rg_root_file_id g
      then failed ''source_root_identity_changed''
      else case oa_anchor oa of
        Inl OSError \<Rightarrow> (None, Inl (Passed (Opening OSError)))
      | Inl (SecureOpenError code) \<Rightarrow> failed ''approved_source_changed''
      | Inr anchor \<Rightarrow>
        if \<not> root_matches (gc_env gc) wr anchor then failed ''source_root_identity_changed''
        else (case grant_entry g of
          Inl e \<Rightarrow> (None, Inl (Passed (Raised e)))
        | Inr e \<Rightarrow>
          (case copy_revalidated_entry (gc_env gc) (gc_policy gc) anchor (oa_root oa) (oa_copy oa) e of
             Inl err \<Rightarrow> failed ''approved_source_changed''
           | Inr (current, spool) \<Rightarrow>
             if \<not> entry_matches e current (rg_sha256 g) then failed ''approved_source_changed''
             else (Some spool,
               case oa_consumer oa of
                 Returns \<Rightarrow> Inr None
               | Raises_OSError \<Rightarrow> Inr (Some ''approved_source_changed'')
               | Raises_SecureOpenError \<Rightarrow> Inr (Some ''approved_source_changed'')
               | Raises_other \<Rightarrow> Inl ConsumerError))))"

text \<open>the state after the call, the bytes that were handed out, and the exception raised, if any\<close>

definition finish_read ::
  "open_access \<Rightarrow> ReadGrant \<Rightarrow> string \<Rightarrow> gate_error + string option \<Rightarrow> tx_state \<Rightarrow> tx_state \<times> gate_error option" where
  "finish_read oa g w outcome st =
     (let failed = (\<lambda>code. Some (SourceAuthorization code (rg_workspace_id g) (rg_entry_id g))) in
      case outcome of
        Inl e \<Rightarrow> (st, Some e)
      | Inr code \<Rightarrow>
        (case oa_release_error oa of
           Some TransmissionAuthorityRevokedError \<Rightarrow> (st, failed ''source_approval_revoked'')
         | Some e \<Rightarrow> (st, failed ''source_store_unavailable'')
         | None \<Rightarrow>
           (case code of
              None \<Rightarrow> (st, None)
            | Some code \<Rightarrow>
              let st = oa_others oa 1 st in
              if code = ''source_approval_revoked'' then (st, failed code)
              else (case mark_source_changed (oa_mark oa) w [rg_entry_id g] st of
                (st, Inl e) \<Rightarrow> (st, Some e)
              | (st, Inr _) \<Rightarrow> (st, failed code)))))"

definition open_approved ::
  "gate_config \<Rightarrow> open_access \<Rightarrow> string \<Rightarrow> tx_state \<Rightarrow> tx_state \<times> string option \<times> gate_error option" where
  "open_approved gc oa token st =
     (let grant = map_of (tx_grants st) token;
          st = st\<lparr>tx_grants := purge_expired (oa_consumed_at oa) (AList.delete token (tx_grants st))\<rparr> in
      case grant of
        None \<Rightarrow> (st, None, Some (SourceAuthorization ''read_token_invalid'' [] []))
      | Some g \<Rightarrow>
        let failed = (\<lambda>code. Some (SourceAuthorization code (rg_workspace_id g) (rg_entry_id g))) in
        if rg_expires_at g \<le> oa_consumed_at oa then (st, None, failed ''read_token_expired'')
        else let st = oa_others oa 0 st in
        (case (if oa_hold_fails oa then Inl RuntimeError
               else hold_transmission_authority (rg_workspace_id g) (rg_approval_id g) (rg_revision_id g)
                      None (tx_db st)) of
           Inl TransmissionAuthorityRevokedError \<Rightarrow> (st, None, failed ''source_approval_revoked'')
         | Inl e \<Rightarrow> (st, None, failed ''source_store_unavailable'')
         | Inr (db, authority) \<Rightarrow>
           (case held_read gc oa g authority of (bytes, outcome) \<Rightarrow>
             (case finish_read oa g (ws_workspace_id (ts_workspace authority)) outcome (st\<lparr>tx_db := db\<rparr>) of
                (st, raised) \<Rightarrow> (st, bytes, raised)))))"

end
