(* ===== verification/Transmission_Correctness.thy ===== *)
theory Transmission_Correctness
  imports Transmission Scanner_Correctness Workspace_Correctness
begin

text \<open>
  What the transmission gate hands out: only bytes whose hash the held approval lists, once per token
  and before it expires; what it issues was revalidated under an approval that is still current.
\<close>

section \<open>Copying an entry\<close>

lemma copy_revalidated_Inr:
  assumes "copy_revalidated_entry env policy anchor rt cp e = Inr (v, spool)"
  shows "rv_sha256 v = Some (se_sha256 env spool) \<and> length spool = me_size_bytes e \<and>
    int (length spool) \<le> sp_max_workspace_bytes policy \<and>
    (\<exists>st. cp_before cp = Inr st \<and> st_size st = int (length spool) \<and>
       map_sum id stat_identity (cp_after cp) = Inr (stat_identity st))"
  using assms by (auto simp: copy_revalidated_entry_def bind_res_Inr_iff split: if_splits)

lemma validate_same:
  "ManifestEntry_validate e = Inr e' \<Longrightarrow> me_size_bytes e' = me_size_bytes e \<and> me_entry_id e' = me_entry_id e"
  by (auto dest: validate_entry)

text \<open>what a held approval says of an entry\<close>

definition approves :: "TransmissionAuthoritySnapshot \<Rightarrow> string \<Rightarrow> string \<Rightarrow> bool" where
  "approves s i sha \<longleftrightarrow> (\<exists>a r. ts_approval s = Some a \<and> ts_revision s = Some r \<and>
     \<lparr>ae_entry_id = i, ae_sha256 = sha\<rparr> \<in> set (ap_entries a) \<and>
     (\<exists>e \<in> set (rev_entries r). me_entry_id e = i \<and> me_included e \<and> me_state e = SourceState.APPROVED \<and>
        me_sha256 e = Some sha))"

lemma remains_authorized_approves:
  assumes "grant_remains_authorized s g"
  shows "approves s (rg_entry_id g) (rg_sha256 g)"
proof -
  from assms obtain a r x e where s: "ts_approval s = Some a" "ts_revision s = Some r"
    and x: "find (\<lambda>a. ae_entry_id a = rg_entry_id g) (ap_entries a) = Some x" "ae_sha256 x = rg_sha256 g"
    and e: "find (\<lambda>e. me_entry_id e = rg_entry_id g) (rev_entries r) = Some e"
      "me_state e = SourceState.APPROVED" "me_included e" "me_sha256 e = Some (rg_sha256 g)"
    by (auto simp: grant_remains_authorized_def split: option.splits)
  from x have "x \<in> set (ap_entries a)" "ae_entry_id x = rg_entry_id g" by (auto simp: find_Some_iff)
  moreover have "\<lparr>ae_entry_id = rg_entry_id g, ae_sha256 = rg_sha256 g\<rparr> = x"
    using calculation x(2) by (intro ApprovedEntryHash.equality) simp_all
  moreover from e have "e \<in> set (rev_entries r)" "me_entry_id e = rg_entry_id g" by (auto simp: find_Some_iff)
  ultimately show ?thesis using s e unfolding approves_def by auto
qed

lemma held_read_bytes:
  assumes "held_read gc oa g s = (Some bytes, outcome)"
  shows "approves s (rg_entry_id g) (se_sha256 (gc_env gc) bytes) \<and> length bytes = rg_size_bytes g \<and>
    outcome = (case oa_consumer oa of Returns \<Rightarrow> Inr None | Raises_other \<Rightarrow> Inl ConsumerError
      | _ \<Rightarrow> Inr (Some ''approved_source_changed''))"
proof -
  from assms obtain anchor e v where auth: "grant_remains_authorized s g"
    and e: "grant_entry g = Inr e"
    and copy: "copy_revalidated_entry (gc_env gc) (gc_policy gc) anchor (oa_root oa) (oa_copy oa) e = Inr (v, bytes)"
    and m: "entry_matches e v (rg_sha256 g)"
    and out: "outcome = (case oa_consumer oa of Returns \<Rightarrow> Inr None | Raises_other \<Rightarrow> Inl ConsumerError
      | _ \<Rightarrow> Inr (Some ''approved_source_changed''))"
    by (auto simp: held_read_def Let_def split: if_splits sum.splits os_error.splits consumer.splits)
  note c = copy_revalidated_Inr [OF copy]
  from c m have sha: "rg_sha256 g = se_sha256 (gc_env gc) bytes" by (simp add: entry_matches_def)
  from e have "me_size_bytes e = rg_size_bytes g"
    unfolding grant_entry_def by (auto dest: validate_same)
  with remains_authorized_approves [OF auth] c out show ?thesis by (simp add: sha)
qed

section \<open>Opening\<close>

text \<open>the state when the token has been taken, and when the approval is held\<close>

definition token_taken :: "open_access \<Rightarrow> string \<Rightarrow> tx_state \<Rightarrow> tx_state" where
  "token_taken oa token st =
     st\<lparr>tx_grants := purge_expired (oa_consumed_at oa) (AList.delete token (tx_grants st))\<rparr>"

lemma open_approved_bytes:
  assumes "open_approved gc oa token st = (st', Some bytes, raised)"
  shows "\<exists>g s outcome db. map_of (tx_grants st) token = Some g \<and> oa_consumed_at oa < rg_expires_at g \<and>
    hold_transmission_authority (rg_workspace_id g) (rg_approval_id g) (rg_revision_id g) None
      (tx_db (oa_others oa 0 (token_taken oa token st))) = Inr (db, s) \<and>
    held_read gc oa g s = (Some bytes, outcome) \<and>
    finish_read oa g (ws_workspace_id (ts_workspace s)) outcome
      ((oa_others oa 0 (token_taken oa token st))\<lparr>tx_db := db\<rparr>) = (st', raised)"
  using assms unfolding open_approved_def token_taken_def [symmetric] Let_def
  by (auto split: option.splits if_splits sum.splits py_error.splits prod.splits)

lemma delete_purged [simp]:
  "map_of (purge_expired now (AList.delete token grants)) token = None"
  by (auto simp: purge_expired_def map_of_eq_None_iff AList.delete_eq)

lemma token_taken_gone: "token \<notin> fst ` set (tx_grants (token_taken oa token st))"
  by (auto simp: token_taken_def purge_expired_def AList.delete_eq)

lemma mark_source_changed_grants [simp]:
  "tx_grants (fst (mark_source_changed mk w ids st)) = tx_grants st"
  by (auto simp: mark_source_changed_def split: sum.splits)

lemma finish_read_grants:
  "tx_grants (fst (finish_read oa g w outcome st)) \<in> {tx_grants st, tx_grants (oa_others oa 1 st)}"
proof -
  have m: "mark_source_changed mk w ids s = (s', r) \<Longrightarrow> tx_grants s' = tx_grants s" for mk w ids s s' r
    using mark_source_changed_grants [of mk w ids s] by simp
  show ?thesis
    by (auto simp: finish_read_def Let_def dest: m split: sum.splits option.splits py_error.splits prod.splits)
qed

lemma open_approved_grants:
  "let s0 = oa_others oa 0 (token_taken oa token st) in
   tx_grants (fst (open_approved gc oa token st)) \<in> {tx_grants (token_taken oa token st), tx_grants s0} \<or>
   (\<exists>db. tx_grants (fst (open_approved gc oa token st)) = tx_grants (oa_others oa 1 (s0\<lparr>tx_db := db\<rparr>)))"
proof -
  have f: "finish_read oa g w outcome (s\<lparr>tx_db := db\<rparr>) = (s', raised) \<Longrightarrow>
      tx_grants s' = tx_grants s \<or> tx_grants s' = tx_grants (oa_others oa 1 (s\<lparr>tx_db := db\<rparr>))"
    for g w outcome s db s' raised
    using finish_read_grants [of oa g w outcome "s\<lparr>tx_db := db\<rparr>"] by auto
  show ?thesis
    unfolding open_approved_def token_taken_def [symmetric] Let_def
    by (auto dest!: f split: option.splits sum.splits py_error.splits prod.splits)
qed

section \<open>The gate and the store together\<close>

text \<open>other threads run transactions of the store; what they do to the grants is left open\<close>

definition store_threads :: "(nat \<Rightarrow> tx_state \<Rightarrow> tx_state) \<Rightarrow> bool" where
  "store_threads others \<longleftrightarrow> (\<forall>k s. workspace_step\<^sup>*\<^sup>* (tx_db s) (tx_db (others k s)))"

inductive gate_step :: "gate_config \<Rightarrow> tx_state \<Rightarrow> tx_state \<Rightarrow> bool" for gc where
  gate_authorize: "authorize gc aa w requested st = (st', r) \<Longrightarrow> store_threads (aa_others aa) \<Longrightarrow>
     gate_step gc st st'"
| gate_open: "open_approved gc oa token st = (st', bytes, raised) \<Longrightarrow> store_threads (oa_others oa) \<Longrightarrow>
     gate_step gc st st'"
| gate_store: "workspace_step (tx_db st) db \<Longrightarrow> gate_step gc st (st\<lparr>tx_db := db\<rparr>)"

inductive_cases gate_stepE: "gate_step gc st st'"

definition gate_init :: "tx_state \<Rightarrow> bool" where
  "gate_init st \<longleftrightarrow> tx_grants st = [] \<and> tx_db st = empty_workspace_db"

lemma others_inv [keep_inv]:
  "store_threads others \<Longrightarrow> store_inv (tx_db s) \<Longrightarrow> store_inv (tx_db (others k s))"
  by (auto simp: store_threads_def intro: workspace_store.steps_inv)

lemma mark_source_changed_inv [keep_inv]:
  "mark_source_changed mk w ids st = (st', r) \<Longrightarrow> store_inv (tx_db st) \<Longrightarrow> store_inv (tx_db st')"
  by (auto simp: mark_source_changed_def split: if_splits sum.splits intro: mark_entries_changed_latest_inv)

lemma finish_read_inv [keep_inv]:
  "finish_read oa g w outcome st = (st', r) \<Longrightarrow> store_threads (oa_others oa) \<Longrightarrow> store_inv (tx_db st) \<Longrightarrow>
     store_inv (tx_db st')"
  by (auto simp: finish_read_def Let_def split: if_splits sum.splits option.splits py_error.splits prod.splits
      intro: others_inv dest: mark_source_changed_inv)

lemma open_approved_inv [keep_inv]:
  assumes "open_approved gc oa token st = (st', bytes, raised)" and "store_threads (oa_others oa)"
    and "store_inv (tx_db st)"
  shows "store_inv (tx_db st')"
proof -
  have taken: "store_inv (tx_db (token_taken oa token st))" using assms(3) by (simp add: token_taken_def)
  note held = others_inv [OF assms(2) taken, of 0]
  let ?s0 = "oa_others oa 0 (token_taken oa token st)"
  from assms(1) have "st' = token_taken oa token st \<or> st' = ?s0 \<or>
      (\<exists>g db s outcome. hold_transmission_authority (rg_workspace_id g) (rg_approval_id g) (rg_revision_id g) None
           (tx_db ?s0) = Inr (db, s) \<and>
         finish_read oa g (ws_workspace_id (ts_workspace s)) outcome (?s0\<lparr>tx_db := db\<rparr>) = (st', raised))"
    unfolding open_approved_def token_taken_def [symmetric] Let_def
    by (auto split: option.splits if_splits sum.splits py_error.splits prod.splits)
  then show ?thesis
  proof (elim disjE exE conjE)
    fix g db s outcome
    assume h: "hold_transmission_authority (rg_workspace_id g) (rg_approval_id g) (rg_revision_id g) None
        (tx_db ?s0) = Inr (db, s)"
      and f: "finish_read oa g (ws_workspace_id (ts_workspace s)) outcome (?s0\<lparr>tx_db := db\<rparr>) = (st', raised)"
    from hold_inv [OF h held] have "store_inv (tx_db (?s0\<lparr>tx_db := db\<rparr>))" by simp
    from finish_read_inv [OF f assms(2) this] show ?thesis .
  qed (use taken held in simp_all)
qed

lemma publish_db:
  "publish aa w a r first items st = (st', res) \<Longrightarrow> tx_db st' = tx_db st \<or>
     (\<exists>s. hold_transmission_authority w (ap_approval_id a) (rev_revision_id r) (Some (aa_verified_at aa)) (tx_db st)
        = Inr (tx_db st', s))"
  by (auto simp: publish_def Let_def split: if_splits sum.splits py_error.splits option.splits)

lemma publish_inv [keep_inv]:
  "publish aa w a r first items st = (st', res) \<Longrightarrow> store_inv (tx_db st) \<Longrightarrow> store_inv (tx_db st')"
  using publish_db [of aa w a r first items st st' res] hold_inv by auto

lemma authorize_inv [keep_inv]:
  assumes "authorize gc aa w requested st = (st', r)" and "store_threads (aa_others aa)"
    and "store_inv (tx_db st)"
  shows "store_inv (tx_db st')"
proof -
  let ?purged = "st\<lparr>tx_grants := purge_expired (aa_purged_at aa) (tx_grants st)\<rparr>"
  have purged: "store_inv (tx_db ?purged)" using assms(3) by simp
  note snap = others_inv [OF assms(2) purged, of 0]
  note pub = others_inv [OF assms(2) snap, of 1]
  from assms(1) show ?thesis
    unfolding authorize_def Let_def
    by (auto split: if_splits sum.splits validation.splits prod.splits
        simp: assms(3) snap [simplified] pub [simplified]
        dest: mark_source_changed_inv [OF _ pub, simplified] publish_inv [OF _ pub, simplified])
qed

lemma gate_step_inv: "gate_step gc st st' \<Longrightarrow> store_inv (tx_db st) \<Longrightarrow> store_inv (tx_db st')"
  by (elim gate_stepE) (auto intro: authorize_inv open_approved_inv workspace_step_inv)

interpretation gate: transition_system gate_init "gate_step gc" "\<lambda>st. store_inv (tx_db st)" for gc
  by unfold_locales (auto simp: gate_init_def store_inv_empty intro: gate_step_inv)

section \<open>A concrete approved course\<close>

definition gate_entry :: ManifestEntry where
  "gate_entry = (demo_entry ''e1'' ''a.pdf'' hash_a True)\<lparr>me_size_bytes := 3, me_modified_ns := Some 5,
     me_device_id := Some ''1'', me_file_id := Some ''7''\<rparr>"

definition gate_scan :: ScanResult where
  "gate_scan = \<lparr>sr_workspace_id = ''c1'', sr_entries = [gate_entry], sr_discovered_count = 1,
     sr_bytes_hashed = 3, sr_failure_count = 0, sr_completed_at = 5\<rparr>"

definition gate_record :: WorkspaceRecord where
  "gate_record = demo_record\<lparr>ws_canonical_root := ''/c'', ws_root_device := Some ''1'',
     ws_root_file_id := Some ''2''\<rparr>"

definition gate_created :: workspace_db where
  "gate_created = db_after (create_workspace_with_initial_job 1 gate_record
     (demo_job ''j1'' ''initial_scan'') ''k'' None course_claimed)"

definition gate_started :: workspace_db where
  "gate_started = db_after (start_job 2 ''j1'' gate_created)"

definition gate_scanned :: workspace_db where
  "gate_scanned = db_after (commit_scan ''r1'' ''c1'' gate_scan ''j1'' gate_started)"

definition gate_db :: workspace_db where
  "gate_db = db_after (approve ''a1'' 6 ''c1'' ''r1'' ''workspace-v1'' None gate_scanned)"

lemma gate_calls_succeed:
  "succeeded (create_workspace_with_initial_job 1 gate_record (demo_job ''j1'' ''initial_scan'') ''k'' None course_claimed)"
  "succeeded (start_job 2 ''j1'' gate_created)"
  "succeeded (commit_scan ''r1'' ''c1'' gate_scan ''j1'' gate_started)"
  "succeeded (approve ''a1'' 6 ''c1'' ''r1'' ''workspace-v1'' None gate_scanned)"
  by code_simp+

lemma reach_gate_db: "reachable_store gate_db"
proof -
  have "reachable_store empty_workspace_db" by (rule reach_init) simp
  then have "reachable_store course_claimed"
    unfolding course_claimed_def by (rule reach_call [OF _ course_calls_succeed(1)]) (auto intro: ws_claim)
  then have "reachable_store gate_created"
    unfolding gate_created_def
    by (rule reach_call [OF _ gate_calls_succeed(1)])
      (rule ws_create, assumption, simp add: fresh_workspace_def gate_record_def demo_record_def)
  then have "reachable_store gate_started"
    unfolding gate_started_def by (rule reach_call [OF _ gate_calls_succeed(2)]) (rule ws_start)
  then have "reachable_store gate_scanned"
    unfolding gate_scanned_def by (rule reach_call [OF _ gate_calls_succeed(3)]) (rule ws_commit)
  then show ?thesis
    unfolding gate_db_def by (rule reach_call [OF _ gate_calls_succeed(4)]) (rule ws_approve)
qed

definition gate_config0 :: gate_config where
  "gate_config0 = \<lparr>gc_env = demo_scan_env, gc_policy = DEFAULT_SCAN_POLICY, gc_token_ttl_seconds = 60\<rparr>"

definition gate_anchor :: RootAnchor where
  "gate_anchor = \<lparr>ra_canonical_root = ''/c'', ra_platform = ''posix'', ra_identity = Some (1, 2)\<rparr>"

definition gate_root :: root_access where
  "gate_root = \<lparr>rt_link = Inr False, rt_resolve = Inr ''/c'', rt_stat = Inr (demo_stat DIRECTORY 2 0),
     rt_reparse = Inr False\<rparr>"

definition gate_mark :: mark_access where
  "gate_mark = \<lparr>mk_fails = False, mk_fresh = ''r2'', mk_now = 20\<rparr>"

definition gate_authorize :: authorize_access where
  "gate_authorize = \<lparr>aa_purged_at = 1, aa_issued_at = 2, aa_snapshot_fails = False, aa_anchor = Inr gate_anchor,
     aa_root = gate_root, aa_files = (\<lambda>_. demo_access 7 ''one''), aa_mark = gate_mark,
     aa_tokens = nat_str, aa_verified_at = 8, aa_hold_fails = False, aa_release_error = None,
     aa_others = (\<lambda>_ s. s)\<rparr>"

definition gate_copy :: copy_access where
  "gate_copy = \<lparr>cp_open = Inr (), cp_before = Inr (demo_stat REGULAR 7 3),
     cp_reads = (\<lambda>k n. Inr (if k = 0 then ''one'' else [])), cp_written = (\<lambda>_. True),
     cp_after = Inr (demo_stat REGULAR 7 3)\<rparr>"

definition gate_open_access :: "consumer \<Rightarrow> open_access" where
  "gate_open_access c = \<lparr>oa_consumed_at = 3, oa_others = (\<lambda>_ s. s), oa_hold_fails = False,
     oa_anchor = Inr gate_anchor, oa_root = gate_root, oa_copy = gate_copy, oa_consumer = c,
     oa_release_error = None, oa_mark = gate_mark\<rparr>"

definition gate_start :: tx_state where
  "gate_start = \<lparr>tx_grants = [], tx_db = gate_db\<rparr>"

definition gate_authorized :: "tx_state \<times> (gate_error + ApprovedSource list)" where
  "gate_authorized = authorize gate_config0 gate_authorize ''c1'' [''e1''] gate_start"

definition gate_opened :: "consumer \<Rightarrow> tx_state \<times> string option \<times> gate_error option" where
  "gate_opened c = open_approved gate_config0 (gate_open_access c) ''0'' (fst gate_authorized)"

lemma gate_results:
  "map_sum id (map src_entry_id) (snd gate_authorized) = Inr [''e1'']"
  "snd (gate_opened Returns) = (Some ''one'', None)"
  "snd (gate_opened Raises_OSError) =
     (Some ''one'', Some (SourceAuthorization ''approved_source_changed'' ''c1'' ''e1''))"
  by code_simp+

lemma gate_quiet: "store_threads (oa_others (gate_open_access c))" "store_threads (aa_others gate_authorize)"
  by (simp_all add: store_threads_def gate_open_access_def gate_authorize_def)

lemma reach_gate_store: "reachable_store db \<Longrightarrow> reach gate_init (gate_step gc) \<lparr>tx_grants = [], tx_db = db\<rparr>"
proof (induction rule: reach.induct)
  case (reach_init db)
  then show ?case by (intro reach.reach_init) (simp add: gate_init_def)
next
  case (reach_step db db')
  have "gate_step gc \<lparr>tx_grants = [], tx_db = db\<rparr> (\<lparr>tx_grants = [], tx_db = db\<rparr>\<lparr>tx_db := db'\<rparr>)"
    using reach_step.hyps(2) by (intro gate_store) simp
  then show ?case using reach.reach_step [OF reach_step.IH] by simp
qed

lemma reach_gate_authorized: "reach gate_init (gate_step gate_config0) (fst gate_authorized)"
proof -
  have "gate_step gate_config0 gate_start (fst gate_authorized)"
    by (rule gate_authorize [OF _ gate_quiet(2), where r = "snd gate_authorized"])
      (simp add: gate_authorized_def)
  then show ?thesis
    using reach.reach_step [OF reach_gate_store [OF reach_gate_db]] by (simp add: gate_start_def)
qed

section \<open>Properties of opening\<close>

text \<open>
  C15: Bytes leave only under approval: when opening a token hands out bytes, the token was issued and
  had not expired, the approval it was issued under is held at that moment and is the approval of the
  current draft, and that approval lists the SHA-256 of exactly these bytes for an entry which the
  manifest includes as approved. Other threads may have done anything before.
\<close>

theorem opened_bytes_are_approved:
  assumes "open_approved gc oa token st = (st', Some bytes, raised)"
  shows "\<exists>g s. map_of (tx_grants st) token = Some g \<and> oa_consumed_at oa < rg_expires_at g \<and>
    get_workspace (rg_workspace_id g) (tx_db (oa_others oa 0 (token_taken oa token st))) = Some (ts_workspace s) \<and>
    ws_state (ts_workspace s) = WorkspaceState.APPROVED \<and>
    ws_current_draft_revision_id (ts_workspace s) = Some (rg_revision_id g) \<and>
    ws_current_approved_revision_id (ts_workspace s) = Some (rg_revision_id g) \<and>
    map_option ap_approval_id (ts_approval s) = Some (rg_approval_id g) \<and>
    approves s (rg_entry_id g) (se_sha256 (gc_env gc) bytes) \<and> length bytes = rg_size_bytes g"
proof -
  from open_approved_bytes [OF assms] obtain g s outcome db where
    g: "map_of (tx_grants st) token = Some g" "oa_consumed_at oa < rg_expires_at g"
    and hold: "hold_transmission_authority (rg_workspace_id g) (rg_approval_id g) (rg_revision_id g) None
      (tx_db (oa_others oa 0 (token_taken oa token st))) = Inr (db, s)"
    and read: "held_read gc oa g s = (Some bytes, outcome)" by blast
  from hold_Inr [OF hold] held_read_bytes [OF read] g show ?thesis
    by (intro exI [of _ g] exI [of _ s]) auto
qed

theorem opened_bytes_are_approved_witness:
  "\<exists>g s. map_of (tx_grants (fst gate_authorized)) ''0'' = Some g \<and> (3 :: rat) < rg_expires_at g \<and>
     approves s (rg_entry_id g) hash_a \<and> length ''one'' = rg_size_bytes g"
proof -
  from gate_results(2) have "gate_opened Returns = (fst (gate_opened Returns), Some ''one'', None)"
    by (metis prod.collapse)
  from opened_bytes_are_approved [OF this [unfolded gate_opened_def]]
  obtain g s where "map_of (tx_grants (fst gate_authorized)) ''0'' = Some g"
    "oa_consumed_at (gate_open_access Returns) < rg_expires_at g"
    "approves s (rg_entry_id g) (se_sha256 (gc_env gate_config0) ''one'')" "length ''one'' = rg_size_bytes g"
    by (elim exE conjE) (rule that, assumption+)
  then show ?thesis by (auto simp: gate_open_access_def gate_config0_def demo_scan_env_def)
qed

text \<open>
  C17: A token opens once and not after it expires: whatever the outcome of opening it, opening it again
  raises \<open>read_token_invalid\<close> and changes nothing in the database, unless another thread publishes the
  same token; an expired token hands out nothing.
\<close>

theorem read_token_single_use:
  assumes "open_approved gc oa token st = (st', bytes, raised)"
    and "\<And>k s. token \<notin> fst ` set (tx_grants s) \<Longrightarrow> token \<notin> fst ` set (tx_grants (oa_others oa k s))"
  shows "snd (open_approved gc oa' token st') = (None, Some (SourceAuthorization ''read_token_invalid'' [] [])) \<and>
    tx_db (fst (open_approved gc oa' token st')) = tx_db st' \<and>
    (\<forall>g. map_of (tx_grants st) token = Some g \<longrightarrow> rg_expires_at g \<le> oa_consumed_at oa \<longrightarrow>
       bytes = None \<and> raised = Some (SourceAuthorization ''read_token_expired'' (rg_workspace_id g) (rg_entry_id g)))"
proof -
  let ?s0 = "oa_others oa 0 (token_taken oa token st)"
  have gone: "token \<notin> fst ` set (tx_grants ?s0)" by (rule assms(2) [OF token_taken_gone])
  then have later: "token \<notin> fst ` set (tx_grants (oa_others oa 1 (?s0\<lparr>tx_db := db\<rparr>)))" for db
    by (intro assms(2)) simp
  from open_approved_grants [of oa token st gc, unfolded assms(1) fst_conv Let_def]
  have "token \<notin> fst ` set (tx_grants st')"
  proof (elim disjE exE)
    fix db
    assume "tx_grants st' = tx_grants (oa_others oa 1 (?s0\<lparr>tx_db := db\<rparr>))"
    with later show ?thesis by (simp only: not_False_eq_True)
  qed (use gone token_taken_gone [of token oa st] in auto)
  then have "map_of (tx_grants st') token = None" by (simp add: map_of_eq_None_iff)
  then have "open_approved gc oa' token st' =
      (token_taken oa' token st', None, Some (SourceAuthorization ''read_token_invalid'' [] []))"
    by (simp add: open_approved_def token_taken_def)
  moreover have "bytes = None \<and> raised = Some (SourceAuthorization ''read_token_expired'' (rg_workspace_id g) (rg_entry_id g))"
    if "map_of (tx_grants st) token = Some g" "rg_expires_at g \<le> oa_consumed_at oa" for g
    using assms(1) that by (simp add: open_approved_def Let_def)
  ultimately show ?thesis by (auto simp: token_taken_def)
qed

theorem read_token_single_use_witness:
  "snd (gate_opened Returns) = (Some ''one'', None) \<and>
   snd (open_approved gate_config0 (gate_open_access Returns) ''0'' (fst (gate_opened Returns))) =
     (None, Some (SourceAuthorization ''read_token_invalid'' [] []))"
proof -
  have "gate_opened Returns = (fst (gate_opened Returns), fst (snd (gate_opened Returns)), snd (snd (gate_opened Returns)))"
    by simp
  from read_token_single_use [OF this [unfolded gate_opened_def], of "gate_open_access Returns"]
  have "snd (open_approved gate_config0 (gate_open_access Returns) ''0'' (fst (gate_opened Returns))) =
     (None, Some (SourceAuthorization ''read_token_invalid'' [] []))"
    unfolding gate_opened_def by (simp add: gate_open_access_def)
  with gate_results(2) show ?thesis by (intro conjI)
qed

section \<open>Revalidation\<close>

lemma revalidate_entry_ok:
  assumes "revalidate_entry env policy fa used e = Inr (used', v)" and "rv_failure_code v = None"
    and "rv_sha256 v = Some sha"
  shows "\<exists>data st. stable_read fa data st \<and> sha = se_sha256 env data"
proof -
  from assms have ok: "ro_failure_code (read_source env policy fa False) = None"
    "ro_sha256 (read_source env policy fa False) = Some sha"
    by (auto simp: revalidate_entry_def failed_read_def Let_def split: if_splits sum.splits os_error.splits)
  from read_source_ok [OF ok(1)] ok(2) show ?thesis by auto
qed

lemma revalidate_loop_nth:
  "revalidate_loop env policy access k used es = Inr vs \<Longrightarrow> length vs = length es \<and>
     (\<forall>i < length es. \<exists>u u'. revalidate_entry env policy (access (k + i)) u (es ! i) = Inr (u', vs ! i))"
proof (induction es arbitrary: k used vs)
  case (Cons e es)
  from Cons.prems obtain used' v vs' where one: "revalidate_entry env policy (access k) used e = Inr (used', v)"
    and rest: "revalidate_loop env policy access (Suc k) used' es = Inr vs'" and vs: "vs = v # vs'"
    by (auto simp: bind_res_Inr_iff)
  show ?case
  proof (intro conjI allI impI)
    show "length vs = length (e # es)" using Cons.IH [OF rest] vs by simp
    fix i
    assume i: "i < length (e # es)"
    show "\<exists>u u'. revalidate_entry env policy (access (k + i)) u ((e # es) ! i) = Inr (u', vs ! i)"
    proof (cases i)
      case 0
      then show ?thesis using one vs by auto
    next
      case (Suc j)
      then show ?thesis using Cons.IH [OF rest] i vs by auto
    qed
  qed
qed simp

lemma revalidate_entry_id:
  "revalidate_entry env policy fa u e = Inr (u', v) \<Longrightarrow> rv_entry_id v = me_entry_id e"
  by (auto simp: revalidate_entry_def Let_def split: if_splits sum.splits os_error.splits)

lemma validate_sources_valid:
  assumes "validate_sources gc wr anchored rt files requested selected = Inr (Valid validated)"
    and "distinct (map (\<lambda>(e, sha). me_entry_id e) selected)" and "k < length selected"
    and "selected ! k = (e, sha)"
  shows "\<exists>v data st. validated (me_entry_id e) = Some v \<and> stable_read (files k) data st \<and>
    sha = se_sha256 (gc_env gc) data \<and> rv_size_bytes v = me_size_bytes e"
proof -
  from assms(1) obtain anchor result where
    rv: "revalidate_entries (gc_env gc) (gc_policy gc) anchor rt files (map fst selected) = Inr result"
    and val: "validated = map_of (rev (map (\<lambda>v. (rv_entry_id v, v)) (vr_entries result)))"
    and good: "mismatched validated selected = []"
    by (auto simp: validate_sources_def Let_def bind_res_def
        split: if_splits sum.splits scan_error.splits os_error.splits)
  from rv have loop: "revalidate_loop (gc_env gc) (gc_policy gc) files 0 0 (map fst selected) = Inr (vr_entries result)"
    by (auto simp: revalidate_entries_def bind_res_Inr_iff split: if_splits)
  note nth = revalidate_loop_nth [OF loop]
  from good assms(3,4) have "\<not> (case validated (me_entry_id e) of None \<Rightarrow> True | Some v \<Rightarrow> \<not> entry_matches e v sha)"
    by (metis (no_types, lifting) filter_empty_conv map_is_Nil_conv mismatched_def nth_mem old.prod.case)
  then obtain v where v: "validated (me_entry_id e) = Some v" "entry_matches e v sha"
    by (auto split: option.splits)
  from v(1) have "v \<in> set (vr_entries result)" "rv_entry_id v = me_entry_id e"
    unfolding val by (auto dest!: map_of_SomeD)
  then obtain i where i: "i < length selected" "vr_entries result ! i = v"
    using nth by (auto simp: in_set_conv_nth)
  with nth obtain u u' where one: "revalidate_entry (gc_env gc) (gc_policy gc) (files i) u (fst (selected ! i)) = Inr (u', v)"
    by auto
  have "map (\<lambda>(e, sha). me_entry_id e) selected ! i = map (\<lambda>(e, sha). me_entry_id e) selected ! k"
    using revalidate_entry_id [OF one] \<open>rv_entry_id v = me_entry_id e\<close> assms(3,4) i by (simp add: split_beta)
  then have "i = k" using nth_eq_iff_index_eq [OF assms(2), of i k] assms(3) i(1) by simp
  with one have "revalidate_entry (gc_env gc) (gc_policy gc) (files k) u e = Inr (u', v)" by (simp add: assms(4))
  from revalidate_entry_ok [OF this, of sha] v show ?thesis by (auto simp: entry_matches_def)
qed

lemma select_entry_approves:
  assumes "select_entry w r a i = Inr (e, sha)" and "ts_approval s = Some a" and "ts_revision s = Some r"
  shows "me_entry_id e = i \<and> approves s i sha"
proof -
  from assms(1) have m: "map_of (rev (map (\<lambda>e. (me_entry_id e, e)) (rev_entries r))) i = Some e"
    "map_of (rev (map (\<lambda>a. (ae_entry_id a, ae_sha256 a)) (ap_entries a))) i = Some sha"
    and e: "me_sha256 e = Some sha" "me_included e" "me_state e = SourceState.APPROVED"
    by (auto simp: select_entry_def split: option.splits if_splits)
  from m(1) have e': "e \<in> set (rev_entries r)" "me_entry_id e = i" by (auto dest!: map_of_SomeD)
  from m(2) obtain x where x: "x \<in> set (ap_entries a)" "ae_entry_id x = i" "ae_sha256 x = sha"
    by (auto dest!: map_of_SomeD)
  then have "x = \<lparr>ae_entry_id = i, ae_sha256 = sha\<rparr>" by (intro ApprovedEntryHash.equality) simp_all
  with x e e' assms(2,3) show ?thesis unfolding approves_def by auto
qed

lemma select_entries_nth:
  "select_entries w r a ids = Inr xs \<Longrightarrow> length xs = length ids \<and>
     (\<forall>k < length ids. select_entry w r a (ids ! k) = Inr (xs ! k))"
proof (induction ids arbitrary: xs)
  case (Cons i ids)
  then obtain x ys where "select_entry w r a i = Inr x" "select_entries w r a ids = Inr ys" "xs = x # ys"
    by (auto simp: bind_res_Inr_iff)
  with Cons.IH [of ys] show ?case by (auto simp: nth_Cons' less_Suc_eq_0_disj)
qed simp

section \<open>Properties of authorization\<close>

text \<open>the state at the snapshot and when the tokens are published\<close>

definition at_snapshot :: "authorize_access \<Rightarrow> tx_state \<Rightarrow> tx_state" where
  "at_snapshot aa st = aa_others aa 0 (st\<lparr>tx_grants := purge_expired (aa_purged_at aa) (tx_grants st)\<rparr>)"

definition at_publication :: "authorize_access \<Rightarrow> tx_state \<Rightarrow> tx_state" where
  "at_publication aa st = aa_others aa 1 (at_snapshot aa st)"

text \<open>the \<open>k\<close>-th source: approved, just read with the approved hash, and opened by its token\<close>

definition soundly_issued ::
  "gate_config \<Rightarrow> authorize_access \<Rightarrow> TransmissionAuthoritySnapshot \<Rightarrow> tx_state \<Rightarrow> nat \<Rightarrow> ApprovedSource \<Rightarrow> bool" where
  "soundly_issued gc aa s st' k src \<longleftrightarrow>
     src_read_token src = aa_tokens aa k \<and> approves s (src_entry_id src) (src_sha256 src) \<and>
     (\<exists>data st. stable_read (aa_files aa k) data st \<and> src_sha256 src = se_sha256 (gc_env gc) data) \<and>
     (\<exists>g. map_of (tx_grants st') (aa_tokens aa k) = Some g \<and> rg_entry_id g = src_entry_id src \<and>
        rg_sha256 g = src_sha256 src \<and> map_option ap_approval_id (ts_approval s) = Some (rg_approval_id g) \<and>
        rg_expires_at g = aa_issued_at aa + gc_token_ttl_seconds gc)"

lemma map_of_update_grants:
  "distinct (map fst new) \<Longrightarrow> (t, g) \<in> set new \<Longrightarrow> map_of (update_grants new old) t = Some g"
proof -
  have frame: "t \<notin> fst ` set new \<Longrightarrow> map_of (update_grants new old) t = map_of old t" for new old
    by (induction new arbitrary: old) (auto simp: update_grants_def AList.update_conv')
  show "distinct (map fst new) \<Longrightarrow> (t, g) \<in> set new \<Longrightarrow> map_of (update_grants new old) t = Some g"
  proof (induction new arbitrary: old)
    case (Cons x new)
    obtain t' g' where x: "x = (t', g')" by (cases x)
    have step: "update_grants (x # new) old = update_grants new (AList.update t' g' old)"
      by (simp add: update_grants_def x)
    show ?case
    proof (cases "(t, g) \<in> set new")
      case True
      then show ?thesis unfolding step using Cons by simp
    next
      case False
      with Cons.prems x have "t = t'" "g = g'" "t \<notin> fst ` set new" by auto
      have "map_of (update_grants new (AList.update t' g' old)) t = map_of (AList.update t' g' old) t"
        by (rule frame) fact
      with \<open>t = t'\<close> \<open>g = g'\<close> show ?thesis unfolding step by (simp add: AList.update_conv')
    qed
  qed simp
qed

lemma authorize_cases:
  assumes "authorize gc aa w requested st = (st', Inr sources)"
  shows "\<exists>s a r selected validated. distinct requested \<and>
    transmission_authority_snapshot w (tx_db (at_snapshot aa st)) = Inr (Some s) \<and>
    ts_approval s = Some a \<and> ts_revision s = Some r \<and> select_entries w r a requested = Inr selected \<and>
    validate_sources gc (ts_workspace s) (aa_anchor aa) (aa_root aa) (aa_files aa) requested selected = Inr (Valid validated) \<and>
    publish aa w a r (hd requested) (issued w a r (ts_workspace s) (aa_issued_at aa + gc_token_ttl_seconds gc)
      (aa_tokens aa) validated selected) (at_publication aa st) = (st', Inr sources)"
  using assms unfolding authorize_def at_snapshot_def [symmetric] at_publication_def [symmetric] Let_def
  by (auto simp: select_sources_def Let_def bind_res_def
      split: if_splits sum.splits validation.splits prod.splits option.splits)

lemma issued_nth:
  assumes "k < length selected" and "selected ! k = (e, sha)"
  shows "issued w a r wr expires tokens validated selected ! k =
    issue w a r wr expires (tokens k) e sha (the (validated (me_entry_id e)))"
  using assms by (simp add: issued_def)

lemma length_issued [simp]: "length (issued w a r wr expires tokens validated selected) = length selected"
  by (simp add: issued_def)

lemma publish_success:
  assumes "publish aa w a r first items st = (st', Inr sources)"
  shows "sources = map snd items \<and>
    tx_grants st' = update_grants (map fst items) (purge_expired (aa_issued_at aa) (tx_grants st)) \<and>
    (\<exists>s. hold_transmission_authority w (ap_approval_id a) (rev_revision_id r) (Some (aa_verified_at aa)) (tx_db st)
       = Inr (tx_db st', s))"
  using assms by (auto simp: publish_def Let_def split: if_splits sum.splits py_error.splits option.splits)

text \<open>
  C16: Authorization issues only what was just revalidated: on success there is one source per
  requested entry, in order; each was listed by the approval of the snapshot for an included,
  approved entry, its bytes were read once more while the file kept its identity and hash to the
  approved hash, and its token opens until the time to live is over. The approval was held, and
  therefore still current, when the tokens were published.
\<close>

theorem authorize_issues_revalidated:
  assumes "authorize gc aa w requested st = (st', Inr sources)" and "distinct (map (aa_tokens aa) [0..<length requested])"
  shows "map src_entry_id sources = requested \<and>
    (\<exists>s s' a. transmission_authority_snapshot w (tx_db (at_snapshot aa st)) = Inr (Some s) \<and>
       (\<forall>k < length sources. soundly_issued gc aa s st' k (sources ! k)) \<and> ts_approval s = Some a \<and>
       hold_transmission_authority w (ap_approval_id a) (ap_revision_id a) (Some (aa_verified_at aa))
         (tx_db (at_publication aa st)) = Inr (tx_db st', s'))"
proof -
  from authorize_cases [OF assms(1)] obtain s a r selected validated where req: "distinct requested"
    and snap: "transmission_authority_snapshot w (tx_db (at_snapshot aa st)) = Inr (Some s)"
    and s: "ts_approval s = Some a" "ts_revision s = Some r"
    and sel: "select_entries w r a requested = Inr selected"
    and val: "validate_sources gc (ts_workspace s) (aa_anchor aa) (aa_root aa) (aa_files aa) requested selected
      = Inr (Valid validated)"
    and pub: "publish aa w a r (hd requested) (issued w a r (ts_workspace s)
      (aa_issued_at aa + gc_token_ttl_seconds gc) (aa_tokens aa) validated selected) (at_publication aa st)
      = (st', Inr sources)" by (elim exE conjE) (rule that, assumption+)
  let ?items = "issued w a r (ts_workspace s) (aa_issued_at aa + gc_token_ttl_seconds gc) (aa_tokens aa) validated selected"
  note sel' = select_entries_nth [OF sel]
  note pub' = publish_success [OF pub]
  have one: "select_entry w r a (requested ! k) = Inr (fst (selected ! k), snd (selected ! k))"
    "me_entry_id (fst (selected ! k)) = requested ! k" "approves s (requested ! k) (snd (selected ! k))"
    "?items ! k = issue w a r (ts_workspace s) (aa_issued_at aa + gc_token_ttl_seconds gc) (aa_tokens aa k)
       (fst (selected ! k)) (snd (selected ! k)) (the (validated (requested ! k)))"
    if "k < length requested" for k
  proof -
    show e: "select_entry w r a (requested ! k) = Inr (fst (selected ! k), snd (selected ! k))"
      using sel' that by simp
    from select_entry_approves [OF e s] show i: "me_entry_id (fst (selected ! k)) = requested ! k"
      and "approves s (requested ! k) (snd (selected ! k))" by simp_all
    show "?items ! k = issue w a r (ts_workspace s) (aa_issued_at aa + gc_token_ttl_seconds gc) (aa_tokens aa k)
       (fst (selected ! k)) (snd (selected ! k)) (the (validated (requested ! k)))"
      using issued_nth [of k selected "fst (selected ! k)" "snd (selected ! k)"] sel' that i by simp
  qed
  have ids: "map (\<lambda>(e, sha). me_entry_id e) selected = requested"
    using one(2) sel' by (intro nth_equalityI) (auto simp: split_beta)
  have len: "length sources = length requested" using pub' sel' by simp
  have src: "sources ! k = snd (?items ! k)" if "k < length requested" for k using pub' sel' that by simp
  have order: "map src_entry_id sources = requested"
    using one len src by (intro nth_equalityI) (auto simp: issue_def)
  have tokens: "distinct (map fst (map fst ?items))"
  proof -
    have "map fst (map fst ?items) = map (aa_tokens aa) [0..<length requested]"
      using one(4) sel' by (intro nth_equalityI) (auto simp: issue_def)
    with assms(2) show ?thesis by simp
  qed
  have sound: "soundly_issued gc aa s st' k (sources ! k)" if k: "k < length requested" for k
  proof -
    have "k < length selected" using k sel' by simp
    from validate_sources_valid [OF val _ this, of "fst (selected ! k)" "snd (selected ! k)"] req ids
    obtain data t where read: "stable_read (aa_files aa k) data t" "snd (selected ! k) = se_sha256 (gc_env gc) data"
      by auto
    have "fst (?items ! k) \<in> set (map fst ?items)" using k sel' by simp
    then have "map_of (tx_grants st') (aa_tokens aa k) = Some (snd (fst (?items ! k)))"
      using map_of_update_grants [OF tokens, of "aa_tokens aa k" "snd (fst (?items ! k))"] pub' one(4) [OF k]
      by (simp add: issue_def)
    then show ?thesis
      using one(3) [OF k] one(4) [OF k] one(2) [OF k] src [OF k] read s(1)
      unfolding soundly_issued_def
      by (intro conjI exI [of _ data] exI [of _ t] exI [of _ "snd (fst (?items ! k))"]) (simp_all add: issue_def)
  qed
  have rid: "rev_revision_id r = ap_revision_id a"
    using snap s by (auto simp: transmission_authority_snapshot_def bind_res_Inr_iff Let_def
        dest!: revision_Inr latest_approval_in split: option.splits)
  from pub' obtain s' where hold: "hold_transmission_authority w (ap_approval_id a) (ap_revision_id a)
      (Some (aa_verified_at aa)) (tx_db (at_publication aa st)) = Inr (tx_db st', s')"
    unfolding rid by blast
  show ?thesis
    by (rule conjI [OF order], rule exI [of _ s], rule exI [of _ s'], rule exI [of _ a])
      (use snap s(1) sound len hold in simp)
qed

theorem authorize_issues_revalidated_witness:
  "\<exists>sources s. snd gate_authorized = Inr sources \<and> map src_entry_id sources = [''e1''] \<and>
     soundly_issued gate_config0 gate_authorize s (fst gate_authorized) 0 (sources ! 0)"
proof -
  from gate_results(1) obtain sources where r: "snd gate_authorized = Inr sources"
    by (cases "snd gate_authorized") auto
  then have "gate_authorized = (fst gate_authorized, Inr sources)" by (metis prod.collapse)
  from authorize_issues_revalidated [OF this [unfolded gate_authorized_def]]
  have ids: "map src_entry_id sources = [''e1'']" and "\<exists>s. \<forall>k < length sources.
      soundly_issued gate_config0 gate_authorize s (fst gate_authorized) k (sources ! k)"
    by (auto simp: gate_authorized_def)
  then obtain s where s: "\<forall>k < length sources.
      soundly_issued gate_config0 gate_authorize s (fst gate_authorized) k (sources ! k)" by blast
  from ids have "0 < length sources" by auto
  with s have "soundly_issued gate_config0 gate_authorize s (fst gate_authorized) 0 (sources ! 0)" by simp
  with r ids show ?thesis by (intro exI conjI)
qed

section \<open>An error of the reading code\<close>

lemma mark_source_changed_revokes:
  assumes "mark_source_changed mk w ids st = (st', Inr ())" and "ids \<noteq> []" and "store_inv (tx_db st')"
  shows "hold_transmission_authority w aid rid v (tx_db st') = Inl TransmissionAuthorityRevokedError"
proof -
  from assms(1,2) obtain r where
    "mark_entries_changed_latest (mk_fresh mk) (mk_now mk) w ids ''approved_source_changed'' (tx_db st) = Inr (tx_db st', r)"
    by (auto simp: mark_source_changed_def split: if_splits sum.splits)
  from mark_latest_redraft [OF this] obtain wr cur where "get_workspace w (tx_db st) = Some wr"
    "redraft (mk_now mk) (mk_fresh mk) w cur (mark_changed (set ids) ''approved_source_changed'')
       NEEDS_ATTENTION (tx_db st) = Inr (tx_db st', r)" by blast
  from redraft_revokes [OF this(2,1) assms(3)] show ?thesis by simp
qed

lemma hold_workspace_id:
  "hold_transmission_authority w aid rid v db = Inr (db', s) \<Longrightarrow> ws_workspace_id (ts_workspace s) = w"
  by (auto dest!: hold_Inr simp: get_workspace_def dest: row_of_Some)

text \<open>
  An \<open>OSError\<close> raised by the code that reads an opened source (a full disk, a timeout) is taken for
  a change of the source: although the bytes handed out are exactly the approved ones, the gate
  reports \<open>approved_source_changed\<close>, the entry is marked as changed and the approval is revoked.
\<close>

theorem consumer_error_revokes:
  assumes "open_approved gc oa token st = (st', Some bytes, raised)"
    and "reach gate_init (gate_step gc) st" and "store_threads (oa_others oa)"
    and "oa_consumer oa = Raises_OSError" and "oa_release_error oa = None"
  shows "\<exists>g. map_of (tx_grants st) token = Some g \<and>
    (raised = Some (SourceAuthorization ''approved_source_changed'' (rg_workspace_id g) (rg_entry_id g)) \<and>
       (\<forall>aid rid v. hold_transmission_authority (rg_workspace_id g) aid rid v (tx_db st') =
          Inl TransmissionAuthorityRevokedError) \<or>
     raised = Some (SourceAuthorization ''source_state_update_failed'' (rg_workspace_id g) (rg_entry_id g)))"
proof -
  from open_approved_bytes [OF assms(1)] obtain g s outcome db where
    g: "map_of (tx_grants st) token = Some g"
    and hold: "hold_transmission_authority (rg_workspace_id g) (rg_approval_id g) (rg_revision_id g) None
      (tx_db (oa_others oa 0 (token_taken oa token st))) = Inr (db, s)"
    and read: "held_read gc oa g s = (Some bytes, outcome)"
    and fin: "finish_read oa g (ws_workspace_id (ts_workspace s)) outcome
      ((oa_others oa 0 (token_taken oa token st))\<lparr>tx_db := db\<rparr>) = (st', raised)" by blast
  let ?s1 = "oa_others oa 1 ((oa_others oa 0 (token_taken oa token st))\<lparr>tx_db := db\<rparr>)"
  let ?mark = "mark_source_changed (oa_mark oa) (rg_workspace_id g) [rg_entry_id g] ?s1"
  from gate.reach_inv [OF assms(2)] have inv: "store_inv (tx_db st')"
    by (rule open_approved_inv [OF assms(1,3)])
  from held_read_bytes [OF read] assms(4) have out: "outcome = Inr (Some ''approved_source_changed'')" by simp
  have w: "ws_workspace_id (ts_workspace s) = rg_workspace_id g" by (rule hold_workspace_id [OF hold])
  show ?thesis
  proof (cases "snd ?mark")
    case (Inl e)
    then have "e = SourceAuthorization ''source_state_update_failed'' (rg_workspace_id g) (rg_entry_id g)"
      by (auto simp: mark_source_changed_def split: if_splits sum.splits)
    with Inl fin out w assms(5) g show ?thesis by (auto simp: finish_read_def split: prod.splits)
  next
    case (Inr u)
    then have m: "?mark = (fst ?mark, Inr ())" by (cases ?mark) simp
    with fin out w assms(5) have st': "st' = fst ?mark"
      "raised = Some (SourceAuthorization ''approved_source_changed'' (rg_workspace_id g) (rg_entry_id g))"
      by (auto simp: finish_read_def split: prod.splits)
    from mark_source_changed_revokes [OF m] inv st' g show ?thesis by auto
  qed
qed

theorem consumer_error_revokes_witness:
  "snd (gate_opened Raises_OSError) =
     (Some ''one'', Some (SourceAuthorization ''approved_source_changed'' ''c1'' ''e1'')) \<and>
   hold_transmission_authority ''c1'' ''a1'' ''r1'' None (tx_db (fst (gate_opened Raises_OSError))) =
     Inl TransmissionAuthorityRevokedError"
proof -
  define st' where "st' = fst (gate_opened Raises_OSError)"
  from gate_results(3) have eq: "gate_opened Raises_OSError = (st', Some ''one'',
      Some (SourceAuthorization ''approved_source_changed'' ''c1'' ''e1''))"
    unfolding st'_def by (metis prod.collapse)
  have "oa_consumer (gate_open_access Raises_OSError) = Raises_OSError"
    "oa_release_error (gate_open_access Raises_OSError) = None" by (simp_all add: gate_open_access_def)
  from consumer_error_revokes [OF eq [unfolded gate_opened_def] reach_gate_authorized gate_quiet(1) this]
  have "hold_transmission_authority ''c1'' ''a1'' ''r1'' None (tx_db st') = Inl TransmissionAuthorityRevokedError"
    by (elim exE conjE disjE) simp_all
  with gate_results(3) show ?thesis unfolding st'_def by (intro conjI)
qed

end
