(* ===== verification/Evidence_Models.thy ===== *)
theory Evidence_Models
  imports Workspace_Models Py_Text Complex_Main
begin

text \<open>
  The data of the evidence engine, from \<^verbatim>\<open>exam_predictor/evidence/models.py\<close> and
  \<^verbatim>\<open>exam_predictor/evidence/policy.py\<close>: source parts and their states, evidence units with their
  citations, the coverage ledger, study-map snapshots, the patterns no stored text may contain, and
  the order in which parts are worked on. A model's validation returns the model with its normalised
  fields; bounded floats are rational numbers, counts declared \<open>ge=0\<close> natural ones.
\<close>

section \<open>Safe text\<close>

definition rx_class :: "string \<Rightarrow> char \<Rightarrow> bool" where
  "rx_class extra c \<longleftrightarrow> is_alnum c \<or> c \<in> set extra"

definition rx_letter :: "char \<Rightarrow> bool" where
  "rx_letter c \<longleftrightarrow> is_lower c \<or> is_upper c"

definition rx_text :: "char \<Rightarrow> bool" where
  "rx_text c \<longleftrightarrow> \<not> py_space c"

definition rx_http :: "rx list" where
  "rx_http = [RLitI ''http'', RAlt [RLitI ''s'', RLit []], RLit ''://'']"

definition rx_separator :: "char \<Rightarrow> bool" where
  "rx_separator c \<longleftrightarrow> c = backslash \<or> c = CHR ''/''"

definition SENSITIVE_EVIDENCE_PATTERNS :: "rx list" where
  "SENSITIVE_EVIDENCE_PATTERNS =
    [RSeq [RWordB, RLitI ''authorization'', RSpan py_space 0, RLit '':'', RSpan py_space 0,
       RAlt [RLitI ''bearer'', RLitI ''basic''], RSpan py_space 1, RSpan rx_text 1],
     RSeq [RWordB, RLitI ''bearer'', RSpan py_space 1, RSpan (rx_class ''._~+/=-'') 12],
     RSeq [RWordB, RLit ''sk-'', RAlt [RLit ''proj-'', RLit []], RSpan (rx_class ''_-'') 20],
     RSeq [RWordB, RLit ''AIza'', RSpan (rx_class ''_-'') 30],
     RSeq (rx_http @ [RSpan (\<lambda>c. rx_text c \<and> c \<notin> set ''/@:'') 1, RLit '':'',
       RSpan (\<lambda>c. rx_text c \<and> c \<notin> set ''/@'') 1, RLit ''@'']),
     RSeq (rx_http @ [RSpan rx_text 1, ROne (\<lambda>c. c \<in> set ''?&''),
       RAlt [RSeq [RLitI ''x-amz-'', RAlt [RLitI ''signature'', RLitI ''credential'', RLitI ''security-token'']],
         RSeq [RLitI ''x-goog-'', RAlt [RLitI ''signature'', RLitI ''credential'']],
         RLitI ''sig'', RLitI ''signature'', RLitI ''token'', RLitI ''access_token''], RLit ''='']),
     RAlt [RSeq [ROne rx_letter, RLit '':'', ROne rx_separator],
       RSeq [RLit [backslash, backslash], RSpan (\<lambda>c. \<not> rx_separator c) 1, ROne rx_separator]],
     RSeq [RNotAfterText, RLit ''/'',
       RAlt (map RLitI [''etc'', ''usr'', ''bin'', ''sbin'', ''opt'', ''root'', ''proc'', ''sys'', ''dev'',
         ''run'', ''mnt'', ''media'', ''home'', ''var'', ''tmp'']),
       RAlt [RLit ''/'', REnd]],
     RSeq [RBegin, RLit ''/'', REnd],
     RAlt [RLitI ''traceback (most recent call last)'',
       RSeq [RLit ''<'', RAlt (map RLitI [''openai'', ''google.genai'', ''httpx'']), RLit ''.'']],
     RSeq [RLineBegin,
       RAlt [RSeq [ROne is_upper, RSpan (rx_class ''_'') 0, RAlt (map RLit [''Error'', ''Exception'', ''Warning''])],
         RLit ''KeyboardInterrupt'', RLit ''SystemExit''],
       RLit '':'', RSpan py_space 1, RSpan rx_text 1]]"

text \<open>No code point below 256 is a surrogate, so the two Unicode checks cannot fail here.\<close>

definition validate_safe_evidence_text :: "string \<Rightarrow> py_error + string" where
  "validate_safe_evidence_text value =
     (if list_ex (\<lambda>pattern. rx_search pattern value) SENSITIVE_EVIDENCE_PATTERNS then Inl ValueError
      else Inr value)"

definition safe_text :: "string \<Rightarrow> bool" where
  "safe_text value \<longleftrightarrow> validate_safe_evidence_text value = Inr value"

section \<open>Source parts\<close>

datatype PartState =
  PLANNED | AUTHORIZED | PREPARED | RUNNING | PROCESSED | RETRY_WAIT | FAILED | INVALIDATED

datatype SnapshotStatus = INITIAL | COMPLETE

record SourcePartPlan =
  pl_part_id :: string
  pl_workspace_id :: string
  pl_revision_id :: string
  pl_entry_id :: string
  pl_relative_path :: string
  pl_source_sha256 :: string
  pl_part_sha256 :: string
  pl_ordinal :: nat
  pl_scheduling_rank :: nat
  pl_locator :: string
  pl_media_type :: string
  pl_size_bytes :: nat
  pl_scheduling_class :: string
  pl_priority :: nat
  pl_preparation_policy_version :: string
  pl_preparation_schema_version :: string
  pl_state :: PartState
  pl_idempotency_key :: string
  pl_safe_error_code :: "string option"

text \<open>
  Every field is validated before the first failure is reported; the \<open>IndexError\<close> of a path without
  components is no validation error and escapes at once, whatever the other fields hold.
\<close>

definition version_ok :: "string \<Rightarrow> bool" where
  "version_ok v \<longleftrightarrow> v \<noteq> [] \<and> length v \<le> 128"

definition checked :: "bool \<Rightarrow> 'a \<Rightarrow> py_error + 'a" where
  "checked ok x = (if ok then Inr x else Inl ValueError)"

definition safe_error_code_ok :: "string option \<Rightarrow> bool" where
  "safe_error_code_ok code = (case code of None \<Rightarrow> True | Some c \<Rightarrow> safe_code c)"

definition SourcePartPlan_validate :: "SourcePartPlan \<Rightarrow> py_error + SourcePartPlan" where
  "SourcePartPlan_validate p =
     bind_res (normalize_relative_path (pl_relative_path p)) (\<lambda>path.
       checked (sha256_hex (pl_source_sha256 p) \<and> sha256_hex (pl_part_sha256 p) \<and>
                safe_text (pl_locator p) \<and>
                version_ok (pl_preparation_policy_version p) \<and>
                version_ok (pl_preparation_schema_version p) \<and>
                safe_error_code_ok (pl_safe_error_code p))
         (p\<lparr>pl_relative_path := path\<rparr>))"

section \<open>Evidence\<close>

record EvidenceCitation =
  ct_citation_id :: string
  ct_evidence_unit_id :: string
  ct_source_part_id :: string
  ct_relative_path :: string
  ct_locator :: string

record EvidenceUnit =
  un_evidence_unit_id :: string
  un_source_part_id :: string
  un_content :: string
  un_citations :: "EvidenceCitation list"

definition EvidenceCitation_validate :: "EvidenceCitation \<Rightarrow> py_error + EvidenceCitation" where
  "EvidenceCitation_validate c =
     bind_res (normalize_relative_path (ct_relative_path c)) (\<lambda>path.
       checked (safe_text (ct_locator c)) (c\<lparr>ct_relative_path := path\<rparr>))"

definition EvidenceUnit_validate :: "EvidenceUnit \<Rightarrow> py_error + EvidenceUnit" where
  "EvidenceUnit_validate u = checked (safe_text (un_content u) \<and> un_citations u \<noteq> []) u"

section \<open>Coverage\<close>

record CoverageItem =
  cv_topic :: string
  cv_covered :: bool
  cv_excluded :: bool
  cv_entry_id :: "string option"
  cv_relative_path :: "string option"
  cv_approved_bytes :: nat
  cv_planned_part_count :: nat
  cv_processed_part_count :: nat
  cv_running_part_count :: nat
  cv_pending_part_count :: nat
  cv_retrying_part_count :: nat
  cv_failed_part_count :: nat
  cv_invalidated_part_count :: nat
  cv_processed_locators :: "string list"
  cv_current_locator :: "string option"
  cv_failure_codes :: "string list"
  cv_last_successful_evidence_at :: "int option"
  cv_influenced_current_snapshot :: bool
  cv_next_action :: string

definition NEXT_ACTIONS :: "string list" where
  "NEXT_ACTIONS = [''none'', ''prepare'', ''analyze'', ''resume'', ''retry'', ''reapprove'']"

definition coverage_ledger_ok :: "CoverageItem \<Rightarrow> bool" where
  "coverage_ledger_ok i =
     (if cv_entry_id i = None then \<not> cv_excluded i
      else if cv_excluded i then
        \<not> (cv_covered i \<or> cv_approved_bytes i \<noteq> 0 \<or> cv_planned_part_count i \<noteq> 0 \<or>
           cv_processed_part_count i \<noteq> 0 \<or> cv_running_part_count i \<noteq> 0 \<or>
           cv_pending_part_count i \<noteq> 0 \<or> cv_retrying_part_count i \<noteq> 0 \<or>
           cv_failed_part_count i \<noteq> 0 \<or> cv_invalidated_part_count i \<noteq> 0 \<or>
           cv_processed_locators i \<noteq> [] \<or> cv_current_locator i \<noteq> None \<or> cv_failure_codes i \<noteq> [] \<or>
           cv_last_successful_evidence_at i \<noteq> None \<or> cv_influenced_current_snapshot i \<or>
           cv_next_action i \<noteq> ''none'') \<and> cv_relative_path i \<noteq> None
      else
        cv_relative_path i \<noteq> None \<and>
        cv_processed_part_count i + cv_running_part_count i + cv_pending_part_count i +
          cv_retrying_part_count i + cv_failed_part_count i + cv_invalidated_part_count i =
          cv_planned_part_count i \<and>
        cv_covered i = (cv_planned_part_count i > 0 \<and> cv_processed_part_count i = cv_planned_part_count i) \<and>
        length (cv_processed_locators i) = cv_processed_part_count i)"

definition normalized_option :: "string option \<Rightarrow> py_error + string option" where
  "normalized_option p =
     (case p of None \<Rightarrow> Inr None | Some s \<Rightarrow> map_sum id Some (normalize_relative_path s))"

definition CoverageItem_validate :: "CoverageItem \<Rightarrow> py_error + CoverageItem" where
  "CoverageItem_validate i =
     bind_res (normalized_option (cv_relative_path i)) (\<lambda>path.
       let j = i\<lparr>cv_topic := py_strip (cv_topic i), cv_relative_path := path\<rparr> in
       checked (cv_topic j \<noteq> [] \<and> safe_text (cv_topic j) \<and>
                distinct (cv_processed_locators j) \<and> list_all safe_text (cv_processed_locators j) \<and>
                (case cv_current_locator j of None \<Rightarrow> True | Some l \<Rightarrow> safe_text l) \<and>
                distinct (cv_failure_codes j) \<and> list_all safe_code (cv_failure_codes j) \<and>
                cv_next_action j \<in> set NEXT_ACTIONS \<and> coverage_ledger_ok j) j)"

record CoverageSummary =
  cs_items :: "CoverageItem list"
  cs_covered_count :: nat
  cs_total_count :: nat
  cs_excluded_count :: nat
  cs_approved_bytes :: nat
  cs_part_total_count :: nat
  cs_part_processed_count :: nat
  cs_part_running_count :: nat
  cs_part_pending_count :: nat
  cs_part_retrying_count :: nat
  cs_part_failed_count :: nat
  cs_part_invalidated_count :: nat

definition included_count :: "CoverageSummary \<Rightarrow> int" where
  "included_count s = int (cs_total_count s) - int (cs_excluded_count s)"

definition coverage_fraction :: "CoverageSummary \<Rightarrow> rat" where
  "coverage_fraction s =
     (if included_count s = 0 then 0 else of_nat (cs_covered_count s) / of_int (included_count s))"

definition part_coverage_fraction :: "CoverageSummary \<Rightarrow> rat" where
  "part_coverage_fraction s =
     (if cs_part_total_count s = 0 then 0
      else of_nat (cs_part_processed_count s) / of_nat (cs_part_total_count s))"

definition is_partial :: "CoverageSummary \<Rightarrow> bool" where
  "is_partial s \<longleftrightarrow>
     0 < cs_covered_count s \<and> int (cs_covered_count s) < included_count s \<or>
     0 < cs_part_processed_count s \<and> cs_part_processed_count s < cs_part_total_count s"

definition entry_ids :: "CoverageItem list \<Rightarrow> string list" where
  "entry_ids items = List.map_filter cv_entry_id items"

definition totals_exact :: "CoverageSummary \<Rightarrow> bool" where
  "totals_exact s \<longleftrightarrow>
     cs_approved_bytes s = sum_list (map cv_approved_bytes (cs_items s)) \<and>
     cs_part_total_count s = sum_list (map cv_planned_part_count (cs_items s)) \<and>
     cs_part_processed_count s = sum_list (map cv_processed_part_count (cs_items s)) \<and>
     cs_part_running_count s = sum_list (map cv_running_part_count (cs_items s)) \<and>
     cs_part_pending_count s = sum_list (map cv_pending_part_count (cs_items s)) \<and>
     cs_part_retrying_count s = sum_list (map cv_retrying_part_count (cs_items s)) \<and>
     cs_part_failed_count s = sum_list (map cv_failed_part_count (cs_items s)) \<and>
     cs_part_invalidated_count s = sum_list (map cv_invalidated_part_count (cs_items s))"

definition CoverageSummary_validate :: "CoverageSummary \<Rightarrow> py_error + CoverageSummary" where
  "CoverageSummary_validate s =
     (let items = cs_items s; ids = entry_ids items in
      checked (cs_total_count s \<ge> 1 \<and> cs_total_count s = length items \<and>
               cs_covered_count s = length (filter cv_covered items) \<and>
               cs_excluded_count s = length (filter cv_excluded items) \<and>
               distinct ids \<and>
               (length ids = length items \<or> distinct (map (\<lambda>i. casefold (cv_topic i)) items)) \<and>
               (list_all (\<lambda>i. cv_entry_id i \<noteq> None) items \<longrightarrow> totals_exact s)) s)"

section \<open>Study maps\<close>

record CourseGroup =
  cg_group_id :: string
  cg_title :: string
  cg_confidence :: rat
  cg_evidence_unit_ids :: "string list"

record KnowledgeNode =
  kn_node_id :: string
  kn_title :: string
  kn_focus_score :: rat
  kn_confidence :: rat
  kn_evidence_unit_ids :: "string list"
  kn_parent_node_id :: "string option"
  kn_prerequisite_node_ids :: "string list"
  kn_course_group_id :: "string option"

datatype ConfidenceBand = Strong | Moderate | Limited
datatype FocusBand = High | Medium | Low

definition confidence_band :: "rat \<Rightarrow> ConfidenceBand" where
  "confidence_band v = (if v \<ge> 2 / 3 then Strong else if v \<ge> 1 / 3 then Moderate else Limited)"

definition focus_band :: "KnowledgeNode \<Rightarrow> FocusBand" where
  "focus_band n = (if kn_focus_score n \<ge> 2 / 3 then High else if kn_focus_score n \<ge> 1 / 3 then Medium else Low)"

definition unit_interval :: "rat \<Rightarrow> bool" where
  "unit_interval x \<longleftrightarrow> 0 \<le> x \<and> x \<le> 1"

definition title_ok :: "string \<Rightarrow> bool" where
  "title_ok t \<longleftrightarrow> py_strip t \<noteq> [] \<and> safe_text (py_strip t)"

definition dependencies_ok :: "string list \<Rightarrow> bool" where
  "dependencies_ok ids \<longleftrightarrow> ids \<noteq> [] \<and> distinct ids"

definition CourseGroup_validate :: "CourseGroup \<Rightarrow> py_error + CourseGroup" where
  "CourseGroup_validate g =
     checked (title_ok (cg_title g) \<and> unit_interval (cg_confidence g) \<and> dependencies_ok (cg_evidence_unit_ids g))
       (g\<lparr>cg_title := py_strip (cg_title g)\<rparr>)"

definition KnowledgeNode_validate :: "KnowledgeNode \<Rightarrow> py_error + KnowledgeNode" where
  "KnowledgeNode_validate n =
     checked (title_ok (kn_title n) \<and> unit_interval (kn_focus_score n) \<and> unit_interval (kn_confidence n) \<and>
              dependencies_ok (kn_evidence_unit_ids n) \<and> distinct (kn_prerequisite_node_ids n) \<and>
              kn_parent_node_id n \<noteq> Some (kn_node_id n) \<and>
              kn_node_id n \<notin> set (kn_prerequisite_node_ids n))
       (n\<lparr>kn_title := py_strip (kn_title n)\<rparr>)"

record StudyMapSnapshot =
  sn_snapshot_id :: string
  sn_workspace_id :: string
  sn_revision_id :: string
  sn_status :: SnapshotStatus
  sn_nodes :: "KnowledgeNode list"
  sn_coverage :: "CoverageSummary option"
  sn_evidence_unit_ids :: "string list"
  sn_created_at :: int
  sn_course_groups :: "CourseGroup list"
  sn_limitations :: "string list"
  sn_citations :: "EvidenceCitation list"
  sn_response_language :: "string option"
  sn_superseded_snapshot_id :: "string option"

definition known_or_none :: "string option \<Rightarrow> string set \<Rightarrow> bool" where
  "known_or_none r known = (case r of None \<Rightarrow> True | Some i \<Rightarrow> i \<in> known)"

definition relationships_known :: "KnowledgeNode list \<Rightarrow> CourseGroup list \<Rightarrow> bool" where
  "relationships_known nodes groups =
     (let known_nodes = set (map kn_node_id nodes); known_groups = set (map cg_group_id groups) in
      list_all (\<lambda>n. known_or_none (kn_parent_node_id n) known_nodes \<and>
                    list_all (\<lambda>i. i \<in> known_nodes) (kn_prerequisite_node_ids n) \<and>
                    known_or_none (kn_course_group_id n) known_groups) nodes)"

definition snapshot_dependencies_ok :: "StudyMapSnapshot \<Rightarrow> bool" where
  "snapshot_dependencies_ok s \<longleftrightarrow>
     (sn_status s = INITIAL \<longrightarrow>
        (case sn_coverage s of None \<Rightarrow> False | Some c \<Rightarrow> is_partial c) \<and> sn_evidence_unit_ids s \<noteq> []) \<and>
     distinct (sn_evidence_unit_ids s) \<and>
     distinct (map ct_citation_id (sn_citations s)) \<and>
     (sn_citations s = [] \<or>
      set (map ct_evidence_unit_id (sn_citations s)) = set (sn_evidence_unit_ids s)) \<and>
     distinct (map kn_node_id (sn_nodes s)) \<and>
     distinct (map cg_group_id (sn_course_groups s)) \<and>
     relationships_known (sn_nodes s) (sn_course_groups s)"

definition StudyMapSnapshot_validate :: "StudyMapSnapshot \<Rightarrow> py_error + StudyMapSnapshot" where
  "StudyMapSnapshot_validate s =
     (let limits = filter (\<lambda>l. l \<noteq> []) (map py_strip (sn_limitations s));
          language = map_option py_strip (sn_response_language s);
          t = s\<lparr>sn_limitations := limits, sn_response_language := language\<rparr> in
      checked (list_all safe_text limits \<and>
               (case sn_response_language s of None \<Rightarrow> True
                | Some l \<Rightarrow> length l \<le> 40 \<and> py_strip l \<noteq> [] \<and> safe_text (py_strip l)) \<and>
               snapshot_dependencies_ok t) t)"

section \<open>Policy\<close>

record EvidencePolicy =
  po_policy_version :: string
  po_schema_version :: string
  po_prompt_version :: string
  po_multimodal_concurrency :: nat
  po_synthesis_concurrency :: nat
  po_provider_timeout_seconds :: rat
  po_tool_deadline_seconds :: rat
  po_max_attempts_per_route :: nat
  po_max_repair_attempts :: nat
  po_retry_backoff_seconds :: rat
  po_pdf_pages_per_part :: nat
  po_max_part_bytes :: int
  po_first_map_deadline_seconds :: rat

definition DEFAULT_EVIDENCE_POLICY :: EvidencePolicy where
  "DEFAULT_EVIDENCE_POLICY =
     \<lparr>po_policy_version = ''evidence-v1'', po_schema_version = ''evidence-schema-v1'',
      po_prompt_version = ''source-analysis-v1'', po_multimodal_concurrency = 2,
      po_synthesis_concurrency = 4, po_provider_timeout_seconds = 90, po_tool_deadline_seconds = 3600,
      po_max_attempts_per_route = 3, po_max_repair_attempts = 1, po_retry_backoff_seconds = 1,
      po_pdf_pages_per_part = 24, po_max_part_bytes = 10 * 1024 * 1024,
      po_first_map_deadline_seconds = 180\<rparr>"

definition in_bounds :: "'a::linorder \<Rightarrow> 'a \<Rightarrow> 'a \<Rightarrow> bool" where
  "in_bounds lo hi x \<longleftrightarrow> lo \<le> x \<and> x \<le> hi"

definition EvidencePolicy_validate :: "EvidencePolicy \<Rightarrow> py_error + EvidencePolicy" where
  "EvidencePolicy_validate p =
     checked (in_bounds 1 4 (po_multimodal_concurrency p) \<and> in_bounds 1 4 (po_synthesis_concurrency p) \<and>
              in_bounds 10 300 (po_provider_timeout_seconds p) \<and> in_bounds 60 14400 (po_tool_deadline_seconds p) \<and>
              in_bounds 1 3 (po_max_attempts_per_route p) \<and> po_max_repair_attempts p \<le> 1 \<and>
              in_bounds (1 / 10) 10 (po_retry_backoff_seconds p) \<and> in_bounds 1 80 (po_pdf_pages_per_part p) \<and>
              in_bounds 1024 (48 * 1024 * 1024) (po_max_part_bytes p) \<and>
              in_bounds 30 600 (po_first_map_deadline_seconds p)) p"

text \<open>\<open>token in text\<close>\<close>

fun has_sub :: "'a list \<Rightarrow> 'a list \<Rightarrow> bool" where
  "has_sub w [] \<longleftrightarrow> w = []"
| "has_sub w (x # xs) \<longleftrightarrow> take (length w) (x # xs) = w \<or> has_sub w xs"

definition PRIORITY_CLASSES :: "(nat \<times> string \<times> string list) list" where
  "PRIORITY_CLASSES =
     [(0, ''syllabus'', [''syllabus'', ''specification'', ''learning-outcome'', ''revision-guide'']),
      (1, ''assessment'', [''exam'', ''past-paper'', ''mark-scheme'', ''problem'', ''tutorial'', ''assignment'']),
      (2, ''teaching'', [''lecture'', ''slide'', ''course-note'']),
      (3, ''reference'', [''textbook'', ''reference'', ''handbook''])]"

definition source_priority :: "string \<Rightarrow> string option \<Rightarrow> nat \<times> string" where
  "source_priority path format_category =
     (case find (\<lambda>(_, _, tokens). list_ex (\<lambda>t. has_sub (map of_char t) (casefold path)) tokens) PRIORITY_CLASSES of
        Some (priority, reason, _) \<Rightarrow> (priority, reason)
      | None \<Rightarrow> (4, ''supplemental''))"

definition anchor_ordinals :: "nat \<Rightarrow> nat list" where
  "anchor_ordinals n = distinct_firsts [0, n div 2, n - 1]"

definition representative_ordinals :: "int \<Rightarrow> nat list" where
  "representative_ordinals total_parts =
     (if total_parts \<le> 0 then []
      else let n = nat total_parts in
           anchor_ordinals n @ filter (\<lambda>i. i \<notin> set (anchor_ordinals n)) [0 ..< n])"

section \<open>Lemmas\<close>

lemma checked_Inr_iff [simp]: "checked ok x = Inr y \<longleftrightarrow> ok \<and> y = x"
  by (auto simp: checked_def)

lemma validate_safe_Inr_iff: "validate_safe_evidence_text v = Inr w \<longleftrightarrow> safe_text v \<and> w = v"
  by (auto simp: safe_text_def validate_safe_evidence_text_def split: if_splits)

lemma SourcePartPlan_validate_idem:
  assumes "SourcePartPlan_validate p = Inr q"
  shows "SourcePartPlan_validate q = Inr q"
  using assms normalize_idempotent
  by (auto simp: SourcePartPlan_validate_def bind_res_Inr_iff)

lemma representative_ordinals_set: "set (representative_ordinals t) = {0 ..< nat t}"
  by (auto simp: representative_ordinals_def anchor_ordinals_def Let_def)

lemma representative_ordinals_distinct: "distinct (representative_ordinals t)"
  by (auto simp: representative_ordinals_def Let_def anchor_ordinals_def)

end
