(* ===== verification/Evidence_Store.thy ===== *)
theory Evidence_Store
  imports Evidence_Models "HOL-Library.AList"
begin

text \<open>
  \<open>EvidenceStore\<close> of \<^verbatim>\<open>exam_predictor/evidence/store.py\<close>: the tables of the evidence database, in
  \<open>rowid\<close> order, and one definition per method. A method that raises is rolled back and has no
  successor state. \<open>H\<close> stands for \<open>sha256(value.encode()).hexdigest()\<close> throughout; times are UTC
  instants, whose ISO texts compare as they do. A row keeps the model whose canonical JSON the code
  stores, so equality of the texts is equality of the models.
\<close>

section \<open>Tables\<close>

record PartRow =
  ep_part_id :: string
  ep_workspace_id :: string
  ep_revision_id :: string
  ep_entry_id :: string
  ep_source_sha256 :: string
  ep_part_sha256 :: string
  ep_priority :: nat
  ep_ordinal :: nat
  ep_scheduling_rank :: nat
  ep_state :: PartState
  ep_plan :: SourcePartPlan
  ep_attempt_count :: nat
  ep_next_attempt_at :: "int option"
  ep_plan_generation :: nat
  ep_claim_generation :: nat
  ep_created_at :: int
  ep_updated_at :: int

record AttemptRow =
  ea_part_id :: string
  ea_attempt_number :: nat
  ea_route :: string
  ea_outcome :: PartState
  ea_safe_error_code :: "string option"
  ea_started_at :: int
  ea_finished_at :: "int option"

record UnitRow =
  eu_evidence_unit_id :: string
  eu_source_part_id :: string
  eu_unit :: EvidenceUnit
  eu_unit_sha256 :: string
  eu_published_at :: int

record CacheRow =
  ec_cache_digest :: string
  ec_evidence_unit_id :: string
  ec_unit_sha256 :: string
  ec_source_sha256 :: string
  ec_plan_generation :: "nat option"
  ec_claim_generation :: "nat option"
  ec_created_at :: int

record SnapshotRow =
  es_snapshot_id :: string
  es_workspace_id :: string
  es_revision_id :: string
  es_status :: SnapshotStatus
  es_snapshot :: StudyMapSnapshot
  es_created_at :: int

record RevocationRow =
  er_workspace_id :: string
  er_snapshot_id :: string
  er_created_at :: int
  er_completed_at :: "int option"

record DeadlineRow =
  dl_run_id :: string
  dl_workspace_id :: string
  dl_expires_at :: int
  dl_created_at :: int

record evidence_db =
  ev_meta :: "(string \<times> string) list"
  ev_parts :: "PartRow list"
  ev_attempts :: "AttemptRow list"
  ev_units :: "UnitRow list"
  ev_cache :: "CacheRow list"
  ev_snapshots :: "SnapshotRow list"
  ev_dependencies :: "(string \<times> string) list"
  ev_revocations :: "RevocationRow list"
  ev_deletions :: "(string \<times> int) list"
  ev_deadlines :: "DeadlineRow list"

definition new_evidence_db :: evidence_db where
  "new_evidence_db = \<lparr>ev_meta = [(''schema_version'', ''8'')], ev_parts = [], ev_attempts = [], ev_units = [],
     ev_cache = [], ev_snapshots = [], ev_dependencies = [], ev_revocations = [], ev_deletions = [],
     ev_deadlines = []\<rparr>"

text \<open>\<open>ON DELETE CASCADE\<close>: a part takes its attempts and units along, a unit its cache entries and
  dependencies, a snapshot its dependencies.\<close>

definition delete_units :: "(UnitRow \<Rightarrow> bool) \<Rightarrow> evidence_db \<Rightarrow> evidence_db" where
  "delete_units p db =
     (let gone = map eu_evidence_unit_id (filter p (ev_units db)) in
      db\<lparr>ev_units := delete_where p (ev_units db),
         ev_cache := delete_where (\<lambda>c. ec_evidence_unit_id c \<in> set gone) (ev_cache db),
         ev_dependencies := delete_where (\<lambda>d. snd d \<in> set gone) (ev_dependencies db)\<rparr>)"

definition delete_attempts :: "(AttemptRow \<Rightarrow> bool) \<Rightarrow> evidence_db \<Rightarrow> evidence_db" where
  "delete_attempts p db = db\<lparr>ev_attempts := delete_where p (ev_attempts db)\<rparr>"

definition delete_parts :: "(PartRow \<Rightarrow> bool) \<Rightarrow> evidence_db \<Rightarrow> evidence_db" where
  "delete_parts p db =
     (let gone = map ep_part_id (filter p (ev_parts db)) in
      delete_units (\<lambda>u. eu_source_part_id u \<in> set gone)
        (delete_attempts (\<lambda>a. ea_part_id a \<in> set gone)
          (db\<lparr>ev_parts := delete_where p (ev_parts db)\<rparr>)))"

definition delete_snapshots :: "(SnapshotRow \<Rightarrow> bool) \<Rightarrow> evidence_db \<Rightarrow> evidence_db" where
  "delete_snapshots p db =
     (let gone = map es_snapshot_id (filter p (ev_snapshots db)) in
      db\<lparr>ev_snapshots := delete_where p (ev_snapshots db),
         ev_dependencies := delete_where (\<lambda>d. fst d \<in> set gone) (ev_dependencies db)\<rparr>)"

definition part_row :: "evidence_db \<Rightarrow> string \<Rightarrow> PartRow option" where
  "part_row db part_id = row_of ep_part_id part_id (ev_parts db)"

definition update_part :: "string \<Rightarrow> (PartRow \<Rightarrow> PartRow) \<Rightarrow> evidence_db \<Rightarrow> evidence_db" where
  "update_part part_id f db = db\<lparr>ev_parts := update_where (\<lambda>r. ep_part_id r = part_id) f (ev_parts db)\<rparr>"

text \<open>\<open>_part\<close>: the stored plan in the state of its row\<close>

definition part_of_row :: "PartRow \<Rightarrow> SourcePartPlan" where
  "part_of_row r = (ep_plan r)\<lparr>pl_state := ep_state r\<rparr>"

section \<open>Identity\<close>

definition meta_name :: "(string \<Rightarrow> string) \<Rightarrow> string \<Rightarrow> string" where
  "meta_name H workspace_id = ''current_revision:'' @ H workspace_id"

definition current_revision_id :: "(string \<Rightarrow> string) \<Rightarrow> string \<Rightarrow> evidence_db \<Rightarrow> string option" where
  "current_revision_id H workspace_id db = map_of (ev_meta db) (meta_name H workspace_id)"

definition is_current_revision :: "(string \<Rightarrow> string) \<Rightarrow> string \<Rightarrow> string \<Rightarrow> evidence_db \<Rightarrow> bool" where
  "is_current_revision H workspace_id revision_id db \<longleftrightarrow>
     current_revision_id H workspace_id db = Some revision_id"

definition claim_identity :: "string \<Rightarrow> nat \<Rightarrow> nat \<Rightarrow> string" where
  "claim_identity part_id plan_generation claim_generation =
     part_id @ [NUL] @ nat_str plan_generation @ [NUL] @ nat_str claim_generation"

definition claim_token :: "(string \<Rightarrow> string) \<Rightarrow> string \<Rightarrow> nat \<Rightarrow> nat \<Rightarrow> string" where
  "claim_token H part_id plan_generation claim_generation =
     ''evidence-claim-v1:'' @ H (claim_identity part_id plan_generation claim_generation)"

definition row_token :: "(string \<Rightarrow> string) \<Rightarrow> PartRow \<Rightarrow> string" where
  "row_token H r = claim_token H (ep_part_id r) (ep_plan_generation r) (ep_claim_generation r)"

text \<open>the part row is in the current revision of its workspace\<close>

definition row_is_current :: "(string \<Rightarrow> string) \<Rightarrow> evidence_db \<Rightarrow> PartRow \<Rightarrow> bool" where
  "row_is_current H db r \<longleftrightarrow> current_revision_id H (ep_workspace_id r) db = Some (ep_revision_id r)"

section \<open>Locators\<close>

text \<open>
  \<open>member\s+(.+)\<close> and \<open>(pages?|slides?|sheets?|rows?)\s+(\d+)(?:\s*-\s*(\d+))?\<close> on a stripped text.
  The parse is determined: white space and digits are read as far as they go. The en dash, which the
  second pattern also accepts, is above the code points modelled.
\<close>

definition member_name :: "string \<Rightarrow> string option" where
  "member_name raw =
     (let rest = drop 6 raw; name = dropWhile py_space rest in
      if map fold_char (take 6 raw) = ''member'' \<and> name \<noteq> rest \<and> name \<noteq> [] \<and> newline \<notin> set name
      then Some name else None)"

definition code_points :: "string \<Rightarrow> int list" where
  "code_points s = map of_char s"

definition cp_space :: "int \<Rightarrow> bool" where
  "cp_space n \<longleftrightarrow> n \<in> set [9, 10, 11, 12, 13, 28, 29, 30, 31, 32, 133, 160]"

definition cp_digit :: "int \<Rightarrow> bool" where
  "cp_digit n \<longleftrightarrow> 48 \<le> n \<and> n \<le> 57"

definition cp_value :: "int list \<Rightarrow> int" where
  "cp_value ds = foldl (\<lambda>v d. 10 * v + (d - 48)) 0 ds"

definition LOCATOR_KINDS :: "string list" where
  "LOCATOR_KINDS = [''pages'', ''page'', ''slides'', ''slide'', ''sheets'', ''sheet'', ''rows'', ''row'']"

definition singular :: "string \<Rightarrow> string" where
  "singular kind = (if last kind = CHR ''s'' then butlast kind else kind)"

definition numeric_locator :: "int list \<Rightarrow> (string \<times> int \<times> int) option" where
  "numeric_locator text =
     (case find (\<lambda>k. take (length k) text = code_points k \<and>
                     (case drop (length k) text of [] \<Rightarrow> False | c # _ \<Rightarrow> cp_space c)) LOCATOR_KINDS of
        None \<Rightarrow> None
      | Some kind \<Rightarrow>
          (let body = dropWhile cp_space (drop (length kind) text);
               first = takeWhile cp_digit body;
               rest = dropWhile cp_digit body;
               dashed = dropWhile cp_space rest in
           if first = [] then None
           else if rest = [] then Some (singular kind, cp_value first, cp_value first)
           else case dashed of
             d # ds \<Rightarrow>
               (let second = dropWhile cp_space ds in
                if d = 45 \<and> second \<noteq> [] \<and> list_all cp_digit second
                then Some (singular kind, cp_value first, cp_value second) else None)
           | [] \<Rightarrow> None))"

fun member_covers :: "string \<Rightarrow> string \<Rightarrow> string \<Rightarrow> bool" where
  "member_covers name body [] = False"
| "member_covers name body (delimiter # ds) =
     (let prefix = name @ [delimiter] in
      if take (length prefix) body = prefix
      then (case numeric_locator (code_points (map fold_char (py_strip (drop (length prefix) body)))) of
              None \<Rightarrow> False | Some (_, from, to) \<Rightarrow> from \<le> to)
      else member_covers name body ds)"

definition locator_contains :: "string \<Rightarrow> string \<Rightarrow> bool" where
  "locator_contains part_locator citation_locator =
     (let part_raw = py_strip part_locator; citation_raw = py_strip citation_locator in
      case member_name part_raw of
        Some name \<Rightarrow>
          (case member_name citation_raw of
             None \<Rightarrow> False
           | Some body \<Rightarrow> body = name \<or> member_covers name body '':,;'')
      | None \<Rightarrow>
          casefold part_raw = casefold citation_raw \<or>
          (case (numeric_locator (casefold part_raw), numeric_locator (casefold citation_raw)) of
             (Some (part_kind, part_from, part_to), Some (citation_kind, citation_from, citation_to)) \<Rightarrow>
               part_kind = citation_kind \<and> part_from \<le> citation_from \<and>
               citation_from \<le> citation_to \<and> citation_to \<le> part_to
           | _ \<Rightarrow> False))"

section \<open>Serialised models\<close>

fun strings_safe :: "pyval \<Rightarrow> bool" where
  "strings_safe (VStr s) = safe_text s"
| "strings_safe (VDict kvs) = list_all (\<lambda>kv. safe_text (fst kv) \<and> strings_safe (snd kv)) kvs"
| "strings_safe (VList vs) = list_all strings_safe vs"
| "strings_safe _ = True"

fun state_value :: "PartState \<Rightarrow> string" where
  "state_value PLANNED = ''planned''"
| "state_value AUTHORIZED = ''authorized''"
| "state_value PREPARED = ''prepared''"
| "state_value RUNNING = ''running''"
| "state_value PROCESSED = ''processed''"
| "state_value RETRY_WAIT = ''retry_wait''"
| "state_value PartState.FAILED = ''failed''"
| "state_value INVALIDATED = ''invalidated''"

definition opt_str :: "string option \<Rightarrow> pyval" where
  "opt_str v = (case v of None \<Rightarrow> VNone | Some s \<Rightarrow> VStr s)"

definition plan_payload :: "SourcePartPlan \<Rightarrow> pyval" where
  "plan_payload p = VDict
     [(''part_id'', VStr (pl_part_id p)), (''workspace_id'', VStr (pl_workspace_id p)),
      (''revision_id'', VStr (pl_revision_id p)), (''entry_id'', VStr (pl_entry_id p)),
      (''relative_path'', VStr (pl_relative_path p)), (''source_sha256'', VStr (pl_source_sha256 p)),
      (''part_sha256'', VStr (pl_part_sha256 p)), (''ordinal'', VInt (int (pl_ordinal p))),
      (''scheduling_rank'', VInt (int (pl_scheduling_rank p))), (''locator'', VStr (pl_locator p)),
      (''media_type'', VStr (pl_media_type p)), (''size_bytes'', VInt (int (pl_size_bytes p))),
      (''scheduling_class'', VStr (pl_scheduling_class p)), (''priority'', VInt (int (pl_priority p))),
      (''preparation_policy_version'', VStr (pl_preparation_policy_version p)),
      (''preparation_schema_version'', VStr (pl_preparation_schema_version p)),
      (''state'', VStr (state_value (pl_state p))), (''idempotency_key'', VStr (pl_idempotency_key p)),
      (''safe_error_code'', opt_str (pl_safe_error_code p))]"

definition citation_payload :: "EvidenceCitation \<Rightarrow> pyval" where
  "citation_payload c = VDict
     [(''citation_id'', VStr (ct_citation_id c)), (''evidence_unit_id'', VStr (ct_evidence_unit_id c)),
      (''source_part_id'', VStr (ct_source_part_id c)), (''relative_path'', VStr (ct_relative_path c)),
      (''locator'', VStr (ct_locator c))]"

definition unit_payload :: "EvidenceUnit \<Rightarrow> pyval" where
  "unit_payload u = VDict
     [(''evidence_unit_id'', VStr (un_evidence_unit_id u)), (''source_part_id'', VStr (un_source_part_id u)),
      (''content'', VStr (un_content u)), (''citations'', VList (map citation_payload (un_citations u)))]"

definition unit_sha256 :: "(string \<Rightarrow> string) \<Rightarrow> EvidenceUnit \<Rightarrow> string" where
  "unit_sha256 H u = H (canonical_json (unit_payload u))"

text \<open>The string values of a dumped snapshot; its field names, numbers and times match no pattern.\<close>

definition the_strings :: "string option \<Rightarrow> string list" where
  "the_strings v = (case v of None \<Rightarrow> [] | Some s \<Rightarrow> [s])"

definition item_strings :: "CoverageItem \<Rightarrow> string list" where
  "item_strings i = [cv_topic i, cv_next_action i] @ the_strings (cv_entry_id i) @
     the_strings (cv_relative_path i) @ cv_processed_locators i @ the_strings (cv_current_locator i) @
     cv_failure_codes i"

definition node_strings :: "KnowledgeNode \<Rightarrow> string list" where
  "node_strings n = [kn_node_id n, kn_title n] @ kn_evidence_unit_ids n @ the_strings (kn_parent_node_id n) @
     kn_prerequisite_node_ids n @ the_strings (kn_course_group_id n)"

definition group_strings :: "CourseGroup \<Rightarrow> string list" where
  "group_strings g = [cg_group_id g, cg_title g] @ cg_evidence_unit_ids g"

definition snapshot_strings :: "StudyMapSnapshot \<Rightarrow> string list" where
  "snapshot_strings s =
     [sn_snapshot_id s, sn_workspace_id s, sn_revision_id s] @ concat (map node_strings (sn_nodes s)) @
     (case sn_coverage s of None \<Rightarrow> [] | Some c \<Rightarrow> concat (map item_strings (cs_items c))) @
     sn_evidence_unit_ids s @ concat (map group_strings (sn_course_groups s)) @ sn_limitations s @
     concat (map (\<lambda>c. [ct_citation_id c, ct_evidence_unit_id c, ct_source_part_id c, ct_relative_path c,
       ct_locator c]) (sn_citations s)) @
     the_strings (sn_response_language s) @ the_strings (sn_superseded_snapshot_id s)"

section \<open>Planned parts\<close>

fun plan_revisions ::
  "(string \<times> string) list \<Rightarrow> SourcePartPlan list \<Rightarrow> py_error + (string \<times> string) list" where
  "plan_revisions revisions [] = Inr revisions"
| "plan_revisions revisions (plan # plans) =
     (if \<not> strings_safe (plan_payload plan) then Inl ValueError
      else if pl_state plan = RUNNING then Inl ValueError
      else case map_of revisions (pl_workspace_id plan) of
        None \<Rightarrow> plan_revisions (revisions @ [(pl_workspace_id plan, pl_revision_id plan)]) plans
      | Some previous \<Rightarrow>
          if previous \<noteq> pl_revision_id plan then Inl ValueError else plan_revisions revisions plans)"

definition planned_row :: "int \<Rightarrow> SourcePartPlan \<Rightarrow> PartRow" where
  "planned_row now p =
     \<lparr>ep_part_id = pl_part_id p, ep_workspace_id = pl_workspace_id p, ep_revision_id = pl_revision_id p,
      ep_entry_id = pl_entry_id p, ep_source_sha256 = pl_source_sha256 p, ep_part_sha256 = pl_part_sha256 p,
      ep_priority = pl_priority p, ep_ordinal = pl_ordinal p, ep_scheduling_rank = pl_scheduling_rank p,
      ep_state = pl_state p, ep_plan = p, ep_attempt_count = 0, ep_next_attempt_at = None,
      ep_plan_generation = 1, ep_claim_generation = 0, ep_created_at = now, ep_updated_at = now\<rparr>"

definition replanned_row :: "int \<Rightarrow> SourcePartPlan \<Rightarrow> PartRow \<Rightarrow> PartRow" where
  "replanned_row now p r =
     (planned_row now p)\<lparr>ep_plan_generation := ep_plan_generation r + 1,
                         ep_claim_generation := ep_claim_generation r\<rparr>"

definition units_of_part :: "string \<Rightarrow> evidence_db \<Rightarrow> string list" where
  "units_of_part part_id db =
     map eu_evidence_unit_id (filter (\<lambda>u. eu_source_part_id u = part_id) (ev_units db))"

definition depends_on_any :: "string list \<Rightarrow> evidence_db \<Rightarrow> string \<Rightarrow> bool" where
  "depends_on_any unit_ids db snapshot_id \<longleftrightarrow>
     list_ex (\<lambda>d. fst d = snapshot_id \<and> snd d \<in> set unit_ids) (ev_dependencies db)"

definition delete_dependent_snapshots :: "string list \<Rightarrow> string \<Rightarrow> string \<Rightarrow> evidence_db \<Rightarrow> evidence_db" where
  "delete_dependent_snapshots unit_ids workspace_id revision_id db =
     delete_snapshots (\<lambda>s. es_workspace_id s = workspace_id \<and> es_revision_id s = revision_id \<and>
       depends_on_any unit_ids db (es_snapshot_id s)) db"

definition upsert_plan :: "int \<Rightarrow> SourcePartPlan \<Rightarrow> evidence_db \<Rightarrow> evidence_db" where
  "upsert_plan now plan db =
     (let part_id = pl_part_id plan in
      case part_row db part_id of
        None \<Rightarrow> db\<lparr>ev_parts := ev_parts db @ [planned_row now plan]\<rparr>
      | Some existing \<Rightarrow>
          if ep_plan existing = plan then update_part part_id (\<lambda>r. r\<lparr>ep_updated_at := now\<rparr>) db
          else
            update_part part_id (replanned_row now plan)
              (delete_attempts (\<lambda>a. ea_part_id a = part_id)
                (delete_units (\<lambda>u. eu_source_part_id u = part_id)
                  (delete_dependent_snapshots (units_of_part part_id db)
                    (ep_workspace_id existing) (ep_revision_id existing) db))))"

definition upsert_part_plans ::
  "(string \<Rightarrow> string) \<Rightarrow> int \<Rightarrow> SourcePartPlan list \<Rightarrow> evidence_db \<Rightarrow> py_error + evidence_db" where
  "upsert_part_plans H now plans db =
     bind_res (plan_revisions [] plans) (\<lambda>revisions.
       Inr (fold (upsert_plan now) plans
         (db\<lparr>ev_meta := fold (\<lambda>(w, r). AList.update (meta_name H w) r) revisions (ev_meta db)\<rparr>)))"

section \<open>Queries\<close>

definition get_part :: "string \<Rightarrow> evidence_db \<Rightarrow> py_error + SourcePartPlan" where
  "get_part part_id db =
     (case part_row db part_id of None \<Rightarrow> Inl KeyError | Some r \<Rightarrow> Inr (part_of_row r))"

definition in_revision :: "string \<Rightarrow> string \<Rightarrow> PartRow \<Rightarrow> bool" where
  "in_revision workspace_id revision_id r \<longleftrightarrow>
     ep_workspace_id r = workspace_id \<and> ep_revision_id r = revision_id"

definition reading_order :: "PartRow \<Rightarrow> nat \<times> nat \<times> string" where
  "reading_order r = (ep_priority r, ep_ordinal r, ep_part_id r)"

definition list_parts :: "string \<Rightarrow> string \<Rightarrow> evidence_db \<Rightarrow> SourcePartPlan list" where
  "list_parts workspace_id revision_id db =
     map part_of_row (order_by reading_order (filter (in_revision workspace_id revision_id) (ev_parts db)))"

definition attempt_count :: "string \<Rightarrow> evidence_db \<Rightarrow> py_error + nat" where
  "attempt_count part_id db =
     (case part_row db part_id of None \<Rightarrow> Inl KeyError | Some r \<Rightarrow> Inr (ep_attempt_count r))"

definition stable_route :: "string \<Rightarrow> bool" where
  "stable_route = bounded_match is_alnum (rx_class ''_.:-'') 127"

definition route_attempts :: "string \<Rightarrow> string \<Rightarrow> evidence_db \<Rightarrow> nat" where
  "route_attempts part_id route db =
     length (filter (\<lambda>a. ea_part_id a = part_id \<and> ea_route a = route) (ev_attempts db))"

definition route_attempt_count :: "string \<Rightarrow> string \<Rightarrow> evidence_db \<Rightarrow> py_error + nat" where
  "route_attempt_count part_id route db = checked (stable_route route) (route_attempts part_id route db)"

definition latest_attempt :: "string \<Rightarrow> evidence_db \<Rightarrow> AttemptRow option" where
  "latest_attempt part_id db =
     first_row (rev (order_by ea_attempt_number (filter (\<lambda>a. ea_part_id a = part_id) (ev_attempts db))))"

definition latest_part_error_codes :: "string \<Rightarrow> string \<Rightarrow> evidence_db \<Rightarrow> (string \<times> string) list" where
  "latest_part_error_codes workspace_id revision_id db =
     List.map_filter (\<lambda>r. case latest_attempt (ep_part_id r) db of
         None \<Rightarrow> None
       | Some a \<Rightarrow> map_option (\<lambda>code. (ep_part_id r, code)) (ea_safe_error_code a))
       (filter (in_revision workspace_id revision_id) (ev_parts db))"

definition part_state_count :: "string \<Rightarrow> string \<Rightarrow> evidence_db \<Rightarrow> PartState \<Rightarrow> nat" where
  "part_state_count workspace_id revision_id db state =
     length (filter (\<lambda>r. in_revision workspace_id revision_id r \<and> ep_state r = state) (ev_parts db))"

text \<open>\<open>part_state_counts\<close>: \<open>GROUP BY state\<close> has no group without a row\<close>

definition part_state_counts :: "string \<Rightarrow> string \<Rightarrow> evidence_db \<Rightarrow> (PartState \<times> nat) list" where
  "part_state_counts workspace_id revision_id db =
     map (\<lambda>state. (state, part_state_count workspace_id revision_id db state))
       (remdups (map ep_state (filter (in_revision workspace_id revision_id) (ev_parts db))))"

definition ensure_run_deadline ::
  "int \<Rightarrow> string \<Rightarrow> string \<Rightarrow> int \<Rightarrow> evidence_db \<Rightarrow> py_error + int \<times> evidence_db" where
  "ensure_run_deadline now run_id workspace_id expires_at db =
     (if run_id = [] \<or> length run_id > 128 \<or> workspace_id = [] \<or> length workspace_id > 128 then Inl ValueError
      else case row_of dl_run_id run_id (ev_deadlines db) of
        None \<Rightarrow> Inr (expires_at, db\<lparr>ev_deadlines := ev_deadlines db @
            [\<lparr>dl_run_id = run_id, dl_workspace_id = workspace_id, dl_expires_at = expires_at,
              dl_created_at = now\<rparr>]\<rparr>)
      | Some r \<Rightarrow> if dl_workspace_id r \<noteq> workspace_id then Inl ValueError else Inr (dl_expires_at r, db))"

text \<open>
  \<open>retry_failed_parts\<close>: failures without an attempt are preparation failures and are deleted, the
  others are prepared again. Their attempts stay recorded.
\<close>

definition retry_failed_parts ::
  "(string \<Rightarrow> string) \<Rightarrow> int \<Rightarrow> string \<Rightarrow> string \<Rightarrow> evidence_db \<Rightarrow> string list \<times> evidence_db" where
  "retry_failed_parts H now workspace_id revision_id db =
     (if \<not> is_current_revision H workspace_id revision_id db then ([], db)
      else let rows = order_by reading_order (filter (\<lambda>r. in_revision workspace_id revision_id r \<and>
                        ep_state r = PartState.FAILED) (ev_parts db));
               preparation = map ep_part_id (filter (\<lambda>r. ep_attempt_count r = 0) rows);
               provider = map ep_part_id (filter (\<lambda>r. ep_attempt_count r > 0) rows);
               kept = delete_parts (\<lambda>r. ep_part_id r \<in> set preparation) db
           in (map ep_part_id rows,
               kept\<lparr>ev_parts := update_where (\<lambda>r. ep_part_id r \<in> set provider)
                 (\<lambda>r. r\<lparr>ep_state := PREPARED, ep_next_attempt_at := None, ep_updated_at := now\<rparr>)
                 (ev_parts kept)\<rparr>))"

section \<open>Claims\<close>

record EvidencePartClaim =
  cm_plan :: SourcePartPlan
  cm_claim_token :: string

definition claimable :: "string \<Rightarrow> string \<Rightarrow> int \<Rightarrow> PartRow \<Rightarrow> bool" where
  "claimable workspace_id revision_id now r \<longleftrightarrow>
     in_revision workspace_id revision_id r \<and>
     ep_state r \<in> {PLANNED, AUTHORIZED, PREPARED, RETRY_WAIT} \<and>
     (case ep_next_attempt_at r of None \<Rightarrow> True | Some t \<Rightarrow> t \<le> now)"

definition claim_order :: "PartRow \<Rightarrow> nat \<times> nat \<times> nat \<times> string" where
  "claim_order r = (ep_priority r, ep_scheduling_rank r, ep_ordinal r, ep_part_id r)"

definition run_row :: "int \<Rightarrow> PartRow \<Rightarrow> PartRow" where
  "run_row now r = r\<lparr>ep_state := RUNNING, ep_next_attempt_at := None,
     ep_claim_generation := ep_claim_generation r + 1, ep_updated_at := now\<rparr>"

definition claim_of :: "(string \<Rightarrow> string) \<Rightarrow> PartRow \<Rightarrow> EvidencePartClaim" where
  "claim_of H r = \<lparr>cm_plan = (part_of_row r)\<lparr>pl_state := RUNNING\<rparr>,
     cm_claim_token = claim_token H (ep_part_id r) (ep_plan_generation r) (ep_claim_generation r + 1)\<rparr>"

definition claim_parts_with_tokens ::
  "(string \<Rightarrow> string) \<Rightarrow> string \<Rightarrow> string \<Rightarrow> int \<Rightarrow> int \<Rightarrow> evidence_db \<Rightarrow>
   py_error + EvidencePartClaim list \<times> evidence_db" where
  "claim_parts_with_tokens H workspace_id revision_id limit now db =
     (if limit < 0 then Inl ValueError
      else if limit = 0 \<or> \<not> is_current_revision H workspace_id revision_id db then Inr ([], db)
      else let rows = take (nat limit)
                 (order_by claim_order (filter (claimable workspace_id revision_id now) (ev_parts db)))
           in Inr (map (claim_of H) rows,
                   db\<lparr>ev_parts := update_where (\<lambda>r. ep_part_id r \<in> set (map ep_part_id rows)) (run_row now)
                        (ev_parts db)\<rparr>))"

definition claim_parts ::
  "(string \<Rightarrow> string) \<Rightarrow> string \<Rightarrow> string \<Rightarrow> int \<Rightarrow> int \<Rightarrow> evidence_db \<Rightarrow>
   py_error + SourcePartPlan list \<times> evidence_db" where
  "claim_parts H workspace_id revision_id limit now db =
     map_sum id (\<lambda>(claims, db'). (map cm_plan claims, db'))
       (claim_parts_with_tokens H workspace_id revision_id limit now db)"

text \<open>An attempt's outcome is a state or one of its names.\<close>

definition attempt_state :: "PartState + string \<Rightarrow> PartState option" where
  "attempt_state v =
     (case v of
        Inl s \<Rightarrow> Some s
      | Inr name \<Rightarrow> map_of [(''success'', PROCESSED), (''processed'', PROCESSED), (''retry'', RETRY_WAIT),
          (''retry_wait'', RETRY_WAIT), (''failed'', PartState.FAILED), (''running'', RUNNING)] name)"

record attempt_args =
  at_attempt :: int
  at_route :: string
  at_outcome :: "PartState + string"
  at_started_at :: int
  at_finished_at :: "int option"
  at_safe_error_code :: "string option"
  at_next_attempt_at :: "int option"

definition attempt_args_ok :: "attempt_args \<Rightarrow> PartState option" where
  "attempt_args_ok a =
     (if at_attempt a < 1 \<or> \<not> stable_route (at_route a) \<or> \<not> safe_error_code_ok (at_safe_error_code a) then None
      else case attempt_state (at_outcome a) of
        None \<Rightarrow> None
      | Some state \<Rightarrow>
          if state = RUNNING \<or> state = RETRY_WAIT \<and> at_next_attempt_at a = None then None else Some state)"

text \<open>The row of a part whose running claim a token names: the guard of every use of a token.\<close>

definition running_claim ::
  "(string \<Rightarrow> string) \<Rightarrow> string \<Rightarrow> string \<Rightarrow> evidence_db \<Rightarrow> py_error + PartRow" where
  "running_claim H part_id token db =
     (case part_row db part_id of
        None \<Rightarrow> Inl KeyError
      | Some r \<Rightarrow> checked (row_is_current H db r \<and> ep_state r = RUNNING \<and> token = row_token H r) r)"

definition record_attempt ::
  "(string \<Rightarrow> string) \<Rightarrow> string \<Rightarrow> attempt_args \<Rightarrow> string \<Rightarrow> evidence_db \<Rightarrow>
   py_error + SourcePartPlan \<times> evidence_db" where
  "record_attempt H part_id a token db =
     (case attempt_args_ok a of
        None \<Rightarrow> Inl ValueError
      | Some state \<Rightarrow>
          bind_res (running_claim H part_id token db) (\<lambda>r.
            if list_ex (\<lambda>x. ea_part_id x = part_id \<and> ea_attempt_number x = nat (at_attempt a)) (ev_attempts db)
            then Inl IntegrityError
            else let f = (\<lambda>r. r\<lparr>ep_state := state,
                             ep_attempt_count := max (ep_attempt_count r) (nat (at_attempt a)),
                             ep_next_attempt_at := at_next_attempt_at a,
                             ep_updated_at := (case at_finished_at a of None \<Rightarrow> at_started_at a | Some t \<Rightarrow> t)\<rparr>)
                 in Inr (part_of_row (f r), update_part part_id f (db\<lparr>ev_attempts := ev_attempts db @
                      [\<lparr>ea_part_id = part_id, ea_attempt_number = nat (at_attempt a), ea_route = at_route a,
                        ea_outcome = state, ea_safe_error_code = at_safe_error_code a,
                        ea_started_at = at_started_at a, ea_finished_at = at_finished_at a\<rparr>]\<rparr>))))"

definition mark_running ::
  "(string \<Rightarrow> string) \<Rightarrow> int \<Rightarrow> string \<Rightarrow> int \<Rightarrow> PartState \<Rightarrow> evidence_db \<Rightarrow>
   py_error + SourcePartPlan \<times> evidence_db" where
  "mark_running H now part_id attempt expected_state db =
     (if attempt < 1 then Inl ValueError
      else case part_row db part_id of
        None \<Rightarrow> Inl KeyError
      | Some r \<Rightarrow>
          if \<not> row_is_current H db r \<or> ep_state r \<noteq> expected_state then Inl ValueError
          else let f = (\<lambda>r. (run_row now r)\<lparr>ep_attempt_count := max (ep_attempt_count r) (nat attempt)\<rparr>)
               in Inr (part_of_row (f r), update_part part_id f db))"

definition resume_claim ::
  "(string \<Rightarrow> string) \<Rightarrow> string \<Rightarrow> string \<Rightarrow> int \<Rightarrow> int \<Rightarrow> evidence_db \<Rightarrow>
   py_error + EvidencePartClaim \<times> evidence_db" where
  "resume_claim H part_id token attempt now db =
     (if attempt < 1 then Inl ValueError
      else case part_row db part_id of
        None \<Rightarrow> Inl KeyError
      | Some r \<Rightarrow>
          if \<not> row_is_current H db r \<or> ep_state r \<noteq> RETRY_WAIT \<or> token \<noteq> row_token H r then Inl ValueError
          else let f = (\<lambda>r. (run_row now r)\<lparr>ep_attempt_count := max (ep_attempt_count r) (nat attempt)\<rparr>)
               in Inr (\<lparr>cm_plan = part_of_row (f r), cm_claim_token = row_token H (f r)\<rparr>,
                       update_part part_id f db))"

definition fail_exhausted_claim ::
  "(string \<Rightarrow> string) \<Rightarrow> string \<Rightarrow> string \<Rightarrow> int \<Rightarrow> evidence_db \<Rightarrow> py_error + SourcePartPlan \<times> evidence_db" where
  "fail_exhausted_claim H part_id token failed_at db =
     bind_res (running_claim H part_id token db) (\<lambda>r.
       let f = (\<lambda>r. r\<lparr>ep_state := PartState.FAILED, ep_next_attempt_at := None, ep_updated_at := failed_at\<rparr>)
       in Inr (part_of_row (f r), update_part part_id f db))"

definition publication_token :: "(string \<Rightarrow> string) \<Rightarrow> string \<Rightarrow> evidence_db \<Rightarrow> py_error + string" where
  "publication_token H part_id db =
     (case part_row db part_id of
        None \<Rightarrow> Inl KeyError
      | Some r \<Rightarrow> checked (row_is_current H db r \<and> ep_state r = RUNNING) (row_token H r))"

text \<open>\<open>pause_claim\<close> does not ask for the current revision.\<close>

definition pause_claim ::
  "(string \<Rightarrow> string) \<Rightarrow> string \<Rightarrow> string \<Rightarrow> int \<Rightarrow> evidence_db \<Rightarrow> py_error + evidence_db" where
  "pause_claim H part_id token paused_at db =
     (case part_row db part_id of
        None \<Rightarrow> Inl KeyError
      | Some r \<Rightarrow>
          if ep_state r \<noteq> RUNNING \<or> token \<noteq> row_token H r then Inl ValueError
          else Inr (update_part part_id (\<lambda>r. r\<lparr>ep_state := RETRY_WAIT, ep_next_attempt_at := Some paused_at,
                      ep_updated_at := paused_at\<rparr>) db))"

section \<open>Evidence\<close>

definition get_evidence_unit :: "string \<Rightarrow> evidence_db \<Rightarrow> EvidenceUnit option" where
  "get_evidence_unit unit_id db = map_option eu_unit (row_of eu_evidence_unit_id unit_id (ev_units db))"

text \<open>the row with the highest \<open>rowid\<close> among the units of a part\<close>

definition newest_unit :: "string \<Rightarrow> evidence_db \<Rightarrow> UnitRow option" where
  "newest_unit part_id db = first_row (rev (filter (\<lambda>u. eu_source_part_id u = part_id) (ev_units db)))"

definition processed_units :: "string \<Rightarrow> string \<Rightarrow> evidence_db \<Rightarrow> UnitRow list" where
  "processed_units workspace_id revision_id db =
     List.map_filter (\<lambda>r. newest_unit (ep_part_id r) db)
       (order_by reading_order (filter (\<lambda>r. in_revision workspace_id revision_id r \<and> ep_state r = PROCESSED)
         (ev_parts db)))"

definition list_evidence_units :: "string \<Rightarrow> string \<Rightarrow> evidence_db \<Rightarrow> EvidenceUnit list" where
  "list_evidence_units workspace_id revision_id db = map eu_unit (processed_units workspace_id revision_id db)"

definition latest_evidence_times :: "string \<Rightarrow> string \<Rightarrow> evidence_db \<Rightarrow> (string \<times> int) list" where
  "latest_evidence_times workspace_id revision_id db =
     map (\<lambda>u. (eu_source_part_id u, eu_published_at u)) (processed_units workspace_id revision_id db)"

text \<open>the cache entry of a key joined with its unit\<close>

definition cache_entry :: "(string \<Rightarrow> string) \<Rightarrow> string \<Rightarrow> evidence_db \<Rightarrow> (CacheRow \<times> UnitRow) option" where
  "cache_entry H cache_key db =
     (case row_of ec_cache_digest (H cache_key) (ev_cache db) of
        None \<Rightarrow> None
      | Some c \<Rightarrow> map_option (\<lambda>u. (c, u)) (row_of eu_evidence_unit_id (ec_evidence_unit_id c) (ev_units db)))"

definition cached_evidence :: "(string \<Rightarrow> string) \<Rightarrow> string \<Rightarrow> evidence_db \<Rightarrow> EvidenceUnit option" where
  "cached_evidence H cache_key db = map_option (eu_unit \<circ> snd) (cache_entry H cache_key db)"

definition citations_inside :: "SourcePartPlan \<Rightarrow> EvidenceUnit \<Rightarrow> bool" where
  "citations_inside plan u \<longleftrightarrow>
     list_all (\<lambda>c. ct_relative_path c = pl_relative_path plan \<and> locator_contains (pl_locator plan) (ct_locator c))
       (un_citations u)"

definition unit_row :: "(string \<Rightarrow> string) \<Rightarrow> string \<Rightarrow> EvidenceUnit \<Rightarrow> int \<Rightarrow> UnitRow" where
  "unit_row H part_id u published_at =
     \<lparr>eu_evidence_unit_id = un_evidence_unit_id u, eu_source_part_id = part_id, eu_unit = u,
      eu_unit_sha256 = unit_sha256 H u, eu_published_at = published_at\<rparr>"

definition processed_part :: "string \<Rightarrow> int \<Rightarrow> evidence_db \<Rightarrow> evidence_db" where
  "processed_part part_id published_at = update_part part_id
     (\<lambda>r. r\<lparr>ep_state := PROCESSED, ep_next_attempt_at := None, ep_updated_at := published_at\<rparr>)"

definition rebound_unit :: "(string \<Rightarrow> string) \<Rightarrow> string \<Rightarrow> string \<Rightarrow> EvidenceUnit \<Rightarrow> EvidenceUnit" where
  "rebound_unit H part_id cache_digest original =
     (let unit_id = ''unit_'' @ H (part_id @ [NUL] @ cache_digest) in
      original\<lparr>un_evidence_unit_id := unit_id, un_source_part_id := part_id,
        un_citations := map (\<lambda>(index, c). c\<lparr>ct_citation_id := ''citation_'' @ H (unit_id @ [NUL] @ nat_str index),
            ct_evidence_unit_id := unit_id, ct_source_part_id := part_id\<rparr>)
          (zip [0 ..< length (un_citations original)] (un_citations original))\<rparr>)"

definition reuse_cached_evidence ::
  "(string \<Rightarrow> string) \<Rightarrow> string \<Rightarrow> string \<Rightarrow> string \<Rightarrow> int \<Rightarrow> evidence_db \<Rightarrow>
   py_error + EvidenceUnit option \<times> evidence_db" where
  "reuse_cached_evidence H part_id cache_key token completed_at db =
     bind_res (running_claim H part_id token db) (\<lambda>r.
       case cache_entry H cache_key db of
         None \<Rightarrow> Inr (None, db)
       | Some (c, original) \<Rightarrow>
           if ec_source_sha256 c \<noteq> ep_source_sha256 r \<or> \<not> citations_inside (ep_plan r) (eu_unit original)
           then Inr (None, db)
           else let u = rebound_unit H part_id (H cache_key) (eu_unit original) in
             if \<not> strings_safe (unit_payload u) then Inl ValueError
             else if row_of eu_evidence_unit_id (un_evidence_unit_id u) (ev_units db) \<noteq> None then Inl IntegrityError
             else Inr (Some u, processed_part part_id completed_at
                        (db\<lparr>ev_units := ev_units db @ [unit_row H part_id u completed_at]\<rparr>)))"

definition unit_matches_part :: "string \<Rightarrow> EvidenceUnit \<Rightarrow> bool" where
  "unit_matches_part part_id u \<longleftrightarrow>
     strings_safe (unit_payload u) \<and> un_source_part_id u = part_id \<and>
     list_all (\<lambda>c. ct_evidence_unit_id c = un_evidence_unit_id u \<and> ct_source_part_id c = part_id) (un_citations u)"

text \<open>a repeated publication of the same claim's evidence\<close>

definition already_published ::
  "(string \<Rightarrow> string) \<Rightarrow> PartRow \<Rightarrow> EvidenceUnit \<Rightarrow> (CacheRow \<times> UnitRow) option \<Rightarrow> bool" where
  "already_published H r u cached =
     (case cached of
        None \<Rightarrow> False
      | Some (c, v) \<Rightarrow>
          ec_evidence_unit_id c = un_evidence_unit_id u \<and> ec_unit_sha256 c = unit_sha256 H u \<and>
          ec_source_sha256 c = ep_source_sha256 r \<and> ec_plan_generation c = Some (ep_plan_generation r) \<and>
          ec_claim_generation c = Some (ep_claim_generation r) \<and> eu_source_part_id v = ep_part_id r \<and>
          eu_unit_sha256 v = unit_sha256 H u)"

definition cache_row :: "(string \<Rightarrow> string) \<Rightarrow> PartRow \<Rightarrow> EvidenceUnit \<Rightarrow> string \<Rightarrow> int \<Rightarrow> CacheRow" where
  "cache_row H r u cache_key completed_at =
     \<lparr>ec_cache_digest = H cache_key, ec_evidence_unit_id = un_evidence_unit_id u,
      ec_unit_sha256 = unit_sha256 H u, ec_source_sha256 = ep_source_sha256 r,
      ec_plan_generation = Some (ep_plan_generation r),
      ec_claim_generation = Some (ep_claim_generation r), ec_created_at = completed_at\<rparr>"

definition publish_evidence ::
  "(string \<Rightarrow> string) \<Rightarrow> string \<Rightarrow> EvidenceUnit \<Rightarrow> string \<Rightarrow> string \<Rightarrow> int \<Rightarrow> evidence_db \<Rightarrow>
   py_error + bool \<times> evidence_db" where
  "publish_evidence H part_id u cache_key token completed_at db =
     (if \<not> unit_matches_part part_id u then Inl ValueError
      else case part_row db part_id of
        None \<Rightarrow> Inl KeyError
      | Some r \<Rightarrow>
          if \<not> row_is_current H db r \<or> token \<noteq> row_token H r \<or> \<not> citations_inside (ep_plan r) u
          then Inl ValueError
          else if ep_state r = PROCESSED
          then (if already_published H r u (cache_entry H cache_key db) then Inr (False, db) else Inl ValueError)
          else if ep_state r \<noteq> RUNNING \<or> cache_entry H cache_key db \<noteq> None then Inl ValueError
          else let existing = row_of eu_evidence_unit_id (un_evidence_unit_id u) (ev_units db) in
            if (case existing of None \<Rightarrow> False
                | Some v \<Rightarrow> eu_source_part_id v \<noteq> part_id \<or> eu_unit_sha256 v \<noteq> unit_sha256 H u)
            then Inl ValueError
            else Inr (True, processed_part part_id completed_at
              (db\<lparr>ev_units := (if existing = None then ev_units db @ [unit_row H part_id u completed_at]
                               else ev_units db),
                  ev_cache := ev_cache db @ [cache_row H r u cache_key completed_at]\<rparr>)))"

end
