(* ===== verification/Evidence_Snapshots.thy ===== *)
theory Evidence_Snapshots
  imports Evidence_Store
begin

text \<open>
  The second half of \<^verbatim>\<open>exam_predictor/evidence/store.py\<close>: study-map snapshots and their dependencies,
  the invalidation of an entry with the revocation of the snapshots that used it, the deletion of a
  workspace, the recovery of interrupted claims and the migration of older databases.
\<close>

section \<open>Snapshots\<close>

definition get_snapshot :: "string \<Rightarrow> evidence_db \<Rightarrow> StudyMapSnapshot option" where
  "get_snapshot snapshot_id db = map_option es_snapshot (row_of es_snapshot_id snapshot_id (ev_snapshots db))"

text \<open>\<open>ORDER BY created_at DESC, rowid DESC LIMIT 1\<close>\<close>

definition current_snapshot :: "string \<Rightarrow> string \<Rightarrow> evidence_db \<Rightarrow> StudyMapSnapshot option" where
  "current_snapshot workspace_id revision_id db =
     map_option es_snapshot (first_row (rev (order_by es_created_at
       (filter (\<lambda>s. es_workspace_id s = workspace_id \<and> es_revision_id s = revision_id) (ev_snapshots db)))))"

definition coverage :: "string \<Rightarrow> string \<Rightarrow> evidence_db \<Rightarrow> CoverageSummary option" where
  "coverage workspace_id revision_id db =
     Option.bind (current_snapshot workspace_id revision_id db) sn_coverage"

definition snapshot_identity :: "StudyMapSnapshot \<Rightarrow> StudyMapSnapshot" where
  "snapshot_identity s = s\<lparr>sn_created_at := 0\<rparr>"

text \<open>a unit joined with the part it comes from\<close>

definition unit_part :: "evidence_db \<Rightarrow> UnitRow \<Rightarrow> PartRow option" where
  "unit_part db u = part_row db (eu_source_part_id u)"

definition latest_processed :: "evidence_db \<Rightarrow> string \<Rightarrow> string \<Rightarrow> UnitRow \<Rightarrow> bool" where
  "latest_processed db workspace_id revision_id u =
     (case unit_part db u of
        None \<Rightarrow> False
      | Some r \<Rightarrow> in_revision workspace_id revision_id r \<and> ep_state r = PROCESSED \<and>
                 newest_unit (eu_source_part_id u) db = Some u)"

definition validated_snapshot_dependencies :: "StudyMapSnapshot \<Rightarrow> evidence_db \<Rightarrow> py_error + UnitRow list" where
  "validated_snapshot_dependencies s db =
     (let rows = filter (\<lambda>u. eu_evidence_unit_id u \<in> set (sn_evidence_unit_ids s) \<and> unit_part db u \<noteq> None)
                   (ev_units db) in
      if length rows \<noteq> length (sn_evidence_unit_ids s) then Inl IntegrityError
      else checked (list_all (latest_processed db (sn_workspace_id s) (sn_revision_id s)) rows) rows)"

definition current_snapshot_context ::
  "(string \<Rightarrow> string) \<Rightarrow> string \<Rightarrow> string \<Rightarrow> evidence_db \<Rightarrow> (StudyMapSnapshot \<times> EvidenceUnit list) option" where
  "current_snapshot_context H workspace_id revision_id db =
     (if \<not> is_current_revision H workspace_id revision_id db then None
      else case current_snapshot workspace_id revision_id db of
        None \<Rightarrow> None
      | Some s \<Rightarrow>
          (case validated_snapshot_dependencies s db of
             Inl _ \<Rightarrow> None
           | Inr rows \<Rightarrow>
               Some (s, List.map_filter (\<lambda>i. map_option eu_unit (row_of eu_evidence_unit_id i rows))
                          (sn_evidence_unit_ids s))))"

definition dependent_snapshots_for_entry ::
  "string \<Rightarrow> string \<Rightarrow> string \<Rightarrow> evidence_db \<Rightarrow> StudyMapSnapshot list" where
  "dependent_snapshots_for_entry workspace_id revision_id entry_id db =
     (let units = map eu_evidence_unit_id (filter (\<lambda>u. case unit_part db u of
                    None \<Rightarrow> False | Some r \<Rightarrow> ep_entry_id r = entry_id) (ev_units db)) in
      map es_snapshot (order_by es_created_at (filter (\<lambda>s. es_workspace_id s = workspace_id \<and>
        es_revision_id s = revision_id \<and> depends_on_any units db (es_snapshot_id s)) (ev_snapshots db))))"

definition delete_snapshot :: "string \<Rightarrow> evidence_db \<Rightarrow> evidence_db" where
  "delete_snapshot snapshot_id = delete_snapshots (\<lambda>s. es_snapshot_id s = snapshot_id)"

definition dependency_closure :: "StudyMapSnapshot \<Rightarrow> string list" where
  "dependency_closure s =
     concat (map kn_evidence_unit_ids (sn_nodes s)) @ concat (map cg_evidence_unit_ids (sn_course_groups s))"

definition save_snapshot ::
  "(string \<Rightarrow> string) \<Rightarrow> StudyMapSnapshot \<Rightarrow> evidence_db \<Rightarrow> py_error + bool \<times> evidence_db" where
  "save_snapshot H s db =
     (if \<not> list_all safe_text (snapshot_strings s) \<or>
         set (sn_evidence_unit_ids s) \<noteq> set (dependency_closure s) \<or>
         \<not> is_current_revision H (sn_workspace_id s) (sn_revision_id s) db
      then Inl ValueError
      else bind_res (validated_snapshot_dependencies s db) (\<lambda>_.
        case row_of es_snapshot_id (sn_snapshot_id s) (ev_snapshots db) of
          Some existing \<Rightarrow>
            (if snapshot_identity (es_snapshot existing) = snapshot_identity s then Inr (False, db)
             else Inl ValueError)
        | None \<Rightarrow>
            if \<not> distinct (sn_evidence_unit_ids s) then Inl IntegrityError
            else Inr (True, db\<lparr>ev_snapshots := ev_snapshots db @
                [\<lparr>es_snapshot_id = sn_snapshot_id s, es_workspace_id = sn_workspace_id s,
                  es_revision_id = sn_revision_id s, es_status = sn_status s, es_snapshot = s,
                  es_created_at = sn_created_at s\<rparr>],
              ev_dependencies := ev_dependencies db @ map (Pair (sn_snapshot_id s)) (sn_evidence_unit_ids s)\<rparr>)))"

section \<open>Invalidation\<close>

definition entry_parts :: "string \<Rightarrow> string \<Rightarrow> string \<Rightarrow> evidence_db \<Rightarrow> PartRow list" where
  "entry_parts workspace_id revision_id entry_id db =
     order_by ep_part_id (filter (\<lambda>r. in_revision workspace_id revision_id r \<and> ep_entry_id r = entry_id)
       (ev_parts db))"

definition add_revocation :: "int \<Rightarrow> string \<Rightarrow> string \<Rightarrow> RevocationRow list \<Rightarrow> RevocationRow list" where
  "add_revocation now workspace_id snapshot_id rows =
     (if row_of er_snapshot_id snapshot_id rows \<noteq> None then rows
      else rows @ [\<lparr>er_workspace_id = workspace_id, er_snapshot_id = snapshot_id, er_created_at = now,
                    er_completed_at = None\<rparr>])"

definition revoked_snapshots :: "string list \<Rightarrow> string \<Rightarrow> string \<Rightarrow> evidence_db \<Rightarrow> string list" where
  "revoked_snapshots unit_ids workspace_id revision_id db =
     sort (map es_snapshot_id (filter (\<lambda>s. es_workspace_id s = workspace_id \<and> es_revision_id s = revision_id \<and>
       depends_on_any unit_ids db (es_snapshot_id s)) (ev_snapshots db)))"

definition invalidate_entry_with_revocations ::
  "int \<Rightarrow> string \<Rightarrow> string \<Rightarrow> string \<Rightarrow> evidence_db \<Rightarrow> (string list \<times> string list) \<times> evidence_db" where
  "invalidate_entry_with_revocations now workspace_id revision_id entry_id db =
     (let part_ids = map ep_part_id (entry_parts workspace_id revision_id entry_id db) in
      if part_ids = [] then (([], []), db)
      else
        let unit_ids = map eu_evidence_unit_id (filter (\<lambda>u. eu_source_part_id u \<in> set part_ids) (ev_units db));
            snapshot_ids = revoked_snapshots unit_ids workspace_id revision_id db;
            db1 = db\<lparr>ev_revocations := fold (add_revocation now workspace_id) snapshot_ids (ev_revocations db)\<rparr>;
            db2 = delete_dependent_snapshots unit_ids workspace_id revision_id db1;
            db3 = delete_units (\<lambda>u. eu_source_part_id u \<in> set part_ids) db2
        in ((part_ids, snapshot_ids),
            db3\<lparr>ev_parts := update_where (\<lambda>r. ep_part_id r \<in> set part_ids)
              (\<lambda>r. r\<lparr>ep_state := INVALIDATED, ep_next_attempt_at := None, ep_updated_at := now\<rparr>)
              (ev_parts db3)\<rparr>))"

definition invalidate_entry ::
  "int \<Rightarrow> string \<Rightarrow> string \<Rightarrow> string \<Rightarrow> evidence_db \<Rightarrow> string list \<times> evidence_db" where
  "invalidate_entry now workspace_id revision_id entry_id db =
     (case invalidate_entry_with_revocations now workspace_id revision_id entry_id db of
        ((part_ids, _), db') \<Rightarrow> (part_ids, db'))"

definition delete_invalidated_entry_parts ::
  "string \<Rightarrow> string \<Rightarrow> string \<Rightarrow> evidence_db \<Rightarrow> py_error + string list \<times> evidence_db" where
  "delete_invalidated_entry_parts workspace_id revision_id entry_id db =
     (let rows = entry_parts workspace_id revision_id entry_id db; part_ids = map ep_part_id rows in
      if list_ex (\<lambda>r. ep_state r \<noteq> INVALIDATED) rows then Inl ValueError
      else Inr (part_ids, delete_parts (\<lambda>r. ep_part_id r \<in> set part_ids) db))"

section \<open>Revocations\<close>

definition revocation_order :: "RevocationRow \<Rightarrow> int \<times> string" where
  "revocation_order r = (er_created_at r, er_snapshot_id r)"

definition snapshot_revocations :: "string \<Rightarrow> evidence_db \<Rightarrow> string list" where
  "snapshot_revocations workspace_id db =
     map er_snapshot_id (order_by revocation_order
       (filter (\<lambda>r. er_workspace_id r = workspace_id) (ev_revocations db)))"

definition pending_snapshot_revocations :: "string \<Rightarrow> evidence_db \<Rightarrow> string list" where
  "pending_snapshot_revocations workspace_id db =
     map er_snapshot_id (order_by revocation_order
       (filter (\<lambda>r. er_workspace_id r = workspace_id \<and> er_completed_at r = None) (ev_revocations db)))"

definition snapshot_is_revoked :: "string \<Rightarrow> string \<Rightarrow> evidence_db \<Rightarrow> bool" where
  "snapshot_is_revoked workspace_id snapshot_id db \<longleftrightarrow>
     list_ex (\<lambda>r. er_workspace_id r = workspace_id \<and> er_snapshot_id r = snapshot_id) (ev_revocations db)"

definition complete_snapshot_revocation :: "int \<Rightarrow> string \<Rightarrow> string \<Rightarrow> evidence_db \<Rightarrow> evidence_db" where
  "complete_snapshot_revocation now workspace_id snapshot_id db =
     db\<lparr>ev_revocations := update_where (\<lambda>r. er_workspace_id r = workspace_id \<and> er_snapshot_id r = snapshot_id)
       (\<lambda>r. r\<lparr>er_completed_at := (case er_completed_at r of None \<Rightarrow> Some now | Some t \<Rightarrow> Some t)\<rparr>)
       (ev_revocations db)\<rparr>"

section \<open>Deletion of a workspace\<close>

definition begin_workspace_deletion :: "int \<Rightarrow> string \<Rightarrow> evidence_db \<Rightarrow> evidence_db" where
  "begin_workspace_deletion now workspace_id db =
     (if map_of (ev_deletions db) workspace_id \<noteq> None then db
      else db\<lparr>ev_deletions := ev_deletions db @ [(workspace_id, now)]\<rparr>)"

definition workspace_deletion_pending :: "string \<Rightarrow> evidence_db \<Rightarrow> bool" where
  "workspace_deletion_pending workspace_id db \<longleftrightarrow> map_of (ev_deletions db) workspace_id \<noteq> None"

definition pending_workspace_deletions :: "evidence_db \<Rightarrow> string list" where
  "pending_workspace_deletions db = map fst (order_by (\<lambda>(w, t). (t, w)) (ev_deletions db))"

definition delete_evidence_rows :: "(string \<Rightarrow> string) \<Rightarrow> string \<Rightarrow> evidence_db \<Rightarrow> evidence_db" where
  "delete_evidence_rows H workspace_id db =
     (let db1 = db\<lparr>ev_revocations := delete_where (\<lambda>r. er_workspace_id r = workspace_id) (ev_revocations db),
                   ev_deadlines := delete_where (\<lambda>r. dl_workspace_id r = workspace_id) (ev_deadlines db)\<rparr>;
          db2 = delete_snapshots (\<lambda>s. es_workspace_id s = workspace_id) db1;
          db3 = delete_parts (\<lambda>r. ep_workspace_id r = workspace_id) db2
      in db3\<lparr>ev_meta := delete_where (\<lambda>m. fst m = meta_name H workspace_id) (ev_meta db3)\<rparr>)"

definition delete_evidence_workspace :: "(string \<Rightarrow> string) \<Rightarrow> string \<Rightarrow> evidence_db \<Rightarrow> evidence_db" where
  "delete_evidence_workspace H workspace_id db =
     (let db1 = delete_evidence_rows H workspace_id db in
      db1\<lparr>ev_deletions := delete_where (\<lambda>d. fst d = workspace_id) (ev_deletions db1)\<rparr>)"

definition complete_workspace_deletion :: "(string \<Rightarrow> string) \<Rightarrow> string \<Rightarrow> evidence_db \<Rightarrow> evidence_db" where
  "complete_workspace_deletion H workspace_id db = delete_evidence_workspace H workspace_id db"

section \<open>Recovery\<close>

definition recover_unfinished_parts :: "int \<Rightarrow> evidence_db \<Rightarrow> string list \<times> evidence_db" where
  "recover_unfinished_parts now db =
     (map ep_part_id (order_by (\<lambda>r. (ep_created_at r, ep_part_id r))
        (filter (\<lambda>r. ep_state r = RUNNING) (ev_parts db))),
      db\<lparr>ev_parts := update_where (\<lambda>r. ep_state r = RUNNING)
        (\<lambda>r. r\<lparr>ep_state := RETRY_WAIT, ep_next_attempt_at := Some now, ep_updated_at := now\<rparr>) (ev_parts db)\<rparr>)"

section \<open>Migration\<close>

text \<open>
  Databases before the current schema miss columns: scheduling ranks are then computed per entry
  from the representative order of its parts, generations start at their defaults. A database of a
  newer schema is refused. The version is the decimal text the code writes itself.
\<close>

record legacy_columns =
  lc_scheduling_rank :: bool
  lc_plan_generation :: bool
  lc_claim_generation :: bool
  lc_cache_plan_generation :: bool
  lc_cache_claim_generation :: bool
  lc_completed_at :: bool

definition same_entry :: "PartRow \<Rightarrow> PartRow \<Rightarrow> bool" where
  "same_entry a b \<longleftrightarrow> ep_workspace_id a = ep_workspace_id b \<and> ep_revision_id a = ep_revision_id b \<and>
     ep_entry_id a = ep_entry_id b"

definition entry_members :: "PartRow list \<Rightarrow> PartRow \<Rightarrow> string list" where
  "entry_members rows r = map ep_part_id (order_by (\<lambda>x. (ep_ordinal x, ep_part_id x)) (filter (same_entry r) rows))"

definition index_of :: "'a \<Rightarrow> 'a list \<Rightarrow> nat" where
  "index_of x xs = length (takeWhile (\<lambda>y. y \<noteq> x) xs)"

definition legacy_rank :: "PartRow list \<Rightarrow> PartRow \<Rightarrow> nat" where
  "legacy_rank rows r =
     (let members = entry_members rows r in
      index_of (ep_part_id r) (map (\<lambda>i. members ! i) (representative_ordinals (int (length members)))))"

definition migrated_part :: "legacy_columns \<Rightarrow> PartRow list \<Rightarrow> PartRow \<Rightarrow> PartRow" where
  "migrated_part cols rows r =
     r\<lparr>ep_scheduling_rank := (if lc_scheduling_rank cols then ep_scheduling_rank r else legacy_rank rows r),
       ep_plan_generation := (if lc_plan_generation cols then ep_plan_generation r else 1),
       ep_claim_generation := (if lc_claim_generation cols then ep_claim_generation r else 0)\<rparr>"

definition migrated_cache :: "legacy_columns \<Rightarrow> CacheRow \<Rightarrow> CacheRow" where
  "migrated_cache cols c =
     c\<lparr>ec_plan_generation := (if lc_cache_plan_generation cols then ec_plan_generation c else None),
       ec_claim_generation := (if lc_cache_claim_generation cols then ec_claim_generation c else None)\<rparr>"

definition schema_version_ok :: "evidence_db \<Rightarrow> py_error + unit" where
  "schema_version_ok db =
     (case map_of (ev_meta db) ''schema_version'' of
        None \<Rightarrow> Inr ()
      | Some v \<Rightarrow> if v = [] \<or> \<not> list_all is_digit v then Inl ValueError
                  else if digits_value v > 8 then Inl RuntimeError else Inr ())"

definition migrate_evidence :: "legacy_columns \<Rightarrow> evidence_db \<Rightarrow> py_error + evidence_db" where
  "migrate_evidence cols db = bind_res (schema_version_ok db) (\<lambda>_.
     Inr (db\<lparr>ev_parts := map (migrated_part cols (ev_parts db)) (ev_parts db),
             ev_cache := map (migrated_cache cols) (ev_cache db),
             ev_revocations := map (\<lambda>x. x\<lparr>er_completed_at :=
               (if lc_completed_at cols then er_completed_at x else None)\<rparr>) (ev_revocations db),
             ev_meta := AList.update ''schema_version'' ''8'' (ev_meta db)\<rparr>))"

end
