(* ===== verification/Evidence_Inv.thy ===== *)
theory Evidence_Inv
  imports Evidence_Snapshots
begin

text \<open>
  The invariant of the evidence database and that every operation keeps it: keys are unique, every
  reference has its row, only parts that may have evidence have some, and every unit a snapshot names
  is still there and comes from a part of the snapshot's revision.
\<close>

section \<open>The invariant\<close>

definition may_have_units :: "PartRow \<Rightarrow> bool" where
  "may_have_units r \<longleftrightarrow> (ep_state r = PROCESSED \<or> ep_attempt_count r \<ge> 1) \<and> ep_state r \<noteq> INVALIDATED"

definition keys_unique :: "evidence_db \<Rightarrow> bool" where
  "keys_unique db \<longleftrightarrow>
     distinct (map ep_part_id (ev_parts db)) \<and> distinct (map eu_evidence_unit_id (ev_units db)) \<and>
     distinct (map ec_cache_digest (ev_cache db)) \<and> distinct (map es_snapshot_id (ev_snapshots db))"

definition rows_referenced :: "evidence_db \<Rightarrow> bool" where
  "rows_referenced db \<longleftrightarrow>
     (\<forall>a \<in> set (ev_attempts db). ea_part_id a \<in> ep_part_id ` set (ev_parts db)) \<and>
     (\<forall>u \<in> set (ev_units db). \<exists>r \<in> set (ev_parts db). ep_part_id r = eu_source_part_id u \<and> may_have_units r) \<and>
     (\<forall>c \<in> set (ev_cache db). ec_evidence_unit_id c \<in> eu_evidence_unit_id ` set (ev_units db))"

definition supports :: "evidence_db \<Rightarrow> string \<Rightarrow> string \<Rightarrow> bool" where
  "supports db snapshot_id unit_id \<longleftrightarrow>
     (\<exists>s \<in> set (ev_snapshots db). \<exists>u \<in> set (ev_units db). \<exists>r \<in> set (ev_parts db).
        es_snapshot_id s = snapshot_id \<and> eu_evidence_unit_id u = unit_id \<and> ep_part_id r = eu_source_part_id u \<and>
        in_revision (es_workspace_id s) (es_revision_id s) r)"

definition dependencies_backed :: "evidence_db \<Rightarrow> bool" where
  "dependencies_backed db \<longleftrightarrow> (\<forall>(s, u) \<in> set (ev_dependencies db). supports db s u)"

definition snapshots_complete :: "evidence_db \<Rightarrow> bool" where
  "snapshots_complete db \<longleftrightarrow>
     (\<forall>s \<in> set (ev_snapshots db). \<forall>i \<in> set (sn_evidence_unit_ids (es_snapshot s)).
        (es_snapshot_id s, i) \<in> set (ev_dependencies db))"

definition evidence_inv :: "evidence_db \<Rightarrow> bool" where
  "evidence_inv db \<longleftrightarrow>
     keys_unique db \<and> rows_referenced db \<and> dependencies_backed db \<and> snapshots_complete db"

lemma supportsI:
  assumes "s \<in> set (ev_snapshots db)" and "u \<in> set (ev_units db)" and "r \<in> set (ev_parts db)"
    and "es_snapshot_id s = snapshot_id" and "eu_evidence_unit_id u = unit_id"
    and "ep_part_id r = eu_source_part_id u" and "in_revision (es_workspace_id s) (es_revision_id s) r"
  shows "supports db snapshot_id unit_id"
  unfolding supports_def using assms by blast

lemmas evidence_inv_defs =
  evidence_inv_def keys_unique_def rows_referenced_def dependencies_backed_def snapshots_complete_def

lemma evidence_inv_other_tables [simp]:
  "evidence_inv (db\<lparr>ev_meta := m\<rparr>) = evidence_inv db"
  "evidence_inv (db\<lparr>ev_revocations := rv\<rparr>) = evidence_inv db"
  "evidence_inv (db\<lparr>ev_deletions := dl\<rparr>) = evidence_inv db"
  "evidence_inv (db\<lparr>ev_deadlines := dd\<rparr>) = evidence_inv db"
  by (simp_all add: evidence_inv_defs supports_def)

lemma new_evidence_inv: "evidence_inv new_evidence_db"
  by (simp add: evidence_inv_defs new_evidence_db_def)

section \<open>How the statements keep it\<close>

definition part_has_units :: "evidence_db \<Rightarrow> string \<Rightarrow> bool" where
  "part_has_units db part_id \<longleftrightarrow> part_id \<in> eu_source_part_id ` set (ev_units db)"

text \<open>a change of part rows: the keys stay, and rows with evidence stay in their revision\<close>

definition same_revision :: "PartRow \<Rightarrow> PartRow \<Rightarrow> bool" where
  "same_revision r r' \<longleftrightarrow> ep_workspace_id r' = ep_workspace_id r \<and> ep_revision_id r' = ep_revision_id r"

lemma inv_map_parts:
  assumes inv: "evidence_inv db"
    and id: "\<And>r. r \<in> set (ev_parts db) \<Longrightarrow> ep_part_id (g r) = ep_part_id r"
    and ok: "\<And>r. r \<in> set (ev_parts db) \<Longrightarrow> part_has_units db (ep_part_id r) \<Longrightarrow> may_have_units r \<Longrightarrow>
      may_have_units (g r) \<and> same_revision r (g r)"
  shows "evidence_inv (db\<lparr>ev_parts := map g (ev_parts db)\<rparr>)"
proof -
  let ?db = "db\<lparr>ev_parts := map g (ev_parts db)\<rparr>"
  have ids: "map ep_part_id (map g (ev_parts db)) = map ep_part_id (ev_parts db)" using id by simp
  then have id_set: "ep_part_id ` g ` set (ev_parts db) = ep_part_id ` set (ev_parts db)"
    by (metis list.set_map)
  have dist: "distinct (map (ep_part_id \<circ> g) (ev_parts db))"
    unfolding map_map [symmetric] ids using inv by (simp add: evidence_inv_defs)
  have row: "\<exists>r \<in> set (ev_parts db). ep_part_id r = eu_source_part_id u \<and> may_have_units r"
    if "u \<in> set (ev_units db)" for u
    using inv that by (auto simp: evidence_inv_defs)
  have unique: "r = r'" if "r \<in> set (ev_parts db)" "r' \<in> set (ev_parts db)" "ep_part_id r = ep_part_id r'" for r r'
    using inv that by (auto simp: evidence_inv_defs distinct_map inj_on_def)
  have "\<exists>r' \<in> set (ev_parts ?db). ep_part_id r' = eu_source_part_id u \<and> may_have_units r'"
    if u: "u \<in> set (ev_units db)" for u
  proof -
    from row [OF u] obtain r where r: "r \<in> set (ev_parts db)" "ep_part_id r = eu_source_part_id u" "may_have_units r"
      by blast
    with ok [of r] id [of r] u show ?thesis by (intro bexI [of _ "g r"]) (auto simp: part_has_units_def)
  qed
  moreover have "supports ?db s u" if "supports db s u" for s u
  proof -
    from that obtain sr ur r where x: "sr \<in> set (ev_snapshots db)" "ur \<in> set (ev_units db)"
      "r \<in> set (ev_parts db)" "es_snapshot_id sr = s" "eu_evidence_unit_id ur = u"
      "ep_part_id r = eu_source_part_id ur" "in_revision (es_workspace_id sr) (es_revision_id sr) r"
      unfolding supports_def by blast
    have "may_have_units r" using row [OF x(2)] unique x(3,6) by metis
    then have "same_revision r (g r)" using ok [OF x(3)] x(2,6) by (auto simp: part_has_units_def)
    then show ?thesis
      using x id [OF x(3)] by (intro supportsI [of sr _ ur "g r"]) (auto simp: same_revision_def in_revision_def)
  qed
  ultimately show ?thesis
    using inv dist id_set by (auto simp: evidence_inv_defs)
qed

lemma inv_update_parts:
  assumes "evidence_inv db"
    and "\<And>r. ep_part_id (f r) = ep_part_id r" and "\<And>r. same_revision r (f r)"
    and "\<And>r. r \<in> set (ev_parts db) \<Longrightarrow> p r \<Longrightarrow> may_have_units r \<Longrightarrow> part_has_units db (ep_part_id r) \<Longrightarrow> may_have_units (f r)"
  shows "evidence_inv (db\<lparr>ev_parts := update_where p f (ev_parts db)\<rparr>)"
  unfolding update_where_def using assms by (intro inv_map_parts) (auto simp: same_revision_def)

lemma part_row_in:
  assumes "evidence_inv db" and "r \<in> set (ev_parts db)"
  shows "part_row db (ep_part_id r) = Some r"
  using assms row_of_in_distinct [of ep_part_id "ev_parts db" r] by (auto simp: part_row_def evidence_inv_defs)

lemma part_row_Some: "part_row db i = Some r \<Longrightarrow> r \<in> set (ev_parts db) \<and> ep_part_id r = i"
  unfolding part_row_def by (rule row_of_Some)

lemma has_units_ok:
  assumes "evidence_inv db" and "part_row db i = Some r" and "part_has_units db i"
  shows "may_have_units r"
proof -
  from assms obtain u where "u \<in> set (ev_units db)" "eu_source_part_id u = i" by (auto simp: part_has_units_def)
  with assms(1) obtain r' where "r' \<in> set (ev_parts db)" "ep_part_id r' = i" "may_have_units r'"
    by (auto simp: evidence_inv_defs)
  with part_row_in [OF assms(1)] assms(2) show ?thesis by auto
qed

lemma inv_update_part:
  assumes "evidence_inv db" and "part_row db part_id = Some r"
    and "\<And>r. ep_part_id (f r) = ep_part_id r" and "\<And>r. same_revision r (f r)"
    and "may_have_units r \<Longrightarrow> part_has_units db part_id \<Longrightarrow> may_have_units (f r)"
  shows "evidence_inv (update_part part_id f db)"
  unfolding update_part_def
proof (rule inv_update_parts [OF assms(1,3,4)])
  fix r'
  assume "r' \<in> set (ev_parts db)" "ep_part_id r' = part_id" "may_have_units r'" "part_has_units db (ep_part_id r')"
  with part_row_in [OF assms(1)] assms(2,5) show "may_have_units (f r')" by auto
qed

lemma inv_delete_snapshots:
  assumes inv: "evidence_inv db"
  shows "evidence_inv (delete_snapshots p db)"
proof -
  have "supports (delete_snapshots p db) s u"
    if d: "(s, u) \<in> set (ev_dependencies (delete_snapshots p db))" for s u
  proof -
    have sup: "supports db s u" using inv d by (auto simp: evidence_inv_defs delete_snapshots_def Let_def)
    have "s \<notin> es_snapshot_id ` set (filter p (ev_snapshots db))"
      using d by (auto simp: delete_snapshots_def Let_def)
    with sup show ?thesis
      by (fastforce simp: supports_def delete_snapshots_def Let_def)
  qed
  moreover have "(es_snapshot_id s, i) \<in> set (ev_dependencies (delete_snapshots p db))"
    if s: "s \<in> set (ev_snapshots (delete_snapshots p db))" "i \<in> set (sn_evidence_unit_ids (es_snapshot s))" for s i
  proof -
    have mem: "s \<in> set (ev_snapshots db)" "\<not> p s" using s by (auto simp: delete_snapshots_def Let_def)
    have "es_snapshot_id s \<notin> es_snapshot_id ` set (filter p (ev_snapshots db))"
    proof
      assume "es_snapshot_id s \<in> es_snapshot_id ` set (filter p (ev_snapshots db))"
      then obtain t where "t \<in> set (ev_snapshots db)" "p t" "es_snapshot_id t = es_snapshot_id s" by auto
      with mem inv have "s = t"
        by (auto simp: evidence_inv_defs distinct_map inj_on_def)
      with mem \<open>p t\<close> show False by simp
    qed
    with inv mem s show ?thesis by (auto simp: evidence_inv_defs delete_snapshots_def Let_def)
  qed
  ultimately show ?thesis
    using inv distinct_keys_delete_where [of es_snapshot_id "ev_snapshots db" p]
    by (auto simp: evidence_inv_defs) (auto simp: delete_snapshots_def Let_def)
qed

lemma inv_delete_units:
  assumes inv: "evidence_inv db"
    and free: "\<And>u d. u \<in> set (ev_units db) \<Longrightarrow> p u \<Longrightarrow> d \<in> set (ev_dependencies db) \<Longrightarrow> snd d \<noteq> eu_evidence_unit_id u"
  shows "evidence_inv (delete_units p db)"
proof -
  have deps: "ev_dependencies (delete_units p db) = ev_dependencies db"
  proof -
    have "\<forall>d \<in> set (ev_dependencies db). snd d \<notin> eu_evidence_unit_id ` set (filter p (ev_units db))"
      using free by fastforce
    then show ?thesis by (auto simp: delete_units_def Let_def delete_where_def filter_id_conv)
  qed
  have "supports (delete_units p db) s u" if d: "(s, u) \<in> set (ev_dependencies db)" for s u
  proof -
    from inv d obtain sr ur r where x: "sr \<in> set (ev_snapshots db)" "ur \<in> set (ev_units db)"
      "r \<in> set (ev_parts db)" "es_snapshot_id sr = s" "eu_evidence_unit_id ur = u"
      "ep_part_id r = eu_source_part_id ur" "in_revision (es_workspace_id sr) (es_revision_id sr) r"
      by (fastforce simp: evidence_inv_defs supports_def)
    moreover have "\<not> p ur" using free [OF x(2) _ d] x(5) by auto
    ultimately show ?thesis by (fastforce simp: supports_def delete_units_def Let_def)
  qed
  moreover have "ec_evidence_unit_id c \<in> eu_evidence_unit_id ` {u \<in> set (ev_units db). \<not> p u}"
    if "c \<in> set (ev_cache (delete_units p db))" for c
  proof -
    from that inv obtain u where "u \<in> set (ev_units db)" "eu_evidence_unit_id u = ec_evidence_unit_id c"
      by (fastforce simp: delete_units_def Let_def evidence_inv_defs)
    moreover have "\<not> p u"
    proof
      assume "p u"
      with calculation have "ec_evidence_unit_id c \<in> eu_evidence_unit_id ` set (filter p (ev_units db))" by force
      with that show False by (auto simp: delete_units_def Let_def)
    qed
    ultimately show ?thesis by force
  qed
  ultimately show ?thesis
    using inv distinct_keys_delete_where [of eu_evidence_unit_id "ev_units db" p] deps
    by (auto simp: evidence_inv_defs) (auto simp: delete_units_def Let_def intro!: distinct_keys_delete_where)
qed

lemma inv_delete_attempts: "evidence_inv db \<Longrightarrow> evidence_inv (delete_attempts p db)"
  by (auto simp: evidence_inv_defs delete_attempts_def supports_def)

lemma inv_remove_parts:
  assumes inv: "evidence_inv db"
    and free: "\<And>r. r \<in> set (ev_parts db) \<Longrightarrow> p r \<Longrightarrow> \<not> part_has_units db (ep_part_id r)"
    and free_attempts: "\<And>r a. r \<in> set (ev_parts db) \<Longrightarrow> p r \<Longrightarrow> a \<in> set (ev_attempts db) \<Longrightarrow> ea_part_id a \<noteq> ep_part_id r"
  shows "evidence_inv (db\<lparr>ev_parts := delete_where p (ev_parts db)\<rparr>)"
proof -
  let ?db = "db\<lparr>ev_parts := delete_where p (ev_parts db)\<rparr>"
  have "\<exists>r \<in> set (ev_parts ?db). ep_part_id r = eu_source_part_id u \<and> may_have_units r" if u: "u \<in> set (ev_units db)" for u
  proof -
    from inv u obtain r where r: "r \<in> set (ev_parts db)" "ep_part_id r = eu_source_part_id u" "may_have_units r"
      by (auto simp: evidence_inv_defs)
    moreover have "\<not> p r" using free [OF r(1)] u r(2) by (auto simp: part_has_units_def)
    ultimately show ?thesis by auto
  qed
  moreover have "ea_part_id a \<in> ep_part_id ` set (ev_parts ?db)" if a: "a \<in> set (ev_attempts db)" for a
  proof -
    from inv a obtain r where "r \<in> set (ev_parts db)" "ep_part_id r = ea_part_id a" by (fastforce simp: evidence_inv_defs)
    moreover from this have "\<not> p r" using free_attempts a by metis
    ultimately show ?thesis by force
  qed
  moreover have "supports ?db s u" if "supports db s u" for s u
  proof -
    from that obtain sr ur r where x: "sr \<in> set (ev_snapshots db)" "ur \<in> set (ev_units db)"
      "r \<in> set (ev_parts db)" "es_snapshot_id sr = s" "eu_evidence_unit_id ur = u"
      "ep_part_id r = eu_source_part_id ur" "in_revision (es_workspace_id sr) (es_revision_id sr) r"
      unfolding supports_def by blast
    moreover have "\<not> p r" using free [OF x(3)] x(2,6) by (auto simp: part_has_units_def)
    ultimately show ?thesis unfolding supports_def by fastforce
  qed
  ultimately show ?thesis
    using inv distinct_keys_delete_where [of ep_part_id "ev_parts db" p] by (auto simp: evidence_inv_defs)
qed

lemma delete_units_simps [simp]:
  "ev_parts (delete_units p db) = ev_parts db"
  "ev_snapshots (delete_units p db) = ev_snapshots db"
  "ev_attempts (delete_units p db) = ev_attempts db"
  "ev_meta (delete_units p db) = ev_meta db"
  "ev_revocations (delete_units p db) = ev_revocations db"
  "ev_units (delete_units p db) = delete_where p (ev_units db)"
  by (simp_all add: delete_units_def Let_def)

lemma delete_snapshots_simps [simp]:
  "ev_parts (delete_snapshots p db) = ev_parts db"
  "ev_units (delete_snapshots p db) = ev_units db"
  "ev_attempts (delete_snapshots p db) = ev_attempts db"
  "ev_cache (delete_snapshots p db) = ev_cache db"
  "ev_meta (delete_snapshots p db) = ev_meta db"
  "ev_revocations (delete_snapshots p db) = ev_revocations db"
  "ev_snapshots (delete_snapshots p db) = delete_where p (ev_snapshots db)"
  by (simp_all add: delete_snapshots_def Let_def)

lemma delete_attempts_simps [simp]:
  "ev_parts (delete_attempts p db) = ev_parts db"
  "ev_units (delete_attempts p db) = ev_units db"
  "ev_snapshots (delete_attempts p db) = ev_snapshots db"
  "ev_dependencies (delete_attempts p db) = ev_dependencies db"
  "ev_meta (delete_attempts p db) = ev_meta db"
  "ev_attempts (delete_attempts p db) = delete_where p (ev_attempts db)"
  by (simp_all add: delete_attempts_def)


lemma delete_parts_alt:
  "delete_parts p db =
     (let gone = map ep_part_id (filter p (ev_parts db));
          db' = delete_attempts (\<lambda>a. ea_part_id a \<in> set gone) (delete_units (\<lambda>u. eu_source_part_id u \<in> set gone) db)
      in db'\<lparr>ev_parts := delete_where p (ev_parts db')\<rparr>)"
  by (simp add: delete_parts_def delete_units_def delete_attempts_def Let_def)

lemma inv_delete_parts:
  assumes inv: "evidence_inv db"
    and free: "\<And>r u d. r \<in> set (ev_parts db) \<Longrightarrow> p r \<Longrightarrow> u \<in> set (ev_units db) \<Longrightarrow>
      eu_source_part_id u = ep_part_id r \<Longrightarrow> d \<in> set (ev_dependencies db) \<Longrightarrow> snd d \<noteq> eu_evidence_unit_id u"
  shows "evidence_inv (delete_parts p db)"
  unfolding delete_parts_alt Let_def
proof (rule inv_remove_parts)
  show "evidence_inv (delete_attempts (\<lambda>a. ea_part_id a \<in> set (map ep_part_id (filter p (ev_parts db))))
      (delete_units (\<lambda>u. eu_source_part_id u \<in> set (map ep_part_id (filter p (ev_parts db)))) db))"
  proof (intro inv_delete_attempts inv_delete_units [OF inv])
    fix u d
    assume "u \<in> set (ev_units db)" "eu_source_part_id u \<in> set (map ep_part_id (filter p (ev_parts db)))"
      "d \<in> set (ev_dependencies db)"
    then show "snd d \<noteq> eu_evidence_unit_id u" using free [of _ u d] by auto
  qed
qed (auto simp: part_has_units_def image_iff)

lemma delete_parts_simps [simp]:
  "ev_parts (delete_parts p db) = delete_where p (ev_parts db)"
  "ev_snapshots (delete_parts p db) = ev_snapshots db"
  "ev_meta (delete_parts p db) = ev_meta db"
  by (simp_all add: delete_parts_def Let_def)

lemma inv_add_part:
  assumes "evidence_inv db" and "part_row db (ep_part_id r) = None"
  shows "evidence_inv (db\<lparr>ev_parts := ev_parts db @ [r]\<rparr>)"
proof -
  have "ep_part_id r \<notin> ep_part_id ` set (ev_parts db)" using assms(2) by (simp add: part_row_def row_of_None_iff)
  moreover have "supports (db\<lparr>ev_parts := ev_parts db @ [r]\<rparr>) s u" if "supports db s u" for s u
    using that unfolding supports_def by fastforce
  ultimately show ?thesis using assms(1) by (auto simp: evidence_inv_defs)
qed

text \<open>Units of parts of one revision are only used by snapshots of that revision.\<close>

lemma dependents_gone:
  assumes inv: "evidence_inv db"
    and here: "\<And>u. u \<in> set (ev_units db) \<Longrightarrow> eu_evidence_unit_id u \<in> set unit_ids \<Longrightarrow>
      \<exists>r. part_row db (eu_source_part_id u) = Some r \<and> in_revision w v r"
    and d: "d \<in> set (ev_dependencies (delete_dependent_snapshots unit_ids w v db))"
  shows "snd d \<notin> set unit_ids"
proof
  assume gone: "snd d \<in> set unit_ids"
  have dep: "d \<in> set (ev_dependencies db)"
    using d by (auto simp: delete_dependent_snapshots_def delete_snapshots_def Let_def)
  with inv obtain s u r where x: "s \<in> set (ev_snapshots db)" "u \<in> set (ev_units db)" "r \<in> set (ev_parts db)"
    "es_snapshot_id s = fst d" "eu_evidence_unit_id u = snd d" "ep_part_id r = eu_source_part_id u"
    "in_revision (es_workspace_id s) (es_revision_id s) r"
    by (fastforce simp: evidence_inv_defs supports_def)
  from here [OF x(2)] gone x(5) part_row_in [OF inv x(3)] x(6) have "in_revision w v r" by auto
  with x(7) have "es_workspace_id s = w" "es_revision_id s = v" by (auto simp: in_revision_def)
  moreover have "depends_on_any unit_ids db (es_snapshot_id s)"
    using dep gone x(4) by (auto simp: depends_on_any_def list_ex_iff)
  ultimately show False
    using d x(1) x(4) [symmetric]
    by (auto simp: delete_dependent_snapshots_def delete_snapshots_def Let_def)
qed

lemma inv_delete_dependent_snapshots:
  "evidence_inv db \<Longrightarrow> evidence_inv (delete_dependent_snapshots unit_ids w v db)"
  unfolding delete_dependent_snapshots_def by (rule inv_delete_snapshots)

lemma delete_dependent_simps [simp]:
  "ev_parts (delete_dependent_snapshots i w v db) = ev_parts db"
  "ev_units (delete_dependent_snapshots i w v db) = ev_units db"
  "ev_attempts (delete_dependent_snapshots i w v db) = ev_attempts db"
  "ev_meta (delete_dependent_snapshots i w v db) = ev_meta db"
  "ev_revocations (delete_dependent_snapshots i w v db) = ev_revocations db"
  by (simp_all add: delete_dependent_snapshots_def)

end
