(* ===== verification/Evidence_Steps.thy ===== *)
theory Evidence_Steps
  imports Evidence_Inv
begin

text \<open>
  Every transaction of the evidence store as a step relation, and that each of them keeps the
  invariant. The claims are fenced: the pair of plan and claim generation of a part never decreases
  while its row lives, which the interface of fenced resources turns into the refusal of old tokens.
\<close>

section \<open>Steps\<close>

text \<open>
  The outcome of an attempt is one the scheduler records; \<open>record_attempt\<close> itself would also accept
  the state \<open>invalidated\<close>.
\<close>

inductive evidence_step :: "(string \<Rightarrow> string) \<Rightarrow> evidence_db \<Rightarrow> evidence_db \<Rightarrow> bool" for H where
  step_upsert: "upsert_part_plans H now plans db = Inr db' \<Longrightarrow> evidence_step H db db'"
| step_deadline: "ensure_run_deadline now run_id w t db = Inr (x, db') \<Longrightarrow> evidence_step H db db'"
| step_retry_failed: "retry_failed_parts H now w v db = (x, db') \<Longrightarrow> evidence_step H db db'"
| step_claim: "claim_parts_with_tokens H w v limit now db = Inr (x, db') \<Longrightarrow> evidence_step H db db'"
| step_record: "record_attempt H i a tok db = Inr (x, db') \<Longrightarrow> attempt_args_ok a \<noteq> Some INVALIDATED \<Longrightarrow>
    evidence_step H db db'"
| step_mark: "mark_running H now i n st db = Inr (x, db') \<Longrightarrow> evidence_step H db db'"
| step_resume: "resume_claim H i tok n now db = Inr (x, db') \<Longrightarrow> evidence_step H db db'"
| step_fail: "fail_exhausted_claim H i tok t db = Inr (x, db') \<Longrightarrow> evidence_step H db db'"
| step_pause: "pause_claim H i tok t db = Inr db' \<Longrightarrow> evidence_step H db db'"
| step_reuse: "reuse_cached_evidence H i key tok t db = Inr (x, db') \<Longrightarrow> evidence_step H db db'"
| step_publish: "publish_evidence H i u key tok t db = Inr (x, db') \<Longrightarrow> evidence_step H db db'"
| step_snapshot: "save_snapshot H s db = Inr (x, db') \<Longrightarrow> evidence_step H db db'"
| step_delete_snapshot: "evidence_step H db (delete_snapshot i db)"
| step_invalidate: "invalidate_entry_with_revocations now w v e db = (x, db') \<Longrightarrow> evidence_step H db db'"
| step_delete_parts: "delete_invalidated_entry_parts w v e db = Inr (x, db') \<Longrightarrow> evidence_step H db db'"
| step_revoked: "evidence_step H db (complete_snapshot_revocation now w i db)"
| step_begin_deletion: "evidence_step H db (begin_workspace_deletion now w db)"
| step_delete_workspace: "evidence_step H db (delete_evidence_workspace H w db)"
| step_recover: "recover_unfinished_parts now db = (x, db') \<Longrightarrow> evidence_step H db db'"

inductive_cases evidence_stepE: "evidence_step H db db'"

section \<open>Every step keeps the invariant\<close>

lemma running_claim_Inr:
  "running_claim H i tok db = Inr r \<longleftrightarrow>
   part_row db i = Some r \<and> row_is_current H db r \<and> ep_state r = RUNNING \<and> tok = row_token H r"
  by (auto simp: running_claim_def split: option.splits)

lemma part_row_known [simp]:
  "part_row (db\<lparr>ev_attempts := x1\<rparr>) i = part_row db i"
  "part_row (db\<lparr>ev_units := x2\<rparr>) i = part_row db i"
  "part_row (db\<lparr>ev_cache := x3\<rparr>) i = part_row db i"
  "part_row (db\<lparr>ev_meta := x4\<rparr>) i = part_row db i"
  "part_row (db\<lparr>ev_revocations := x5\<rparr>) i = part_row db i"
  "part_row (delete_units p db) i = part_row db i"
  "part_row (delete_attempts q db) i = part_row db i"
  "part_row (delete_dependent_snapshots us w v db) i = part_row db i"
  "part_row (delete_snapshots ps db) i = part_row db i"
  by (simp_all add: part_row_def)

lemma inv_add_attempt:
  assumes "evidence_inv db" and "part_row db (ea_part_id a) = Some r"
  shows "evidence_inv (db\<lparr>ev_attempts := ev_attempts db @ [a]\<rparr>)"
proof -
  have "ea_part_id a \<in> ep_part_id ` set (ev_parts db)" using part_row_Some [OF assms(2)] by (metis imageI)
  then show ?thesis using assms(1) by (auto simp: evidence_inv_defs supports_def)
qed

lemma inv_add_unit:
  assumes inv: "evidence_inv db" and fresh: "row_of eu_evidence_unit_id (eu_evidence_unit_id u) (ev_units db) = None"
    and row: "part_row db (eu_source_part_id u) = Some r" "may_have_units r"
  shows "evidence_inv (db\<lparr>ev_units := ev_units db @ [u]\<rparr>)"
proof -
  have "eu_evidence_unit_id u \<notin> eu_evidence_unit_id ` set (ev_units db)"
    using fresh by (simp add: row_of_None_iff)
  moreover have "supports (db\<lparr>ev_units := ev_units db @ [u]\<rparr>) s i" if "supports db s i" for s i
    using that unfolding supports_def by fastforce
  ultimately show ?thesis
    using inv part_row_Some [OF row(1)] row(2) by (auto simp: evidence_inv_defs)
qed

lemma inv_add_cache:
  assumes "evidence_inv db" and "row_of ec_cache_digest (ec_cache_digest c) (ev_cache db) = None"
    and "ec_evidence_unit_id c \<in> eu_evidence_unit_id ` set (ev_units db)"
  shows "evidence_inv (db\<lparr>ev_cache := ev_cache db @ [c]\<rparr>)"
  using assms by (auto simp: evidence_inv_defs supports_def row_of_None_iff)

lemma update_part_commute [simp]:
  "(update_part i f db)\<lparr>ev_units := x\<rparr> = update_part i f (db\<lparr>ev_units := x\<rparr>)"
  "(update_part i f db)\<lparr>ev_cache := y\<rparr> = update_part i f (db\<lparr>ev_cache := y\<rparr>)"
  by (simp_all add: update_part_def)

lemma update_part_tables [simp]:
  "ev_units (update_part i f db) = ev_units db"
  "ev_cache (update_part i f db) = ev_cache db"
  "ev_attempts (update_part i f db) = ev_attempts db"
  "ev_snapshots (update_part i f db) = ev_snapshots db"
  "ev_dependencies (update_part i f db) = ev_dependencies db"
  "ev_meta (update_part i f db) = ev_meta db"
  by (simp_all add: update_part_def)

lemma part_row_update_part:
  assumes "\<And>r. ep_part_id (f r) = ep_part_id r"
  shows "part_row (update_part i f db) j =
    map_option (\<lambda>r. if i = j then f r else r) (part_row db j)"
proof (cases "part_row db j")
  case (Some r)
  moreover from this have "ep_part_id r = j" by (rule part_row_Some [THEN conjunct2])
  ultimately show ?thesis
    using row_of_update_where [of ep_part_id f j "\<lambda>r. ep_part_id r = i" "ev_parts db"] assms
    by (auto simp: part_row_def update_part_def)
qed (use row_of_update_where [of ep_part_id f j "\<lambda>r. ep_part_id r = i" "ev_parts db"] assms in
    \<open>auto simp: part_row_def update_part_def\<close>)

lemma record_attempt_inv [keep_inv]:
  assumes "evidence_inv db" and "record_attempt H i a tok db = Inr (x, db')"
    and "attempt_args_ok a \<noteq> Some INVALIDATED"
  shows "evidence_inv db'"
proof -
  from assms(2) obtain st r where st: "attempt_args_ok a = Some st" and r: "running_claim H i tok db = Inr r"
    by (auto simp: record_attempt_def bind_res_Inr_iff split: option.splits)
  have "at_attempt a \<ge> 1" using st by (auto simp: attempt_args_ok_def split: if_splits)
  with assms r st show ?thesis
    by (auto simp: record_attempt_def running_claim_Inr Let_def may_have_units_def same_revision_def
      split: if_splits intro!: inv_update_part inv_add_attempt)
qed

lemma run_row_ok:
  "may_have_units r \<Longrightarrow> ep_state r \<noteq> PROCESSED \<Longrightarrow> may_have_units (run_row now r)"
  by (simp add: may_have_units_def run_row_def)

lemma run_row_keeps [simp]:
  "ep_part_id (run_row now r) = ep_part_id r"
  "same_revision r (run_row now r)"
  "same_revision r ((run_row now r)\<lparr>ep_attempt_count := n\<rparr>)"
  by (simp_all add: run_row_def same_revision_def)

lemma mark_running_inv [keep_inv]:
  assumes "evidence_inv db" and "mark_running H now i n st db = Inr (x, db')"
  shows "evidence_inv db'"
  using assms by (auto simp: mark_running_def Let_def may_have_units_def run_row_def
      split: if_splits option.splits intro!: inv_update_part simp flip: run_row_def)
    (auto simp: run_row_def same_revision_def)

lemma resume_claim_inv [keep_inv]:
  assumes "evidence_inv db" and "resume_claim H i tok n now db = Inr (x, db')"
  shows "evidence_inv db'"
  using assms by (auto simp: resume_claim_def Let_def split: if_splits option.splits intro!: inv_update_part)
    (auto simp: run_row_def may_have_units_def)

lemma fail_exhausted_inv [keep_inv]:
  assumes "evidence_inv db" and "fail_exhausted_claim H i tok t db = Inr (x, db')"
  shows "evidence_inv db'"
  using assms by (auto simp: fail_exhausted_claim_def Let_def bind_res_Inr_iff running_claim_Inr may_have_units_def
      same_revision_def intro!: inv_update_part)

lemma pause_claim_inv [keep_inv]:
  assumes "evidence_inv db" and "pause_claim H i tok t db = Inr db'"
  shows "evidence_inv db'"
  using assms by (auto simp: pause_claim_def Let_def may_have_units_def same_revision_def
      split: if_splits option.splits intro!: inv_update_part)

lemma processed_part_inv:
  "evidence_inv db \<Longrightarrow> part_row db i = Some r \<Longrightarrow> evidence_inv (processed_part i t db)"
  unfolding processed_part_def
  by (rule inv_update_part) (auto simp: may_have_units_def same_revision_def)

lemma processed_part_row:
  "part_row db i = Some r \<Longrightarrow> \<exists>r'. part_row (processed_part i t db) i = Some r' \<and> may_have_units r'"
  by (simp add: processed_part_def part_row_update_part may_have_units_def)

lemma processed_part_commute:
  "processed_part i t (db\<lparr>ev_units := x\<rparr>) = (processed_part i t db)\<lparr>ev_units := x\<rparr>"
  "processed_part i t (db\<lparr>ev_units := x, ev_cache := y\<rparr>) = (processed_part i t db)\<lparr>ev_units := x, ev_cache := y\<rparr>"
  by (simp_all add: processed_part_def)

lemma processed_part_same_units [simp]: "(processed_part i t db)\<lparr>ev_units := ev_units db\<rparr> = processed_part i t db"
  by (cases db) (simp add: processed_part_def update_part_def)

lemma processed_part_tables [simp]:
  "ev_units (processed_part i t db) = ev_units db"
  "ev_cache (processed_part i t db) = ev_cache db"
  by (simp_all add: processed_part_def)

lemma reuse_cases:
  assumes "reuse_cached_evidence H i key tok t db = Inr (x, db')"
  obtains (kept) "x = None" "db' = db"
  | (copied) r c v u where "running_claim H i tok db = Inr r" "cache_entry H key db = Some (c, v)"
      "ec_source_sha256 c = ep_source_sha256 r" "citations_inside (ep_plan r) (eu_unit v)"
      "u = rebound_unit H i (H key) (eu_unit v)" "x = Some u"
      "row_of eu_evidence_unit_id (un_evidence_unit_id u) (ev_units db) = None"
      "db' = processed_part i t (db\<lparr>ev_units := ev_units db @ [unit_row H i u t]\<rparr>)"
proof (cases "running_claim H i tok db")
  case (Inr r)
  show thesis
  proof (cases "cache_entry H key db")
    case None
    then show ?thesis using assms Inr kept by (simp add: reuse_cached_evidence_def)
  next
    case (Some e)
    then obtain c v where e: "cache_entry H key db = Some (c, v)" by (cases e) auto
    show ?thesis
      using assms Inr e kept copied [OF Inr e]
      by (auto simp: reuse_cached_evidence_def Let_def split: if_splits)
  qed
qed (use assms in \<open>simp add: reuse_cached_evidence_def\<close>)

lemma reuse_inv [keep_inv]:
  assumes inv: "evidence_inv db" and res: "reuse_cached_evidence H i key tok t db = Inr (x, db')"
  shows "evidence_inv db'"
  using res
proof (cases rule: reuse_cases)
  case (copied r c v u)
  then have row: "part_row db i = Some r" by (simp add: running_claim_Inr)
  from processed_part_row [OF row] obtain r' where "part_row (processed_part i t db) i = Some r'" "may_have_units r'"
    by blast
  with inv_add_unit [OF processed_part_inv [OF inv row], of "unit_row H i u t"] copied show ?thesis
    by (simp add: processed_part_commute unit_row_def)
qed (use inv in simp)

lemma publish_cases:
  assumes "publish_evidence H i u key tok t db = Inr (x, db')"
  obtains (repeated) r where "x = False" "db' = db" "part_row db i = Some r" "row_is_current H db r"
      "tok = row_token H r" "ep_state r = PROCESSED" "already_published H r u (cache_entry H key db)"
  | (fresh) r where "x = True" "unit_matches_part i u" "part_row db i = Some r" "row_is_current H db r"
      "tok = row_token H r" "citations_inside (ep_plan r) u" "ep_state r = RUNNING" "cache_entry H key db = None"
      "\<And>v. row_of eu_evidence_unit_id (un_evidence_unit_id u) (ev_units db) = Some v \<Longrightarrow>
         eu_source_part_id v = i \<and> eu_unit_sha256 v = unit_sha256 H u"
      "db' = processed_part i t (db\<lparr>ev_units :=
           (if row_of eu_evidence_unit_id (un_evidence_unit_id u) (ev_units db) = None
            then ev_units db @ [unit_row H i u t] else ev_units db),
         ev_cache := ev_cache db @ [cache_row H r u key t]\<rparr>)"
proof (cases "part_row db i")
  case (Some r)
  show thesis
  proof (cases "ep_state r = PROCESSED")
    case True
    then show ?thesis using assms Some repeated by (auto simp: publish_evidence_def split: if_splits)
  next
    case False
    let ?old = "row_of eu_evidence_unit_id (un_evidence_unit_id u) (ev_units db)"
    from assms Some False have guards: "unit_matches_part i u" "row_is_current H db r" "tok = row_token H r"
      "citations_inside (ep_plan r) u" "ep_state r = RUNNING" "cache_entry H key db = None"
      by (cases "cache_entry H key db"; simp add: publish_evidence_def Let_def split: if_splits)+
    have old: "eu_source_part_id v = i \<and> eu_unit_sha256 v = unit_sha256 H u" if "?old = Some v" for v
      using assms Some guards that by (simp add: publish_evidence_def split: if_splits)
    have res: "x = True \<and> db' = processed_part i t (db\<lparr>ev_units :=
         (if ?old = None then ev_units db @ [unit_row H i u t] else ev_units db),
         ev_cache := ev_cache db @ [cache_row H r u key t]\<rparr>)"
      using assms Some guards old by (cases ?old) (auto simp: publish_evidence_def)
    show ?thesis by (rule fresh [OF _ _ Some]) (use guards old res in auto)
  qed
qed (use assms in \<open>simp add: publish_evidence_def split: if_splits\<close>)

lemma cache_entry_None:
  assumes "evidence_inv db" and "cache_entry H key db = None"
  shows "row_of ec_cache_digest (H key) (ev_cache db) = None"
proof (rule ccontr)
  assume "row_of ec_cache_digest (H key) (ev_cache db) \<noteq> None"
  then obtain e where e: "row_of ec_cache_digest (H key) (ev_cache db) = Some e" by auto
  then have "ec_evidence_unit_id e \<in> eu_evidence_unit_id ` set (ev_units db)"
    using assms(1) row_of_Some [OF e] by (auto simp: evidence_inv_defs)
  then show False using assms(2) e by (auto simp: cache_entry_def row_of_None_iff)
qed

lemma publish_evidence_inv [keep_inv]:
  assumes inv: "evidence_inv db" and res: "publish_evidence H i u key tok t db = Inr (x, db')"
  shows "evidence_inv db'"
  using res
proof (cases rule: publish_cases)
  case (fresh r)
  let ?old = "row_of eu_evidence_unit_id (un_evidence_unit_id u) (ev_units db)"
  let ?units = "if ?old = None then ev_units db @ [unit_row H i u t] else ev_units db"
  from processed_part_row [OF fresh(3)] obtain r' where
    r': "part_row (processed_part i t db) i = Some r'" "may_have_units r'" by blast
  have "evidence_inv ((processed_part i t db)\<lparr>ev_units := ?units\<rparr>)"
    using inv_add_unit [OF processed_part_inv [OF inv fresh(3)], of "unit_row H i u t"] r'
      processed_part_inv [OF inv fresh(3)]
    by (auto simp: unit_row_def)
  moreover have "un_evidence_unit_id u \<in> eu_evidence_unit_id ` set ?units"
  proof (cases ?old)
    case (Some v)
    then have "v \<in> set ?units" "un_evidence_unit_id u = eu_evidence_unit_id v" using row_of_Some [OF Some] by simp_all
    then show ?thesis by (rule rev_image_eqI)
  qed (simp add: unit_row_def)
  ultimately show ?thesis
    using inv_add_cache [of "(processed_part i t db)\<lparr>ev_units := ?units\<rparr>" "cache_row H r u key t"]
      cache_entry_None [OF inv fresh(8)] fresh(10)
    by (simp add: processed_part_commute cache_row_def)
qed (use inv in simp)

lemma part_unique:
  "evidence_inv db \<Longrightarrow> r \<in> set (ev_parts db) \<Longrightarrow> r' \<in> set (ev_parts db) \<Longrightarrow> ep_part_id r' = ep_part_id r \<Longrightarrow> r' = r"
  using part_row_in by (metis option.inject)

lemma inv_delete_unused_parts:
  assumes inv: "evidence_inv db" and none: "\<And>r. r \<in> set (ev_parts db) \<Longrightarrow> p r \<Longrightarrow> \<not> may_have_units r"
  shows "evidence_inv (delete_parts p db)"
proof (rule inv_delete_parts [OF inv])
  fix r u d
  assume "r \<in> set (ev_parts db)" "p r" "u \<in> set (ev_units db)" "eu_source_part_id u = ep_part_id r"
  moreover from this have "part_has_units db (ep_part_id r)" by (metis imageI part_has_units_def)
  ultimately show "snd d \<noteq> eu_evidence_unit_id u" using has_units_ok [OF inv part_row_in [OF inv]] none by blast
qed

lemma upsert_plan_inv [keep_inv]:
  assumes inv: "evidence_inv db"
  shows "evidence_inv (upsert_plan now plan db)"
proof (cases "part_row db (pl_part_id plan)")
  case None
  then show ?thesis
    using inv_add_part [OF inv, of "planned_row now plan"] by (simp add: upsert_plan_def planned_row_def Let_def)
next
  case (Some r)
  let ?i = "pl_part_id plan"
  show ?thesis
  proof (cases "ep_plan r = plan")
    case True
    then show ?thesis
      using Some inv_update_part [OF inv Some, of "\<lambda>r. r\<lparr>ep_updated_at := now\<rparr>"]
      by (simp add: upsert_plan_def Let_def same_revision_def may_have_units_def)
  next
    case False
    let ?units = "units_of_part ?i db"
    define db1 where "db1 = delete_dependent_snapshots ?units (ep_workspace_id r) (ep_revision_id r) db"
    define db3 where "db3 = delete_attempts (\<lambda>a. ea_part_id a = ?i) (delete_units (\<lambda>u. eu_source_part_id u = ?i) db1)"
    have ids: "eu_evidence_unit_id u \<in> set ?units" if "u \<in> set (ev_units db)" "eu_source_part_id u = ?i" for u
      using that by (auto simp: units_of_part_def)
    have origin: "eu_source_part_id u = ?i" if "u \<in> set (ev_units db)" "eu_evidence_unit_id u \<in> set ?units" for u
    proof -
      from that(2) obtain v where "v \<in> set (ev_units db)" "eu_source_part_id v = ?i"
        "eu_evidence_unit_id v = eu_evidence_unit_id u" by (auto simp: units_of_part_def)
      with that(1) inv show ?thesis by (auto simp: evidence_inv_defs distinct_map inj_on_def)
    qed
    have "evidence_inv db3"
      unfolding db3_def
    proof (intro inv_delete_attempts inv_delete_units)
      show "evidence_inv db1" unfolding db1_def by (rule inv_delete_dependent_snapshots [OF inv])
      fix u d
      assume u: "u \<in> set (ev_units db1)" "eu_source_part_id u = ?i" and d: "d \<in> set (ev_dependencies db1)"
      have "snd d \<notin> set ?units"
        using d unfolding db1_def
        by (rule dependents_gone [OF inv, rotated]) (use Some origin in \<open>auto simp: in_revision_def\<close>)
      then show "snd d \<noteq> eu_evidence_unit_id u" using u ids by (auto simp: db1_def)
    qed
    moreover have "ep_part_id (replanned_row now plan r') = ?i" for r'
      by (simp add: replanned_row_def planned_row_def)
    moreover have "\<not> part_has_units db3 ?i" by (auto simp: part_has_units_def db3_def)
    ultimately have "evidence_inv (update_part ?i (replanned_row now plan) db3)"
      unfolding update_part_def update_where_def by (intro inv_map_parts) (auto simp: same_revision_def)
    then show ?thesis using Some False by (simp add: upsert_plan_def Let_def db3_def db1_def)
  qed
qed

lemma upsert_fold_inv: "evidence_inv db \<Longrightarrow> evidence_inv (fold (upsert_plan now) plans db)"
  by (induction plans arbitrary: db) (auto intro: upsert_plan_inv)

lemma upsert_part_plans_inv [keep_inv]:
  "evidence_inv db \<Longrightarrow> upsert_part_plans H now plans db = Inr db' \<Longrightarrow> evidence_inv db'"
  by (auto simp: upsert_part_plans_def bind_res_Inr_iff intro!: upsert_fold_inv)

lemma retry_failed_inv [keep_inv]:
  assumes inv: "evidence_inv db" and res: "retry_failed_parts H now w v db = (x, db')"
  shows "evidence_inv db'"
proof (cases "is_current_revision H w v db")
  case True
  let ?rows = "order_by reading_order (filter (\<lambda>r. in_revision w v r \<and> ep_state r = PartState.FAILED) (ev_parts db))"
  let ?prep = "map ep_part_id (filter (\<lambda>r. ep_attempt_count r = 0) ?rows)"
  let ?prov = "map ep_part_id (filter (\<lambda>r. ep_attempt_count r > 0) ?rows)"
  let ?kept = "delete_parts (\<lambda>r. ep_part_id r \<in> set ?prep) db"
  have kept: "evidence_inv ?kept"
  proof (rule inv_delete_unused_parts [OF inv])
    fix r
    assume r: "r \<in> set (ev_parts db)" "ep_part_id r \<in> set ?prep"
    then obtain r' where "r' \<in> set (ev_parts db)" "ep_part_id r' = ep_part_id r"
      "ep_state r' = PartState.FAILED" "ep_attempt_count r' = 0" by auto
    moreover from this part_unique [OF inv r(1)] have "r' = r" by blast
    ultimately show "\<not> may_have_units r" by (simp add: may_have_units_def)
  qed
  have "evidence_inv (?kept\<lparr>ev_parts := update_where (\<lambda>r. ep_part_id r \<in> set ?prov)
      (\<lambda>r. r\<lparr>ep_state := PREPARED, ep_next_attempt_at := None, ep_updated_at := now\<rparr>) (ev_parts ?kept)\<rparr>)"
  proof (rule inv_update_parts [OF kept])
    fix r
    assume r: "r \<in> set (ev_parts ?kept)" "ep_part_id r \<in> set ?prov"
    then obtain r' where "r' \<in> set (ev_parts db)" "ep_part_id r' = ep_part_id r" "ep_attempt_count r' > 0" by auto
    moreover from this r(1) part_unique [OF inv, of r r'] have "r' = r" by simp
    ultimately have "ep_attempt_count r > 0" by simp
    then show "may_have_units (r\<lparr>ep_state := PREPARED, ep_next_attempt_at := None, ep_updated_at := now\<rparr>)"
      by (simp add: may_have_units_def)
  qed (simp_all add: same_revision_def)
  then show ?thesis using res True by (auto simp: retry_failed_parts_def Let_def)
qed (use assms in \<open>auto simp: retry_failed_parts_def\<close>)

lemma claim_inv [keep_inv]:
  assumes inv: "evidence_inv db" and res: "claim_parts_with_tokens H w v limit now db = Inr (x, db')"
  shows "evidence_inv db'"
proof (cases "db' = db")
  case False
  let ?rows = "take (nat limit) (order_by claim_order (filter (claimable w v now) (ev_parts db)))"
  have db': "db' = db\<lparr>ev_parts := update_where (\<lambda>r. ep_part_id r \<in> set (map ep_part_id ?rows)) (run_row now) (ev_parts db)\<rparr>"
    using res False by (auto simp: claim_parts_with_tokens_def Let_def split: if_splits)
  show ?thesis
    unfolding db'
  proof (rule inv_update_parts [OF inv])
    fix r
    assume r: "r \<in> set (ev_parts db)" "ep_part_id r \<in> set (map ep_part_id ?rows)" "may_have_units r"
    then obtain r' where r': "r' \<in> set ?rows" "ep_part_id r' = ep_part_id r" by auto
    then have "r' \<in> set (ev_parts db)" "claimable w v now r'" by (auto dest: in_set_takeD)
    with r(1) r'(2) part_unique [OF inv] have "claimable w v now r" by metis
    then show "may_have_units (run_row now r)" using r(3) by (intro run_row_ok) (auto simp: claimable_def)
  qed simp_all
qed (use inv in simp)

lemma deadline_inv [keep_inv]:
  "evidence_inv db \<Longrightarrow> ensure_run_deadline now i w t db = Inr (x, db') \<Longrightarrow> evidence_inv db'"
  by (auto simp: ensure_run_deadline_def split: if_splits option.splits)

lemma validated_rows:
  assumes inv: "evidence_inv db" and v: "validated_snapshot_dependencies s db = Inr rows"
    and d: "distinct (sn_evidence_unit_ids s)" and i: "i \<in> set (sn_evidence_unit_ids s)"
  obtains u where "u \<in> set (ev_units db)" "u \<in> set rows" "eu_evidence_unit_id u = i"
    "latest_processed db (sn_workspace_id s) (sn_revision_id s) u"
proof -
  let ?ids = "sn_evidence_unit_ids s"
  have rows: "rows = filter (\<lambda>u. eu_evidence_unit_id u \<in> set ?ids \<and> unit_part db u \<noteq> None) (ev_units db)"
    and len: "length rows = length ?ids"
    and all: "list_all (latest_processed db (sn_workspace_id s) (sn_revision_id s)) rows"
    using v by (auto simp: validated_snapshot_dependencies_def Let_def split: if_splits)
  have "distinct (map eu_evidence_unit_id rows)"
    using inv unfolding rows by (simp add: evidence_inv_defs distinct_map_filter)
  then have "card (eu_evidence_unit_id ` set rows) = length rows"
    by (metis distinct_card length_map list.set_map)
  moreover have "card (set ?ids) = length ?ids" using d by (rule distinct_card)
  moreover have "eu_evidence_unit_id ` set rows \<subseteq> set ?ids" unfolding rows by auto
  ultimately have "eu_evidence_unit_id ` set rows = set ?ids" using len by (intro card_subset_eq) auto
  with i have "i \<in> eu_evidence_unit_id ` set rows" by simp
  then obtain u where "i = eu_evidence_unit_id u" "u \<in> set rows" by (rule imageE)
  moreover from this have "u \<in> set (ev_units db)" by (simp add: rows)
  ultimately show thesis using that all by (auto simp: list_all_iff)
qed

lemma inv_add_snapshot:
  assumes inv: "evidence_inv db" and fresh: "row_of es_snapshot_id (es_snapshot_id r) (ev_snapshots db) = None"
    and backed: "\<And>i. i \<in> set ids \<Longrightarrow> \<exists>u p. u \<in> set (ev_units db) \<and> eu_evidence_unit_id u = i \<and> unit_part db u = Some p \<and>
       in_revision (es_workspace_id r) (es_revision_id r) p"
    and ids: "ids = sn_evidence_unit_ids (es_snapshot r)"
  shows "evidence_inv (db\<lparr>ev_snapshots := ev_snapshots db @ [r],
     ev_dependencies := ev_dependencies db @ map (Pair (es_snapshot_id r)) ids\<rparr>)"
proof -
  let ?db = "db\<lparr>ev_snapshots := ev_snapshots db @ [r], ev_dependencies := ev_dependencies db @ map (Pair (es_snapshot_id r)) ids\<rparr>"
  have old: "supports ?db s i" if "supports db s i" for s i
    using that unfolding supports_def by fastforce
  have new: "supports ?db (es_snapshot_id r) i" if i: "i \<in> set ids" for i
  proof -
    from backed [OF i] obtain u p where u: "u \<in> set (ev_units db)" "eu_evidence_unit_id u = i" "unit_part db u = Some p"
      "in_revision (es_workspace_id r) (es_revision_id r) p" by blast
    from u(3) part_row_Some have "p \<in> set (ev_parts db) \<and> ep_part_id p = eu_source_part_id u"
      by (auto simp: unit_part_def)
    with u show ?thesis by (intro supportsI [of r ?db u p]) auto
  qed
  have "es_snapshot_id r \<notin> es_snapshot_id ` set (ev_snapshots db)" using fresh by (simp add: row_of_None_iff)
  then show ?thesis using inv old new ids by (auto simp: evidence_inv_defs)
qed

lemma save_snapshot_inv [keep_inv]:
  assumes inv: "evidence_inv db" and res: "save_snapshot H s db = Inr (x, db')"
  shows "evidence_inv db'"
proof (cases "db' = db")
  case False
  from res obtain rows where rows: "validated_snapshot_dependencies s db = Inr rows"
    by (auto simp: save_snapshot_def bind_res_Inr_iff split: if_splits)
  let ?r = "\<lparr>es_snapshot_id = sn_snapshot_id s, es_workspace_id = sn_workspace_id s,
     es_revision_id = sn_revision_id s, es_status = sn_status s, es_snapshot = s, es_created_at = sn_created_at s\<rparr>"
  from res False have d: "distinct (sn_evidence_unit_ids s)"
    and fresh: "row_of es_snapshot_id (sn_snapshot_id s) (ev_snapshots db) = None"
    and db': "db' = db\<lparr>ev_snapshots := ev_snapshots db @ [?r],
      ev_dependencies := ev_dependencies db @ map (Pair (sn_snapshot_id s)) (sn_evidence_unit_ids s)\<rparr>"
    by (auto simp: save_snapshot_def rows split: if_splits option.splits)
  have backed: "\<exists>u p. u \<in> set (ev_units db) \<and> eu_evidence_unit_id u = i \<and> unit_part db u = Some p \<and>
      in_revision (sn_workspace_id s) (sn_revision_id s) p" if member: "i \<in> set (sn_evidence_unit_ids s)" for i
  proof -
    obtain u where "u \<in> set (ev_units db)" "eu_evidence_unit_id u = i"
      "latest_processed db (sn_workspace_id s) (sn_revision_id s) u"
      using validated_rows [OF inv rows d member] by blast
    then show ?thesis by (auto simp: latest_processed_def split: option.splits)
  qed
  have "evidence_inv (db\<lparr>ev_snapshots := ev_snapshots db @ [?r],
     ev_dependencies := ev_dependencies db @ map (Pair (es_snapshot_id ?r)) (sn_evidence_unit_ids s)\<rparr>)"
  proof (rule inv_add_snapshot [OF inv])
    fix i
    assume "i \<in> set (sn_evidence_unit_ids s)"
    from backed [OF this] show "\<exists>u p. u \<in> set (ev_units db) \<and> eu_evidence_unit_id u = i \<and> unit_part db u = Some p \<and>
       in_revision (es_workspace_id ?r) (es_revision_id ?r) p" by simp
  qed (simp_all add: fresh)
  then show ?thesis unfolding db' by simp
qed (use inv in simp)

lemma invalidate_inv [keep_inv]:
  assumes inv: "evidence_inv db" and res: "invalidate_entry_with_revocations now w v e db = (x, db')"
  shows "evidence_inv db'"
proof (cases "entry_parts w v e db = []")
  case False
  let ?parts = "map ep_part_id (entry_parts w v e db)"
  let ?units = "map eu_evidence_unit_id (filter (\<lambda>u. eu_source_part_id u \<in> set ?parts) (ev_units db))"
  define db1 where "db1 = db\<lparr>ev_revocations := fold (add_revocation now w) (revoked_snapshots ?units w v db) (ev_revocations db)\<rparr>"
  define db3 where "db3 = delete_units (\<lambda>u. eu_source_part_id u \<in> set ?parts) (delete_dependent_snapshots ?units w v db1)"
  have inv1: "evidence_inv db1" using inv by (simp add: db1_def)
  have row1: "part_row db1 i = part_row db i" for i by (simp add: db1_def)
  have part: "\<exists>r. part_row db i = Some r \<and> in_revision w v r" if "i \<in> set ?parts" for i
    using that part_row_in [OF inv] by (auto simp: entry_parts_def)
  have here: "\<exists>r. part_row db1 (eu_source_part_id u) = Some r \<and> in_revision w v r"
    if u: "u \<in> set (ev_units db1)" "eu_evidence_unit_id u \<in> set ?units" for u
  proof -
    from u(2) obtain u' where "u' \<in> set (ev_units db)" "eu_source_part_id u' \<in> set ?parts"
      "eu_evidence_unit_id u' = eu_evidence_unit_id u" by auto
    moreover from this u inv have "u' = u" by (auto simp: evidence_inv_defs db1_def distinct_map inj_on_def)
    ultimately show ?thesis using part row1 by auto
  qed
  have inv3: "evidence_inv db3"
    unfolding db3_def
  proof (rule inv_delete_units [OF inv_delete_dependent_snapshots [OF inv1]])
    fix u d
    assume "u \<in> set (ev_units (delete_dependent_snapshots ?units w v db1))" "eu_source_part_id u \<in> set ?parts"
      and d: "d \<in> set (ev_dependencies (delete_dependent_snapshots ?units w v db1))"
    then have "eu_evidence_unit_id u \<in> set ?units" by (auto simp: db1_def)
    moreover have "snd d \<notin> set ?units" by (rule dependents_gone [OF inv1 here d])
    ultimately show "snd d \<noteq> eu_evidence_unit_id u" by auto
  qed
  have "evidence_inv (db3\<lparr>ev_parts := update_where (\<lambda>r. ep_part_id r \<in> set ?parts)
      (\<lambda>r. r\<lparr>ep_state := INVALIDATED, ep_next_attempt_at := None, ep_updated_at := now\<rparr>) (ev_parts db3)\<rparr>)"
    by (rule inv_update_parts [OF inv3]) (auto simp: same_revision_def part_has_units_def db3_def)
  then show ?thesis
    using res False by (auto simp: invalidate_entry_with_revocations_def Let_def db3_def db1_def)
qed (use assms in \<open>auto simp: invalidate_entry_with_revocations_def\<close>)

lemma delete_invalidated_inv [keep_inv]:
  assumes inv: "evidence_inv db" and res: "delete_invalidated_entry_parts w v e db = Inr (x, db')"
  shows "evidence_inv db'"
proof -
  let ?rows = "entry_parts w v e db"
  have all: "\<forall>r \<in> set ?rows. ep_state r = INVALIDATED"
    and db': "db' = delete_parts (\<lambda>r. ep_part_id r \<in> set (map ep_part_id ?rows)) db"
    using res by (auto simp: delete_invalidated_entry_parts_def Let_def list_ex_iff split: if_splits)
  show ?thesis
    unfolding db'
  proof (rule inv_delete_unused_parts [OF inv])
    fix r
    assume r: "r \<in> set (ev_parts db)" "ep_part_id r \<in> set (map ep_part_id ?rows)"
    then obtain r' where r': "r' \<in> set ?rows" "ep_part_id r' = ep_part_id r" by auto
    then have "r' = r" using part_unique [OF inv r(1)] by (auto simp: entry_parts_def)
    with all r'(1) show "\<not> may_have_units r" by (simp add: may_have_units_def)
  qed
qed

lemma delete_evidence_inv [keep_inv]:
  assumes inv: "evidence_inv db"
  shows "evidence_inv (delete_evidence_workspace H w db)"
proof -
  define db2 where "db2 = delete_snapshots (\<lambda>s. es_workspace_id s = w)
    (db\<lparr>ev_revocations := delete_where (\<lambda>r. er_workspace_id r = w) (ev_revocations db),
        ev_deadlines := delete_where (\<lambda>r. dl_workspace_id r = w) (ev_deadlines db)\<rparr>)"
  have inv2: "evidence_inv db2" unfolding db2_def by (rule inv_delete_snapshots) (use inv in simp)
  have "evidence_inv (delete_parts (\<lambda>r. ep_workspace_id r = w) db2)"
  proof (rule inv_delete_parts [OF inv2])
    fix r u d
    assume x: "r \<in> set (ev_parts db2)" "ep_workspace_id r = w" "u \<in> set (ev_units db2)"
      "eu_source_part_id u = ep_part_id r" "d \<in> set (ev_dependencies db2)"
    show "snd d \<noteq> eu_evidence_unit_id u"
    proof
      assume "snd d = eu_evidence_unit_id u"
      moreover obtain a b where d: "d = (a, b)" by (cases d)
      ultimately have "supports db2 a (eu_evidence_unit_id u)"
        using inv2 x(5) by (auto simp: evidence_inv_defs)
      then obtain s u' r' where y: "s \<in> set (ev_snapshots db2)" "u' \<in> set (ev_units db2)" "r' \<in> set (ev_parts db2)"
        "eu_evidence_unit_id u' = eu_evidence_unit_id u" "ep_part_id r' = eu_source_part_id u'"
        "in_revision (es_workspace_id s) (es_revision_id s) r'" unfolding supports_def by blast
      with x(3) inv2 have "u' = u" by (auto simp: evidence_inv_defs distinct_map inj_on_def)
      with y x part_row_in [OF inv2] have "r' = r" by (metis option.inject)
      with y(1,6) x(2) show False by (auto simp: in_revision_def db2_def)
    qed
  qed
  then show ?thesis
    unfolding delete_evidence_workspace_def delete_evidence_rows_def Let_def db2_def [symmetric] by simp
qed

lemma recover_inv [keep_inv]:
  assumes "evidence_inv db" and "recover_unfinished_parts now db = (x, db')"
  shows "evidence_inv db'"
proof -
  have "evidence_inv (db\<lparr>ev_parts := update_where (\<lambda>r. ep_state r = RUNNING)
      (\<lambda>r. r\<lparr>ep_state := RETRY_WAIT, ep_next_attempt_at := Some now, ep_updated_at := now\<rparr>) (ev_parts db)\<rparr>)"
    by (rule inv_update_parts [OF assms(1)]) (auto simp: same_revision_def may_have_units_def)
  then show ?thesis using assms(2) by (auto simp: recover_unfinished_parts_def)
qed

lemma migrate_inv [keep_inv]:
  assumes inv: "evidence_inv db" and res: "migrate_evidence cols db = Inr db'"
  shows "evidence_inv db'"
proof -
  let ?g = "migrated_part cols (ev_parts db)"
  let ?d = "db\<lparr>ev_parts := map ?g (ev_parts db)\<rparr>"
  have "evidence_inv ?d"
    by (rule inv_map_parts [OF inv]) (auto simp: migrated_part_def may_have_units_def same_revision_def)
  then have "evidence_inv (?d\<lparr>ev_cache := map (migrated_cache cols) (ev_cache ?d)\<rparr>)"
    by (auto simp: evidence_inv_defs supports_def migrated_cache_def comp_def)
  then show ?thesis using res by (auto simp: migrate_evidence_def bind_res_Inr_iff)
qed

lemma step_inv: "evidence_inv db \<Longrightarrow> evidence_step H db db' \<Longrightarrow> evidence_inv db'"
  by (erule evidence_stepE)
    (auto intro: keep_inv inv_delete_snapshots simp: delete_snapshot_def complete_snapshot_revocation_def
      begin_workspace_deletion_def)

end
