(* ===== verification/Evidence_Fencing.thy ===== *)
theory Evidence_Fencing
  imports Evidence_Steps
begin

text \<open>
  The evidence store as a transition system and as a provider of fenced claims: its interpretations
  of the two interfaces, and what a token still allows. A claim token fixes the plan and the claim
  generation of its part; both only grow while the row of the part lives.
\<close>

section \<open>The two interpretations\<close>

definition evidence_init :: "evidence_db \<Rightarrow> bool" where
  "evidence_init db \<longleftrightarrow> db = new_evidence_db"

interpretation evidence: transition_system evidence_init "evidence_step H" evidence_inv for H
  by unfold_locales (auto simp: evidence_init_def new_evidence_inv intro: step_inv)

definition row_generation :: "PartRow \<Rightarrow> nat \<times> nat" where
  "row_generation r = (ep_plan_generation r, ep_claim_generation r)"

definition part_generation :: "evidence_db \<Rightarrow> string \<Rightarrow> (nat \<times> nat) option" where
  "part_generation db part_id = map_option row_generation (part_row db part_id)"

definition sound_step :: "(string \<Rightarrow> string) \<Rightarrow> evidence_db \<Rightarrow> evidence_db \<Rightarrow> bool" where
  "sound_step H db db' \<longleftrightarrow> evidence_inv db \<and> evidence_step H db db'"

text \<open>rows of the second table that were in the first have not lost a generation\<close>

definition advanced :: "PartRow list \<Rightarrow> PartRow list \<Rightarrow> bool" where
  "advanced xs ys \<longleftrightarrow> (\<forall>y \<in> set ys. ep_part_id y \<in> ep_part_id ` set xs \<longrightarrow>
     (\<exists>x \<in> set xs. ep_part_id x = ep_part_id y \<and> row_generation x \<le> row_generation y))"

lemma advanced_map:
  assumes "\<And>x. x \<in> set xs \<Longrightarrow> ep_part_id (g x) = ep_part_id x \<and> row_generation x \<le> row_generation (g x)"
  shows "advanced xs (map g xs)"
  using assms by (auto simp: advanced_def)

lemma advanced_sub: "set ys \<subseteq> set xs \<Longrightarrow> advanced xs ys"
  by (auto simp: advanced_def)

lemma advanced_trans:
  assumes "advanced xs ys" and "advanced ys zs" and "ep_part_id ` set xs \<inter> ep_part_id ` set zs \<subseteq> ep_part_id ` set ys"
  shows "advanced xs zs"
  unfolding advanced_def
proof (intro ballI impI)
  fix z
  assume z: "z \<in> set zs" "ep_part_id z \<in> ep_part_id ` set xs"
  then have "ep_part_id z \<in> ep_part_id ` set ys" using assms(3) by blast
  with assms(2) z obtain y where y: "y \<in> set ys" "ep_part_id y = ep_part_id z" "row_generation y \<le> row_generation z"
    by (auto simp: advanced_def)
  moreover from this z assms(1) obtain x where "x \<in> set xs" "ep_part_id x = ep_part_id y" "row_generation x \<le> row_generation y"
    unfolding advanced_def by (metis (no_types, lifting))
  ultimately show "\<exists>x \<in> set xs. ep_part_id x = ep_part_id z \<and> row_generation x \<le> row_generation z"
    by (metis order_trans)
qed

lemma advanced_update_where:
  assumes "\<And>x. ep_part_id (f x) = ep_part_id x" and "\<And>x. row_generation x \<le> row_generation (f x)"
  shows "advanced xs (update_where p f xs)"
  unfolding update_where_def by (rule advanced_map) (simp add: assms)

lemma advanced_update_part:
  assumes "\<And>x. ep_part_id (f x) = ep_part_id x" and "\<And>x. row_generation x \<le> row_generation (f x)"
  shows "advanced (ev_parts db) (ev_parts (update_part i f db))"
  using assms by (simp add: update_part_def advanced_update_where)

lemma run_row_advances: "row_generation x \<le> row_generation (run_row now x)"
  by (simp add: row_generation_def run_row_def)

lemma upsert_plan_parts:
  "ev_parts (upsert_plan now plan db) =
     (case part_row db (pl_part_id plan) of
        None \<Rightarrow> ev_parts db @ [planned_row now plan]
      | Some old \<Rightarrow> update_where (\<lambda>r. ep_part_id r = pl_part_id plan)
          (if ep_plan old = plan then (\<lambda>r. r\<lparr>ep_updated_at := now\<rparr>) else replanned_row now plan) (ev_parts db))"
  by (simp add: upsert_plan_def Let_def update_part_def split: option.splits)

lemma upsert_plan_advances:
  "advanced (ev_parts db) (ev_parts (upsert_plan now plan db)) \<and>
   ep_part_id ` set (ev_parts db) \<subseteq> ep_part_id ` set (ev_parts (upsert_plan now plan db))"
proof (cases "part_row db (pl_part_id plan)")
  case None
  then have "pl_part_id plan \<notin> ep_part_id ` set (ev_parts db)" by (simp add: part_row_def row_of_None_iff)
  with None show ?thesis by (auto simp: upsert_plan_parts advanced_def planned_row_def)
next
  case (Some old)
  define f where "f = (if ep_plan old = plan then (\<lambda>r. r\<lparr>ep_updated_at := now\<rparr>) else replanned_row now plan)"
  define g where "g r = (if ep_part_id r = pl_part_id plan then f r else r)" for r
  have g: "ep_part_id (g r) = ep_part_id r" "row_generation r \<le> row_generation (g r)" for r
    by (simp_all add: g_def f_def replanned_row_def planned_row_def row_generation_def)
  have parts: "ev_parts (upsert_plan now plan db) = map g (ev_parts db)"
    using Some by (simp add: upsert_plan_parts update_where_def g_def [abs_def] f_def [symmetric])
  have "advanced (ev_parts db) (map g (ev_parts db))" by (rule advanced_map) (simp add: g)
  moreover have "ep_part_id ` set (map g (ev_parts db)) = ep_part_id ` set (ev_parts db)"
    by (simp add: image_image g)
  ultimately show ?thesis unfolding parts by blast
qed

lemma upsert_fold_advances:
  "advanced (ev_parts db) (ev_parts (fold (upsert_plan now) plans db)) \<and>
   ep_part_id ` set (ev_parts db) \<subseteq> ep_part_id ` set (ev_parts (fold (upsert_plan now) plans db))"
proof (induction plans arbitrary: db)
  case (Cons p ps)
  with upsert_plan_advances [of db now p] show ?case
    by simp (metis (no_types, lifting) advanced_trans inf.coboundedI1 order_trans)
qed (simp add: advanced_sub)

lemma evidence_step_advances:
  assumes "evidence_step H db db'"
  shows "advanced (ev_parts db) (ev_parts db')"
  using assms
proof (cases rule: evidence_step.cases)
  case (step_upsert now plans)
  then show ?thesis
    using upsert_fold_advances [of "db\<lparr>ev_meta := m\<rparr>" now plans for m]
    by (auto simp: upsert_part_plans_def bind_res_Inr_iff)
next
  case (step_retry_failed now w v x)
  have "advanced (ev_parts db) (update_where p (\<lambda>r. r\<lparr>ep_state := PREPARED, ep_next_attempt_at := None,
      ep_updated_at := now\<rparr>) (delete_where q (ev_parts db)))" for p q
    by (rule advanced_trans [OF advanced_sub advanced_update_where])
      (auto simp: row_generation_def update_where_def image_iff)
  then show ?thesis using step_retry_failed by (auto simp: retry_failed_parts_def Let_def advanced_sub split: if_splits)
next
  case (step_claim w v limit now x)
  then show ?thesis
    by (auto simp: claim_parts_with_tokens_def Let_def advanced_sub run_row_advances intro!: advanced_update_where
      split: if_splits)
next
  case (step_record i a tok x)
  then show ?thesis
    by (auto simp: record_attempt_def Let_def bind_res_Inr_iff row_generation_def update_part_def
      split: option.splits if_splits intro!: advanced_update_where)
next
  case (step_mark now i n st x)
  have "row_generation r \<le> row_generation ((run_row now r)\<lparr>ep_attempt_count := m\<rparr>)" for r m
    by (simp add: row_generation_def run_row_def)
  with step_mark show ?thesis
    by (auto simp: mark_running_def Let_def update_part_def split: option.splits if_splits intro!: advanced_update_where)
next
  case (step_resume i tok n now x)
  have "row_generation r \<le> row_generation ((run_row now r)\<lparr>ep_attempt_count := m\<rparr>)" for r m
    by (simp add: row_generation_def run_row_def)
  with step_resume show ?thesis
    by (auto simp: resume_claim_def Let_def update_part_def split: option.splits if_splits intro!: advanced_update_where)
next
  case (step_fail i tok t x)
  then show ?thesis
    by (auto simp: fail_exhausted_claim_def Let_def bind_res_Inr_iff row_generation_def update_part_def
      intro!: advanced_update_where)
next
  case (step_pause i tok t)
  then show ?thesis
    by (auto simp: pause_claim_def row_generation_def update_part_def split: option.splits if_splits
      intro!: advanced_update_where)
next
  case (step_reuse i key tok t x)
  from step_reuse(1) show ?thesis
    by (cases rule: reuse_cases)
      (auto simp: advanced_sub processed_part_def row_generation_def update_part_def intro!: advanced_update_where)
next
  case (step_publish i u key tok t x)
  from step_publish(1) show ?thesis
    by (cases rule: publish_cases)
      (auto simp: advanced_sub processed_part_def row_generation_def update_part_def intro!: advanced_update_where)
next
  case (step_snapshot s x)
  then show ?thesis
    by (auto simp: save_snapshot_def bind_res_Inr_iff advanced_sub split: if_splits option.splits)
next
  case (step_invalidate now w v e x)
  then show ?thesis
    by (auto simp: invalidate_entry_with_revocations_def Let_def advanced_sub row_generation_def
      intro!: advanced_update_where split: if_splits)
next
  case (step_delete_parts w v e x)
  then show ?thesis
    by (auto simp: delete_invalidated_entry_parts_def Let_def advanced_sub split: if_splits)
next
  case (step_recover now x)
  then show ?thesis
    by (auto simp: recover_unfinished_parts_def row_generation_def intro!: advanced_update_where)
qed (auto simp: ensure_run_deadline_def delete_snapshot_def complete_snapshot_revocation_def begin_workspace_deletion_def
    delete_evidence_workspace_def delete_evidence_rows_def Let_def advanced_sub split: option.splits if_splits)

interpretation fenced_claims: fenced "sound_step H" part_generation for H
proof unfold_locales
  fix db db' i g h
  assume step: "sound_step H db db'" and g: "part_generation db i = Some g" and h: "part_generation db' i = Some h"
  from g obtain r where r: "part_row db i = Some r" "g = row_generation r" by (auto simp: part_generation_def)
  from h obtain r' where r': "part_row db' i = Some r'" "h = row_generation r'" by (auto simp: part_generation_def)
  note in_db = part_row_Some [OF r(1)] and in_db' = part_row_Some [OF r'(1)]
  from step have inv: "evidence_inv db" and adv: "advanced (ev_parts db) (ev_parts db')"
    by (auto simp: sound_step_def evidence_step_advances)
  from adv in_db in_db' obtain x where "x \<in> set (ev_parts db)" "ep_part_id x = i" "row_generation x \<le> h"
    using r'(2) unfolding advanced_def by (metis imageI)
  with part_unique [OF inv, of r x] in_db r(2) show "g \<le> h" by auto
qed

end
