(* ===== verification/Evidence_Scheduler.thy ===== *)
theory Evidence_Scheduler
  imports Evidence_Snapshots
begin

text \<open>
  \<open>EvidenceScheduler\<close> of \<^verbatim>\<open>exam_predictor/evidence/scheduler.py\<close>: a bounded frontier of claimed parts is
  run, each part with at most \<open>max_attempts_per_route\<close> provider calls, and every outcome is recorded
  under the token of the claim. The clocks, the stop flag, the provider, the validator, the artifacts
  and the authorization guard are an environment with a state of its own, and before every call of
  the store other threads may change the database as the environment says. The parts of a frontier
  run in the order of their claims; each thread's effects reach the others only through the store,
  whose transactions exclude each other.
\<close>

section \<open>Errors, routes and requests\<close>

record provider_error =
  pe_code :: string
  pe_retryable :: bool
  pe_retry_after_seconds :: "int option"

datatype part_error =
  ProviderError provider_error | EvidenceAuthorizationError | EvidencePublicationError | OtherError

record EvidenceRouteIdentity =
  ri_provider :: string
  ri_model_route :: string
  ri_model_id :: string
  ri_capability_fingerprint :: string
  ri_profile_fingerprint :: string

record AnalyzeSourcePartRequest =
  rq_source_part_id :: string
  rq_relative_path :: string
  rq_locator :: string
  rq_media_type :: "int list"
  rq_content_bytes :: string
  rq_content_size_bytes :: nat
  rq_content_sha256 :: string
  rq_model_route :: string
  rq_deadline_seconds :: rat

definition media_type_ok :: "string \<Rightarrow> bool" where
  "media_type_ok m \<longleftrightarrow> 3 \<le> length m \<and> length m \<le> 128 \<and> CHR ''/'' \<in> set (py_strip m) \<and>
     \<not> list_ex py_space (py_strip m)"

definition bounded_text :: "nat \<Rightarrow> string \<Rightarrow> bool" where
  "bounded_text n s \<longleftrightarrow> s \<noteq> [] \<and> length s \<le> n"

text \<open>the validated request for a part's bytes; \<open>HB\<close> is the SHA-256 of a byte string\<close>

definition analyze_request ::
  "(string \<Rightarrow> string) \<Rightarrow> SourcePartPlan \<Rightarrow> string \<Rightarrow> rat \<Rightarrow> py_error + AnalyzeSourcePartRequest" where
  "analyze_request HB p content deadline_seconds =
     bind_res (normalize_relative_path (pl_relative_path p)) (\<lambda>path.
       checked (bounded_text 128 (pl_part_id p) \<and> bounded_text 512 (pl_locator p) \<and> safe_text (pl_locator p) \<and>
                media_type_ok (pl_media_type p) \<and> sha256_hex (pl_part_sha256 p) \<and>
                0 < deadline_seconds \<and> deadline_seconds \<le> 300 \<and>
                length content = pl_size_bytes p \<and> HB content = pl_part_sha256 p)
         \<lparr>rq_source_part_id = pl_part_id p, rq_relative_path = path, rq_locator = pl_locator p,
          rq_media_type = casefold (py_strip (pl_media_type p)), rq_content_bytes = content,
          rq_content_size_bytes = pl_size_bytes p, rq_content_sha256 = pl_part_sha256 p,
          rq_model_route = ''balanced'', rq_deadline_seconds = deadline_seconds\<rparr>)"

definition route_key :: "(string \<Rightarrow> string) \<Rightarrow> EvidenceRouteIdentity \<Rightarrow> string" where
  "route_key H r = ri_provider r @ '':'' @ ri_model_route r @ '':'' @ take 16 (H (ri_model_id r)) @ '':'' @
     take 16 (ri_profile_fingerprint r)"

definition cache_payload :: "EvidencePolicy \<Rightarrow> SourcePartPlan \<Rightarrow> EvidenceRouteIdentity \<Rightarrow> pyval" where
  "cache_payload pol p r = VDict
     [(''capability_fingerprint'', VStr (ri_capability_fingerprint r)), (''locator'', VStr (pl_locator p)),
      (''media_type'', VStr (pl_media_type p)), (''model_id'', VStr (ri_model_id r)),
      (''part_sha256'', VStr (pl_part_sha256 p)), (''policy_version'', VStr (po_policy_version pol)),
      (''prompt_version'', VStr (po_prompt_version pol)),
      (''profile_fingerprint'', VStr (ri_profile_fingerprint r)), (''provider'', VStr (ri_provider r)),
      (''schema_version'', VStr (po_schema_version pol)), (''source_sha256'', VStr (pl_source_sha256 p)),
      (''relative_path'', VStr (pl_relative_path p)), (''workspace_id'', VStr (pl_workspace_id p))]"

definition cache_key :: "(string \<Rightarrow> string) \<Rightarrow> EvidencePolicy \<Rightarrow> SourcePartPlan \<Rightarrow> EvidenceRouteIdentity \<Rightarrow> string" where
  "cache_key H pol p r = ''evidence-cache-v1:'' @ H (json_text ascii_json_char (cache_payload pol p r))"

section \<open>Environment and state\<close>

record ('s, 'r) environment =
  en_sha256 :: "string \<Rightarrow> string"
  en_sha256_bytes :: "string \<Rightarrow> string"
  en_policy :: EvidencePolicy
  en_wall :: "'s \<Rightarrow> int \<times> 's"
  en_monotonic :: "'s \<Rightarrow> rat \<times> 's"
  en_stop :: "'s \<Rightarrow> bool \<times> 's"
  en_sleep :: "rat \<Rightarrow> 's \<Rightarrow> 's"
  en_others :: "'s \<Rightarrow> evidence_db \<Rightarrow> evidence_db \<times> 's"
  en_route :: "'s \<Rightarrow> (part_error + EvidenceRouteIdentity) \<times> 's"
  en_enter :: "SourcePartPlan \<Rightarrow> 's \<Rightarrow> (part_error + unit) \<times> 's"
  en_exit :: "SourcePartPlan \<Rightarrow> 's \<Rightarrow> (part_error + unit) \<times> 's"
  en_open_part :: "SourcePartPlan \<Rightarrow> 's \<Rightarrow> (part_error + string) \<times> 's"
  en_analyze :: "AnalyzeSourcePartRequest \<Rightarrow> 's \<Rightarrow> (part_error + 'r) \<times> 's"
  en_validate :: "'r \<Rightarrow> SourcePartPlan \<Rightarrow> rat \<Rightarrow> 's \<Rightarrow> (part_error + EvidenceUnit) \<times> 's"

text \<open>
  What a run leaves behind: provider calls and emitted events, in their order. A callback that raises
  is ignored by the code, so an event is only its type, its part and its two numbers.
\<close>

datatype sched_event =
    Called string
  | Emitted string string
  | Coverage_updated nat nat nat
  | Initial_map_due nat nat

record 's sched =
  sd_env :: 's
  sd_db :: evidence_db
  sd_token :: string
  sd_log :: "sched_event list"

text \<open>A run ends with a result or an exception; \<open>None\<close> is a run that does not return.\<close>

type_synonym ('s, 'a) run = "'s sched \<Rightarrow> ((part_error + 'a) \<times> 's sched) option"

definition returnS :: "'a \<Rightarrow> ('s, 'a) run" where
  "returnS a s = Some (Inr a, s)"

definition raiseS :: "part_error \<Rightarrow> ('s, 'a) run" where
  "raiseS e s = Some (Inl e, s)"

definition catchS :: "('s, 'a) run \<Rightarrow> (part_error + 'a \<Rightarrow> ('s, 'b) run) \<Rightarrow> ('s, 'b) run" where
  "catchS m k s = (case m s of None \<Rightarrow> None | Some (r, s') \<Rightarrow> k r s')"

definition bindS :: "('s, 'a) run \<Rightarrow> ('a \<Rightarrow> ('s, 'b) run) \<Rightarrow> ('s, 'b) run" where
  "bindS m k = catchS m (\<lambda>r. case r of Inl e \<Rightarrow> raiseS e | Inr a \<Rightarrow> k a)"

definition tryenvS :: "('s \<Rightarrow> (part_error + 'a) \<times> 's) \<Rightarrow> ('s, 'a) run" where
  "tryenvS f s = (case f (sd_env s) of (r, e) \<Rightarrow> Some (r, s\<lparr>sd_env := e\<rparr>))"

definition envS :: "('s \<Rightarrow> 'a \<times> 's) \<Rightarrow> ('s, 'a) run" where
  "envS f = tryenvS (\<lambda>e. case f e of (a, e') \<Rightarrow> (Inr a, e'))"

definition logS :: "sched_event \<Rightarrow> ('s, unit) run" where
  "logS x s = Some (Inr (), s\<lparr>sd_log := sd_log s @ [x]\<rparr>)"

text \<open>a store call: other threads first, then the transaction; an exception of the store is no provider error\<close>

definition othersS :: "('s, 'r) environment \<Rightarrow> 's sched \<Rightarrow> 's sched" where
  "othersS env s = (case en_others env (sd_env s) (sd_db s) of (db, e) \<Rightarrow> s\<lparr>sd_env := e, sd_db := db\<rparr>)"

definition storeS :: "('s, 'r) environment \<Rightarrow> (evidence_db \<Rightarrow> py_error + 'a \<times> evidence_db) \<Rightarrow> ('s, 'a) run" where
  "storeS env f s =
     (let t = othersS env s in
      case f (sd_db t) of
        Inl _ \<Rightarrow> Some (Inl OtherError, t) | Inr (a, db) \<Rightarrow> Some (Inr a, t\<lparr>sd_db := db\<rparr>))"

definition queryS :: "('s, 'r) environment \<Rightarrow> (evidence_db \<Rightarrow> py_error + 'a) \<Rightarrow> ('s, 'a) run" where
  "queryS env f = storeS env (\<lambda>db. map_sum id (\<lambda>a. (a, db)) (f db))"

definition no_value :: "(evidence_db \<Rightarrow> py_error + evidence_db) \<Rightarrow> evidence_db \<Rightarrow> py_error + unit \<times> evidence_db" where
  "no_value f db = map_sum id (\<lambda>db'. ((), db')) (f db)"

lemmas run_defs = returnS_def raiseS_def bindS_def catchS_def envS_def tryenvS_def logS_def

section \<open>Pausing and waiting\<close>

definition must_pause :: "('s, 'r) environment \<Rightarrow> rat \<Rightarrow> 's \<Rightarrow> bool \<times> 's" where
  "must_pause env deadline e =
     (case en_stop env e of (stop, e1) \<Rightarrow>
        if stop then (True, e1) else (case en_monotonic env e1 of (now, e2) \<Rightarrow> (now \<ge> deadline, e2)))"

text \<open>
  The loop of \<open>_wait_for_retry\<close>. Nothing but the clock ends it, so not returning is \<open>None\<close>. Between the
  test of the loop and the computation of the sleep the clock may pass the target; \<open>time.sleep\<close> of a
  negative time raises.
\<close>

partial_function (option) wait_loop ::
  "('s, 'r) environment \<Rightarrow> rat \<Rightarrow> rat \<Rightarrow> 's \<Rightarrow> ((part_error + bool) \<times> 's) option" where
  "wait_loop env target deadline e =
     (case en_monotonic env e of (now, e1) \<Rightarrow>
        if now \<ge> target then Some (case must_pause env deadline e1 of (p, e2) \<Rightarrow> (Inr (\<not> p), e2))
        else (case must_pause env deadline e1 of (p, e2) \<Rightarrow>
          if p then Some (Inr False, e2)
          else (case en_monotonic env e2 of (now1, e3) \<Rightarrow> case en_monotonic env e3 of (now2, e4) \<Rightarrow>
            if deadline - now2 \<le> 0 then Some (Inr False, e4)
            else let pause = min (1 / 4) (min (target - now1) (deadline - now2)) in
              if pause < 0 then Some (Inl OtherError, e4)
              else wait_loop env target deadline (en_sleep env pause e4))))"

definition wait_for_retry ::
  "('s, 'r) environment \<Rightarrow> rat \<Rightarrow> rat \<Rightarrow> 's \<Rightarrow> ((part_error + bool) \<times> 's) option" where
  "wait_for_retry env delay deadline e =
     (case en_monotonic env e of (now, e1) \<Rightarrow>
        if now + delay > deadline then Some (Inr False, e1) else wait_loop env (now + delay) deadline e1)"

definition retry_delay :: "EvidencePolicy \<Rightarrow> provider_error \<Rightarrow> nat \<Rightarrow> rat" where
  "retry_delay pol err attempt =
     max 0 (case pe_retry_after_seconds err of
       Some seconds \<Rightarrow> of_int seconds | None \<Rightarrow> po_retry_backoff_seconds pol * 2 ^ (attempt - 1))"

text \<open>\<open>timedelta(seconds=delay)\<close> in microseconds, ties to even\<close>

definition microseconds :: "rat \<Rightarrow> int" where
  "microseconds delay =
     (let q = delay * 1000000; f = \<lfloor>q\<rfloor>; d = q - of_int f in
      if d < 1 / 2 \<or> d = 1 / 2 \<and> even f then f else f + 1)"

section \<open>One part\<close>

definition emitS :: "string \<Rightarrow> SourcePartPlan \<Rightarrow> ('s, unit) run" where
  "emitS event_type part = logS (Emitted event_type (pl_part_id part))"

text \<open>\<open>_pause_claim\<close> ignores a part that is gone or claimed by another token; the store raises nothing else\<close>

definition pause_part :: "('s, 'r) environment \<Rightarrow> SourcePartPlan \<Rightarrow> string \<Rightarrow> ('s, unit) run" where
  "pause_part env part token =
     bindS (envS (en_wall env)) (\<lambda>now.
       catchS (storeS env (no_value (pause_claim (en_sha256 env) (pl_part_id part) token now)))
         (\<lambda>_. returnS ()))"

definition paused :: "('s, 'r) environment \<Rightarrow> SourcePartPlan \<Rightarrow> string \<Rightarrow> ('s, PartState) run" where
  "paused env part token = bindS (pause_part env part token) (\<lambda>_. returnS RETRY_WAIT)"

text \<open>the body of a \<open>with\<close> over the authorization guard: an exception of the exit replaces the outcome\<close>

definition guarded :: "('s, 'r) environment \<Rightarrow> SourcePartPlan \<Rightarrow> ('s, 'a) run \<Rightarrow> ('s, 'a) run" where
  "guarded env part body =
     bindS (tryenvS (en_enter env part)) (\<lambda>_.
       catchS body (\<lambda>r. bindS (tryenvS (en_exit env part)) (\<lambda>_. (\<lambda>s. Some (r, s)))))"

definition request_part :: "('s, 'r) environment \<Rightarrow> SourcePartPlan \<Rightarrow> rat \<Rightarrow> ('s, AnalyzeSourcePartRequest) run" where
  "request_part env part deadline =
     bindS (tryenvS (en_open_part env part)) (\<lambda>bytes.
     bindS (envS (en_monotonic env)) (\<lambda>now.
       let content = take (nat (po_max_part_bytes (en_policy env) + 1)) bytes in
       case analyze_request (en_sha256_bytes env) part content
              (min (po_provider_timeout_seconds (en_policy env)) (max (1 / 1000) (deadline - now))) of
         Inl _ \<Rightarrow> raiseS OtherError
       | Inr request \<Rightarrow> returnS request))"

text \<open>request, one provider call, validation and publication; \<open>None\<close> when the run must pause\<close>

definition analyze_part ::
  "('s, 'r) environment \<Rightarrow> SourcePartPlan \<Rightarrow> rat \<Rightarrow> string \<Rightarrow> string \<Rightarrow> ('s, PartState) run" where
  "analyze_part env part deadline key token =
     bindS (request_part env part deadline) (\<lambda>request.
     bindS (envS (must_pause env deadline)) (\<lambda>pause.
       if pause then paused env part token
       else
         bindS (logS (Called (pl_part_id part))) (\<lambda>_.
         bindS (tryenvS (en_analyze env request)) (\<lambda>result.
         bindS (envS (en_monotonic env)) (\<lambda>now.
         bindS (tryenvS (en_validate env result part (max 0 (deadline - now)))) (\<lambda>u.
         bindS (envS (en_wall env)) (\<lambda>completed_at.
           catchS (storeS env (publish_evidence (en_sha256 env) (pl_part_id part) u key token completed_at))
             (\<lambda>r. case r of Inl _ \<Rightarrow> raiseS EvidencePublicationError | Inr _ \<Rightarrow> returnS PROCESSED))))))))"

definition recorded ::
  "('s, 'r) environment \<Rightarrow> SourcePartPlan \<Rightarrow> string \<Rightarrow> attempt_args \<Rightarrow> ('s, SourcePartPlan) run" where
  "recorded env part token a = storeS env (record_attempt (en_sha256 env) (pl_part_id part) a token)"

definition attempt_of ::
  "nat \<Rightarrow> string \<Rightarrow> PartState \<Rightarrow> int \<Rightarrow> int \<Rightarrow> string \<Rightarrow> int option \<Rightarrow> attempt_args" where
  "attempt_of attempt route outcome started finished code next =
     \<lparr>at_attempt = int attempt, at_route = route, at_outcome = Inl outcome, at_started_at = started,
      at_finished_at = Some finished, at_safe_error_code = Some code, at_next_attempt_at = next\<rparr>"

definition record_failed ::
  "('s, 'r) environment \<Rightarrow> SourcePartPlan \<Rightarrow> string \<Rightarrow> nat \<Rightarrow> string \<Rightarrow> string \<Rightarrow> int \<Rightarrow> int \<Rightarrow> ('s, PartState) run" where
  "record_failed env part token attempt route code started finished =
     bindS (recorded env part token (attempt_of attempt route PartState.FAILED started finished code None)) (\<lambda>_.
     bindS (emitS ''part_failed'' part) (\<lambda>_. returnS PartState.FAILED))"

text \<open>\<open>_record_recoverable_route_error\<close> with the attempt and times its caller has\<close>

definition record_recoverable ::
  "('s, 'r) environment \<Rightarrow> SourcePartPlan \<Rightarrow> string \<Rightarrow> nat \<Rightarrow> string \<Rightarrow> string \<Rightarrow> int \<Rightarrow> int \<Rightarrow> ('s, PartState) run" where
  "record_recoverable env part token attempt route code started finished =
     bindS (recorded env part token (attempt_of attempt route RETRY_WAIT started finished code (Some finished))) (\<lambda>_.
     bindS (emitS ''part_failed'' part) (\<lambda>_. returnS RETRY_WAIT))"

definition unavailable_route ::
  "('s, 'r) environment \<Rightarrow> SourcePartPlan \<Rightarrow> string \<Rightarrow> string \<Rightarrow> ('s, PartState) run" where
  "unavailable_route env part token code =
     bindS (queryS env (attempt_count (pl_part_id part))) (\<lambda>n.
     bindS (envS (en_wall env)) (\<lambda>now.
       record_recoverable env part token (n + 1) ''provider:route-unavailable'' code now now))"

definition waitS :: "('s, 'r) environment \<Rightarrow> rat \<Rightarrow> rat \<Rightarrow> ('s, bool) run" where
  "waitS env delay deadline s =
     map_option (\<lambda>(r, e). (r, s\<lparr>sd_env := e\<rparr>)) (wait_for_retry env delay deadline (sd_env s))"

definition resumed ::
  "('s, 'r) environment \<Rightarrow> SourcePartPlan \<Rightarrow> string \<Rightarrow> nat \<Rightarrow> ('s, string) run" where
  "resumed env part token attempt =
     bindS (envS (en_wall env)) (\<lambda>now.
     bindS (storeS env (resume_claim (en_sha256 env) (pl_part_id part) token (int attempt) now)) (\<lambda>claim s.
       Some (Inr (cm_claim_token claim), s\<lparr>sd_token := cm_claim_token claim\<rparr>)))"

text \<open>
  What follows an attempt: a retryable failure is recorded, waited for and, when the wait ends in
  time, followed by \<open>again\<close> under the token of the resumed claim.
\<close>

definition after_attempt ::
  "('s, 'r) environment \<Rightarrow> SourcePartPlan \<Rightarrow> rat \<Rightarrow> string \<Rightarrow> string \<Rightarrow> nat \<Rightarrow> nat \<Rightarrow> int \<Rightarrow>
   (string \<Rightarrow> ('s, PartState) run) \<Rightarrow> part_error + PartState \<Rightarrow> ('s, PartState) run" where
  "after_attempt env part deadline route token attempt route_attempt started again r =
     (case r of
        Inr state \<Rightarrow>
          if state = PROCESSED then bindS (emitS ''part_processed'' part) (\<lambda>_. returnS PROCESSED)
          else returnS state
      | Inl EvidenceAuthorizationError \<Rightarrow> raiseS EvidenceAuthorizationError
      | Inl EvidencePublicationError \<Rightarrow> raiseS EvidencePublicationError
      | Inl OtherError \<Rightarrow> bindS (envS (en_wall env)) (\<lambda>finished.
          record_failed env part token attempt route ''evidence_validation_failed'' started finished)
      | Inl (ProviderError err) \<Rightarrow>
          bindS (envS (en_wall env)) (\<lambda>finished.
            if pe_retryable err \<and> route_attempt < po_max_attempts_per_route (en_policy env)
            then
              let delay = retry_delay (en_policy env) err route_attempt in
              bindS (recorded env part token (attempt_of attempt route RETRY_WAIT started finished
                (pe_code err) (Some (finished + microseconds delay)))) (\<lambda>_.
              bindS (emitS ''part_retrying'' part) (\<lambda>_.
              bindS (waitS env delay deadline) (\<lambda>ready.
                if \<not> ready then returnS RETRY_WAIT
                else bindS (resumed env part token (attempt + 1)) again)))
            else if pe_retryable err
            then record_failed env part token attempt route (pe_code err) started finished
            else record_recoverable env part token attempt route (pe_code err) started finished))"

text \<open>the attempts of a claim\<close>

function run_attempts ::
  "('s, 'r) environment \<Rightarrow> SourcePartPlan \<Rightarrow> rat \<Rightarrow> string \<Rightarrow> string \<Rightarrow> string \<Rightarrow> nat \<Rightarrow> nat \<Rightarrow>
   ('s, PartState) run" where
  "run_attempts env part deadline route key token attempt route_attempt =
     (if route_attempt > po_max_attempts_per_route (en_policy env) then returnS PartState.FAILED
      else bindS (envS (must_pause env deadline)) (\<lambda>pause.
        if pause then paused env part token
        else
          bindS (envS (en_wall env)) (\<lambda>started.
          bindS (emitS ''part_started'' part) (\<lambda>_.
          catchS (guarded env part (analyze_part env part deadline key token))
            (after_attempt env part deadline route token attempt route_attempt started
              (\<lambda>token'. run_attempts env part deadline route key token' (attempt + 1) (route_attempt + 1)))))))"
  by pat_completeness auto

termination
  by (relation "measure (\<lambda>(env, _, _, _, _, _, _, n). po_max_attempts_per_route (en_policy env) + 1 - n)") auto

declare run_attempts.simps [simp del]

definition run_part ::
  "('s, 'r) environment \<Rightarrow> EvidencePartClaim \<Rightarrow> rat \<Rightarrow> ('s, PartState) run" where
  "run_part env claim deadline =
     (let part = cm_plan claim; token = cm_claim_token claim; H = en_sha256 env; part_id = pl_part_id part in
      bindS (envS (must_pause env deadline)) (\<lambda>pause.
        if pause then paused env part token
        else catchS (tryenvS (en_route env)) (\<lambda>r. case r of
          Inl (ProviderError err) \<Rightarrow> unavailable_route env part token (pe_code err)
        | Inl e \<Rightarrow> raiseS e
        | Inr route \<Rightarrow>
            let key = cache_key H (en_policy env) part route; rk = route_key H route in
            bindS (guarded env part (bindS (envS (en_wall env)) (\<lambda>now.
              storeS env (reuse_cached_evidence H part_id key token now)))) (\<lambda>cached.
            if cached \<noteq> None then bindS (emitS ''part_processed'' part) (\<lambda>_. returnS PROCESSED)
            else
              bindS (queryS env (attempt_count part_id)) (\<lambda>n.
              bindS (queryS env (route_attempt_count part_id rk)) (\<lambda>m.
                if m + 1 > po_max_attempts_per_route (en_policy env)
                then bindS (envS (en_wall env)) (\<lambda>now.
                     bindS (storeS env (fail_exhausted_claim H part_id token now)) (\<lambda>_.
                     bindS (emitS ''part_failed'' part) (\<lambda>_. returnS PartState.FAILED)))
                else run_attempts env part deadline rk key token (n + 1) (m + 1)))))))"

text \<open>\<open>_run_part_guarded\<close>: whatever escapes, the claim is paused under its latest token\<close>

definition run_part_guarded ::
  "('s, 'r) environment \<Rightarrow> EvidencePartClaim \<Rightarrow> rat \<Rightarrow> ('s, string \<times> PartState) run" where
  "run_part_guarded env claim deadline s =
     catchS (run_part env claim deadline) (\<lambda>r. case r of
         Inr state \<Rightarrow> returnS (pl_part_id (cm_plan claim), state)
       | Inl _ \<Rightarrow> (\<lambda>t. bindS (pause_part env (cm_plan claim) (sd_token t))
           (\<lambda>_. returnS (pl_part_id (cm_plan claim), RETRY_WAIT)) t))
       (s\<lparr>sd_token := cm_claim_token claim\<rparr>)"

section \<open>The frontier\<close>

datatype SchedulerStatus = COMPLETE_STATUS | PAUSED_STATUS

record SchedulerOutcome =
  so_status :: SchedulerStatus
  so_processed_part_ids :: "string list"
  so_failed_part_ids :: "string list"
  so_pending_count :: nat

definition pending_count :: "(PartState \<times> nat) list \<Rightarrow> nat" where
  "pending_count counts =
     sum_list (map snd (filter (\<lambda>(state, _). state \<notin> {PROCESSED, PartState.FAILED, INVALIDATED}) counts))"

definition counts_get :: "(PartState \<times> nat) list \<Rightarrow> PartState \<Rightarrow> nat" where
  "counts_get counts state = (case map_of counts state of None \<Rightarrow> 0 | Some n \<Rightarrow> n)"

fun run_claims ::
  "('s, 'r) environment \<Rightarrow> rat \<Rightarrow> EvidencePartClaim list \<Rightarrow> ('s, (string \<times> PartState) list) run" where
  "run_claims env deadline [] = returnS []"
| "run_claims env deadline (c # cs) =
     bindS (run_part_guarded env c deadline) (\<lambda>r.
     bindS (run_claims env deadline cs) (\<lambda>rs. returnS (r # rs)))"

definition ids_in :: "PartState \<Rightarrow> (string \<times> PartState) list \<Rightarrow> string list" where
  "ids_in state results = map fst (filter (\<lambda>r. snd r = state) results)"

definition pending_in :: "string \<Rightarrow> string \<Rightarrow> evidence_db \<Rightarrow> nat" where
  "pending_in workspace_id revision_id db = pending_count (part_state_counts workspace_id revision_id db)"

definition count_states ::
  "('s, 'r) environment \<Rightarrow> string \<Rightarrow> string \<Rightarrow> ('s, (PartState \<times> nat) list) run" where
  "count_states env workspace_id revision_id =
     queryS env (\<lambda>db. Inr (part_state_counts workspace_id revision_id db))"

fun log_events :: "sched_event list \<Rightarrow> ('s, unit) run" where
  "log_events [] = returnS ()"
| "log_events (x # xs) = bindS (logS x) (\<lambda>_. log_events xs)"

definition frontier_outcome ::
  "('s, 'r) environment \<Rightarrow> string \<Rightarrow> string \<Rightarrow> rat \<Rightarrow> (string \<times> PartState) list \<Rightarrow> ('s, SchedulerOutcome) run" where
  "frontier_outcome env workspace_id revision_id deadline results =
     (let processed = ids_in PROCESSED results; failed = ids_in PartState.FAILED results in
      bindS (count_states env workspace_id revision_id) (\<lambda>counts.
      let pending = pending_count counts in
      bindS (log_events ([Coverage_updated (counts_get counts PROCESSED) pending (counts_get counts PartState.FAILED)] @
          (if processed = [] then [] else [Initial_map_due (counts_get counts PROCESSED) pending]))) (\<lambda>_.
      bindS (envS (must_pause env deadline)) (\<lambda>pause.
        returnS \<lparr>so_status = (if pause \<or> failed \<noteq> [] \<or> ids_in RETRY_WAIT results \<noteq> []
                              then PAUSED_STATUS else COMPLETE_STATUS),
                 so_processed_part_ids = processed, so_failed_part_ids = failed,
                 so_pending_count = pending\<rparr>))))"

definition idle_outcome :: "SchedulerStatus \<Rightarrow> nat \<Rightarrow> SchedulerOutcome" where
  "idle_outcome status pending =
     \<lparr>so_status = status, so_processed_part_ids = [], so_failed_part_ids = [], so_pending_count = pending\<rparr>"

definition run_frontier_until ::
  "('s, 'r) environment \<Rightarrow> string \<Rightarrow> string \<Rightarrow> rat \<Rightarrow> ('s, SchedulerOutcome) run" where
  "run_frontier_until env workspace_id revision_id deadline =
     bindS (envS (must_pause env deadline)) (\<lambda>pause.
     if pause then
       bindS (count_states env workspace_id revision_id) (\<lambda>counts.
         returnS (idle_outcome PAUSED_STATUS (pending_count counts)))
     else
       bindS (envS (en_wall env)) (\<lambda>now.
       bindS (storeS env (claim_parts_with_tokens (en_sha256 env) workspace_id revision_id
               (int (po_multimodal_concurrency (en_policy env))) now)) (\<lambda>claims.
       if claims = [] then
         bindS (count_states env workspace_id revision_id) (\<lambda>counts.
           returnS (idle_outcome (if pending_count counts = 0 then COMPLETE_STATUS else PAUSED_STATUS)
             (pending_count counts)))
       else
         bindS (log_events (map (\<lambda>c. Emitted ''part_planned'' (pl_part_id (cm_plan c))) claims)) (\<lambda>_.
         bindS (run_claims env deadline claims) (\<lambda>results.
           frontier_outcome env workspace_id revision_id deadline results)))))"

definition run_frontier ::
  "('s, 'r) environment \<Rightarrow> string \<Rightarrow> string \<Rightarrow> rat option \<Rightarrow> ('s, SchedulerOutcome) run" where
  "run_frontier env workspace_id revision_id deadline =
     (case deadline of
        Some d \<Rightarrow> run_frontier_until env workspace_id revision_id d
      | None \<Rightarrow> bindS (envS (en_monotonic env)) (\<lambda>now.
          run_frontier_until env workspace_id revision_id (now + po_tool_deadline_seconds (en_policy env))))"

text \<open>\<open>run_to_completion\<close> repeats the frontier\<close>

definition total_outcome ::
  "SchedulerStatus \<Rightarrow> string list \<Rightarrow> string list \<Rightarrow> nat \<Rightarrow> SchedulerOutcome" where
  "total_outcome status processed failed pending =
     \<lparr>so_status = status, so_processed_part_ids = processed, so_failed_part_ids = failed,
      so_pending_count = pending\<rparr>"

partial_function (option) completion_loop ::
  "('s, 'r) environment \<Rightarrow> string \<Rightarrow> string \<Rightarrow> rat \<Rightarrow> string list \<Rightarrow> string list \<Rightarrow> 's sched \<Rightarrow>
   ((part_error + SchedulerOutcome) \<times> 's sched) option" where
  "completion_loop env workspace_id revision_id deadline processed failed s =
     (case run_frontier_until env workspace_id revision_id deadline s of
        None \<Rightarrow> None
      | Some (Inl e, t) \<Rightarrow> Some (Inl e, t)
      | Some (Inr outcome, t) \<Rightarrow>
          (let processed' = processed @ so_processed_part_ids outcome;
               failed' = failed @ so_failed_part_ids outcome in
           if so_status outcome = PAUSED_STATUS then
             Some (Inr (total_outcome PAUSED_STATUS processed' failed' (so_pending_count outcome)), t)
           else if so_pending_count outcome = 0 then
             Some (Inr (total_outcome COMPLETE_STATUS processed' failed' 0), t)
           else completion_loop env workspace_id revision_id deadline processed' failed' t))"

definition run_to_completion ::
  "('s, 'r) environment \<Rightarrow> string \<Rightarrow> string \<Rightarrow> ('s, SchedulerOutcome) run" where
  "run_to_completion env workspace_id revision_id =
     bindS (envS (en_monotonic env)) (\<lambda>now.
       completion_loop env workspace_id revision_id (now + po_tool_deadline_seconds (en_policy env)) [] [])"

end
