(* ===== verification/Evidence_Run.thy ===== *)
theory Evidence_Run
  imports Evidence_Scheduler Evidence_Steps
begin

text \<open>
  The scheduler's run of one part: how many provider calls it makes, that it returns when the clock
  obeys the laws of \<open>time.monotonic\<close> and \<open>time.sleep\<close>, and which rows of the database it touches.
\<close>

section \<open>Provider calls\<close>

definition is_call :: "sched_event \<Rightarrow> bool" where
  "is_call x = (case x of Called _ \<Rightarrow> True | _ \<Rightarrow> False)"

definition calls :: "'s sched \<Rightarrow> nat" where
  "calls s = length (filter is_call (sd_log s))"

definition spends :: "('s, 'a) run \<Rightarrow> nat \<Rightarrow> bool" where
  "spends m n \<longleftrightarrow> (\<forall>s r s'. m s = Some (r, s') \<longrightarrow> calls s' \<le> calls s + n)"

named_theorems no_calls \<open>runs that do not call the provider\<close>

lemma spends_mono: "spends m a \<Longrightarrow> a \<le> b \<Longrightarrow> spends m b"
  by (fastforce simp: spends_def)

lemma spends_catch:
  assumes "spends m a" and "\<And>r. spends (k r) b"
  shows "spends (catchS m k) (a + b)"
  unfolding spends_def
proof (intro allI impI)
  fix s r s'
  assume "catchS m k s = Some (r, s')"
  then obtain x t where t: "m s = Some (x, t)" "k x t = Some (r, s')"
    by (auto simp: catchS_def split: option.splits)
  from assms t have "calls t \<le> calls s + a" "calls s' \<le> calls t + b" by (auto simp: spends_def)
  then show "calls s' \<le> calls s + (a + b)" by simp
qed

lemma spends_raise [no_calls]: "spends (raiseS e) 0"
  by (simp add: spends_def raiseS_def)

lemma spends_bind:
  assumes "spends m a" and "\<And>x. spends (k x) b"
  shows "spends (bindS m k) (a + b)"
  unfolding bindS_def
  by (rule spends_catch [OF assms(1)])
    (use assms(2) spends_mono [OF spends_raise, of b] in \<open>auto split: sum.split\<close>)

lemma spends_catch0 [no_calls]: "spends m 0 \<Longrightarrow> (\<And>r. spends (k r) 0) \<Longrightarrow> spends (catchS m k) 0"
  using spends_catch [of m 0 k 0] by simp

lemma spends_bind0 [no_calls]: "spends m 0 \<Longrightarrow> (\<And>x. spends (k x) 0) \<Longrightarrow> spends (bindS m k) 0"
  using spends_bind [of m 0 k 0] by simp

lemma spends_bind_first: "spends m 0 \<Longrightarrow> (\<And>x. spends (k x) n) \<Longrightarrow> spends (bindS m k) n"
  using spends_bind [of m 0 k n] by simp

lemma spends_bind_last: "spends m n \<Longrightarrow> (\<And>x. spends (k x) 0) \<Longrightarrow> spends (bindS m k) n"
  using spends_bind [of m n k 0] by simp

lemma spends_basic [no_calls]:
  "spends (returnS x) 0" "spends (tryenvS f) 0" "spends (envS g) 0" "spends (waitS env d t) 0"
  "spends (\<lambda>s. Some (h s, s)) 0"
  by (auto simp: spends_def run_defs calls_def waitS_def split: prod.splits)

lemma othersS_log [simp]: "sd_log (othersS env s) = sd_log s"
  by (simp add: othersS_def split: prod.splits)

lemma spends_store [no_calls]: "spends (storeS env f) 0"
  by (auto simp: spends_def storeS_def calls_def Let_def split: sum.splits prod.splits)

lemma spends_query [no_calls]: "spends (queryS env q) 0"
  unfolding queryS_def by (rule spends_store)

lemma spends_emit [no_calls]: "spends (emitS e p) 0"
  by (simp add: spends_def emitS_def logS_def calls_def is_call_def)

lemma spends_call: "spends (logS x) 1"
  by (simp add: spends_def logS_def calls_def)

lemma spends_pause [no_calls]: "spends (pause_part env p tok) 0" "spends (paused env p tok) 0"
  by (auto simp: pause_part_def paused_def intro!: no_calls)

lemma spends_records [no_calls]:
  "spends (recorded env p tok a) 0" "spends (record_failed env p tok n rt c t1 t2) 0"
  "spends (record_recoverable env p tok n rt c t1 t2) 0" "spends (unavailable_route env p tok c) 0"
  by (auto simp: recorded_def record_failed_def record_recoverable_def unavailable_route_def intro!: no_calls)

lemma spends_resumed [no_calls]: "spends (resumed env p tok n) 0"
proof -
  have "spends (\<lambda>s. Some (Inr c, s\<lparr>sd_token := c\<rparr>)) 0" for c :: string
    by (simp add: spends_def calls_def)
  then show ?thesis unfolding resumed_def by (intro no_calls)
qed

lemma spends_request [no_calls]: "spends (request_part env p d) 0"
  unfolding request_part_def Let_def by (intro no_calls) (auto split: sum.split intro: no_calls)

lemma spends_guarded: "spends body n \<Longrightarrow> spends (guarded env p body) n"
  unfolding guarded_def
proof (intro spends_bind_first spends_basic)
  assume body: "spends body n"
  have "spends (catchS body (\<lambda>r. bindS (tryenvS (en_exit env p)) (\<lambda>_ s. Some (r, s)))) (n + 0)"
    by (rule spends_catch [OF body]) (intro no_calls)
  then show "spends (catchS body (\<lambda>r. bindS (tryenvS (en_exit env p)) (\<lambda>_ s. Some (r, s)))) n" by simp
qed

lemma spends_analyze: "spends (analyze_part env p d key tok) 1"
proof -
  have tail: "spends (bindS (tryenvS (en_analyze env request)) (\<lambda>result.
      bindS (envS (en_monotonic env)) (\<lambda>now.
      bindS (tryenvS (en_validate env result p (max 0 (d - now)))) (\<lambda>u.
      bindS (envS (en_wall env)) (\<lambda>completed_at.
        catchS (storeS env (publish_evidence (en_sha256 env) (pl_part_id p) u key tok completed_at))
          (\<lambda>r. case r of Inl _ \<Rightarrow> raiseS EvidencePublicationError | Inr _ \<Rightarrow> returnS PROCESSED)))))) 0" for request
    by (intro no_calls) (auto split: sum.split intro: no_calls)
  have branch: "spends (if pause then paused env p tok else bindS (logS (Called (pl_part_id p))) (\<lambda>_. k)) 1"
    if "spends k 0" for pause k
    using spends_mono [OF spends_pause(2)] spends_bind_last [OF spends_call, of "\<lambda>_. k"] that
    by (cases pause) simp_all
  show ?thesis
    unfolding analyze_part_def by (intro spends_bind_first spends_request spends_basic branch tail)
qed

lemma spends_after_attempt:
  assumes "\<And>token'. spends (again token') n"
  shows "spends (after_attempt env part deadline route token attempt k started again r) n"
proof -
  have zero: "spends m n" if "spends m 0" for m :: "('a, PartState) run"
    using that by (rule spends_mono) simp
  have wait: "spends (bindS (waitS env delay deadline) (\<lambda>ready. if \<not> ready then returnS RETRY_WAIT
      else bindS (resumed env part token (attempt + 1)) again)) n" for delay
  proof (intro spends_bind_first spends_basic)
    fix ready
    have "spends (bindS (resumed env part token (attempt + 1)) again) n"
      by (intro spends_bind_first spends_resumed assms)
    then show "spends (if \<not> ready then returnS RETRY_WAIT else bindS (resumed env part token (attempt + 1)) again) n"
      by (cases ready) (simp_all add: spends_mono [OF spends_basic(1)])
  qed
  have provider: "spends (bindS (envS (en_wall env)) (\<lambda>finished.
      if pe_retryable err \<and> k < po_max_attempts_per_route (en_policy env)
      then let delay = retry_delay (en_policy env) err k in
        bindS (recorded env part token (a finished delay)) (\<lambda>_. bindS (emitS e part) (\<lambda>_.
        bindS (waitS env delay deadline) (\<lambda>ready.
          if \<not> ready then returnS RETRY_WAIT else bindS (resumed env part token (attempt + 1)) again)))
      else if pe_retryable err then record_failed env part token attempt route (pe_code err) started finished
      else record_recoverable env part token attempt route (pe_code err) started finished)) n" for err a e
  proof (intro spends_bind_first spends_basic)
    fix finished
    have "spends (bindS (recorded env part token (a finished delay)) (\<lambda>_. bindS (emitS e part) (\<lambda>_.
        bindS (waitS env delay deadline) (\<lambda>ready.
          if \<not> ready then returnS RETRY_WAIT else bindS (resumed env part token (attempt + 1)) again)))) n" for delay
      by (intro spends_bind_first spends_records spends_emit wait)
    then show "spends (if pe_retryable err \<and> k < po_max_attempts_per_route (en_policy env)
      then let delay = retry_delay (en_policy env) err k in
        bindS (recorded env part token (a finished delay)) (\<lambda>_. bindS (emitS e part) (\<lambda>_.
        bindS (waitS env delay deadline) (\<lambda>ready.
          if \<not> ready then returnS RETRY_WAIT else bindS (resumed env part token (attempt + 1)) again)))
      else if pe_retryable err then record_failed env part token attempt route (pe_code err) started finished
      else record_recoverable env part token attempt route (pe_code err) started finished) n"
      by (simp add: Let_def zero [OF spends_records(2)] zero [OF spends_records(3)])
  qed
  have failed: "spends (bindS (envS (en_wall env)) (\<lambda>finished.
      record_failed env part token attempt route c started finished)) n" for c
    by (rule zero) (intro no_calls)
  have processed: "spends (bindS (emitS e part) (\<lambda>_. returnS PROCESSED)) n" for e
    by (rule spends_mono [of _ 0]) (intro no_calls, simp)
  show ?thesis
    unfolding after_attempt_def
    by (auto split: sum.split part_error.split intro: provider failed processed zero [OF spends_basic(1)] zero [OF spends_raise])
qed

lemma spends_attempts:
  "spends (run_attempts env part deadline route key token attempt n) (po_max_attempts_per_route (en_policy env) + 1 - n)"
proof (induction "po_max_attempts_per_route (en_policy env) + 1 - n" arbitrary: token attempt n rule: less_induct)
  case less
  let ?max = "po_max_attempts_per_route (en_policy env)"
  let ?again = "\<lambda>token'. run_attempts env part deadline route key token' (attempt + 1) (n + 1)"
  show ?case
  proof (cases "n > ?max")
    case True
    then show ?thesis by (subst run_attempts.simps) (simp add: spends_basic)
  next
    case False
    then have split: "?max + 1 - n = 1 + (?max - n)" by simp
    have again: "spends (?again token') (?max - n)" for token'
      using less [of "n + 1" token' "attempt + 1"] False by simp
    have body: "spends (bindS (envS (en_wall env)) (\<lambda>started. bindS (emitS ''part_started'' part) (\<lambda>_.
        catchS (guarded env part (analyze_part env part deadline key token))
          (after_attempt env part deadline route token attempt n started ?again)))) (1 + (?max - n))"
      by (intro spends_bind_first spends_basic spends_emit spends_catch spends_guarded spends_analyze
          spends_after_attempt again)
    have "spends (if pause then paused env part token else bindS (envS (en_wall env)) (\<lambda>started.
        bindS (emitS ''part_started'' part) (\<lambda>_.
        catchS (guarded env part (analyze_part env part deadline key token))
          (after_attempt env part deadline route token attempt n started ?again)))) (1 + (?max - n))" for pause
      using body spends_mono [OF spends_pause(2)] by (cases pause) simp_all
    then show ?thesis
      using False unfolding split by (subst run_attempts.simps) (simp only: if_False, intro spends_bind_first spends_basic)
  qed
qed

section \<open>Triples\<close>

text \<open>Partial triples over the outcomes of a run, and runs that always return.\<close>

definition holds :: "('s sched \<Rightarrow> bool) \<Rightarrow> ('s, 'a) run \<Rightarrow> (part_error + 'a \<Rightarrow> 's sched \<Rightarrow> bool) \<Rightarrow> bool" where
  "holds P m Q \<longleftrightarrow> (\<forall>s r s'. P s \<longrightarrow> m s = Some (r, s') \<longrightarrow> Q r s')"

lemma holds_catch:
  assumes "holds P m Q" and "\<And>r. holds (Q r) (k r) R"
  shows "holds P (catchS m k) R"
  unfolding holds_def
proof (intro allI impI)
  fix s r s'
  assume "P s" "catchS m k s = Some (r, s')"
  then obtain x t where "m s = Some (x, t)" "k x t = Some (r, s')"
    by (auto simp: catchS_def split: option.splits)
  with assms \<open>P s\<close> show "R r s'" unfolding holds_def by blast
qed

lemma holds_raise: "holds (Q (Inl e)) (raiseS e) Q"
  by (simp add: holds_def raiseS_def)

lemma holds_return: "holds (Q (Inr a)) (returnS a) Q"
  by (simp add: holds_def returnS_def)

lemma holds_bind:
  assumes "holds P m Q" and "\<And>e. holds (Q (Inl e)) (raiseS e) R" and "\<And>a. holds (Q (Inr a)) (k a) R"
  shows "holds P (bindS m k) R"
  unfolding bindS_def by (rule holds_catch [OF assms(1)]) (use assms(2,3) in \<open>auto split: sum.split\<close>)

lemma holds_weaken:
  "holds P m Q \<Longrightarrow> (\<And>s. P' s \<Longrightarrow> P s) \<Longrightarrow> (\<And>r s. Q r s \<Longrightarrow> Q' r s) \<Longrightarrow> holds P' m Q'"
  unfolding holds_def by blast

lemma holds_if: "(c \<Longrightarrow> holds P m Q) \<Longrightarrow> (\<not> c \<Longrightarrow> holds P m' Q) \<Longrightarrow> holds P (if c then m else m') Q"
  by simp

lemma holds_apply: "holds P m Q \<Longrightarrow> P s \<Longrightarrow> m s = Some (r, s') \<Longrightarrow> Q r s'"
  unfolding holds_def by blast

text \<open>A property of the database alone is kept by everything but store calls.\<close>

lemma holds_env:
  "(\<And>s e. P (s\<lparr>sd_env := e\<rparr>) = P s) \<Longrightarrow> holds P (tryenvS f) (\<lambda>_. P)"
  "(\<And>s e. P (s\<lparr>sd_env := e\<rparr>) = P s) \<Longrightarrow> holds P (envS g) (\<lambda>_. P)"
  "(\<And>s e. P (s\<lparr>sd_env := e\<rparr>) = P s) \<Longrightarrow> holds P (waitS env d t) (\<lambda>_. P)"
  by (auto simp: holds_def tryenvS_def envS_def waitS_def split: prod.splits)

lemma holds_store:
  assumes "\<And>s. P s \<Longrightarrow> P (othersS env s)"
    and "\<And>s. P s \<Longrightarrow> Q (Inl OtherError) s"
    and "\<And>s a db. P s \<Longrightarrow> f (sd_db s) = Inr (a, db) \<Longrightarrow> Q (Inr a) (s\<lparr>sd_db := db\<rparr>)"
  shows "holds P (storeS env f) Q"
  using assms by (auto simp: holds_def storeS_def Let_def split: sum.splits prod.splits)

section \<open>Attempts already recorded count\<close>

lemma reuse_keeps_attempts:
  assumes "reuse_cached_evidence H i key tok t db = Inr (x, db')"
  shows "ev_attempts db' = ev_attempts db"
  using assms by (cases rule: reuse_cases) (simp_all add: processed_part_def)

lemma run_part_calls:
  fixes env :: "('s, 'r) environment"
  assumes others: "\<And>e db. route_attempts i rk db \<le> route_attempts i rk (fst (en_others env e db))"
    and route: "\<And>e. fst (en_route env e) = Inr route"
    and i: "i = pl_part_id (cm_plan claim)" and rk: "rk = route_key (en_sha256 env) route"
    and run: "run_part env claim deadline s = Some (r, s')"
  shows "calls s' \<le> calls s + (po_max_attempts_per_route (en_policy env) - route_attempts i rk (sd_db s))"
proof -
  let ?n = "route_attempts i rk (sd_db s)" and ?max = "po_max_attempts_per_route (en_policy env)"
  define P where "P t \<longleftrightarrow> ?n \<le> route_attempts i rk (sd_db t) \<and> calls t \<le> calls s" for t :: "'s sched"
  define R where "R t \<longleftrightarrow> calls t \<le> calls s + (?max - ?n)" for t :: "'s sched"
  have P_env: "P (t\<lparr>sd_env := e\<rparr>) = P t" for t e by (simp add: P_def calls_def)
  have PR: "P t \<Longrightarrow> R t" for t by (simp add: P_def R_def)
  have P_others: "P t \<Longrightarrow> P (othersS env t)" for t
    using others [of "sd_db t" "sd_env t"]
    by (auto simp: P_def othersS_def calls_def split: prod.splits)
  have stop: "holds P m (\<lambda>_. R)" if "spends m 0" for m :: "('s, 'x) run"
    using that unfolding holds_def spends_def P_def R_def by fastforce
  have raise: "holds P (raiseS e) (\<lambda>_. R)" for e by (rule holds_weaken [OF holds_raise]) (auto dest: PR)
  have route': "holds P (tryenvS (en_route env)) (\<lambda>x t. P t \<and> x = Inr route)"
    using route P_env by (auto simp: holds_def tryenvS_def split: prod.splits) (metis fst_conv)
  have attempts: "holds P (run_attempts env (cm_plan claim) deadline rk key tok k (m + 1)) (\<lambda>_. R)" if "?n \<le> m" for key tok k m
  proof -
    have "spends (run_attempts env (cm_plan claim) deadline rk key tok k (m + 1)) (?max - ?n)"
      by (rule spends_mono [OF spends_attempts]) (use that in simp)
    then show ?thesis unfolding holds_def spends_def P_def R_def by fastforce
  qed
  have query: "holds P (queryS env (attempt_count i)) (\<lambda>_. P)"
    unfolding queryS_def by (rule holds_store) (auto simp: P_others attempt_count_def split: option.splits)
  have query2: "holds P (queryS env (route_attempt_count i rk)) (\<lambda>r t. P t \<and> (case r of Inl _ \<Rightarrow> True | Inr m \<Rightarrow> ?n \<le> m))"
    unfolding queryS_def
    by (rule holds_store, erule P_others) (auto simp: P_def calls_def route_attempt_count_def checked_def split: if_splits)
  have reuse: "holds P (guarded env (cm_plan claim) (bindS (envS (en_wall env)) (\<lambda>now.
      storeS env (reuse_cached_evidence H i key tok now)))) (\<lambda>_. P)" for H key tok
    unfolding guarded_def
  proof (rule holds_bind [OF holds_env(1)], rule P_env)
    fix a :: unit
    have body: "holds P (bindS (envS (en_wall env)) (\<lambda>now. storeS env (reuse_cached_evidence H i key tok now))) (\<lambda>_. P)"
    proof (rule holds_bind [OF holds_env(2)], rule P_env)
      show "holds P (storeS env (reuse_cached_evidence H i key tok now)) (\<lambda>_. P)" for now
        by (rule holds_store, erule P_others) (auto simp: P_def calls_def route_attempts_def dest: reuse_keeps_attempts)
    qed (rule holds_raise)
    show "holds P (catchS (bindS (envS (en_wall env)) (\<lambda>now. storeS env (reuse_cached_evidence H i key tok now)))
        (\<lambda>r. bindS (tryenvS (en_exit env (cm_plan claim))) (\<lambda>_ s. Some (r, s)))) (\<lambda>_. P)"
      by (rule holds_catch [OF body], rule holds_bind [OF holds_env(1)], rule P_env)
        (auto simp: holds_def raiseS_def)
  qed (rule holds_raise)
  have exhausted: "holds P (bindS (envS (en_wall env)) (\<lambda>now.
      bindS (storeS env (fail_exhausted_claim (en_sha256 env) i tok now)) (\<lambda>_.
      bindS (emitS e (cm_plan claim)) (\<lambda>_. returnS PartState.FAILED)))) (\<lambda>_. R)" for tok e
    by (rule stop) (intro no_calls)
  have processed: "holds P (bindS (emitS e (cm_plan claim)) (\<lambda>_. returnS PROCESSED)) (\<lambda>_. R)" for e
    by (rule stop) (intro no_calls)
  have counted: "holds P (bindS (queryS env (attempt_count i)) (\<lambda>n. bindS (queryS env (route_attempt_count i rk)) (\<lambda>m.
        if m + 1 > ?max
        then bindS (envS (en_wall env)) (\<lambda>now.
             bindS (storeS env (fail_exhausted_claim (en_sha256 env) i (cm_claim_token claim) now)) (\<lambda>_.
             bindS (emitS ''part_failed'' (cm_plan claim)) (\<lambda>_. returnS PartState.FAILED)))
        else run_attempts env (cm_plan claim) deadline rk key (cm_claim_token claim) (n + 1) (m + 1)))) (\<lambda>_. R)" for key
    apply (rule holds_bind [OF query], rule raise)
    apply (rule holds_bind [OF query2])
     apply (rule holds_weaken [OF raise]; simp)
    subgoal for n m
      apply (cases "?n \<le> m")
       apply (rule holds_weaken [where P = P and Q = "\<lambda>_. R"])
         apply (rule holds_if [OF exhausted attempts]; simp)
        apply simp_all
      apply (simp add: holds_def)
      done
    done
  have "holds P (run_part env claim deadline) (\<lambda>_. R)"
    unfolding run_part_def Let_def i [symmetric]
    apply (rule holds_bind [OF holds_env(2) raise], rule P_env)
    apply (rule holds_if [OF stop], rule spends_pause)
    apply (rule holds_catch [OF route'])
    subgoal for pause x
      apply (cases "x = Inr route")
       apply (simp only: sum.case rk [symmetric] simp_thms)
       apply (rule holds_bind [OF reuse raise])
       apply (rule holds_if [OF processed counted])
      apply (simp add: holds_def)
      done
    done
  with run show ?thesis unfolding holds_def P_def R_def by blast
qed

end
