(* ===== verification/Evidence_Progress.thy ===== *)
theory Evidence_Progress
  imports Evidence_Run
begin

text \<open>
  Progress of the scheduler: under the laws of the clock every wait ends and every run returns; a
  frontier that reports completion has processed all it claimed, so the number of pending parts falls
  until \<open>run_to_completion\<close> returns.
\<close>

section \<open>The clock\<close>

text \<open>
  \<open>time.monotonic\<close> never goes back, whatever is asked of the environment in between, and
  \<open>time.sleep(d)\<close> takes at least \<open>d\<close> seconds.
\<close>

definition reading :: "('s, 'r) environment \<Rightarrow> 's \<Rightarrow> rat" where
  "reading env e = fst (en_monotonic env e)"

definition clock_laws :: "('s, 'r) environment \<Rightarrow> bool" where
  "clock_laws env \<longleftrightarrow>
     (\<forall>e. reading env e \<le> reading env (snd (en_monotonic env e))) \<and>
     (\<forall>e. reading env e \<le> reading env (snd (en_stop env e))) \<and>
     (\<forall>e d. reading env e + d \<le> reading env (en_sleep env d e))"

lemma must_pause_cases:
  assumes "clock_laws env" and "must_pause env deadline e = (p, e')"
  shows "reading env e \<le> reading env e' \<and> (p \<or> reading env e < deadline)"
proof -
  obtain stop e1 where e1: "en_stop env e = (stop, e1)" by fastforce
  obtain now e2 where e2: "en_monotonic env e1 = (now, e2)" by fastforce
  have "reading env e \<le> reading env e1" "reading env e1 \<le> reading env e2" "now = reading env e1"
    using assms(1) e1 e2 unfolding clock_laws_def by (metis snd_conv, metis snd_conv, simp add: reading_def)
  then show ?thesis using assms(2) e1 e2 by (auto simp: must_pause_def split: if_splits)
qed

lemma wait_loop_ends:
  assumes laws: "clock_laws env"
  shows "target - reading env e < of_nat n / 4 \<Longrightarrow> wait_loop env target deadline e \<noteq> None"
proof (induction n arbitrary: e)
  case 0
  then show ?case
    by (subst wait_loop.simps) (auto simp: reading_def split: prod.splits)
next
  case (Suc n)
  obtain now e1 where e1: "en_monotonic env e = (now, e1)" by fastforce
  obtain p e2 where e2: "must_pause env deadline e1 = (p, e2)" by fastforce
  obtain now1 e3 where e3: "en_monotonic env e2 = (now1, e3)" by fastforce
  obtain now2 e4 where e4: "en_monotonic env e3 = (now2, e4)" by fastforce
  let ?pause = "min (1 / 4) (min (target - now1) (deadline - now2))"
  have mono: "reading env e \<le> reading env e1" "reading env e2 \<le> reading env e3" "reading env e3 \<le> reading env e4"
    using laws e1 e3 e4 unfolding clock_laws_def by (metis snd_conv)+
  have e12: "reading env e1 \<le> reading env e2" using must_pause_cases [OF laws e2] by simp
  have now1: "now1 = reading env e2" and now2: "now2 = reading env e3" by (simp_all add: reading_def e3 e4)
  have slept: "reading env e4 + ?pause \<le> reading env (en_sleep env ?pause e4)"
    using laws unfolding clock_laws_def by blast
  have "wait_loop env target deadline (en_sleep env ?pause e4) \<noteq> None"
    if "\<not> p" "0 < deadline - now2" "0 \<le> ?pause" "now < target"
  proof -
    let ?e = "en_sleep env ?pause e4"
    consider (quarter) "?pause = 1 / 4" | (target) "?pause = target - now1" | (deadline) "?pause = deadline - now2"
      by (metis min_def)
    then show ?thesis
    proof cases
      case quarter
      have "target - reading env ?e < of_nat n / 4"
      proof -
        have "of_nat (Suc n) / (4 :: rat) = of_nat n / 4 + 1 / 4" by (simp add: field_simps)
        then show ?thesis using Suc.prems slept quarter mono e12 by linarith
      qed
      then show ?thesis by (rule Suc.IH)
    next
      case target
      then have "target \<le> reading env ?e" using slept mono now1 by linarith
      then show ?thesis by (subst wait_loop.simps) (auto simp: reading_def split: prod.splits)
    next
      case deadline
      then have late: "deadline \<le> reading env ?e" using slept mono now2 by linarith
      obtain t f1 where f1: "en_monotonic env ?e = (t, f1)" by fastforce
      obtain q f2 where f2: "must_pause env deadline f1 = (q, f2)" by fastforce
      have "reading env ?e \<le> reading env f1" using laws f1 unfolding clock_laws_def by (metis snd_conv)
      with must_pause_cases [OF laws f2] late have "q" by auto
      then show ?thesis using f1 f2 by (subst wait_loop.simps) simp
    qed
  qed
  then show ?case
    by (subst wait_loop.simps) (auto simp: e1 e2 e3 e4 Let_def)
qed

lemma wait_for_retry_returns:
  assumes "clock_laws env"
  shows "wait_for_retry env delay deadline e \<noteq> None"
proof -
  obtain now e1 where e1: "en_monotonic env e = (now, e1)" by fastforce
  obtain n where "4 * (now + delay - reading env e1) < of_nat n" using reals_Archimedean2 by blast
  then have "now + delay - reading env e1 < of_nat n / 4" by simp
  from wait_loop_ends [OF assms this] show ?thesis by (simp add: wait_for_retry_def e1)
qed

section \<open>Runs that return\<close>

definition returns :: "('s, 'a) run \<Rightarrow> bool" where
  "returns m \<longleftrightarrow> (\<forall>s. m s \<noteq> None)"

named_theorems returning \<open>runs that always return\<close>

lemma returns_catch [returning]: "returns m \<Longrightarrow> (\<And>r. returns (k r)) \<Longrightarrow> returns (catchS m k)"
  by (auto simp: returns_def catchS_def split: option.splits)

lemma returns_basic [returning]:
  "returns (returnS x)" "returns (raiseS e)" "returns (tryenvS f)" "returns (envS g)" "returns (logS l)"
  "returns (storeS env h)" "returns (queryS env q)" "returns (\<lambda>s. Some (c s))"
  by (auto simp: returns_def run_defs storeS_def queryS_def Let_def split: prod.splits sum.splits)

lemma returns_bind [returning]: "returns m \<Longrightarrow> (\<And>x. returns (k x)) \<Longrightarrow> returns (bindS m k)"
  unfolding bindS_def by (intro returning) (auto split: sum.split intro: returning)

lemma returns_if [returning]: "returns m \<Longrightarrow> returns m' \<Longrightarrow> returns (if c then m else m')"
  by simp

lemma returns_parts [returning]:
  "returns (emitS e p)" "returns (pause_part env p tok)" "returns (paused env p tok)"
  "returns (recorded env p tok a)" "returns (record_failed env p tok n rt c t1 t2)"
  "returns (record_recoverable env p tok n rt c t1 t2)" "returns (unavailable_route env p tok c)"
  "returns (resumed env p tok n)"
  by (simp_all add: emitS_def pause_part_def paused_def recorded_def record_failed_def record_recoverable_def
      unavailable_route_def resumed_def returning)

lemma returns_guarded [returning]: "returns body \<Longrightarrow> returns (guarded env p body)"
  unfolding guarded_def by (intro returning) simp

lemma returns_analyze [returning]: "returns (analyze_part env p d key tok)"
  unfolding analyze_part_def request_part_def Let_def
  by (intro returning) (auto split: sum.split intro: returning)

lemma returns_wait: "clock_laws env \<Longrightarrow> returns (waitS env delay deadline)"
  using wait_for_retry_returns by (auto simp: returns_def waitS_def)

lemma returns_after_attempt:
  assumes "clock_laws env" and "\<And>token'. returns (again token')"
  shows "returns (after_attempt env part deadline route token attempt n started again r)"
  unfolding after_attempt_def Let_def
  by (auto split: sum.split part_error.split intro!: returning returns_wait assms)

lemma returns_attempts:
  assumes laws: "clock_laws env"
  shows "returns (run_attempts env part deadline route key token attempt n)"
proof (induction "po_max_attempts_per_route (en_policy env) + 1 - n" arbitrary: token attempt n rule: less_induct)
  case less
  show ?case
  proof (cases "n > po_max_attempts_per_route (en_policy env)")
    case False
    then have "returns (run_attempts env part deadline route key token' (attempt + 1) (n + 1))" for token'
      using less by simp
    then show ?thesis
      by (subst run_attempts.simps) (intro returning returns_after_attempt laws)
  qed (subst run_attempts.simps, simp add: returning)
qed

lemma returns_run_part [returning]:
  fixes env :: "('a, 'b) environment"
  assumes laws: "clock_laws env"
  shows "returns (run_part_guarded env claim deadline)"
proof -
  have "returns (run_part env claim deadline)"
    unfolding run_part_def Let_def
    by (auto split: sum.split part_error.split intro!: returning returns_attempts [OF laws])
  moreover have "returns (\<lambda>t. bindS (pause_part env (cm_plan claim) (sd_token t))
      (\<lambda>_. returnS (pl_part_id (cm_plan claim), RETRY_WAIT)) t)"
    unfolding returns_def
  proof
    fix t :: "'a sched"
    have "returns (bindS (pause_part env (cm_plan claim) (sd_token t))
      (\<lambda>_. returnS (pl_part_id (cm_plan claim), RETRY_WAIT)))" by (intro returning)
    then show "bindS (pause_part env (cm_plan claim) (sd_token t))
      (\<lambda>_. returnS (pl_part_id (cm_plan claim), RETRY_WAIT)) t \<noteq> None" unfolding returns_def by blast
  qed
  ultimately have "returns (catchS (run_part env claim deadline) (\<lambda>r. case r of
         Inr state \<Rightarrow> returnS (pl_part_id (cm_plan claim), state)
       | Inl _ \<Rightarrow> (\<lambda>t. bindS (pause_part env (cm_plan claim) (sd_token t))
           (\<lambda>_. returnS (pl_part_id (cm_plan claim), RETRY_WAIT)) t)))"
    by (intro returns_catch) (auto split: sum.split simp: returns_basic)
  then show ?thesis by (simp add: returns_def run_part_guarded_def)
qed

lemma returns_claims: "clock_laws env \<Longrightarrow> returns (run_claims env deadline claims)"
  by (induction claims) (auto intro!: returning)

lemma returns_log_events [returning]: "returns (log_events xs)"
  by (induction xs) (auto intro!: returning)

lemma returns_frontier: "clock_laws env \<Longrightarrow> returns (run_frontier_until env w v deadline)"
  unfolding run_frontier_until_def frontier_outcome_def count_states_def Let_def
  by (intro returning returns_claims)


section \<open>What a run of one part touches\<close>

text \<open>no other thread changes the database\<close>

definition alone :: "('s, 'r) environment \<Rightarrow> bool" where
  "alone env \<longleftrightarrow> (\<forall>e db. en_others env e db = (db, e))"

definition touches :: "string set \<Rightarrow> PartRow list \<Rightarrow> PartRow list \<Rightarrow> bool" where
  "touches ids ps ps' \<longleftrightarrow> (\<exists>g. ps' = map g ps \<and>
     (\<forall>r. ep_part_id (g r) = ep_part_id r \<and> ep_plan (g r) = ep_plan r \<and> (ep_part_id r \<notin> ids \<longrightarrow> g r = r)))"

definition settled :: "string \<Rightarrow> PartRow list \<Rightarrow> bool" where
  "settled i ps \<longleftrightarrow> (\<forall>r \<in> set ps. ep_part_id r = i \<longrightarrow> ep_state r = PROCESSED)"

lemma touches_refl: "touches ids ps ps"
  unfolding touches_def by (rule exI [of _ id]) simp

lemma touches_trans:
  assumes "touches a ps qs" and "touches b qs rs"
  shows "touches (a \<union> b) ps rs"
proof -
  from assms obtain g h where g: "qs = map g ps" "\<forall>r. ep_part_id (g r) = ep_part_id r \<and> ep_plan (g r) = ep_plan r \<and> (ep_part_id r \<notin> a \<longrightarrow> g r = r)"
    and h: "rs = map h qs" "\<forall>r. ep_part_id (h r) = ep_part_id r \<and> ep_plan (h r) = ep_plan r \<and> (ep_part_id r \<notin> b \<longrightarrow> h r = r)"
    unfolding touches_def by blast
  then show ?thesis
    unfolding touches_def by (intro exI [of _ "h \<circ> g"]) (auto)
qed

lemma touches_ids: "touches ids ps ps' \<Longrightarrow> map ep_part_id ps' = map ep_part_id ps"
  by (auto simp: touches_def comp_def)

lemma touches_plans:
  "touches ids ps ps' \<Longrightarrow> \<forall>r \<in> set ps. pl_part_id (ep_plan r) = ep_part_id r \<Longrightarrow>
   \<forall>r \<in> set ps'. pl_part_id (ep_plan r) = ep_part_id r"
  by (auto simp: touches_def)

lemma settled_touches:
  assumes "settled i ps" and "touches ids ps ps'" and "i \<notin> ids"
  shows "settled i ps'"
  using assms by (auto simp: settled_def touches_def)

lemma touches_update_part:
  assumes "\<And>r. ep_part_id (f r) = ep_part_id r \<and> ep_plan (f r) = ep_plan r"
  shows "touches {i} (ev_parts db) (ev_parts (update_part i f db))"
  unfolding touches_def
  by (intro exI [of _ "\<lambda>r. if ep_part_id r = i then f r else r"])
    (use assms in \<open>auto simp: update_part_def update_where_def\<close>)

lemma touches_processed: "touches {i} (ev_parts db) (ev_parts (processed_part i t db))"
  unfolding processed_part_def by (rule touches_update_part) simp

lemma settled_map:
  assumes "\<And>r. ep_state (f r) = PROCESSED"
  shows "settled i (map (\<lambda>r. if ep_part_id r = i then f r else r) ps)"
proof -
  define g where "g r = (if ep_part_id r = i then f r else r)" for r
  have "ep_part_id r = i \<Longrightarrow> r \<in> g ` A \<Longrightarrow> ep_state r = PROCESSED" for r A
    by (auto simp: g_def assms split: if_splits)
  then show ?thesis unfolding settled_def g_def [symmetric] set_map by blast
qed

lemma settled_processed: "settled i (ev_parts (processed_part i t db))"
  by (simp add: processed_part_def update_part_def update_where_def settled_map)

named_theorems touching \<open>store calls that touch one part\<close>

lemma touches_run_row:
  "touches {i} (ev_parts db) (ev_parts (update_part i (\<lambda>r. (run_row now r)\<lparr>ep_attempt_count := c r\<rparr>) db))"
  by (rule touches_update_part) (simp add: run_row_def)

lemma record_touches [touching]:
  assumes "record_attempt H i a tok db = Inr (x, db')"
  shows "touches {i} (ev_parts db) (ev_parts db')"
proof -
  have "touches {i} (ev_parts db) (ev_parts (update_part i f (db\<lparr>ev_attempts := q\<rparr>)))"
    if "\<And>r. ep_part_id (f r) = ep_part_id r \<and> ep_plan (f r) = ep_plan r" for f q
    using touches_update_part [OF that, where db = "db\<lparr>ev_attempts := q\<rparr>"] by simp
  with assms show ?thesis
    by (auto simp: record_attempt_def Let_def bind_res_Inr_iff split: option.splits if_splits)
qed

lemma resume_touches [touching]:
  assumes "resume_claim H i tok n now db = Inr (x, db')"
  shows "touches {i} (ev_parts db) (ev_parts db')"
  using assms touches_run_row [where c = "\<lambda>r. max (ep_attempt_count r) (nat n)"]
  by (auto simp: resume_claim_def Let_def split: option.splits if_splits)

lemma fail_touches [touching]:
  assumes "fail_exhausted_claim H i tok t db = Inr (x, db')"
  shows "touches {i} (ev_parts db) (ev_parts db')"
  using assms by (auto simp: fail_exhausted_claim_def Let_def bind_res_Inr_iff intro!: touches_update_part)

lemma pause_touches [touching]:
  assumes "pause_claim H i tok t db = Inr db'"
  shows "touches {i} (ev_parts db) (ev_parts db')"
  using assms by (auto simp: pause_claim_def intro!: touches_update_part split: option.splits if_splits)

lemma reuse_touches [touching]:
  assumes "reuse_cached_evidence H i key tok t db = Inr (x, db')"
  shows "touches {i} (ev_parts db) (ev_parts db') \<and> (x \<noteq> None \<longrightarrow> settled i (ev_parts db'))"
  using assms
  by (cases rule: reuse_cases)
    (use touches_processed [of i "db\<lparr>ev_units := u\<rparr>" for u] in \<open>auto simp: touches_refl settled_processed\<close>)

lemma publish_touches [touching]:
  assumes res: "publish_evidence H i u key tok t db = Inr (x, db')" and d: "distinct (map ep_part_id (ev_parts db))"
  shows "touches {i} (ev_parts db) (ev_parts db') \<and> settled i (ev_parts db')"
  using res
proof (cases rule: publish_cases)
  case (repeated r)
  have "settled i (ev_parts db)"
    unfolding settled_def
  proof (intro ballI impI)
    fix r'
    assume "r' \<in> set (ev_parts db)" "ep_part_id r' = i"
    then have "part_row db i = Some r'" using row_of_in_distinct [OF d] by (auto simp: part_row_def)
    with repeated show "ep_state r' = PROCESSED" by simp
  qed
  with repeated show ?thesis by (simp add: touches_refl)
next
  case (fresh r)
  then show ?thesis
    using touches_processed [of i "db\<lparr>ev_units := us, ev_cache := cs\<rparr>" for us cs] by (auto simp: settled_processed)
qed

definition framed :: "string \<Rightarrow> PartRow list \<Rightarrow> 's sched \<Rightarrow> bool" where
  "framed i ps s \<longleftrightarrow> distinct (map ep_part_id ps) \<and> touches {i} ps (ev_parts (sd_db s))"

definition finished :: "string \<Rightarrow> PartRow list \<Rightarrow> part_error + PartState \<Rightarrow> 's sched \<Rightarrow> bool" where
  "finished i ps r s \<longleftrightarrow> framed i ps s \<and>
     (case r of Inl _ \<Rightarrow> True
      | Inr st \<Rightarrow> st \<in> {PROCESSED, PartState.FAILED, RETRY_WAIT} \<and>
                 (st = PROCESSED \<longrightarrow> settled i (ev_parts (sd_db s))))"

lemma framed_env [simp]:
  "framed i ps (s\<lparr>sd_env := e\<rparr>) = framed i ps s" "framed i ps (s\<lparr>sd_token := tok\<rparr>) = framed i ps s"
  "framed i ps (s\<lparr>sd_log := l\<rparr>) = framed i ps s"
  "finished i ps r (s\<lparr>sd_env := e\<rparr>) = finished i ps r s"
  "finished i ps r (s\<lparr>sd_log := l\<rparr>) = finished i ps r s"
  by (simp_all add: framed_def finished_def split: sum.split)

lemma framed_Inl: "finished i ps (Inl e) s = framed i ps s"
  by (simp add: finished_def)

lemma framed_step:
  "framed i ps s \<Longrightarrow> touches {i} (ev_parts (sd_db s)) (ev_parts db) \<Longrightarrow> framed i ps (s\<lparr>sd_db := db\<rparr>)"
  using touches_trans [of "{i}" ps _ "{i}"] by (auto simp: framed_def)

lemma framed_distinct: "framed i ps s \<Longrightarrow> distinct (map ep_part_id (ev_parts (sd_db s)))"
  by (metis framed_def touches_ids)

lemma alone_others [simp]: "alone env \<Longrightarrow> othersS env s = s"
  by (simp add: alone_def othersS_def)

named_theorems framing \<open>runs that touch one part only\<close>

lemma framing_basic [framing]:
  "holds (framed i ps) (tryenvS f) (\<lambda>_. framed i ps)" "holds (framed i ps) (envS g) (\<lambda>_. framed i ps)"
  "holds (framed i ps) (waitS env d t) (\<lambda>_. framed i ps)" "holds (framed i ps) (raiseS e) (\<lambda>_. framed i ps)"
  "holds (framed i ps) (returnS x) (\<lambda>_. framed i ps)" "holds (framed i ps) (emitS ev p) (\<lambda>_. framed i ps)"
  "holds (framed i ps) (logS l) (\<lambda>_. framed i ps)"
  by (auto intro!: holds_env) (auto simp: holds_def raiseS_def returnS_def emitS_def logS_def)

lemma framing_raise: "holds (framed i ps) (raiseS e) (finished i ps)"
  by (simp add: holds_def raiseS_def finished_def)

lemma framing_bind:
  assumes "holds (framed i ps) m (\<lambda>_. framed i ps)" and "\<And>x. holds (framed i ps) (k x) (finished i ps)"
  shows "holds (framed i ps) (bindS m k) (finished i ps)"
  by (rule holds_bind [OF assms(1) framing_raise assms(2)])

lemma framing_bind' [framing]:
  assumes "holds (framed i ps) m (\<lambda>_. framed i ps)" and "\<And>x. holds (framed i ps) (k x) (\<lambda>_. framed i ps)"
  shows "holds (framed i ps) (bindS m k) (\<lambda>_. framed i ps)"
  by (rule holds_bind [OF assms(1) framing_basic(4) assms(2)])

lemma framing_return: "st \<in> {PartState.FAILED, RETRY_WAIT} \<Longrightarrow> holds (framed i ps) (returnS st) (finished i ps)"
  by (auto simp: holds_def returnS_def finished_def)

lemma map_sum_id_Inr: "map_sum id g r = Inr y \<longleftrightarrow> (\<exists>x. r = Inr x \<and> y = g x)"
  by (cases r) auto

lemma framing_store:
  assumes "alone env"
    and "\<And>d a db. distinct (map ep_part_id (ev_parts d)) \<Longrightarrow> f d = Inr (a, db) \<Longrightarrow> touches {i} (ev_parts d) (ev_parts db)"
  shows "holds (framed i ps) (storeS env f) (\<lambda>_. framed i ps)"
  by (rule holds_store) (use assms(1) in \<open>auto intro!: framed_step assms(2) dest: framed_distinct\<close>)

lemma framing_query [framing]: "alone env \<Longrightarrow> holds (framed i ps) (queryS env q) (\<lambda>_. framed i ps)"
  unfolding queryS_def by (rule framing_store) (auto simp: touches_refl map_sum_id_Inr)

lemma framing_ops [framing]:
  assumes "alone env" and "i = pl_part_id p"
  shows "holds (framed i ps) (recorded env p tok a) (\<lambda>_. framed i ps)"
    and "holds (framed i ps) (storeS env (fail_exhausted_claim H i tok t)) (\<lambda>_. framed i ps)"
    and "holds (framed i ps) (storeS env (no_value (pause_claim H i tok t))) (\<lambda>_. framed i ps)"
    and "holds (framed i ps) (storeS env (resume_claim H i tok n t)) (\<lambda>_. framed i ps)"
  using assms(2)
  by (auto simp: recorded_def no_value_def map_sum_id_Inr intro!: framing_store [OF assms(1)] intro: touching)

lemma framing_pause:
  assumes "alone env" and "i = pl_part_id p"
  shows "holds (framed i ps) (pause_part env p tok) (\<lambda>_. framed i ps)"
    and "holds (framed i ps) (paused env p tok) (finished i ps)"
proof -
  show pause: "holds (framed i ps) (pause_part env p tok) (\<lambda>_. framed i ps)"
    unfolding pause_part_def assms(2) [symmetric]
    by (intro framing_bind' framing_basic holds_catch [OF framing_ops(3) [OF assms]])
  show "holds (framed i ps) (paused env p tok) (finished i ps)"
    unfolding paused_def by (intro framing_bind pause framing_return) simp
qed

lemma framing_records:
  assumes "alone env" and "i = pl_part_id p"
  shows "holds (framed i ps) (record_failed env p tok n rt c t1 t2) (finished i ps)"
    and "holds (framed i ps) (record_recoverable env p tok n rt c t1 t2) (finished i ps)"
    and "holds (framed i ps) (unavailable_route env p tok c) (finished i ps)"
proof -
  show "holds (framed i ps) (record_failed env p tok n rt c t1 t2) (finished i ps)"
    unfolding record_failed_def by (intro framing_bind framing_ops(1) [OF assms] framing_basic framing_return) simp
  show rec: "holds (framed i ps) (record_recoverable env p tok n rt c t1 t2) (finished i ps)" for n rt t1 t2
    unfolding record_recoverable_def by (intro framing_bind framing_ops(1) [OF assms] framing_basic framing_return) simp
  show "holds (framed i ps) (unavailable_route env p tok c) (finished i ps)"
    unfolding unavailable_route_def
    by (rule framing_bind [OF framing_query [OF assms(1)]], rule framing_bind [OF framing_basic(2)], rule rec)
qed

lemma framing_resumed:
  assumes "alone env" and "i = pl_part_id p"
  shows "holds (framed i ps) (resumed env p tok n) (\<lambda>_. framed i ps)"
proof -
  have tok: "holds (framed i ps) (\<lambda>s. Some (Inr c, s\<lparr>sd_token := c\<rparr>)) (\<lambda>_. framed i ps)" for c :: string
    by (simp add: holds_def)
  show ?thesis
    unfolding resumed_def assms(2) [symmetric] 
    by (rule framing_bind' [OF framing_basic(2)], rule framing_bind' [OF framing_ops(4) [OF assms] tok])
qed

lemma framing_guarded:
  assumes "holds (framed i ps) body Q" and "\<And>r s e. Q r (s\<lparr>sd_env := e\<rparr>) = Q r s"
    and "\<And>r s e. Q r s \<Longrightarrow> Q (Inl e) s" and "\<And>s e. framed i ps s \<Longrightarrow> Q (Inl e) s"
  shows "holds (framed i ps) (guarded env p body) Q"
  unfolding guarded_def
proof (rule holds_bind [OF framing_basic(1)])
  show "holds (framed i ps) (raiseS e) Q" for e using assms(4) by (simp add: holds_def raiseS_def)
  have "holds (Q r) (bindS (tryenvS (en_exit env p)) (\<lambda>_ s. Some (r, s))) Q" for r
    by (rule holds_bind [OF holds_env(1)], rule assms(2)) (use assms(3) in \<open>auto simp: holds_def raiseS_def\<close>)
  then show "holds (framed i ps) (catchS body (\<lambda>r. bindS (tryenvS (en_exit env p)) (\<lambda>_ s. Some (r, s)))) Q"
    by (rule holds_catch [OF assms(1)])
qed

lemma finished_fail: "finished i ps r s \<Longrightarrow> finished i ps (Inl e) s"
  by (simp add: finished_def)

lemma framing_publish:
  assumes "alone env"
  shows "holds (framed i ps) (catchS (storeS env (publish_evidence H i u key tok t))
     (\<lambda>r. case r of Inl _ \<Rightarrow> raiseS EvidencePublicationError | Inr _ \<Rightarrow> returnS PROCESSED)) (finished i ps)"
proof (rule holds_catch [where Q = "\<lambda>r s. framed i ps s \<and> (\<forall>x. r = Inr x \<longrightarrow> settled i (ev_parts (sd_db s)))"])
  show "holds (framed i ps) (storeS env (publish_evidence H i u key tok t))
      (\<lambda>r s. framed i ps s \<and> (\<forall>x. r = Inr x \<longrightarrow> settled i (ev_parts (sd_db s))))"
    by (rule holds_store) (use assms in \<open>auto dest!: publish_touches intro: framed_step framed_distinct\<close>)
qed (auto simp: holds_def raiseS_def returnS_def finished_def split: sum.splits)

lemma framing_analyze:
  assumes "alone env" and "i = pl_part_id p"
  shows "holds (framed i ps) (analyze_part env p d key tok) (finished i ps)"
proof -
  have request: "holds (framed i ps) (request_part env p d) (\<lambda>_. framed i ps)"
    unfolding request_part_def Let_def
    by (intro framing_bind' framing_basic) (auto split: sum.split intro: framing_basic)
  show ?thesis
    unfolding analyze_part_def assms(2) [symmetric]
    by (intro framing_bind request framing_basic holds_if framing_pause framing_publish assms)
qed

lemma framing_after_attempt:
  assumes env: "alone env" and i: "i = pl_part_id p"
    and again: "\<And>token'. holds (framed i ps) (again token') (finished i ps)"
  shows "holds (finished i ps r) (after_attempt env p d route token attempt n started again r) (finished i ps)"
proof (cases r)
  case (Inl e)
  have pre: "finished i ps (Inl e) = framed i ps" by (simp add: fun_eq_iff framed_Inl)
  have wait: "holds (framed i ps) (bindS (waitS env delay d) (\<lambda>ready. if \<not> ready then returnS RETRY_WAIT
      else bindS (resumed env p token (attempt + 1)) again)) (finished i ps)" for delay
    by (rule framing_bind [OF framing_basic(3)], rule holds_if, rule framing_return, simp,
        rule framing_bind [OF framing_resumed [OF env i] again])
  have provider: "holds (framed i ps) (if c
      then bindS (recorded env p token a) (\<lambda>_. bindS (emitS ev p) (\<lambda>_. bindS (waitS env delay d) (\<lambda>ready.
        if \<not> ready then returnS RETRY_WAIT else bindS (resumed env p token (attempt + 1)) again)))
      else if c' then record_failed env p token attempt route code started done_at
      else record_recoverable env p token attempt route code started done_at) (finished i ps)"
    for c c' a ev delay code done_at
    by (rule holds_if, rule framing_bind [OF framing_ops(1) [OF env i]], rule framing_bind [OF framing_basic(6) wait],
        rule holds_if, rule framing_records(1) [OF env i], rule framing_records(2) [OF env i])
  show ?thesis
    unfolding Inl pre after_attempt_def
    by (cases e)
      (simp_all only: sum.case part_error.case Let_def framing_raise
        framing_bind [OF framing_basic(2) provider] framing_bind [OF framing_basic(2) framing_records(1) [OF env i]])
next
  case (Inr st)
  then show ?thesis
    by (auto simp: after_attempt_def holds_def bindS_def catchS_def emitS_def logS_def returnS_def)
qed

lemma framing_attempts:
  assumes env: "alone env" and i: "i = pl_part_id p"
  shows "holds (framed i ps) (run_attempts env p d route key token attempt n) (finished i ps)"
proof (induction "po_max_attempts_per_route (en_policy env) + 1 - n" arbitrary: token attempt n rule: less_induct)
  case less
  show ?case
  proof (cases "n > po_max_attempts_per_route (en_policy env)")
    case True
    then show ?thesis by (subst run_attempts.simps) (simp add: framing_return)
  next
    case False
    then have again: "holds (framed i ps) (run_attempts env p d route key token' (attempt + 1) (n + 1)) (finished i ps)" for token'
      using less by simp
    have body: "holds (framed i ps) (guarded env p (analyze_part env p d key token)) (finished i ps)"
      by (rule framing_guarded [OF framing_analyze [OF env i]]) (simp, erule finished_fail, simp add: framed_Inl)
    show ?thesis
      using False
      by (subst run_attempts.simps, simp only: if_False)
        (intro framing_bind framing_basic holds_if framing_pause env i holds_catch [OF body] framing_after_attempt again)
  qed
qed

lemma framing_run_part:
  assumes env: "alone env" and i: "i = pl_part_id (cm_plan claim)"
  shows "holds (framed i ps) (run_part env claim d) (finished i ps)"
proof -
  let ?p = "cm_plan claim" and ?tok = "cm_claim_token claim" and ?H = "en_sha256 env"
  let ?Q = "\<lambda>r s. framed i ps s \<and> (\<forall>u. r = Inr (Some u) \<longrightarrow> settled i (ev_parts (sd_db s)))"
  have reuse: "holds (framed i ps) (guarded env ?p (bindS (envS (en_wall env)) (\<lambda>now.
      storeS env (reuse_cached_evidence ?H i key ?tok now)))) ?Q" for key
  proof (rule framing_guarded)
    have "holds (framed i ps) (storeS env (reuse_cached_evidence ?H i key ?tok now)) ?Q" for now
      by (rule holds_store) (use env in \<open>auto dest!: reuse_touches intro: framed_step\<close>)
    then show "holds (framed i ps) (bindS (envS (en_wall env)) (\<lambda>now.
        storeS env (reuse_cached_evidence ?H i key ?tok now))) ?Q"
      by (intro holds_bind [OF framing_basic(2)]) (auto simp: holds_def raiseS_def)
  qed auto
  have miss: "holds (framed i ps) (bindS (queryS env (attempt_count i)) (\<lambda>n.
      bindS (queryS env (route_attempt_count i rk)) (\<lambda>m.
        if m + 1 > po_max_attempts_per_route (en_policy env)
        then bindS (envS (en_wall env)) (\<lambda>now.
             bindS (storeS env (fail_exhausted_claim ?H i ?tok now)) (\<lambda>_.
             bindS (emitS ''part_failed'' ?p) (\<lambda>_. returnS PartState.FAILED)))
        else run_attempts env ?p d rk key ?tok (n + 1) (m + 1)))) (finished i ps)" for rk key
    by (intro framing_bind framing_query holds_if framing_basic framing_ops(2) [OF env i] framing_return
        framing_attempts env i) simp
  have hit: "holds (\<lambda>s. framed i ps s \<and> settled i (ev_parts (sd_db s)))
      (bindS (emitS e ?p) (\<lambda>_. returnS PROCESSED)) (finished i ps)" for e
    by (auto simp: holds_def bindS_def catchS_def emitS_def logS_def returnS_def finished_def framed_def)
  have tail: "holds (framed i ps) (bindS (guarded env ?p (bindS (envS (en_wall env)) (\<lambda>now.
      storeS env (reuse_cached_evidence ?H i key ?tok now)))) (\<lambda>cached.
      if cached \<noteq> None then bindS (emitS ''part_processed'' ?p) (\<lambda>_. returnS PROCESSED)
      else bindS (queryS env (attempt_count i)) (\<lambda>n.
        bindS (queryS env (route_attempt_count i rk)) (\<lambda>m.
        if m + 1 > po_max_attempts_per_route (en_policy env)
        then bindS (envS (en_wall env)) (\<lambda>now.
             bindS (storeS env (fail_exhausted_claim ?H i ?tok now)) (\<lambda>_.
             bindS (emitS ''part_failed'' ?p) (\<lambda>_. returnS PartState.FAILED)))
        else run_attempts env ?p d rk key ?tok (n + 1) (m + 1))))) (finished i ps)" for rk key
  proof (rule holds_bind [OF reuse])
    show "holds (?Q (Inl e)) (raiseS e) (finished i ps)" for e by (simp add: holds_def raiseS_def finished_def)
    fix cached :: "EvidenceUnit option"
    show "holds (?Q (Inr cached)) (if cached \<noteq> None then bindS (emitS ''part_processed'' ?p) (\<lambda>_. returnS PROCESSED)
      else bindS (queryS env (attempt_count i)) (\<lambda>n.
        bindS (queryS env (route_attempt_count i rk)) (\<lambda>m.
        if m + 1 > po_max_attempts_per_route (en_policy env)
        then bindS (envS (en_wall env)) (\<lambda>now.
             bindS (storeS env (fail_exhausted_claim ?H i ?tok now)) (\<lambda>_.
             bindS (emitS ''part_failed'' ?p) (\<lambda>_. returnS PartState.FAILED)))
        else run_attempts env ?p d rk key ?tok (n + 1) (m + 1)))) (finished i ps)"
    proof (rule holds_if)
      show "holds (?Q (Inr cached)) (bindS (emitS ''part_processed'' ?p) (\<lambda>_. returnS PROCESSED)) (finished i ps)"
        if "cached \<noteq> None"
        by (rule holds_weaken [OF hit]) (use that in auto)
    qed (rule holds_weaken [OF miss], simp_all)
  qed
  show ?thesis
    unfolding run_part_def Let_def i [symmetric]
    by (intro framing_bind framing_basic holds_if framing_pause env i holds_catch [OF framing_basic(1)])
      (auto split: sum.split part_error.split intro: framing_records [OF env i] framing_raise tail [simplified])
qed

lemma holds_token:
  "holds P m Q \<Longrightarrow> (\<And>s. P (s\<lparr>sd_token := t\<rparr>) = P s) \<Longrightarrow> holds P (\<lambda>s. m (s\<lparr>sd_token := t\<rparr>)) Q"
  unfolding holds_def by blast

lemma framing_guarded_part:
  assumes env: "alone env" and i: "i = pl_part_id (cm_plan claim)"
  shows "holds (framed i ps) (run_part_guarded env claim d)
    (\<lambda>r s. \<exists>st. r = Inr (i, st) \<and> finished i ps (Inr st) s)"
proof -
  have after: "holds (finished i ps r) (case r of
         Inr state \<Rightarrow> returnS (i, state)
       | Inl _ \<Rightarrow> (\<lambda>t. bindS (pause_part env (cm_plan claim) (sd_token t)) (\<lambda>_. returnS (i, RETRY_WAIT)) t))
     (\<lambda>r s. \<exists>st. r = Inr (i, st) \<and> finished i ps (Inr st) s)" for r
  proof (cases r)
    case (Inl e)
    have "holds (framed i ps) (pause_part env (cm_plan claim) tok) (\<lambda>r s. framed i ps s \<and> r = Inr ())" for tok
      using framing_pause(1) [OF env i]
      by (auto simp: holds_def pause_part_def bindS_def catchS_def returnS_def raiseS_def envS_def tryenvS_def
          split: option.splits prod.splits sum.splits)
    then show ?thesis
      by (fastforce simp: Inl holds_def bindS_def catchS_def returnS_def raiseS_def finished_def
          split: option.splits prod.splits sum.splits)
  qed (auto simp: holds_def returnS_def)
  have "holds (framed i ps) (catchS (run_part env claim d) (\<lambda>r. case r of
         Inr state \<Rightarrow> returnS (i, state)
       | Inl _ \<Rightarrow> (\<lambda>t. bindS (pause_part env (cm_plan claim) (sd_token t)) (\<lambda>_. returnS (i, RETRY_WAIT)) t)))
     (\<lambda>r s. \<exists>st. r = Inr (i, st) \<and> finished i ps (Inr st) s)"
    by (rule holds_catch [OF framing_run_part [OF env i] after])
  then show ?thesis
    unfolding run_part_guarded_def i [symmetric] by (rule holds_token) simp
qed

section \<open>Completion\<close>

definition claimed_ids :: "EvidencePartClaim list \<Rightarrow> string list" where
  "claimed_ids claims = map (\<lambda>c. pl_part_id (cm_plan c)) claims"

lemma run_claims_result:
  assumes env: "alone env"
  shows "run_claims env d claims s = Some (r, s') \<Longrightarrow> distinct (map ep_part_id (ev_parts (sd_db s))) \<Longrightarrow>
    distinct (claimed_ids claims) \<Longrightarrow>
    \<exists>results. r = Inr results \<and> map fst results = claimed_ids claims \<and>
      snd ` set results \<subseteq> {PROCESSED, PartState.FAILED, RETRY_WAIT} \<and>
      touches (set (claimed_ids claims)) (ev_parts (sd_db s)) (ev_parts (sd_db s')) \<and>
      (\<forall>(i, st) \<in> set results. st = PROCESSED \<longrightarrow> settled i (ev_parts (sd_db s')))"
proof (induction claims arbitrary: s r s')
  case Nil
  then show ?case by (simp add: returnS_def claimed_ids_def touches_refl)
next
  case (Cons c cs)
  let ?i = "pl_part_id (cm_plan c)" and ?ps = "ev_parts (sd_db s)"
  obtain r1 t where t: "run_part_guarded env c d s = Some (r1, t)"
    using Cons.prems(1) by (auto simp: bindS_def catchS_def split: option.splits)
  have "framed ?i ?ps s" using Cons.prems(2) by (simp add: framed_def touches_refl)
  from holds_apply [OF framing_guarded_part [OF env refl] this t]
  obtain st where st: "r1 = Inr (?i, st)" "finished ?i ?ps (Inr st) t" by blast
  then have frame: "touches {?i} ?ps (ev_parts (sd_db t))" and st_range: "st \<in> {PROCESSED, PartState.FAILED, RETRY_WAIT}"
    and ended: "st = PROCESSED \<longrightarrow> settled ?i (ev_parts (sd_db t))"
    by (simp_all add: finished_def framed_def)
  obtain r2 t2 where t2: "run_claims env d cs t = Some (r2, t2)"
    using Cons.prems(1) t st by (auto simp: bindS_def catchS_def split: option.splits)
  have "distinct (map ep_part_id (ev_parts (sd_db t)))" "distinct (claimed_ids cs)" "?i \<notin> set (claimed_ids cs)"
    using touches_ids [OF frame] Cons.prems(2,3) by (simp_all add: claimed_ids_def)
  note known = this
  from Cons.IH [OF t2 known(1,2)] obtain rs where rs: "r2 = Inr rs" "map fst rs = claimed_ids cs"
    "snd ` set rs \<subseteq> {PROCESSED, PartState.FAILED, RETRY_WAIT}"
    "touches (set (claimed_ids cs)) (ev_parts (sd_db t)) (ev_parts (sd_db t2))"
    "\<forall>(i, st) \<in> set rs. st = PROCESSED \<longrightarrow> settled i (ev_parts (sd_db t2))" by blast
  have result: "r = Inr ((?i, st) # rs)" "s' = t2"
    using Cons.prems(1) t st(1) t2 rs(1) by (simp_all add: bindS_def catchS_def returnS_def)
  have "touches (set (claimed_ids (c # cs))) ?ps (ev_parts (sd_db s'))"
    using touches_trans [OF frame rs(4)] result by (simp add: claimed_ids_def)
  moreover have "st = PROCESSED \<longrightarrow> settled ?i (ev_parts (sd_db s'))"
    using ended settled_touches [OF _ rs(4) known(3)] result by blast
  ultimately show ?case
    using result rs(2,3,5) st_range by (intro exI [of _ "(?i, st) # rs"]) (simp add: claimed_ids_def)
qed

text \<open>the pending parts of a revision, counted directly\<close>

definition pending_row :: "string \<Rightarrow> string \<Rightarrow> PartRow \<Rightarrow> bool" where
  "pending_row w v r \<longleftrightarrow> in_revision w v r \<and> ep_state r \<notin> {PROCESSED, PartState.FAILED, INVALIDATED}"

lemma sum_groups:
  "sum_list (map (\<lambda>k. length (filter (\<lambda>x. P x \<and> f x = k) xs)) (filter Q (remdups (map f (filter P xs))))) =
   length (filter (\<lambda>x. P x \<and> Q (f x)) xs)"
proof -
  define ks where "ks = filter Q (remdups (map f (filter P xs)))"
  have d: "distinct ks" by (simp add: ks_def)
  have sets: "set (filter (\<lambda>x. P x \<and> Q (f x)) xs) = (\<Union>k \<in> set ks. {x \<in> set xs. P x \<and> f x = k})"
    by (auto simp: ks_def)
  have "sum_list (map (\<lambda>k. length (filter (\<lambda>x. P x \<and> f x = k) xs)) ls) =
      length (filter (\<lambda>x. P x \<and> f x \<in> set ls) xs)" if "distinct ls" for ls
    using that
  proof (induction ls)
    case (Cons k ls)
    have "length (filter (\<lambda>x. P x \<and> f x \<in> set (k # ls)) xs) =
        length (filter (\<lambda>x. P x \<and> f x = k) xs) + length (filter (\<lambda>x. P x \<and> f x \<in> set ls) xs)"
      using Cons.prems by (induction xs) auto
    with Cons show ?case by simp
  qed simp
  from this [OF d] have "sum_list (map (\<lambda>k. length (filter (\<lambda>x. P x \<and> f x = k) xs)) ks) =
      length (filter (\<lambda>x. P x \<and> f x \<in> set ks) xs)" .
  also have "filter (\<lambda>x. P x \<and> f x \<in> set ks) xs = filter (\<lambda>x. P x \<and> Q (f x)) xs"
    by (rule filter_cong [OF refl]) (auto simp: ks_def)
  finally show ?thesis by (simp add: ks_def)
qed

lemma pending_in_rows: "pending_in w v db = length (filter (pending_row w v) (ev_parts db))"
proof -
  have "pending_in w v db = sum_list (map (part_state_count w v db)
      (filter (\<lambda>k. k \<notin> {PROCESSED, PartState.FAILED, INVALIDATED})
        (remdups (map ep_state (filter (in_revision w v) (ev_parts db))))))"
    by (simp add: pending_in_def pending_count_def part_state_counts_def filter_map comp_def)
  also have "\<dots> = length (filter (pending_row w v) (ev_parts db))"
    unfolding part_state_count_def pending_row_def
    by (rule sum_groups [of "in_revision w v" ep_state "ev_parts db" "\<lambda>k. k \<notin> {PROCESSED, PartState.FAILED, INVALIDATED}"])
  finally show ?thesis .
qed

lemma pending_falls:
  assumes frame: "touches ids ps ps'" and settled: "\<And>i. i \<in> ids \<Longrightarrow> settled i ps'"
    and some: "r \<in> set ps" "ep_part_id r \<in> ids" "pending_row w v r"
  shows "length (filter (pending_row w v) ps') < length (filter (pending_row w v) ps)"
proof -
  from frame obtain g where g: "ps' = map g ps" "\<And>r. ep_part_id (g r) = ep_part_id r"
    "\<And>r. ep_part_id r \<notin> ids \<Longrightarrow> g r = r" unfolding touches_def by blast
  have done_rows: "\<not> pending_row w v (g r)" if "r \<in> set ps" "ep_part_id r \<in> ids" for r
    using settled [OF that(2)] that g(1,2) unfolding settled_def pending_row_def by auto
  have "filter (pending_row w v \<circ> g) ps = filter (pending_row w v \<circ> g) (filter (pending_row w v) ps)"
    unfolding filter_filter
  proof (rule filter_cong [OF refl])
    fix r
    assume "r \<in> set ps"
    then show "(pending_row w v \<circ> g) r = (pending_row w v r \<and> (pending_row w v \<circ> g) r)"
      using done_rows g(3) by (cases "ep_part_id r \<in> ids") auto
  qed
  moreover have "r \<in> set (filter (pending_row w v) ps)" "\<not> (pending_row w v \<circ> g) r"
    using some done_rows by auto
  ultimately have "length (filter (pending_row w v \<circ> g) ps) < length (filter (pending_row w v) ps)"
    by (metis length_filter_less)
  then show ?thesis by (simp add: g(1) filter_map)
qed

lemma claims_touch:
  assumes res: "claim_parts_with_tokens H w v n now db = Inr (claims, db')"
    and d: "distinct (map ep_part_id (ev_parts db))"
    and named: "\<forall>r \<in> set (ev_parts db). pl_part_id (ep_plan r) = ep_part_id r"
  shows "distinct (claimed_ids claims)" "touches (set (claimed_ids claims)) (ev_parts db) (ev_parts db')"
    "\<And>i. i \<in> set (claimed_ids claims) \<Longrightarrow> \<exists>r \<in> set (ev_parts db). ep_part_id r = i \<and> pending_row w v r"
proof -
  let ?rows = "take (nat n) (order_by claim_order (filter (claimable w v now) (ev_parts db)))"
  consider "claims = []" "db' = db"
    | "claims = map (claim_of H) ?rows"
      "db' = db\<lparr>ev_parts := update_where (\<lambda>r. ep_part_id r \<in> set (map ep_part_id ?rows)) (run_row now) (ev_parts db)\<rparr>"
  proof (cases "n = 0 \<or> \<not> is_current_revision H w v db")
    case True
    then show ?thesis using res that(1) by (simp add: claim_parts_with_tokens_def split: if_split_asm)
  next
    case False
    with res have "(map (claim_of H) ?rows, db\<lparr>ev_parts := update_where
        (\<lambda>r. ep_part_id r \<in> set (map ep_part_id ?rows)) (run_row now) (ev_parts db)\<rparr>) = (claims, db')"
      unfolding claim_parts_with_tokens_def Let_def by (metis Inl_Inr_False Inr_inject)
    then show ?thesis using that(2) by blast
  qed
  then have "distinct (claimed_ids claims) \<and> touches (set (claimed_ids claims)) (ev_parts db) (ev_parts db') \<and>
    (\<forall>i \<in> set (claimed_ids claims). \<exists>r \<in> set (ev_parts db). ep_part_id r = i \<and> pending_row w v r)"
  proof cases
    case 1
    then show ?thesis by (simp add: claimed_ids_def touches_refl)
  next
    case 2
    have "claimed_ids claims = map (\<lambda>r. pl_part_id (ep_plan r)) ?rows"
      by (simp add: 2(1) claimed_ids_def claim_of_def part_of_row_def comp_def)
    also have "\<dots> = map ep_part_id ?rows"
      by (rule map_cong [OF refl]) (use named in \<open>auto dest!: in_set_takeD\<close>)
    finally have ids: "claimed_ids claims = map ep_part_id ?rows" .
    have "distinct (map ep_part_id (order_by claim_order (filter (claimable w v now) (ev_parts db))))"
      using d by (simp add: order_by_def distinct_map inj_on_def)
    then have "distinct (map ep_part_id ?rows)" by (simp add: take_map [symmetric])
    moreover have "touches (set (map ep_part_id ?rows)) (ev_parts db) (ev_parts db')"
      unfolding touches_def
      by (intro exI [of _ "\<lambda>r. if ep_part_id r \<in> set (map ep_part_id ?rows) then run_row now r else r"])
        (auto simp: 2(2) update_where_def run_row_def)
    moreover have "\<exists>r \<in> set (ev_parts db). ep_part_id r = i \<and> pending_row w v r"
      if i: "i \<in> set (map ep_part_id ?rows)" for i
    proof -
      from i obtain r where r: "r \<in> set ?rows" "ep_part_id r = i" by auto
      from in_set_takeD [OF r(1)] have "pending_row w v r" "r \<in> set (ev_parts db)"
        by (auto simp: claimable_def pending_row_def)
      with r(2) show ?thesis by blast
    qed
    ultimately show ?thesis unfolding ids by blast
  qed
  then show "distinct (claimed_ids claims)" "touches (set (claimed_ids claims)) (ev_parts db) (ev_parts db')"
    "\<And>i. i \<in> set (claimed_ids claims) \<Longrightarrow> \<exists>r \<in> set (ev_parts db). ep_part_id r = i \<and> pending_row w v r"
    by blast+
qed

lemma bindS_Inr: "m s = Some (Inr x, t) \<Longrightarrow> bindS m k s = k x t"
  by (simp add: bindS_def catchS_def)

lemma envS_run: "envS f s = Some (Inr (fst (f (sd_env s))), s\<lparr>sd_env := snd (f (sd_env s))\<rparr>)"
  by (simp add: envS_def tryenvS_def split: prod.splits)

lemma count_states_run: "alone env \<Longrightarrow> count_states env w v s = Some (Inr (part_state_counts w v (sd_db s)), s)"
  by (simp add: count_states_def queryS_def storeS_def)

lemma log_events_run: "log_events xs s = Some (Inr (), s\<lparr>sd_log := sd_log s @ xs\<rparr>)"
  by (induction xs arbitrary: s) (simp_all add: returnS_def logS_def bindS_Inr)

lemma frontier_outcome_run:
  assumes env: "alone env"
  shows "\<exists>out t. frontier_outcome env w v d results s = Some (Inr out, t) \<and> sd_db t = sd_db s \<and>
    so_pending_count out = pending_in w v (sd_db s) \<and>
    (so_status out = COMPLETE_STATUS \<longrightarrow> ids_in PartState.FAILED results = [] \<and> ids_in RETRY_WAIT results = [])"
  unfolding frontier_outcome_def Let_def
  by (subst bindS_Inr [OF count_states_run [OF env]], subst bindS_Inr [OF log_events_run],
      subst bindS_Inr [OF envS_run])
    (auto simp: returnS_def pending_in_def)

text \<open>the part of the frontier after a claim: it returns, and completion means that all its parts are processed\<close>

lemma claimed_frontier:
  assumes env: "alone env" and laws: "clock_laws env" and d: "distinct (map ep_part_id (ev_parts (sd_db s)))"
    and ids: "distinct (claimed_ids claims)"
  shows "\<exists>out t. bindS (run_claims env deadline claims) (frontier_outcome env w v deadline) s = Some (Inr out, t) \<and>
    touches (set (claimed_ids claims)) (ev_parts (sd_db s)) (ev_parts (sd_db t)) \<and>
    so_pending_count out = pending_in w v (sd_db t) \<and>
    (so_status out = COMPLETE_STATUS \<longrightarrow> (\<forall>i \<in> set (claimed_ids claims). settled i (ev_parts (sd_db t))))"
proof -
  obtain r t where run: "run_claims env deadline claims s = Some (r, t)"
    using returns_claims [OF laws] unfolding returns_def by (metis not_None_eq prod.exhaust)
  from run_claims_result [OF env run d ids] obtain results where results: "r = Inr results"
    "map fst results = claimed_ids claims" "snd ` set results \<subseteq> {PROCESSED, PartState.FAILED, RETRY_WAIT}"
    "touches (set (claimed_ids claims)) (ev_parts (sd_db s)) (ev_parts (sd_db t))"
    "\<forall>(i, st) \<in> set results. st = PROCESSED \<longrightarrow> settled i (ev_parts (sd_db t))" by blast
  from frontier_outcome_run [OF env] obtain out t' where out:
    "frontier_outcome env w v deadline results t = Some (Inr out, t')" "sd_db t' = sd_db t"
    "so_pending_count out = pending_in w v (sd_db t)"
    "so_status out = COMPLETE_STATUS \<longrightarrow> ids_in PartState.FAILED results = [] \<and> ids_in RETRY_WAIT results = []" by blast
  have "settled i (ev_parts (sd_db t'))" if complete: "so_status out = COMPLETE_STATUS" and i: "i \<in> set (claimed_ids claims)" for i
  proof -
    from i results(2) obtain st where st: "(i, st) \<in> set results" by (metis image_iff list.set_map prod.collapse)
    with out(4) complete have "st \<noteq> PartState.FAILED" "st \<noteq> RETRY_WAIT" by (auto simp: ids_in_def filter_empty_conv)
    with results(3) st have "st = PROCESSED" by force
    with results(5) st out(2) show ?thesis by auto
  qed
  with run results(1,4) out show ?thesis by (intro exI [of _ out] exI [of _ t']) (simp add: bindS_Inr)
qed

lemma frontier_progress:
  assumes env: "alone env" and laws: "clock_laws env" and d: "distinct (map ep_part_id (ev_parts (sd_db s)))"
    and named: "\<forall>r \<in> set (ev_parts (sd_db s)). pl_part_id (ep_plan r) = ep_part_id r"
  shows "\<exists>out t. run_frontier_until env w v deadline s = Some (Inr out, t) \<and>
    distinct (map ep_part_id (ev_parts (sd_db t))) \<and>
    (\<forall>r \<in> set (ev_parts (sd_db t)). pl_part_id (ep_plan r) = ep_part_id r) \<and> so_pending_count out = pending_in w v (sd_db t) \<and>
    (so_status out = COMPLETE_STATUS \<longrightarrow> so_pending_count out = 0 \<or> pending_in w v (sd_db t) < pending_in w v (sd_db s))"
proof -
  let ?H = "en_sha256 env" and ?n = "int (po_multimodal_concurrency (en_policy env))"
  define s1 where "s1 = s\<lparr>sd_env := snd (must_pause env deadline (sd_env s))\<rparr>"
  define now where "now = fst (en_wall env (sd_env s1))"
  define s2 where "s2 = s1\<lparr>sd_env := snd (en_wall env (sd_env s1))\<rparr>"
  have db: "sd_db s1 = sd_db s" "sd_db s2 = sd_db s" by (simp_all add: s1_def s2_def)
  obtain claims db' where claims: "claim_parts_with_tokens ?H w v ?n now (sd_db s) = Inr (claims, db')"
  proof -
    have "\<nexists>e. claim_parts_with_tokens ?H w v ?n now (sd_db s) = Inl e"
      by (simp add: claim_parts_with_tokens_def Let_def)
    then show ?thesis using that by (metis prod.exhaust sum.exhaust)
  qed
  define s3 where "s3 = s2\<lparr>sd_db := db'\<rparr>"
  note touched = claims_touch [OF claims d named]
  have store: "storeS env (claim_parts_with_tokens ?H w v ?n now) s2 = Some (Inr claims, s3)"
    using claims db env by (simp add: storeS_def s3_def)
  have idle: "claims = [] \<Longrightarrow> db' = sd_db s"
    using claims by (auto simp: claim_parts_with_tokens_def Let_def update_where_def map_idI order_by_def
        split: if_split_asm)
  define s4 where "s4 = s3\<lparr>sd_log := sd_log s3 @ map (\<lambda>c. Emitted ''part_planned'' (pl_part_id (cm_plan c))) claims\<rparr>"
  have s4: "ev_parts (sd_db s4) = ev_parts db'" by (simp add: s4_def s3_def)
  have run: "run_frontier_until env w v deadline s =
    (if fst (must_pause env deadline (sd_env s))
     then bindS (count_states env w v) (\<lambda>counts. returnS (idle_outcome PAUSED_STATUS (pending_count counts))) s1
     else if claims = []
     then bindS (count_states env w v) (\<lambda>counts. returnS (idle_outcome
            (if pending_count counts = 0 then COMPLETE_STATUS else PAUSED_STATUS) (pending_count counts))) s3
     else bindS (run_claims env deadline claims) (frontier_outcome env w v deadline) s4)"
    unfolding run_frontier_until_def
    by (subst bindS_Inr [OF envS_run])
      (simp add: s1_def [symmetric] bindS_Inr [OF envS_run] now_def [symmetric] s2_def [symmetric]
        bindS_Inr [where m = "storeS env (claim_parts_with_tokens ?H w v ?n now)", OF store] bindS_Inr [OF log_events_run] s4_def [symmetric])
  show ?thesis
  proof (cases "fst (must_pause env deadline (sd_env s)) \<or> claims = []")
    case True
    then show ?thesis
      using d named db idle
      by (auto simp: run bindS_Inr [OF count_states_run [OF env]] returnS_def idle_outcome_def pending_in_def s3_def)
  next
    case False
    have d4: "distinct (map ep_part_id (ev_parts (sd_db s4)))" using touches_ids [OF touched(2)] d s4 by simp
    from claimed_frontier [OF env laws d4 touched(1)] obtain out t where out:
      "bindS (run_claims env deadline claims) (frontier_outcome env w v deadline) s4 = Some (Inr out, t)"
      "touches (set (claimed_ids claims)) (ev_parts (sd_db s4)) (ev_parts (sd_db t))"
      "so_pending_count out = pending_in w v (sd_db t)"
      "so_status out = COMPLETE_STATUS \<longrightarrow> (\<forall>i \<in> set (claimed_ids claims). settled i (ev_parts (sd_db t)))" by blast
    have frame: "touches (set (claimed_ids claims)) (ev_parts (sd_db s)) (ev_parts (sd_db t))"
      using touches_trans [OF touched(2)] out(2) s4 by fastforce
    have less: "pending_in w v (sd_db t) < pending_in w v (sd_db s)" if "so_status out = COMPLETE_STATUS"
    proof -
      from False obtain i where i: "i \<in> set (claimed_ids claims)" by (cases claims) (auto simp: claimed_ids_def)
      from touched(3) [OF i] obtain r where "r \<in> set (ev_parts (sd_db s))" "ep_part_id r = i" "pending_row w v r" by blast
      with pending_falls [OF frame] out(4) that i show ?thesis unfolding pending_in_rows by blast
    qed
    have "distinct (map ep_part_id (ev_parts (sd_db t)))" using touches_ids [OF frame] d by simp
    with False out(1,3) less touches_plans [OF frame named] show ?thesis by (intro exI [of _ out] exI [of _ t]) (simp add: run)
  qed
qed

lemma completion_returns:
  assumes env: "alone env" and laws: "clock_laws env"
  shows "distinct (map ep_part_id (ev_parts (sd_db s))) \<Longrightarrow>
    \<forall>r \<in> set (ev_parts (sd_db s)). pl_part_id (ep_plan r) = ep_part_id r \<Longrightarrow>
    \<exists>out t. completion_loop env w v deadline processed failed s = Some (Inr out, t) \<and>
      so_pending_count out = pending_in w v (sd_db t) \<and>
      (so_status out = COMPLETE_STATUS \<longrightarrow> pending_in w v (sd_db t) = 0)"
proof (induction "pending_in w v (sd_db s)" arbitrary: s processed failed rule: less_induct)
  case less
  from frontier_progress [OF env laws less.prems] obtain out t where out:
    "run_frontier_until env w v deadline s = Some (Inr out, t)" "distinct (map ep_part_id (ev_parts (sd_db t)))"
    "\<forall>r \<in> set (ev_parts (sd_db t)). pl_part_id (ep_plan r) = ep_part_id r"
    "so_pending_count out = pending_in w v (sd_db t)"
    "so_status out = COMPLETE_STATUS \<longrightarrow> so_pending_count out = 0 \<or> pending_in w v (sd_db t) < pending_in w v (sd_db s)" by blast
  show ?case
  proof (cases "so_status out = PAUSED_STATUS \<or> so_pending_count out = 0")
    case True
    then show ?thesis
      using out by (subst completion_loop.simps) (auto simp: Let_def total_outcome_def)
  next
    case False
    then have "so_status out = COMPLETE_STATUS" by (cases "so_status out") auto
    with False out(5) have "pending_in w v (sd_db t) < pending_in w v (sd_db s)" by simp
    from less.hyps [OF this out(2,3)] show ?thesis
      using out(1) False by (subst completion_loop.simps) (auto simp: Let_def)
  qed
qed

end
