(* ===== verification/Evidence_Text.thy ===== *)
theory Evidence_Text
  imports Evidence_Models
begin

text \<open>
  What the patterns of unsafe evidence text accept and reject: every match of a pattern contains a
  character that plain identifiers do not have, and the pattern for Windows paths matches every URL.
\<close>

section \<open>Matches\<close>

text \<open>
  Lower-case letters, digits, dots, underscores and the punctuation of JSON; every pattern needs another
  character.
\<close>

definition plain_marks :: string where
  "plain_marks = CHR 0x22 # ''._:,[]{}''"

definition plain_char :: "char \<Rightarrow> bool" where
  "plain_char c \<longleftrightarrow> is_lower c \<or> is_digit c \<or> c \<in> set plain_marks"

fun rx_marked :: "rx \<Rightarrow> bool" where
  "rx_marked (RLit s) = list_ex (\<lambda>c. \<not> plain_char c) s"
| "rx_marked (RLitI s) = list_ex (\<lambda>c. \<not> plain_char c \<and> fold_char c = c) s"
| "rx_marked (ROne p) = (\<forall>c. p c \<longrightarrow> \<not> plain_char c)"
| "rx_marked (RSpan p n) = (n \<ge> 1 \<and> (\<forall>c. p c \<longrightarrow> \<not> plain_char c))"
| "rx_marked (RSeq rs) = list_ex rx_marked rs"
| "rx_marked (RAlt rs) = list_all rx_marked rs"
| "rx_marked _ = False"

definition consumes :: "bool \<Rightarrow> string \<Rightarrow> rx_pos \<Rightarrow> bool" where
  "consumes marked s q \<longleftrightarrow> (\<exists>m. s = m @ snd q \<and> (marked \<longrightarrow> list_ex (\<lambda>c. \<not> plain_char c) m))"

lemma fold_plain:
  assumes "plain_char c"
  shows "fold_char c = c"
proof -
  have "list_all (\<lambda>c. fold_char c = c) (LOWERCASE @ ''0123456789'' @ plain_marks)" by code_simp
  moreover have "c \<in> set (LOWERCASE @ ''0123456789'' @ plain_marks)"
    using assms by (simp only: plain_char_def is_lower_def is_digit_def set_append Un_iff)
  ultimately show ?thesis by (simp only: list_all_iff)
qed

lemma consumes_weaken: "consumes True s q \<Longrightarrow> consumes b s q"
  by (auto simp: consumes_def)

lemma consumes_trans: "consumes a s q \<Longrightarrow> consumes b (snd q) q' \<Longrightarrow> consumes (a \<or> b) s q'"
  by (fastforce simp: consumes_def)

lemma lit_consumes: "q \<in> set (lit_end f cs pos) \<Longrightarrow>
  consumes (list_ex (\<lambda>c. \<forall>x. f x = f c \<longrightarrow> \<not> plain_char x) cs) (snd pos) q"
proof (induction f cs pos rule: lit_end.induct)
  case (3 f c cs prior x xs)
  then have q: "f x = f c" "q \<in> set (lit_end f cs (Some x, xs))" by (auto split: if_splits)
  from 3(1) [OF q] obtain m where "xs = m @ snd q"
    "list_ex (\<lambda>c. \<forall>x. f x = f c \<longrightarrow> \<not> plain_char x) cs \<longrightarrow> list_ex (\<lambda>c. \<not> plain_char c) m"
    by (auto simp: consumes_def)
  with q(1) show ?case unfolding consumes_def by (intro exI [of _ "x # m"]) auto
qed (auto simp: consumes_def)

lemma span_consumes: "q \<in> set (span_ends p n prior s) \<Longrightarrow>
  consumes (n \<ge> 1 \<and> (\<forall>c. p c \<longrightarrow> \<not> plain_char c)) s q"
proof (induction p n prior s rule: span_ends.induct)
  case (2 p n prior x xs)
  show ?case
  proof (cases "n = 0 \<and> q = (prior, x # xs)")
    case False
    with 2(2) have q: "p x" "q \<in> set (span_ends p (n - 1) (Some x) xs)" by (auto split: if_splits)
    from 2(1) [OF q] obtain m where "xs = m @ snd q" by (auto simp: consumes_def)
    with q(1) show ?thesis unfolding consumes_def by (intro exI [of _ "x # m"]) auto
  qed (auto simp: consumes_def)
qed (auto simp: consumes_def split: if_splits)

lemma rx_consumes:
  "q \<in> set (rx_ends r pos) \<Longrightarrow> consumes (rx_marked r) (snd pos) q"
  "q \<in> set (rx_seq rs pos) \<Longrightarrow> consumes (list_ex rx_marked rs) (snd pos) q"
  "q \<in> set (rx_alt rs pos) \<Longrightarrow> consumes (list_all rx_marked rs) (snd pos) q"
proof (induction r pos and rs pos and rs pos arbitrary: q and q and q rule: rx_ends_rx_seq_rx_alt.induct)
  case (1 s pos)
  then show ?case using lit_consumes [of q id s pos] by (simp add: list_ex_iff)
next
  case (2 s pos)
  have "list_ex (\<lambda>c. \<not> plain_char c \<and> fold_char c = c) s \<Longrightarrow>
    list_ex (\<lambda>c. \<forall>x. fold_char x = fold_char c \<longrightarrow> \<not> plain_char x) s"
    unfolding list_ex_iff using fold_plain by metis
  with 2 lit_consumes [of q fold_char s pos] show ?case by (auto simp: consumes_def)
next
  case (3 p pos)
  then show ?case by (cases "snd pos") (auto simp: consumes_def split: if_splits)
next
  case (4 p n pos)
  then show ?case using span_consumes [of q p n "fst pos" "snd pos"] by simp
next
  case (13 r rs pos)
  from 13(3) obtain q0 where q0: "q0 \<in> set (rx_ends r pos)" "q \<in> set (rx_seq rs q0)" by auto
  from consumes_trans [OF 13(1) [OF q0(1)] 13(2) [OF q0(1) q0(2)]] show ?case by simp
next
  case (15 r rs pos)
  then show ?case by (fastforce simp: consumes_def)
qed (auto simp: consumes_def split: if_splits)

lemma marked_search: "rx_marked r \<Longrightarrow> list_all plain_char s \<Longrightarrow> \<not> rx_search_from r prior s"
proof (induction s arbitrary: prior)
  case Nil
  then show ?case using rx_consumes(1) [of _ r "(prior, [])"] by (fastforce simp: consumes_def neq_Nil_conv)
next
  case (Cons x xs)
  have "rx_ends r (prior, x # xs) = []"
  proof (rule ccontr)
    assume "rx_ends r (prior, x # xs) \<noteq> []"
    then obtain q where "q \<in> set (rx_ends r (prior, x # xs))" by (meson list.set_sel(1))
    from rx_consumes(1) [OF this] Cons.prems(1) obtain m where
      m: "x # xs = m @ snd q" "list_ex (\<lambda>c. \<not> plain_char c) m" by (auto simp: consumes_def)
    with Cons.prems(2) show False by (metis list_all_append list_all_iff list_ex_iff)
  qed
  with Cons show ?case by simp
qed

lemma patterns_marked: "list_all rx_marked SENSITIVE_EVIDENCE_PATTERNS"
  by (simp add: SENSITIVE_EVIDENCE_PATTERNS_def rx_http_def plain_char_def plain_marks_def rx_separator_def is_lower_def is_digit_def is_upper_def
      LOWERCASE_def UPPERCASE_def fold_char_def py_space_def backslash_def)

lemma plain_safe: "list_all plain_char s \<Longrightarrow> safe_text s"
  using patterns_marked marked_search [of _ s None]
  by (auto simp: safe_text_def validate_safe_evidence_text_def rx_search_def list_ex_iff list_all_iff)

lemma safe_text_code [code]:
  "safe_text s \<longleftrightarrow> list_all plain_char s \<or> validate_safe_evidence_text s = Inr s"
  using plain_safe by (auto simp: safe_text_def)

lemma search_suffix:
  "(\<And>prior. rx_ends r (prior, s) \<noteq> []) \<Longrightarrow> rx_search_from r prior (a @ s)"
  by (induction a arbitrary: prior) (cases s; simp)+

lemma drive_search:
  assumes "rx_letter c"
  shows "rx_ends (RAlt [RSeq [ROne rx_letter, RLit '':'', ROne rx_separator], r]) (prior, c # ''://'' @ b) \<noteq> []"
  using assms by (simp add: rx_separator_def)

lemma url_rejected: "rx_letter c \<Longrightarrow> validate_safe_evidence_text (a @ c # ''://'' @ b) = Inl ValueError"
proof -
  assume "rx_letter c"
  from search_suffix [OF drive_search [OF this]]
  have "rx_search (RAlt [RSeq [ROne rx_letter, RLit '':'', ROne rx_separator], r]) (a @ c # ''://'' @ b)" for r
    by (simp only: rx_search_def)
  then show ?thesis by (simp add: validate_safe_evidence_text_def SENSITIVE_EVIDENCE_PATTERNS_def del: append_Cons)
qed

end
