(* ===== verification/Evidence_Correctness.thy ===== *)
theory Evidence_Correctness
  imports Evidence_Fencing Evidence_Progress Evidence_Text
begin

text \<open>
  The properties of the evidence engine: evidence that snapshots cite, claims and their tokens,
  publication and the cache, invalidation, the text no model accepts, and the scheduler. The
  witnesses run on a course with one source of two parts; the hash there is the identity.
\<close>

section \<open>A concrete course\<close>

definition evd_part :: "string \<Rightarrow> nat \<Rightarrow> SourcePartPlan" where
  "evd_part i n =
     \<lparr>pl_part_id = i, pl_workspace_id = ''w'', pl_revision_id = ''v'', pl_entry_id = ''e'',
      pl_relative_path = ''a.pdf'', pl_source_sha256 = ''s'', pl_part_sha256 = ''h'', pl_ordinal = n,
      pl_scheduling_rank = n, pl_locator = ''p1'', pl_media_type = ''text'', pl_size_bytes = 1,
      pl_scheduling_class = ''core'', pl_priority = n, pl_preparation_policy_version = ''1'',
      pl_preparation_schema_version = ''1'', pl_state = PREPARED, pl_idempotency_key = ''k'',
      pl_safe_error_code = None\<rparr>"

definition result_db :: "py_error + 'a \<times> evidence_db \<Rightarrow> evidence_db" where
  "result_db r = (case r of Inl _ \<Rightarrow> new_evidence_db | Inr (_, db) \<Rightarrow> db)"

definition evd_planned :: evidence_db where
  "evd_planned = (case upsert_part_plans id 1 [evd_part ''p'' 0, evd_part ''q'' 1] new_evidence_db of
     Inl _ \<Rightarrow> new_evidence_db | Inr db \<Rightarrow> db)"

definition evd_claimed :: evidence_db where
  "evd_claimed = result_db (claim_parts_with_tokens id ''w'' ''v'' 1 2 evd_planned)"

definition evd_token :: string where
  "evd_token = claim_token id ''p'' 1 1"

definition evd_unit :: EvidenceUnit where
  "evd_unit = \<lparr>un_evidence_unit_id = ''u'', un_source_part_id = ''p'', un_content = ''bits'',
     un_citations = [\<lparr>ct_citation_id = ''c'', ct_evidence_unit_id = ''u'', ct_source_part_id = ''p'',
       ct_relative_path = ''a.pdf'', ct_locator = ''p1''\<rparr>]\<rparr>"

definition evd_published :: evidence_db where
  "evd_published = result_db (publish_evidence id ''p'' evd_unit ''ck'' evd_token 3 evd_claimed)"

definition ran :: "py_error + 'a \<times> evidence_db \<Rightarrow> bool" where
  "ran r = (case r of Inl _ \<Rightarrow> False | Inr _ \<Rightarrow> True)"

lemma ran_result: "ran r \<Longrightarrow> \<exists>x. r = Inr (x, result_db r)"
  by (cases r) (auto simp: ran_def result_db_def)

lemma evd_planned_ok: "upsert_part_plans id 1 [evd_part ''p'' 0, evd_part ''q'' 1] new_evidence_db = Inr evd_planned"
  by code_simp

lemma evd_ran:
  "ran (claim_parts_with_tokens id ''w'' ''v'' 1 2 evd_planned)"
  "ran (publish_evidence id ''p'' evd_unit ''ck'' evd_token 3 evd_claimed)"
  by code_simp+

lemma reach_demo:
  "reach evidence_init (evidence_step id) evd_planned"
  "reach evidence_init (evidence_step id) evd_claimed"
  "reach evidence_init (evidence_step id) evd_published"
proof -
  have "reach evidence_init (evidence_step id) new_evidence_db" by (rule reach_init) (simp add: evidence_init_def)
  then show planned: "reach evidence_init (evidence_step id) evd_planned"
    by (rule reach_step) (rule step_upsert [OF evd_planned_ok])
  then show claimed: "reach evidence_init (evidence_step id) evd_claimed"
    using ran_result [OF evd_ran(1)] unfolding evd_claimed_def by (blast intro: reach_step step_claim)
  then show "reach evidence_init (evidence_step id) evd_published"
    using ran_result [OF evd_ran(2)] unfolding evd_published_def by (blast intro: reach_step step_publish)
qed

section \<open>Snapshots\<close>

text \<open>
  C18: whatever the store does, every evidence unit a saved study map names is in the database,
  belongs to a part of the map's own workspace and revision, and that part is not invalidated.
\<close>

theorem snapshots_never_dangle:
  assumes "reach evidence_init (evidence_step H) db"
    and "s \<in> set (ev_snapshots db)" and "i \<in> set (sn_evidence_unit_ids (es_snapshot s))"
  shows "\<exists>u \<in> set (ev_units db). \<exists>r \<in> set (ev_parts db).
    eu_evidence_unit_id u = i \<and> ep_part_id r = eu_source_part_id u \<and>
    in_revision (es_workspace_id s) (es_revision_id s) r \<and> ep_state r \<noteq> INVALIDATED"
proof -
  from evidence.reach_inv [OF assms(1)] have inv: "evidence_inv db" .
  then have "(es_snapshot_id s, i) \<in> set (ev_dependencies db)"
    using assms(2,3) by (auto simp: evidence_inv_defs)
  with inv have "supports db (es_snapshot_id s) i" by (auto simp: evidence_inv_def dependencies_backed_def)
  then obtain s' u r where found: "s' \<in> set (ev_snapshots db)" "u \<in> set (ev_units db)" "r \<in> set (ev_parts db)"
    "es_snapshot_id s' = es_snapshot_id s" "eu_evidence_unit_id u = i" "ep_part_id r = eu_source_part_id u"
    "in_revision (es_workspace_id s') (es_revision_id s') r" unfolding supports_def by blast
  have "s' = s"
    using inv found(1,4) assms(2) by (auto simp: evidence_inv_def keys_unique_def distinct_map inj_on_def)
  moreover have "ep_state r \<noteq> INVALIDATED"
  proof -
    from inv found(2) obtain r' where "r' \<in> set (ev_parts db)" "ep_part_id r' = eu_source_part_id u" "may_have_units r'"
      by (auto simp: evidence_inv_def rows_referenced_def)
    with part_unique [OF inv found(3)] found(6) have "may_have_units r" by metis
    then show ?thesis by (simp add: may_have_units_def)
  qed
  ultimately show ?thesis using found by blast
qed

section \<open>Claims\<close>

definition row_identity :: "PartRow \<Rightarrow> string" where
  "row_identity r = claim_identity (ep_part_id r) (ep_plan_generation r) (ep_claim_generation r)"

lemma split_at_nul:
  assumes "a @ NUL # b = c @ NUL # d" and "NUL \<notin> set a" and "NUL \<notin> set c"
  shows "a = c \<and> b = d"
  using assms
proof (induction a arbitrary: c)
  case Nil
  then show ?case by (cases c) auto
next
  case (Cons x a)
  then show ?case by (cases c) auto
qed

lemma nat_str_no_nul: "NUL \<notin> set (nat_str n)"
proof
  assume "NUL \<in> set (nat_str n)"
  then have "is_digit NUL" by (rule nat_str_digits)
  then show False by (simp add: is_digit_def NUL_def)
qed

lemma claim_identity_inject:
  "claim_identity i a b = claim_identity i c d \<longleftrightarrow> a = c \<and> b = d"
  using split_at_nul [OF _ nat_str_no_nul nat_str_no_nul, of a "nat_str b" c "nat_str d"]
  by (auto simp: claim_identity_def)

lemma row_token_eq:
  "row_token H r = row_token H r' \<longleftrightarrow> H (row_identity r) = H (row_identity r')"
  by (simp add: row_token_def claim_token_def row_identity_def)

lemma fenced_path:
  "(alive_step (evidence_step H) part_generation i)\<^sup>*\<^sup>* db db' \<Longrightarrow> evidence_inv db \<Longrightarrow>
   (alive_step (sound_step H) part_generation i)\<^sup>*\<^sup>* db db' \<and> evidence_inv db'"
proof (induction rule: rtranclp_induct)
  case (step t u)
  then have "alive_step (sound_step H) part_generation i t u" "evidence_inv u"
    by (auto simp: alive_step_def sound_step_def intro: step_inv)
  with step show ?case by (auto intro: rtranclp.rtrancl_into_rtrancl)
qed simp

text \<open>a token of an earlier generation of the same row never comes back\<close>

lemma stale_token:
  assumes reach: "reach evidence_init (evidence_step H) db" and r: "part_row db i = Some r"
    and moved: "(alive_step (evidence_step H) part_generation i)\<^sup>*\<^sup>* db db1"
      "part_generation db1 i \<noteq> part_generation db i"
    and later: "(alive_step (evidence_step H) part_generation i)\<^sup>*\<^sup>* db1 db2" "part_row db2 i = Some r2"
    and collision: "H (row_identity r) = H (row_identity r2) \<Longrightarrow> row_identity r = row_identity r2"
  shows "row_token H r \<noteq> row_token H r2"
proof -
  from fenced_path [OF moved(1) evidence.reach_inv [OF reach]]
  have p1: "(alive_step (sound_step H) part_generation i)\<^sup>*\<^sup>* db db1" "evidence_inv db1" by simp_all
  have p2: "(alive_step (sound_step H) part_generation i)\<^sup>*\<^sup>* db1 db2"
    using fenced_path [OF later(1) p1(2)] by simp
  have g: "part_generation db i = Some (row_generation r)" "part_generation db2 i = Some (row_generation r2)"
    using r later(2) by (simp_all add: part_generation_def)
  from fenced_claims.advance_steps [OF p1(1) g(1)] obtain h where h: "part_generation db1 i = Some h" by blast
  with moved(2) g(1) have "row_generation r \<noteq> h" by auto
  from fenced_claims.never_again [OF p1(1) g(1) h this p2 g(2)]
  have "row_identity r \<noteq> row_identity r2"
    using part_row_Some [OF r] part_row_Some [OF later(2)]
    by (simp add: row_identity_def claim_identity_inject row_generation_def)
  with collision show ?thesis by (auto simp: row_token_eq)
qed

text \<open>
  C19: once a part has been claimed again or planned anew, the token of its earlier claim is refused by
  every operation that takes one, for as long as the row of the part lives: nothing is recorded,
  resumed, failed, paused, copied from the cache or published under it.
\<close>

theorem stale_claims_fenced:
  assumes "reach evidence_init (evidence_step H) db" and "part_row db i = Some r"
    and "(alive_step (evidence_step H) part_generation i)\<^sup>*\<^sup>* db db1"
    and "part_generation db1 i \<noteq> part_generation db i"
    and "(alive_step (evidence_step H) part_generation i)\<^sup>*\<^sup>* db1 db2" and "part_row db2 i = Some r2"
    and "H (row_identity r) = H (row_identity r2) \<Longrightarrow> row_identity r = row_identity r2"
  shows "record_attempt H i a (row_token H r) db2 = Inl ValueError \<and>
    resume_claim H i (row_token H r) n now db2 = Inl ValueError \<and>
    fail_exhausted_claim H i (row_token H r) now db2 = Inl ValueError \<and>
    pause_claim H i (row_token H r) now db2 = Inl ValueError \<and>
    reuse_cached_evidence H i key (row_token H r) now db2 = Inl ValueError \<and>
    publish_evidence H i u key (row_token H r) now db2 = Inl ValueError"
proof -
  have "row_token H r \<noteq> row_token H r2" by (rule stale_token [OF assms])
  then have "running_claim H i (row_token H r) db2 = Inl ValueError"
    using assms(6) by (simp add: running_claim_def checked_def)
  with \<open>row_token H r \<noteq> row_token H r2\<close> assms(6) show ?thesis
    by (simp add: record_attempt_def resume_claim_def fail_exhausted_claim_def pause_claim_def
        reuse_cached_evidence_def publish_evidence_def split: option.split)
qed


text \<open>a witness: the first claim, a pause, a second claim\<close>

definition evd_paused :: evidence_db where
  "evd_paused = (case pause_claim id ''p'' evd_token 3 evd_claimed of Inl _ \<Rightarrow> new_evidence_db | Inr db \<Rightarrow> db)"

definition evd_reclaimed :: evidence_db where
  "evd_reclaimed = result_db (claim_parts_with_tokens id ''w'' ''v'' 1 4 evd_paused)"

lemma evd_pause_ok: "pause_claim id ''p'' evd_token 3 evd_claimed = Inr evd_paused"
  by code_simp

lemma evd_reclaim_ran: "ran (claim_parts_with_tokens id ''w'' ''v'' 1 4 evd_paused)"
  by code_simp

lemma evd_generations:
  "part_generation evd_claimed ''p'' = Some (1, 1)" "part_generation evd_paused ''p'' = Some (1, 1)"
  "part_generation evd_reclaimed ''p'' = Some (1, 2)"
  by code_simp+

definition evd_row :: "evidence_db \<Rightarrow> PartRow" where
  "evd_row db = the (part_row db ''p'')"

lemma evd_rows:
  "part_row evd_claimed ''p'' = Some (evd_row evd_claimed)"
  "part_row evd_reclaimed ''p'' = Some (evd_row evd_reclaimed)"
  using evd_generations by (auto simp: part_generation_def evd_row_def)

lemma evd_alive:
  "(alive_step (evidence_step id) part_generation ''p'')\<^sup>*\<^sup>* evd_claimed evd_reclaimed"
proof -
  have "alive_step (evidence_step id) part_generation ''p'' evd_claimed evd_paused"
    using step_pause [OF evd_pause_ok] by (simp add: alive_step_def evd_generations)
  moreover have "alive_step (evidence_step id) part_generation ''p'' evd_paused evd_reclaimed"
    using ran_result [OF evd_reclaim_ran]
    by (auto simp: alive_step_def evd_generations evd_reclaimed_def [symmetric] intro: step_claim)
  ultimately show ?thesis by (meson converse_rtranclp_into_rtranclp rtranclp.rtrancl_refl)
qed

lemma stale_claims_fenced_witness:
  "publish_evidence id ''p'' evd_unit ''ck'' (row_token id (evd_row evd_claimed)) 5 evd_reclaimed = Inl ValueError"
  using stale_claims_fenced [OF reach_demo(2) evd_rows(1) evd_alive _ rtranclp.rtrancl_refl evd_rows(2),
    where key = "''ck''" and u = evd_unit and now = 5]
  by (simp add: evd_generations)

text \<open>
  What fencing does not cover: when the parts of an entry are deleted and the same part is prepared
  again, its row starts at the first generation again, and the first token comes back.
\<close>

lemma token_reissued_after_deletion:
  assumes "part_row db (pl_part_id p) = None"
  shows "part_row (upsert_plan now p db) (pl_part_id p) = Some (planned_row now p) \<and>
    row_token H (run_row now (planned_row now p)) = claim_token H (pl_part_id p) 1 1"
  using assms
  by (simp add: upsert_plan_def part_row_def row_of_append planned_row_def run_row_def row_token_def Let_def)

section \<open>Rows and their plans\<close>

definition plans_named :: "PartRow list \<Rightarrow> bool" where
  "plans_named rows \<longleftrightarrow> (\<forall>r \<in> set rows. pl_part_id (ep_plan r) = ep_part_id r)"

lemma named_sub: "plans_named xs \<Longrightarrow> set ys \<subseteq> set xs \<Longrightarrow> plans_named ys"
  by (auto simp: plans_named_def)

lemma named_update_where:
  assumes "plans_named xs" and "\<And>r. p r \<Longrightarrow> pl_part_id (ep_plan r) = ep_part_id r \<Longrightarrow>
    pl_part_id (ep_plan (f r)) = ep_part_id (f r)"
  shows "plans_named (update_where p f xs)"
  using assms by (auto simp: plans_named_def update_where_def)

lemma named_update_part:
  assumes "plans_named (ev_parts db)" and "\<And>r. ep_part_id (f r) = ep_part_id r \<and> ep_plan (f r) = ep_plan r"
  shows "plans_named (ev_parts (update_part i f db))"
  using assms by (auto simp: update_part_def intro!: named_update_where)

lemma upsert_named: "plans_named (ev_parts db) \<Longrightarrow> plans_named (ev_parts (fold (upsert_plan now) plans db))"
proof (induction plans arbitrary: db)
  case (Cons p ps)
  have "plans_named (ev_parts (upsert_plan now p db))"
  proof (cases "part_row db (pl_part_id p)")
    case None
    with Cons.prems show ?thesis by (auto simp: upsert_plan_parts plans_named_def planned_row_def)
  next
    case (Some old)
    then show ?thesis
      using Cons.prems
      by (auto simp: upsert_plan_parts replanned_row_def planned_row_def intro!: named_update_where)
  qed
  with Cons.IH show ?case by simp
qed simp

lemma touches_named: "touches ids ps ps' \<Longrightarrow> plans_named ps \<Longrightarrow> plans_named ps'"
  unfolding plans_named_def by (rule touches_plans)

lemma step_named:
  assumes "evidence_step H db db'" and named: "plans_named (ev_parts db)" and inv: "evidence_inv db"
  shows "plans_named (ev_parts db')"
  using assms(1)
proof (cases rule: evidence_step.cases)
  case (step_upsert now plans)
  then show ?thesis
    using upsert_named [of "db\<lparr>ev_meta := m\<rparr>" now plans for m] named
    by (auto simp: upsert_part_plans_def bind_res_Inr_iff)
next
  case (step_retry_failed now w v x)
  have "plans_named (update_where p (\<lambda>r. r\<lparr>ep_state := PREPARED, ep_next_attempt_at := None,
      ep_updated_at := now\<rparr>) (delete_where q (ev_parts db)))" for p q
    by (rule named_update_where [OF named_sub [OF named]]) auto
  then show ?thesis using step_retry_failed named by (auto simp: retry_failed_parts_def Let_def split: if_splits)
next
  case (step_claim w v limit now x)
  have "plans_named (update_where p (run_row now) (ev_parts db))" for p
    by (rule named_update_where [OF named]) (simp add: run_row_def)
  with step_claim named show ?thesis by (auto simp: claim_parts_with_tokens_def Let_def split: if_splits)
next
  case (step_mark now i n st x)
  then show ?thesis
    using named by (auto simp: mark_running_def Let_def run_row_def split: option.splits if_splits intro!: named_update_part)
next
  case (step_record i a tok x)
  from record_touches [OF step_record(1)] named show ?thesis by (rule touches_named)
next
  case (step_resume i tok n now x)
  from resume_touches [OF step_resume(1)] named show ?thesis by (rule touches_named)
next
  case (step_fail i tok t x)
  from fail_touches [OF step_fail(1)] named show ?thesis by (rule touches_named)
next
  case (step_pause i tok t)
  from pause_touches [OF step_pause(1)] named show ?thesis by (rule touches_named)
next
  case (step_reuse i key tok t x)
  from reuse_touches [OF step_reuse(1)] named touches_named show ?thesis by blast
next
  case (step_publish i u key tok t x)
  from inv have "distinct (map ep_part_id (ev_parts db))" by (simp add: evidence_inv_defs)
  from publish_touches [OF step_publish(1) this] named touches_named show ?thesis by blast
next
  case (step_snapshot s x)
  then show ?thesis
    using named by (auto simp: save_snapshot_def bind_res_Inr_iff split: if_splits option.splits)
next
  case (step_invalidate now w v e x)
  then show ?thesis
    using named by (auto simp: invalidate_entry_with_revocations_def Let_def intro!: named_update_where split: if_splits)
next
  case (step_delete_parts w v e x)
  then show ?thesis
    using named by (auto simp: delete_invalidated_entry_parts_def Let_def intro: named_sub split: if_splits)
next
  case (step_recover now x)
  then show ?thesis using named by (auto simp: recover_unfinished_parts_def intro!: named_update_where)
qed (use named in \<open>auto simp: ensure_run_deadline_def delete_snapshot_def complete_snapshot_revocation_def
    begin_workspace_deletion_def delete_evidence_workspace_def delete_evidence_rows_def Let_def
    intro: named_sub split: option.splits if_splits\<close>)

lemma reach_named: "reach evidence_init (evidence_step H) db \<Longrightarrow> plans_named (ev_parts db)"
proof (induction rule: reach.induct)
  case (reach_step s t)
  from step_named [OF reach_step(2) reach_step.IH evidence.reach_inv [OF reach_step(1)]] show ?case .
qed (simp add: evidence_init_def new_evidence_db_def plans_named_def)

lemma reach_distinct: "reach evidence_init (evidence_step H) db \<Longrightarrow> distinct (map ep_part_id (ev_parts db))"
  using evidence.reach_inv by (auto simp: evidence_inv_defs)

text \<open>what a claim hands out, for a limit of at least zero\<close>

lemma claim_result:
  assumes reach: "reach evidence_init (evidence_step H) db"
    and res: "claim_parts_with_tokens H w v limit now db = Inr (claims, db')" and some: "claims \<noteq> []"
  shows "\<exists>rows. rows = take (nat limit) (order_by claim_order (filter (claimable w v now) (ev_parts db))) \<and>
    claims = map (claim_of H) rows \<and>
    ev_parts db' = map (\<lambda>r. if r \<in> set rows then run_row now r else r) (ev_parts db) \<and>
    claimed_ids claims = map ep_part_id rows"
proof -
  let ?rows = "take (nat limit) (order_by claim_order (filter (claimable w v now) (ev_parts db)))"
  from evidence.reach_inv [OF reach] have inv: "evidence_inv db" .
  have inside: "r \<in> set (ev_parts db)" if "r \<in> set ?rows" for r using in_set_takeD [OF that] by auto
  have eq: "claims = map (claim_of H) ?rows"
    "db' = db\<lparr>ev_parts := update_where (\<lambda>r. ep_part_id r \<in> set (map ep_part_id ?rows)) (run_row now) (ev_parts db)\<rparr>"
    using res some unfolding claim_parts_with_tokens_def Let_def
    by (metis Inl_Inr_False Inr_inject prod.inject)+
  have "ep_part_id r \<in> set (map ep_part_id ?rows) \<longleftrightarrow> r \<in> set ?rows" if "r \<in> set (ev_parts db)" for r
    using part_unique [OF inv that inside] by fastforce
  then have "ev_parts db' = map (\<lambda>r. if r \<in> set ?rows then run_row now r else r) (ev_parts db)"
    unfolding eq(2) update_where_def by simp
  moreover have "claimed_ids claims = map ep_part_id ?rows"
    unfolding eq(1) claimed_ids_def map_map
  proof (rule map_cong [OF refl])
    fix r
    assume "r \<in> set ?rows"
    with inside reach_named [OF reach] have "pl_part_id (ep_plan r) = ep_part_id r" unfolding plans_named_def by blast
    then show "((\<lambda>c. pl_part_id (cm_plan c)) \<circ> claim_of H) r = ep_part_id r"
      by (simp add: claim_of_def part_of_row_def)
  qed
  ultimately show ?thesis using eq(1) by blast
qed

lemma taken_first:
  assumes "sorted (map k xs)" and "x \<in> set (take n xs)" and "y \<in> set xs" and "y \<notin> set (take n xs)"
  shows "k x \<le> k y"
proof -
  from assms(3,4) have y: "y \<in> set (drop n xs)" by (metis Un_iff append_take_drop_id set_append)
  have "sorted (map k (take n xs) @ map k (drop n xs))" using assms(1) by (metis append_take_drop_id map_append)
  with assms(2) y show ?thesis by (simp add: sorted_append)
qed

lemma order_by_sorted: "sorted (map k (order_by k rows))"
  by (simp add: order_by_def)

lemma claims_in_order:
  assumes "reach evidence_init (evidence_step H) db"
    and "claim_parts_with_tokens H w v limit now db = Inr (claims, db')"
  shows "length claims \<le> nat limit \<and> distinct (claimed_ids claims) \<and>
    (\<forall>c \<in> set claims. \<exists>r r'. part_row db (pl_part_id (cm_plan c)) = Some r \<and> claimable w v now r \<and>
       part_row db' (pl_part_id (cm_plan c)) = Some r' \<and> ep_state r' = RUNNING \<and> cm_claim_token c = row_token H r' \<and>
       (\<forall>q \<in> set (ev_parts db). claimable w v now q \<longrightarrow> ep_part_id q \<notin> set (claimed_ids claims) \<longrightarrow>
          claim_order r \<le> claim_order q))"
proof (cases "claims = []")
  case False
  let ?all = "order_by claim_order (filter (claimable w v now) (ev_parts db))"
  from claim_result [OF assms False] obtain rows where rows: "rows = take (nat limit) ?all"
    "claims = map (claim_of H) rows" "ev_parts db' = map (\<lambda>r. if r \<in> set rows then run_row now r else r) (ev_parts db)"
    "claimed_ids claims = map ep_part_id rows" by blast
  from evidence.reach_inv [OF assms(1)] have inv: "evidence_inv db" .
  have inv': "evidence_inv db'" by (rule claim_inv [OF inv assms(2)])
  have "distinct (claimed_ids claims)"
    using claims_touch(1) [OF assms(2) reach_distinct [OF assms(1)]] reach_named [OF assms(1)]
    by (simp add: plans_named_def)
  moreover have "\<exists>r r'. part_row db (pl_part_id (cm_plan c)) = Some r \<and> claimable w v now r \<and>
       part_row db' (pl_part_id (cm_plan c)) = Some r' \<and> ep_state r' = RUNNING \<and> cm_claim_token c = row_token H r' \<and>
       (\<forall>q \<in> set (ev_parts db). claimable w v now q \<longrightarrow> ep_part_id q \<notin> set (claimed_ids claims) \<longrightarrow>
          claim_order r \<le> claim_order q)" if c: "c \<in> set claims" for c
  proof -
    from c obtain r where r: "r \<in> set rows" "c = claim_of H r" by (auto simp: rows(2))
    then have inside: "r \<in> set (ev_parts db)" "claimable w v now r"
      using in_set_takeD [of r "nat limit" ?all] by (auto simp: rows(1))
    have id: "pl_part_id (cm_plan c) = ep_part_id r"
      using reach_named [OF assms(1)] inside(1) r(2) by (simp add: plans_named_def claim_of_def part_of_row_def)
    have "run_row now r \<in> set (ev_parts db')" using inside(1) r(1) by (auto simp: rows(3))
    from part_row_in [OF inv' this] have now: "part_row db' (pl_part_id (cm_plan c)) = Some (run_row now r)"
      by (simp add: id)
    have "claim_order r \<le> claim_order q"
      if q: "q \<in> set (ev_parts db)" "claimable w v now q" "ep_part_id q \<notin> set (claimed_ids claims)" for q
    proof (rule taken_first [where k = claim_order and xs = ?all and n = "nat limit", OF order_by_sorted])
      show "r \<in> set (take (nat limit) ?all)" using r(1) by (simp add: rows(1))
      show "q \<in> set ?all" using q by simp
      show "q \<notin> set (take (nat limit) ?all)" using q(3) by (auto simp: rows(4) rows(1) [symmetric])
    qed
    moreover have "cm_claim_token c = row_token H (run_row now r)" "ep_state (run_row now r) = RUNNING"
      by (simp_all add: r(2) claim_of_def row_token_def run_row_def)
    ultimately show ?thesis using part_row_in [OF inv inside(1)] inside(2) now id by auto
  qed
  moreover have "length claims \<le> nat limit" by (simp add: rows(1,2))
  ultimately show ?thesis by blast
qed (simp add: claimed_ids_def)

text \<open>
  C21: a claim takes at most \<open>limit\<close> parts, each once and each claimable; no claimable part it leaves
  comes before one it takes in the order of priority, scheduling rank, ordinal and identifier; and
  each part taken is running in the table, under the token handed out.
\<close>

theorem claims_follow_priority:
  assumes "reach evidence_init (evidence_step H) db"
    and "claim_parts_with_tokens H w v limit now db = Inr (claims, db')"
  shows "length claims \<le> nat limit \<and> distinct (claimed_ids claims) \<and>
    (\<forall>c \<in> set claims. \<exists>r r'. part_row db (pl_part_id (cm_plan c)) = Some r \<and> claimable w v now r \<and>
       part_row db' (pl_part_id (cm_plan c)) = Some r' \<and> ep_state r' = RUNNING \<and> cm_claim_token c = row_token H r' \<and>
       (\<forall>q \<in> set (ev_parts db). claimable w v now q \<longrightarrow> ep_part_id q \<notin> set (claimed_ids claims) \<longrightarrow>
          (ep_priority r, ep_scheduling_rank r, ep_ordinal r, ep_part_id r) \<le>
          (ep_priority q, ep_scheduling_rank q, ep_ordinal q, ep_part_id q)))"
  using claims_in_order [OF assms] unfolding claim_order_def .

lemma claims_follow_priority_witness:
  "\<exists>claims. claim_parts_with_tokens id ''w'' ''v'' 1 2 evd_planned = Inr (claims, evd_claimed) \<and>
     length claims \<le> nat 1 \<and> distinct (claimed_ids claims)"
proof -
  from ran_result [OF evd_ran(1)] obtain claims where
    "claim_parts_with_tokens id ''w'' ''v'' 1 2 evd_planned = Inr (claims, evd_claimed)"
    unfolding evd_claimed_def by blast
  with claims_follow_priority [OF reach_demo(1) this] show ?thesis by blast
qed

section \<open>Publication\<close>

lemma processed_part_now:
  "part_row db i = Some r \<Longrightarrow> part_row (processed_part i t db) i =
     Some (r\<lparr>ep_state := PROCESSED, ep_next_attempt_at := None, ep_updated_at := t\<rparr>)"
  by (simp add: processed_part_def part_row_update_part)

lemma row_of_snoc: "row_of k i xs = None \<Longrightarrow> k x = i \<Longrightarrow> row_of k i (xs @ [x]) = Some x"
  by (simp add: row_of_append)

text \<open>
  C20: evidence published for the first time under a running claim is what the cache returns for its
  key and what the part's newest unit is; the part is processed, and publishing the same unit once
  more, at whatever time, succeeds without a change.
\<close>

theorem published_evidence_is_found:
  assumes "reach evidence_init (evidence_step H) db"
    and "publish_evidence H i u key tok t db = Inr (True, db')"
    and "get_evidence_unit (un_evidence_unit_id u) db = None"
  shows "cached_evidence H key db' = Some u \<and> get_evidence_unit (un_evidence_unit_id u) db' = Some u \<and>
    map_option eu_unit (newest_unit i db') = Some u \<and>
    map_option ep_state (part_row db' i) = Some PROCESSED \<and>
    publish_evidence H i u key tok t' db' = Inr (False, db')"
  using assms(2)
proof (cases rule: publish_cases)
  case (fresh r)
  from evidence.reach_inv [OF assms(1)] have inv: "evidence_inv db" .
  have none: "row_of eu_evidence_unit_id (un_evidence_unit_id u) (ev_units db) = None"
    using assms(3) by (simp add: get_evidence_unit_def)
  have db': "ev_units db' = ev_units db @ [unit_row H i u t]" "ev_cache db' = ev_cache db @ [cache_row H r u key t]"
    using fresh(10) none by (simp_all add: processed_part_commute)
  have unit: "row_of eu_evidence_unit_id (un_evidence_unit_id u) (ev_units db') = Some (unit_row H i u t)"
    unfolding db' by (rule row_of_snoc [OF none]) (simp add: unit_row_def)
  have cache: "row_of ec_cache_digest (H key) (ev_cache db') = Some (cache_row H r u key t)"
    unfolding db' by (rule row_of_snoc [OF cache_entry_None [OF inv fresh(8)]]) (simp add: cache_row_def)
  have entry: "cache_entry H key db' = Some (cache_row H r u key t, unit_row H i u t)"
    using unit by (simp add: cache_entry_def cache) (simp add: cache_row_def)
  let ?r = "r\<lparr>ep_state := PROCESSED, ep_next_attempt_at := None, ep_updated_at := t\<rparr>"
  have row: "part_row db' i = Some ?r"
    using processed_part_now [OF fresh(3)] fresh(10) by (simp add: processed_part_commute)
  have meta: "ev_meta db' = ev_meta db" using fresh(10) by (simp add: processed_part_def update_part_def)
  have "already_published H ?r u (Some (cache_row H r u key t, unit_row H i u t))"
    using part_row_Some [OF fresh(3)] by (simp add: already_published_def cache_row_def unit_row_def)
  moreover have "row_is_current H db' ?r" "tok = row_token H ?r"
    using fresh(4,5) meta by (simp_all add: row_is_current_def current_revision_id_def row_token_def)
  ultimately have "publish_evidence H i u key tok t' db' = Inr (False, db')"
    using fresh(2,6) row entry by (simp add: publish_evidence_def)
  then show ?thesis
    using entry unit row
    by (simp add: cached_evidence_def get_evidence_unit_def newest_unit_def db' unit_row_def first_row_def)
qed simp

lemma evd_unpublished: "get_evidence_unit ''u'' evd_claimed = None"
  by code_simp

lemma evd_publish_true: "publish_evidence id ''p'' evd_unit ''ck'' evd_token 3 evd_claimed = Inr (True, evd_published)"
proof -
  obtain x where x: "publish_evidence id ''p'' evd_unit ''ck'' evd_token 3 evd_claimed = Inr (x, evd_published)"
    using ran_result [OF evd_ran(2)] unfolding evd_published_def by blast
  have "x = True"
    using x
  proof (cases rule: publish_cases)
    case (repeated r)
    then have "evd_row evd_claimed = r" using evd_rows(1) by simp
    moreover have "ep_state (evd_row evd_claimed) = RUNNING" by code_simp
    ultimately show ?thesis using repeated by simp
  qed simp
  with x show ?thesis by simp
qed

lemma published_evidence_is_found_witness: "cached_evidence id ''ck'' evd_published = Some evd_unit"
  using published_evidence_is_found [OF reach_demo(2) evd_publish_true] evd_unpublished
  by (simp add: evd_unit_def)

section \<open>Invalidation\<close>

lemma snapshots_revision:
  assumes inv: "evidence_inv db" and s: "s \<in> set (ev_snapshots db)"
    and dep: "(es_snapshot_id s, i) \<in> set (ev_dependencies db)"
    and u: "u \<in> set (ev_units db)" "eu_evidence_unit_id u = i"
    and r: "r \<in> set (ev_parts db)" "eu_source_part_id u = ep_part_id r"
  shows "in_revision (es_workspace_id s) (es_revision_id s) r"
proof -
  from inv dep obtain s' u' r' where found: "s' \<in> set (ev_snapshots db)" "u' \<in> set (ev_units db)"
    "r' \<in> set (ev_parts db)" "es_snapshot_id s' = es_snapshot_id s" "eu_evidence_unit_id u' = i"
    "ep_part_id r' = eu_source_part_id u'" "in_revision (es_workspace_id s') (es_revision_id s') r'"
    by (fastforce simp: evidence_inv_def dependencies_backed_def supports_def)
  have keys: "inj_on es_snapshot_id (set (ev_snapshots db))" "inj_on eu_evidence_unit_id (set (ev_units db))"
    using inv by (simp_all add: evidence_inv_def keys_unique_def distinct_map)
  have "s' = s" using inj_onD [OF keys(1) found(4) found(1) s] .
  moreover have "u' = u" using inj_onD [OF keys(2) _ found(2) u(1)] found(5) u(2) by simp
  moreover have "r' = r" using part_unique [OF inv r(1) found(3)] found(6) r(2) \<open>u' = u\<close> by simp
  ultimately show ?thesis using found(7) by simp
qed

lemma add_revocation_keeps: "r \<in> set rows \<Longrightarrow> r \<in> set (add_revocation now w i rows)"
  by (simp add: add_revocation_def)

lemma add_revocation_adds: "\<exists>r \<in> set (add_revocation now w i rows). er_snapshot_id r = i"
proof (cases "row_of er_snapshot_id i rows")
  case (Some r)
  then show ?thesis using row_of_Some [OF Some] by (auto simp: add_revocation_def)
qed (simp add: add_revocation_def)

lemma add_revocations_keep: "r \<in> set rows \<Longrightarrow> r \<in> set (fold (add_revocation now w) ids rows)"
  by (induction ids arbitrary: rows) (simp_all add: add_revocation_keeps)

lemma add_revocations:
  "i \<in> set ids \<Longrightarrow> \<exists>r \<in> set (fold (add_revocation now w) ids rows). er_snapshot_id r = i"
proof (induction ids arbitrary: rows)
  case (Cons j js)
  show ?case
  proof (cases "i = j")
    case True
    from add_revocation_adds [of now w j rows] obtain r where r: "r \<in> set (add_revocation now w j rows)"
      "er_snapshot_id r = j" by blast
    from add_revocations_keep [OF r(1)] r(2) True show ?thesis by auto
  qed (use Cons in auto)
qed simp

lemma invalidation_outcome:
  assumes "reach evidence_init (evidence_step H) db"
    and "invalidate_entry_with_revocations now w v e db = ((part_ids, snapshot_ids), db')"
  shows "(\<forall>r \<in> set (ev_parts db'). in_revision w v r \<and> ep_entry_id r = e \<longrightarrow>
      ep_state r = INVALIDATED \<and> units_of_part (ep_part_id r) db' = []) \<and>
    (\<forall>s \<in> set (ev_snapshots db). \<forall>u \<in> set (ev_units db). \<forall>r \<in> set (ev_parts db).
      eu_evidence_unit_id u \<in> set (sn_evidence_unit_ids (es_snapshot s)) \<and> eu_source_part_id u = ep_part_id r \<and>
      in_revision w v r \<and> ep_entry_id r = e \<longrightarrow>
      s \<notin> set (ev_snapshots db') \<and> es_snapshot_id s \<in> set snapshot_ids \<and>
      es_snapshot_id s \<in> er_snapshot_id ` set (ev_revocations db'))"
proof (cases "entry_parts w v e db = []")
  case True
  then have "\<not> (in_revision w v r \<and> ep_entry_id r = e)" if "r \<in> set (ev_parts db)" for r
    using that by (auto simp: entry_parts_def filter_empty_conv)
  moreover have "db' = db" using assms(2) True by (simp add: invalidate_entry_with_revocations_def)
  ultimately show ?thesis by blast
next
  case False
  from evidence.reach_inv [OF assms(1)] have inv: "evidence_inv db" .
  define ids where "ids = map ep_part_id (entry_parts w v e db)"
  define units where "units = map eu_evidence_unit_id (filter (\<lambda>u. eu_source_part_id u \<in> set ids) (ev_units db))"
  define rev where "rev = fold (add_revocation now w) (revoked_snapshots units w v db) (ev_revocations db)"
  have "((ids, revoked_snapshots units w v db), let db3 = delete_units (\<lambda>u. eu_source_part_id u \<in> set ids)
        (delete_dependent_snapshots units w v (db\<lparr>ev_revocations := rev\<rparr>)) in
      db3\<lparr>ev_parts := update_where (\<lambda>r. ep_part_id r \<in> set ids)
        (\<lambda>r. r\<lparr>ep_state := INVALIDATED, ep_next_attempt_at := None, ep_updated_at := now\<rparr>) (ev_parts db3)\<rparr>) =
      ((part_ids, snapshot_ids), db')"
    using assms(2) False unfolding invalidate_entry_with_revocations_def Let_def ids_def units_def rev_def
    by (simp only: map_is_Nil_conv if_False)
  then have res: "snapshot_ids = revoked_snapshots units w v db"
    "db' = (let db3 = delete_units (\<lambda>u. eu_source_part_id u \<in> set ids)
        (delete_dependent_snapshots units w v (db\<lparr>ev_revocations := rev\<rparr>)) in
      db3\<lparr>ev_parts := update_where (\<lambda>r. ep_part_id r \<in> set ids)
        (\<lambda>r. r\<lparr>ep_state := INVALIDATED, ep_next_attempt_at := None, ep_updated_at := now\<rparr>) (ev_parts db3)\<rparr>)"
    unfolding prod.inject by blast+
  have tables: "ev_parts db' = update_where (\<lambda>r. ep_part_id r \<in> set ids)
        (\<lambda>r. r\<lparr>ep_state := INVALIDATED, ep_next_attempt_at := None, ep_updated_at := now\<rparr>) (ev_parts db)"
    "ev_units db' = delete_where (\<lambda>u. eu_source_part_id u \<in> set ids) (ev_units db)"
    "ev_revocations db' = rev"
    "ev_snapshots db' = delete_where (\<lambda>s. es_workspace_id s = w \<and> es_revision_id s = v \<and>
       depends_on_any units db (es_snapshot_id s)) (ev_snapshots db)"
    by (simp_all add: res(2) Let_def delete_units_def delete_dependent_snapshots_def delete_snapshots_def
        depends_on_any_def)
  have member: "ep_part_id r \<in> set ids" if "r \<in> set (ev_parts db)" "in_revision w v r" "ep_entry_id r = e" for r
    using that by (auto simp: ids_def entry_parts_def)
  have parts: "ep_state r = INVALIDATED \<and> units_of_part (ep_part_id r) db' = []"
    if r: "r \<in> set (ev_parts db')" "in_revision w v r" "ep_entry_id r = e" for r
  proof -
    from r(1) obtain r0 where r0: "r0 \<in> set (ev_parts db)" "r = (if ep_part_id r0 \<in> set ids
        then r0\<lparr>ep_state := INVALIDATED, ep_next_attempt_at := None, ep_updated_at := now\<rparr> else r0)"
      unfolding tables(1) set_update_where by blast
    then have "in_revision w v r0" "ep_entry_id r0 = e"
      using r(2,3) by (auto simp: in_revision_def split: if_splits)
    from member [OF r0(1) this] r0(2) have "ep_state r = INVALIDATED" "ep_part_id r \<in> set ids" by simp_all
    then show ?thesis by (auto simp: units_of_part_def tables(2) filter_empty_conv)
  qed
  have snapshots: "s \<notin> set (ev_snapshots db') \<and> es_snapshot_id s \<in> set snapshot_ids \<and>
      es_snapshot_id s \<in> er_snapshot_id ` set (ev_revocations db')"
    if s: "s \<in> set (ev_snapshots db)" "u \<in> set (ev_units db)" "r \<in> set (ev_parts db)"
      "eu_evidence_unit_id u \<in> set (sn_evidence_unit_ids (es_snapshot s))" "eu_source_part_id u = ep_part_id r"
      "in_revision w v r" "ep_entry_id r = e" for s u r
  proof -
    have unit: "eu_evidence_unit_id u \<in> set units"
      using s(2,5) member [OF s(3,6,7)] by (auto simp: units_def)
    have dep: "(es_snapshot_id s, eu_evidence_unit_id u) \<in> set (ev_dependencies db)"
      using inv s(1,4) by (auto simp: evidence_inv_defs)
    then have depends: "depends_on_any units db (es_snapshot_id s)"
      using unit unfolding depends_on_any_def list_ex_iff by (metis fst_conv snd_conv)
    from snapshots_revision [OF inv s(1) dep s(2) refl s(3) s(5)] s(6)
    have rev_of: "es_workspace_id s = w" "es_revision_id s = v" by (auto simp: in_revision_def)
    have "es_snapshot_id s \<in> set snapshot_ids"
      using s(1) depends rev_of by (auto simp: res(1) revoked_snapshots_def)
    moreover from add_revocations [OF this] have "es_snapshot_id s \<in> er_snapshot_id ` set (ev_revocations db')"
      unfolding tables(3) rev_def res(1) by (metis imageI)
    ultimately show ?thesis using depends rev_of by (simp add: tables(4))
  qed
  from parts snapshots show ?thesis by blast
qed

text \<open>
  C22: invalidating an entry leaves every part of it invalidated and without evidence, and every saved
  study map that named evidence of the entry is gone and recorded as revoked.
\<close>

theorem invalidated_entry_revoked:
  assumes "reach evidence_init (evidence_step H) db"
    and "invalidate_entry_with_revocations now w v e db = ((part_ids, snapshot_ids), db')"
  shows "(\<forall>r \<in> set (ev_parts db'). in_revision w v r \<and> ep_entry_id r = e \<longrightarrow>
      ep_state r = INVALIDATED \<and> units_of_part (ep_part_id r) db' = []) \<and>
    (\<forall>s \<in> set (ev_snapshots db). \<forall>u \<in> set (ev_units db). \<forall>r \<in> set (ev_parts db).
      eu_evidence_unit_id u \<in> set (sn_evidence_unit_ids (es_snapshot s)) \<and> eu_source_part_id u = ep_part_id r \<and>
      in_revision w v r \<and> ep_entry_id r = e \<longrightarrow>
      s \<notin> set (ev_snapshots db') \<and> es_snapshot_id s \<in> set snapshot_ids \<and>
      es_snapshot_id s \<in> er_snapshot_id ` set (ev_revocations db'))"
  using assms by (rule invalidation_outcome)

text \<open>a witness: a study map over the published unit, then the entry is invalidated\<close>

definition evd_snapshot :: StudyMapSnapshot where
  "evd_snapshot = \<lparr>sn_snapshot_id = ''m'', sn_workspace_id = ''w'', sn_revision_id = ''v'', sn_status = INITIAL,
     sn_nodes = [\<lparr>kn_node_id = ''n'', kn_title = ''t'', kn_focus_score = 1, kn_confidence = 1,
       kn_evidence_unit_ids = [''u''], kn_parent_node_id = None, kn_prerequisite_node_ids = [],
       kn_course_group_id = None\<rparr>],
     sn_coverage = None, sn_evidence_unit_ids = [''u''], sn_created_at = 5, sn_course_groups = [],
     sn_limitations = [], sn_citations = [], sn_response_language = None, sn_superseded_snapshot_id = None\<rparr>"

definition evd_saved :: evidence_db where
  "evd_saved = result_db (save_snapshot id evd_snapshot evd_published)"

definition evd_saved_row :: SnapshotRow where
  "evd_saved_row = \<lparr>es_snapshot_id = ''m'', es_workspace_id = ''w'', es_revision_id = ''v'', es_status = INITIAL,
     es_snapshot = evd_snapshot, es_created_at = 5\<rparr>"

lemma evd_save_ran: "ran (save_snapshot id evd_snapshot evd_published)"
  by code_simp

lemma reach_saved: "reach evidence_init (evidence_step id) evd_saved"
  using ran_result [OF evd_save_ran] reach_demo(3) unfolding evd_saved_def by (blast intro: reach_step step_snapshot)

lemma evd_saved_snapshots: "ev_snapshots evd_saved = [evd_saved_row]"
  by code_simp

lemma snapshots_never_dangle_witness: "\<exists>u \<in> set (ev_units evd_saved). eu_evidence_unit_id u = ''u''"
  using snapshots_never_dangle [OF reach_saved, of evd_saved_row "''u''"] evd_saved_snapshots
  by (auto simp: evd_saved_row_def evd_snapshot_def)

definition evd_invalidated :: "(string list \<times> string list) \<times> evidence_db" where
  "evd_invalidated = invalidate_entry_with_revocations 6 ''w'' ''v'' ''e'' evd_saved"

lemma evd_saved_rows:
  "list_ex (\<lambda>u. eu_evidence_unit_id u = ''u'' \<and> eu_source_part_id u = ''p'') (ev_units evd_saved)"
  "list_ex (\<lambda>r. ep_part_id r = ''p'' \<and> in_revision ''w'' ''v'' r \<and> ep_entry_id r = ''e'') (ev_parts evd_saved)"
  by code_simp+

lemma invalidated_entry_revoked_witness:
  "evd_saved_row \<notin> set (ev_snapshots (snd evd_invalidated)) \<and>
   ''m'' \<in> er_snapshot_id ` set (ev_revocations (snd evd_invalidated))"
proof -
  obtain ps ss db' where res: "invalidate_entry_with_revocations 6 ''w'' ''v'' ''e'' evd_saved = ((ps, ss), db')"
    by (metis prod.exhaust)
  from evd_saved_rows obtain u r where rows: "u \<in> set (ev_units evd_saved)" "eu_evidence_unit_id u = ''u''"
    "eu_source_part_id u = ''p''" "r \<in> set (ev_parts evd_saved)" "ep_part_id r = ''p''" "in_revision ''w'' ''v'' r"
    "ep_entry_id r = ''e''" by (auto simp: list_ex_iff)
  have s: "evd_saved_row \<in> set (ev_snapshots evd_saved)" by (simp add: evd_saved_snapshots)
  have cited: "eu_evidence_unit_id u \<in> set (sn_evidence_unit_ids (es_snapshot evd_saved_row))"
    by (simp add: rows(2) evd_saved_row_def evd_snapshot_def)
  from invalidated_entry_revoked [OF reach_saved res, THEN conjunct2] s rows(1,4) cited rows(3,5,6,7)
  have "evd_saved_row \<notin> set (ev_snapshots db')" "es_snapshot_id evd_saved_row \<in> er_snapshot_id ` set (ev_revocations db')"
    by metis+
  then show ?thesis by (simp add: evd_invalidated_def res evd_saved_row_def)
qed

section \<open>Text\<close>

text \<open>
  No text with a URL is accepted: the pattern for Windows paths matches the last letter of the
  scheme, its colon and the slash, so a citation or a title may not even name a public web page.
\<close>

theorem urls_never_safe:
  assumes "rx_letter c"
  shows "validate_safe_evidence_text (a @ c # ''://'' @ b) = Inl ValueError"
  using assms by (rule url_rejected)

lemma urls_never_safe_witness: "validate_safe_evidence_text (''see http'' @ ''://example.org'') = Inl ValueError"
proof -
  have "rx_letter CHR ''p''" by (simp add: rx_letter_def is_lower_def LOWERCASE_def)
  from urls_never_safe [OF this, of "''see htt''" "''example.org''"] show ?thesis by simp
qed

section \<open>The scheduler\<close>


text \<open>
  C24: with a clock that never goes back and a sleep that takes its time, \<open>run_to_completion\<close> returns on
  every reachable database when no other thread changes it meanwhile, whatever the provider answers;
  its pending count is the number of unfinished parts of the revision, and it reports completion only
  when there is none.
\<close>

theorem run_to_completion_terminates:
  assumes "clock_laws env" and "alone env"
    and "reach evidence_init (evidence_step (en_sha256 env)) (sd_db s)"
  shows "\<exists>outcome t. run_to_completion env w v s = Some (Inr outcome, t) \<and>
    so_pending_count outcome = length (filter (pending_row w v) (ev_parts (sd_db t))) \<and>
    (so_status outcome = COMPLETE_STATUS \<longrightarrow> so_pending_count outcome = 0)"
proof -
  let ?s = "s\<lparr>sd_env := snd (en_monotonic env (sd_env s))\<rparr>"
  have "distinct (map ep_part_id (ev_parts (sd_db ?s)))" using reach_distinct [OF assms(3)] by simp
  moreover have "\<forall>r \<in> set (ev_parts (sd_db ?s)). pl_part_id (ep_plan r) = ep_part_id r"
    using reach_named [OF assms(3)] by (simp add: plans_named_def)
  ultimately show ?thesis
    using completion_returns [OF assms(2,1), of ?s w v]
    unfolding run_to_completion_def by (subst bindS_Inr [OF envS_run]) (fastforce simp: pending_in_rows)
qed

text \<open>a witness: a provider that is always busy, under a clock that a sleep moves on\<close>

definition evd_route :: EvidenceRouteIdentity where
  "evd_route = \<lparr>ri_provider = ''x'', ri_model_route = ''y'', ri_model_id = ''z'',
     ri_capability_fingerprint = ''f'', ri_profile_fingerprint = ''g''\<rparr>"

definition evd_env :: "(rat, unit) environment" where
  "evd_env = \<lparr>en_sha256 = id, en_sha256_bytes = id, en_policy = DEFAULT_EVIDENCE_POLICY,
     en_wall = (\<lambda>e. (\<lfloor>e\<rfloor>, e)), en_monotonic = (\<lambda>e. (e, e)), en_stop = (\<lambda>e. (False, e)),
     en_sleep = (\<lambda>d e. e + d), en_others = (\<lambda>e db. (db, e)), en_route = (\<lambda>e. (Inr evd_route, e)),
     en_enter = (\<lambda>_ e. (Inr (), e)), en_exit = (\<lambda>_ e. (Inr (), e)), en_open_part = (\<lambda>_ e. (Inr ''1'', e)),
     en_analyze = (\<lambda>_ e. (Inl (ProviderError \<lparr>pe_code = ''busy'', pe_retryable = True,
       pe_retry_after_seconds = None\<rparr>), e)),
     en_validate = (\<lambda>_ _ _ e. (Inl OtherError, e))\<rparr>"

definition evd_start :: "rat sched" where
  "evd_start = \<lparr>sd_env = 0, sd_db = evd_planned, sd_token = [], sd_log = []\<rparr>"

lemma evd_env_laws: "clock_laws evd_env" "alone evd_env" "en_sha256 evd_env = id"
  by (simp_all add: clock_laws_def alone_def reading_def evd_env_def)

lemma run_to_completion_terminates_witness:
  "\<exists>outcome t. run_to_completion evd_env ''w'' ''v'' evd_start = Some (Inr outcome, t)"
  using run_to_completion_terminates [OF evd_env_laws(1,2), of evd_start "''w''" "''v''"] reach_demo(1)
  by (auto simp: evd_env_laws(3) evd_start_def)



end
