(* ===== verification/Registry.thy ===== *)
theory Registry
  imports Py_Text "HOL-Library.AList"
begin

text \<open>
  The evidence artifact registry of \<open>evidence/registry.py\<close> as a state machine over its in-memory
  state: the claims on workspaces and artifacts, the publish intents and journals, the delete
  journal, the validation of a state and of the rows a caller passes, and one mutator per
  operation. A dict is the list of its items in insertion order. \<open>Registry_Log\<close> adds the file the
  states are kept in.
\<close>

section \<open>Data\<close>

datatype registry_code =
    Claim_Invalid
  | State_Conflict
  | Slot_Revoked
  | Publish_Pending
  | Registry_Corrupt
  | Operation_Failed
  | Identity_Changed
  | Registry_Closed
  | Legacy_State

text \<open>
  \<open>RegistryError(code)\<close>, the exceptions decoding a record turns into \<open>registry_corrupt\<close>
  (\<open>ValueError\<close>, \<open>TypeError\<close>, \<open>UnicodeError\<close>), and the \<open>OwnedFilesystemError\<close> of a call on the
  pinned directory, which \<open>_initialize\<close> lets through.
\<close>

datatype registry_error =
    RegistryError registry_code
  | DecodeError
  | OwnedFilesystemError

type_synonym file_identity = "int \<times> int"

definition REGISTRY_COLLECTIONS :: "string list" where
  "REGISTRY_COLLECTIONS = [''parts'', ''units'', ''snapshots'']"

definition KIND_BY_COLLECTION :: "(string \<times> string) list" where
  "KIND_BY_COLLECTION = [(''parts'', ''part''), (''units'', ''unit''), (''snapshots'', ''snapshot'')]"

definition PUBLISH_PHASES :: "string list" where
  "PUBLISH_PHASES = [''prepared'', ''backup'', ''installed'', ''committed'']"

definition DELETE_PHASES :: "string list" where
  "DELETE_PHASES = [''planned'', ''quarantined'', ''removed'']"

definition lower_hex :: "char \<Rightarrow> bool" where
  "lower_hex c \<longleftrightarrow> c \<in> set ''0123456789abcdef''"

text \<open>\<open>_SHA256.fullmatch\<close> and \<open>_GENERATION.fullmatch\<close>\<close>

definition sha256_text :: "string \<Rightarrow> bool" where
  "sha256_text s \<longleftrightarrow> length s = 64 \<and> list_all lower_hex s"

definition generation_text :: "string \<Rightarrow> bool" where
  "generation_text s \<longleftrightarrow> length s = 32 \<and> list_all lower_hex s"

text \<open>\<open>sha256(b"{}").hexdigest()\<close>, a constant of the standard library's hash\<close>

definition REVOKED_ARTIFACT_SHA256 :: string where
  "REVOKED_ARTIFACT_SHA256 = ''44136fa355b3678a1146ad16f7e8649e94fb4fc21fe77e8310c060f61caaff8a''"

record workspace_claim =
  rw_workspace_id :: string
  rw_phase :: string
  rw_generation :: string
  rw_workspace_identity :: "file_identity option"
  rw_evidence_identity :: "file_identity option"

record artifact_claim =
  ra_workspace_id :: string
  ra_slot :: string
  ra_collection :: string
  ra_kind :: string
  ra_artifact_id :: string
  ra_identity :: file_identity
  ra_sha256 :: string
  ra_size :: int
  ra_generation :: string

record publish_intent =
  ri_workspace_id :: string
  ri_slot :: string
  ri_target_name :: string
  ri_temporary_name :: string
  ri_backup_name :: string
  ri_collection :: string
  ri_kind :: string
  ri_artifact_id :: string
  ri_expected_sha256 :: string
  ri_expected_size :: int
  ri_old_claim :: "artifact_claim option"
  ri_temporary_identity :: "file_identity option"
  ri_generation :: string

record publish_journal =
  rj_workspace_id :: string
  rj_slot :: string
  rj_phase :: string
  rj_target_name :: string
  rj_temporary_name :: string
  rj_backup_name :: string
  rj_new_claim :: artifact_claim
  rj_old_claim :: "artifact_claim option"
  rj_generation :: string

record delete_item =
  rd_workspace_id :: string
  rd_slot :: string
  rd_phase :: string
  rd_quarantine_name :: "string option"
  rd_claim :: artifact_claim
  rd_generation :: string

type_synonym slot_key = "string \<times> string"

record registry_state =
  rs_workspaces :: "(string \<times> workspace_claim) list"
  rs_collections :: "(string \<times> (string \<times> file_identity) list) list"
  rs_artifacts :: "(slot_key \<times> artifact_claim) list"
  rs_intents :: "(string \<times> publish_intent) list"
  rs_journals :: "(string \<times> publish_journal) list"
  rs_delete_items :: "(slot_key \<times> delete_item) list"

definition empty_registry_state :: registry_state where
  "empty_registry_state = \<lparr>rs_workspaces = [], rs_collections = [], rs_artifacts = [],
     rs_intents = [], rs_journals = [], rs_delete_items = []\<rparr>"

section \<open>Validation\<close>

type_synonym check = "registry_error + unit"

definition reject_if :: "bool \<Rightarrow> registry_code \<Rightarrow> check" where
  "reject_if bad code = (if bad then Inl (RegistryError code) else Inr ())"

text \<open>a loop whose body may raise\<close>

fun for_each :: "('a \<Rightarrow> check) \<Rightarrow> 'a list \<Rightarrow> check" where
  "for_each f [] = Inr ()"
| "for_each f (x # xs) = bind_res (f x) (\<lambda>_. for_each f xs)"

definition valid_name :: "string \<Rightarrow> bool" where
  "valid_name value \<longleftrightarrow> value \<notin> {[], ''.'', ''..''} \<and> CHR ''/'' \<notin> set value \<and> CHR 0x5C \<notin> set value \<and>
     CHR '':'' \<notin> set value \<and> CHR 0x00 \<notin> set value"

definition valid_identity :: "file_identity \<Rightarrow> bool" where
  "valid_identity i \<longleftrightarrow> 0 \<le> fst i \<and> 0 \<le> snd i"

definition validate_publish_token :: "string \<Rightarrow> string \<Rightarrow> check" where
  "validate_publish_token generation temporary_name =
     reject_if (\<not> generation_text generation \<or> \<not> valid_name temporary_name) Claim_Invalid"

definition validate_generation :: "string \<Rightarrow> check" where
  "validate_generation generation = reject_if (\<not> generation_text generation) Claim_Invalid"

definition delete_items_of :: "registry_state \<Rightarrow> string \<Rightarrow> delete_item list" where
  "delete_items_of st w =
     map snd (filter (\<lambda>kv. fst (fst kv) = w) (sort_key fst (rs_delete_items st)))"

text \<open>the old claim of an intent or journal names the same slot and generation\<close>

definition old_claim_mismatch :: "artifact_claim option \<Rightarrow> string \<Rightarrow> string \<Rightarrow> string \<Rightarrow> bool" where
  "old_claim_mismatch old w slot generation = (case old of None \<Rightarrow> False
     | Some c \<Rightarrow> ra_workspace_id c \<noteq> w \<or> ra_slot c \<noteq> slot \<or> ra_generation c \<noteq> generation)"

definition validate_publish_intent :: "publish_intent \<Rightarrow> check" where
  "validate_publish_intent i = reject_if
     (ri_expected_size i < 0
      \<or> \<not> sha256_text (ri_expected_sha256 i)
      \<or> \<not> generation_text (ri_generation i)
      \<or> ri_collection i \<notin> set REGISTRY_COLLECTIONS
      \<or> ri_slot i \<noteq> ri_collection i @ ''/'' @ ri_target_name i
      \<or> \<not> list_all valid_name [ri_target_name i, ri_temporary_name i, ri_backup_name i]
      \<or> (case ri_temporary_identity i of None \<Rightarrow> False | Some t \<Rightarrow> \<not> valid_identity t)
      \<or> old_claim_mismatch (ri_old_claim i) (ri_workspace_id i) (ri_slot i) (ri_generation i))
     Claim_Invalid"

definition validate_artifact_claim :: "artifact_claim \<Rightarrow> check" where
  "validate_artifact_claim c = (let slot_parts = split_on CHR ''/'' (ra_slot c) in reject_if
     (ra_collection c \<notin> set REGISTRY_COLLECTIONS
      \<or> length slot_parts \<noteq> 2
      \<or> slot_parts ! 0 \<noteq> ra_collection c
      \<or> \<not> valid_name (slot_parts ! 1)
      \<or> \<not> sha256_text (ra_sha256 c)
      \<or> \<not> generation_text (ra_generation c)
      \<or> ra_size c < 0
      \<or> \<not> valid_identity (ra_identity c))
     Claim_Invalid)"

definition validate_publish_journal :: "publish_journal \<Rightarrow> check" where
  "validate_publish_journal j =
     bind_res (reject_if
       (rj_phase j \<noteq> ''prepared''
        \<or> rj_workspace_id j \<noteq> ra_workspace_id (rj_new_claim j)
        \<or> rj_slot j \<noteq> ra_slot (rj_new_claim j)
        \<or> rj_generation j \<noteq> ra_generation (rj_new_claim j)
        \<or> \<not> generation_text (rj_generation j)
        \<or> rj_slot j \<noteq> ra_collection (rj_new_claim j) @ ''/'' @ rj_target_name j
        \<or> old_claim_mismatch (rj_old_claim j) (rj_workspace_id j) (rj_slot j) (rj_generation j))
       Claim_Invalid) (\<lambda>_.
     bind_res (validate_artifact_claim (rj_new_claim j)) (\<lambda>_.
     case rj_old_claim j of None \<Rightarrow> Inr () | Some c \<Rightarrow> validate_artifact_claim c))"

definition intent_for_journal :: "publish_journal \<Rightarrow> publish_intent" where
  "intent_for_journal j = (let claim = rj_new_claim j in
     \<lparr>ri_workspace_id = rj_workspace_id j, ri_slot = rj_slot j, ri_target_name = rj_target_name j,
      ri_temporary_name = rj_temporary_name j, ri_backup_name = rj_backup_name j,
      ri_collection = ra_collection claim, ri_kind = ra_kind claim,
      ri_artifact_id = ra_artifact_id claim, ri_expected_sha256 = ra_sha256 claim,
      ri_expected_size = ra_size claim, ri_old_claim = rj_old_claim j,
      ri_temporary_identity = Some (ra_identity claim), ri_generation = rj_generation j\<rparr>)"

definition has_suffix :: "string \<Rightarrow> string \<Rightarrow> bool" where
  "has_suffix suffix s \<longleftrightarrow> length suffix \<le> length s \<and> drop (length s - length suffix) s = suffix"

definition artifact_id_for_target :: "string \<Rightarrow> string \<Rightarrow> string option" where
  "artifact_id_for_target collection target_name =
     (if collection = ''parts'' then Some target_name
      else if collection \<in> {''units'', ''snapshots''} \<and> has_suffix ''.json'' target_name
      then Some (take (length target_name - 5) target_name)
      else None)"

text \<open>\<open>claim.slot.split("/", 1)[1] if "/" in claim.slot else ""\<close>\<close>

definition slot_target :: "string \<Rightarrow> string" where
  "slot_target slot = drop 1 (dropWhile (\<lambda>c. c \<noteq> CHR ''/'') slot)"

definition claim_route_valid :: "artifact_claim \<Rightarrow> bool" where
  "claim_route_valid c = (let target_name = slot_target (ra_slot c) in
     ra_collection c \<in> set REGISTRY_COLLECTIONS
     \<and> ra_slot c = ra_collection c @ ''/'' @ target_name
     \<and> Some (ra_kind c) = map_of KIND_BY_COLLECTION (ra_collection c)
     \<and> Some (ra_artifact_id c) = artifact_id_for_target (ra_collection c) target_name)"

text \<open>\<open>_validate_state\<close>, one definition for the body of each of its loops\<close>

definition collection_of :: "registry_state \<Rightarrow> string \<Rightarrow> (string \<times> file_identity) list" where
  "collection_of st w = (case map_of (rs_collections st) w of None \<Rightarrow> [] | Some c \<Rightarrow> c)"

definition has_all_collections :: "(string \<times> file_identity) list \<Rightarrow> bool" where
  "has_all_collections identities \<longleftrightarrow> set (map fst identities) = set REGISTRY_COLLECTIONS"

definition slots_of :: "string \<Rightarrow> (slot_key \<times> 'v) list \<Rightarrow> slot_key list" where
  "slots_of w items = filter (\<lambda>key. fst key = w) (map fst items)"

definition has_publish :: "registry_state \<Rightarrow> string \<Rightarrow> bool" where
  "has_publish st w \<longleftrightarrow> map_of (rs_intents st) w \<noteq> None \<or> map_of (rs_journals st) w \<noteq> None"

definition check_workspace_claim :: "registry_state \<Rightarrow> string \<times> workspace_claim \<Rightarrow> check" where
  "check_workspace_claim st kv = (let w = fst kv; claim = snd kv;
       artifact_keys = slots_of w (rs_artifacts st); delete_keys = slots_of w (rs_delete_items st) in
     bind_res (reject_if (rw_workspace_id claim \<noteq> w \<or> \<not> valid_name w
       \<or> rw_phase claim \<notin> {''reserved'', ''active'', ''deleting''}) Registry_Corrupt) (\<lambda>_.
     bind_res (reject_if (\<not> generation_text (rw_generation claim)) Registry_Corrupt) (\<lambda>_.
     if rw_phase claim = ''reserved'' then
       reject_if (rw_workspace_identity claim \<noteq> None \<or> rw_evidence_identity claim \<noteq> None
         \<or> map_of (rs_collections st) w \<noteq> None \<or> artifact_keys \<noteq> [] \<or> delete_keys \<noteq> []
         \<or> has_publish st w) Registry_Corrupt
     else
       bind_res (reject_if (rw_workspace_identity claim = None \<or> rw_evidence_identity claim = None
         \<or> \<not> has_all_collections (collection_of st w)) Registry_Corrupt) (\<lambda>_.
       bind_res (reject_if (rw_phase claim = ''active'' \<and> delete_keys \<noteq> []) Registry_Corrupt) (\<lambda>_.
       reject_if (rw_phase claim = ''deleting''
         \<and> (has_publish st w \<or> set delete_keys \<noteq> set artifact_keys)) Registry_Corrupt)))))"

definition workspace_in_phase :: "registry_state \<Rightarrow> string \<Rightarrow> string list \<Rightarrow> string \<Rightarrow> bool" where
  "workspace_in_phase st w phases generation = (case map_of (rs_workspaces st) w of None \<Rightarrow> False
     | Some workspace \<Rightarrow> rw_phase workspace \<in> set phases \<and> rw_generation workspace = generation)"

definition check_collection ::
  "registry_state \<Rightarrow> string \<times> (string \<times> file_identity) list \<Rightarrow> check" where
  "check_collection st kv = reject_if
     ((case map_of (rs_workspaces st) (fst kv) of None \<Rightarrow> True
       | Some workspace \<Rightarrow> rw_phase workspace = ''reserved'')
      \<or> \<not> has_all_collections (snd kv)
      \<or> list_ex (\<lambda>identity. \<not> valid_identity identity) (map snd (snd kv))) Registry_Corrupt"

definition check_artifact :: "registry_state \<Rightarrow> slot_key \<times> artifact_claim \<Rightarrow> check" where
  "check_artifact st kv = (let claim = snd kv in
     bind_res (reject_if
       (fst kv \<noteq> (ra_workspace_id claim, ra_slot claim)
        \<or> (case map_of (rs_workspaces st) (ra_workspace_id claim) of None \<Rightarrow> True
           | Some workspace \<Rightarrow>
               rw_phase workspace = ''reserved'' \<or> ra_generation claim \<noteq> rw_generation workspace)
        \<or> \<not> claim_route_valid claim) Registry_Corrupt) (\<lambda>_.
     bind_res (validate_artifact_claim claim) (\<lambda>_.
     reject_if (ra_collection claim \<notin> set (map fst (collection_of st (ra_workspace_id claim))))
       Registry_Corrupt)))"

definition check_intent :: "registry_state \<Rightarrow> string \<times> publish_intent \<Rightarrow> check" where
  "check_intent st kv = (let w = fst kv; i = snd kv in
     bind_res (reject_if
       (w \<noteq> ri_workspace_id i
        \<or> map_of (rs_journals st) w \<noteq> None
        \<or> \<not> workspace_in_phase st w [''active''] (ri_generation i)
        \<or> map_of (rs_artifacts st) (w, ri_slot i) \<noteq> ri_old_claim i
        \<or> Some (ri_kind i) \<noteq> map_of KIND_BY_COLLECTION (ri_collection i)
        \<or> Some (ri_artifact_id i) \<noteq> artifact_id_for_target (ri_collection i) (ri_target_name i)
        \<or> \<not> distinct [ri_target_name i, ri_temporary_name i, ri_backup_name i])
       Registry_Corrupt) (\<lambda>_.
     validate_publish_intent i))"

definition check_journal :: "registry_state \<Rightarrow> string \<times> publish_journal \<Rightarrow> check" where
  "check_journal st kv = (let w = fst kv; j = snd kv;
       current = map_of (rs_artifacts st) (w, rj_slot j);
       expected = (if rj_phase j = ''committed'' then Some (rj_new_claim j) else rj_old_claim j) in
     bind_res (reject_if
       (w \<noteq> rj_workspace_id j
        \<or> rj_phase j \<notin> set PUBLISH_PHASES
        \<or> \<not> workspace_in_phase st w [''active''] (rj_generation j)
        \<or> current \<noteq> expected
        \<or> \<not> distinct [rj_target_name j, rj_temporary_name j, rj_backup_name j])
       Registry_Corrupt) (\<lambda>_.
     validate_publish_journal (j\<lparr>rj_phase := ''prepared''\<rparr>)))"

definition check_delete_item :: "registry_state \<Rightarrow> slot_key \<times> delete_item \<Rightarrow> check" where
  "check_delete_item st kv = (let key = fst kv; item = snd kv in
     bind_res (reject_if
       (key \<noteq> (rd_workspace_id item, rd_slot item)
        \<or> rd_phase item \<notin> set DELETE_PHASES
        \<or> \<not> workspace_in_phase st (rd_workspace_id item) [''deleting''] (rd_generation item)
        \<or> ra_generation (rd_claim item) \<noteq> rd_generation item
        \<or> map_of (rs_artifacts st) key \<noteq> Some (rd_claim item)
        \<or> rd_phase item \<in> {''quarantined'', ''removed''} \<and> rd_quarantine_name item = None
        \<or> (case rd_quarantine_name item of None \<Rightarrow> False | Some name \<Rightarrow> \<not> valid_name name))
       Registry_Corrupt) (\<lambda>_.
     validate_artifact_claim (rd_claim item)))"

definition validate_state :: "registry_state \<Rightarrow> check" where
  "validate_state st =
     bind_res (for_each (check_workspace_claim st) (rs_workspaces st)) (\<lambda>_.
     bind_res (for_each (check_collection st) (rs_collections st)) (\<lambda>_.
     bind_res (for_each (check_artifact st) (rs_artifacts st)) (\<lambda>_.
     bind_res (for_each (check_intent st) (rs_intents st)) (\<lambda>_.
     bind_res (for_each (check_journal st) (rs_journals st)) (\<lambda>_.
     for_each (check_delete_item st) (rs_delete_items st))))))"

section \<open>Operations\<close>

text \<open>
  A mutator works on a copy of the state and returns whether it changed it, its result and the
  copy. The checks of the arguments, which come before the registry is locked and loaded, are a
  separate \<open>.._args\<close> definition where an operation has them.
\<close>

type_synonym 'a mutator = "registry_state \<Rightarrow> registry_error + (bool \<times> 'a \<times> registry_state)"

definition conflict :: "registry_error + 'a" where
  "conflict = Inl (RegistryError State_Conflict)"

definition unchanged :: "'a \<Rightarrow> 'a mutator" where
  "unchanged r st = Inr (False, r, st)"

definition reserve_workspace :: "string \<Rightarrow> string \<Rightarrow> bool mutator" where
  "reserve_workspace w generation st =
     (if map_of (rs_workspaces st) w \<noteq> None then unchanged False st
      else Inr (True, True, st\<lparr>rs_workspaces := AList.update w
        \<lparr>rw_workspace_id = w, rw_phase = ''reserved'', rw_generation = generation,
         rw_workspace_identity = None, rw_evidence_identity = None\<rparr> (rs_workspaces st)\<rparr>))"

definition retire_reserved_workspace :: "string \<Rightarrow> string \<Rightarrow> bool mutator" where
  "retire_reserved_workspace w expected_generation st =
     (case map_of (rs_workspaces st) w of None \<Rightarrow> unchanged False st
      | Some claim \<Rightarrow>
          if rw_generation claim \<noteq> expected_generation then conflict
          else if rw_phase claim \<noteq> ''reserved''
            \<or> map_of (rs_collections st) w \<noteq> None
            \<or> slots_of w (rs_artifacts st) \<noteq> []
            \<or> map_of (rs_intents st) w \<noteq> None
            \<or> map_of (rs_journals st) w \<noteq> None
            \<or> slots_of w (rs_delete_items st) \<noteq> [] then conflict
          else Inr (True, True, st\<lparr>rs_workspaces := AList.delete w (rs_workspaces st)\<rparr>))"

definition finalize_workspace_args :: "string \<Rightarrow> (string \<times> file_identity) list \<Rightarrow> check" where
  "finalize_workspace_args expected_generation collection_identities =
     reject_if (\<not> generation_text expected_generation \<or> \<not> has_all_collections collection_identities)
       Claim_Invalid"

definition finalize_workspace ::
  "string \<Rightarrow> string \<Rightarrow> file_identity \<Rightarrow> file_identity \<Rightarrow> (string \<times> file_identity) list \<Rightarrow>
   workspace_claim mutator" where
  "finalize_workspace w expected_generation workspace_identity evidence_identity collections st =
     (case map_of (rs_workspaces st) w of None \<Rightarrow> conflict
      | Some current \<Rightarrow>
          if rw_phase current \<noteq> ''reserved'' \<or> rw_generation current \<noteq> expected_generation then conflict
          else let claim = \<lparr>rw_workspace_id = w, rw_phase = ''active'',
                   rw_generation = rw_generation current,
                   rw_workspace_identity = Some workspace_identity,
                   rw_evidence_identity = Some evidence_identity\<rparr> in
            Inr (True, claim, st\<lparr>rs_workspaces := AList.update w claim (rs_workspaces st),
              rs_collections := AList.update w collections (rs_collections st)\<rparr>))"

definition get_workspace_claim :: "string \<Rightarrow> registry_state \<Rightarrow> workspace_claim option" where
  "get_workspace_claim w st = map_of (rs_workspaces st) w"

definition get_collection_identities :: "string \<Rightarrow> registry_state \<Rightarrow> (string \<times> file_identity) list" where
  "get_collection_identities w st = collection_of st w"

definition get_artifact :: "string \<Rightarrow> string \<Rightarrow> registry_state \<Rightarrow> artifact_claim option" where
  "get_artifact w slot st = map_of (rs_artifacts st) (w, slot)"

definition get_artifacts :: "string \<Rightarrow> registry_state \<Rightarrow> artifact_claim list" where
  "get_artifacts w st = map snd (filter (\<lambda>kv. fst (fst kv) = w) (sort_key fst (rs_artifacts st)))"

definition reserve_publish :: "publish_intent \<Rightarrow> unit mutator" where
  "reserve_publish i st = (let w = ri_workspace_id i in
     if \<not> workspace_in_phase st w [''active''] (ri_generation i) then conflict
     else let current = map_of (rs_artifacts st) (w, ri_slot i) in
       if (case current of None \<Rightarrow> False | Some c \<Rightarrow>
             ri_collection i = ''snapshots'' \<and> ra_sha256 c = REVOKED_ARTIFACT_SHA256
             \<and> ri_expected_sha256 i \<noteq> REVOKED_ARTIFACT_SHA256)
       then Inl (RegistryError Slot_Revoked)
       else if current \<noteq> ri_old_claim i \<or> has_publish st w then conflict
       else Inr (True, (), st\<lparr>rs_intents := AList.update w i (rs_intents st)\<rparr>))"

definition get_publish_intent :: "string \<Rightarrow> registry_state \<Rightarrow> publish_intent option" where
  "get_publish_intent w st = map_of (rs_intents st) w"

definition claim_publish_temporary_args :: "file_identity \<Rightarrow> string \<Rightarrow> string \<Rightarrow> check" where
  "claim_publish_temporary_args identity generation temporary_name =
     bind_res (reject_if (\<not> valid_identity identity) Claim_Invalid)
       (\<lambda>_. validate_publish_token generation temporary_name)"

definition claim_publish_temporary :: "string \<Rightarrow> file_identity \<Rightarrow> string \<Rightarrow> string \<Rightarrow> unit mutator" where
  "claim_publish_temporary w identity generation temporary_name st =
     (case map_of (rs_intents st) w of None \<Rightarrow> conflict
      | Some i \<Rightarrow>
          if ri_temporary_identity i \<noteq> None \<or> ri_generation i \<noteq> generation
            \<or> ri_temporary_name i \<noteq> temporary_name then conflict
          else Inr (True, (), st\<lparr>rs_intents :=
            AList.update w (i\<lparr>ri_temporary_identity := Some identity\<rparr>) (rs_intents st)\<rparr>))"

definition clear_publish_intent :: "string \<Rightarrow> string \<Rightarrow> string \<Rightarrow> unit mutator" where
  "clear_publish_intent w generation temporary_name st =
     (case map_of (rs_intents st) w of None \<Rightarrow> conflict
      | Some i \<Rightarrow>
          if ri_generation i \<noteq> generation \<or> ri_temporary_name i \<noteq> temporary_name then conflict
          else Inr (True, (), st\<lparr>rs_intents := AList.delete w (rs_intents st)\<rparr>))"

definition prepare_publish :: "publish_journal \<Rightarrow> unit mutator" where
  "prepare_publish j st = (let w = rj_workspace_id j; identity = ra_identity (rj_new_claim j) in
     case map_of (rs_intents st) w of None \<Rightarrow> conflict
     | Some i \<Rightarrow>
         if ri_temporary_identity i \<notin> {None, Some identity}
           \<or> i\<lparr>ri_temporary_identity := Some identity\<rparr> \<noteq> intent_for_journal j then conflict
         else if map_of (rs_artifacts st) (w, rj_slot j) \<noteq> rj_old_claim j then conflict
         else Inr (True, (), st\<lparr>rs_intents := AList.delete w (rs_intents st),
           rs_journals := AList.update w j (rs_journals st)\<rparr>))"

definition get_publish_journal :: "string \<Rightarrow> registry_state \<Rightarrow> publish_journal option" where
  "get_publish_journal w st = map_of (rs_journals st) w"

text \<open>the journal a caller names by its generation and temporary file, in one of some phases\<close>

definition named_journal :: "registry_state \<Rightarrow> string \<Rightarrow> string \<Rightarrow> string \<Rightarrow> string list \<Rightarrow>
  publish_journal option" where
  "named_journal st w generation temporary_name phases =
     (case map_of (rs_journals st) w of None \<Rightarrow> None
      | Some j \<Rightarrow>
          if rj_generation j \<noteq> generation \<or> rj_temporary_name j \<noteq> temporary_name
            \<or> rj_phase j \<notin> set phases then None
          else Some j)"

definition advance_publish_args :: "string \<Rightarrow> string \<Rightarrow> string \<Rightarrow> string \<Rightarrow> check" where
  "advance_publish_args generation temporary_name expected_phase new_phase =
     bind_res (reject_if ((expected_phase, new_phase) \<notin>
       {(''prepared'', ''backup''), (''backup'', ''installed'')}) Claim_Invalid)
       (\<lambda>_. validate_publish_token generation temporary_name)"

definition advance_publish :: "string \<Rightarrow> string \<Rightarrow> string \<Rightarrow> string \<Rightarrow> string \<Rightarrow> unit mutator" where
  "advance_publish w generation temporary_name expected_phase new_phase st =
     (case named_journal st w generation temporary_name [expected_phase] of None \<Rightarrow> conflict
      | Some j \<Rightarrow> Inr (True, (), st\<lparr>rs_journals :=
          AList.update w (j\<lparr>rj_phase := new_phase\<rparr>) (rs_journals st)\<rparr>))"

definition commit_publish :: "string \<Rightarrow> artifact_claim \<Rightarrow> string \<Rightarrow> string \<Rightarrow> unit mutator" where
  "commit_publish w claim generation temporary_name st =
     (case named_journal st w generation temporary_name [''installed''] of None \<Rightarrow> conflict
      | Some j \<Rightarrow>
          if rj_new_claim j \<noteq> claim then conflict
          else Inr (True, (), st\<lparr>rs_artifacts := AList.update (w, ra_slot claim) claim (rs_artifacts st),
            rs_journals := AList.update w (j\<lparr>rj_phase := ''committed''\<rparr>) (rs_journals st)\<rparr>))"

definition clear_publish :: "string \<Rightarrow> string \<Rightarrow> string \<Rightarrow> unit mutator" where
  "clear_publish w generation temporary_name st =
     (case named_journal st w generation temporary_name [''committed''] of None \<Rightarrow> conflict
      | Some j \<Rightarrow> Inr (True, (), st\<lparr>rs_journals := AList.delete w (rs_journals st)\<rparr>))"

definition abort_publish_args :: "string \<Rightarrow> string \<Rightarrow> string list \<Rightarrow> check" where
  "abort_publish_args generation temporary_name expected_phases =
     bind_res (reject_if (expected_phases = []
       \<or> \<not> list_all (\<lambda>p. p \<in> {''prepared'', ''backup''}) expected_phases) Claim_Invalid)
       (\<lambda>_. validate_publish_token generation temporary_name)"

definition abort_publish :: "string \<Rightarrow> string \<Rightarrow> string \<Rightarrow> string list \<Rightarrow> unit mutator" where
  "abort_publish w generation temporary_name expected_phases st =
     (case named_journal st w generation temporary_name expected_phases of None \<Rightarrow> conflict
      | Some j \<Rightarrow> Inr (True, (), st\<lparr>rs_journals := AList.delete w (rs_journals st)\<rparr>))"

definition planned_item :: "string \<Rightarrow> string \<Rightarrow> slot_key \<times> artifact_claim \<Rightarrow> delete_item" where
  "planned_item w generation kv = \<lparr>rd_workspace_id = w, rd_slot = snd (fst kv),
     rd_phase = ''planned'', rd_quarantine_name = None, rd_claim = snd kv, rd_generation = generation\<rparr>"

definition begin_delete :: "string \<Rightarrow> string \<Rightarrow> delete_item list mutator" where
  "begin_delete w expected_generation st =
     (case map_of (rs_workspaces st) w of None \<Rightarrow> unchanged [] st
      | Some workspace \<Rightarrow>
          if rw_generation workspace \<noteq> expected_generation then conflict
          else if rw_phase workspace = ''deleting'' then unchanged (delete_items_of st w) st
          else if rw_phase workspace \<noteq> ''active'' then conflict
          else if has_publish st w then Inl (RegistryError Publish_Pending)
          else let st' = st\<lparr>rs_workspaces :=
                   AList.update w (workspace\<lparr>rw_phase := ''deleting''\<rparr>) (rs_workspaces st),
                 rs_delete_items := fold (\<lambda>kv items. if fst (fst kv) = w
                   then AList.update (w, snd (fst kv)) (planned_item w (rw_generation workspace) kv) items
                   else items) (rs_artifacts st) (rs_delete_items st)\<rparr> in
            Inr (True, delete_items_of st' w, st'))"

definition get_delete_items :: "string \<Rightarrow> string \<Rightarrow> registry_state \<Rightarrow> registry_error + delete_item list" where
  "get_delete_items w expected_generation st =
     (case map_of (rs_workspaces st) w of None \<Rightarrow> Inr []
      | Some workspace \<Rightarrow>
          if rw_generation workspace \<noteq> expected_generation then conflict
          else Inr (delete_items_of st w))"

text \<open>the delete item a caller names, in the given phase, with no other quarantine name\<close>

definition named_item :: "registry_state \<Rightarrow> slot_key \<Rightarrow> string \<Rightarrow> string \<Rightarrow> string \<Rightarrow> delete_item option" where
  "named_item st key generation phase quarantine_name =
     (case map_of (rs_delete_items st) key of None \<Rightarrow> None
      | Some item \<Rightarrow>
          if rd_generation item \<noteq> generation \<or> rd_phase item \<noteq> phase
            \<or> rd_quarantine_name item \<notin> {None, Some quarantine_name} then None
          else Some item)"

definition plan_delete_quarantine :: "string \<Rightarrow> string \<Rightarrow> string \<Rightarrow> string \<Rightarrow> unit mutator" where
  "plan_delete_quarantine w slot quarantine_name generation st =
     (case named_item st (w, slot) generation ''planned'' quarantine_name of None \<Rightarrow> conflict
      | Some item \<Rightarrow> Inr (True, (), st\<lparr>rs_delete_items := AList.update (w, slot)
          (item\<lparr>rd_quarantine_name := Some quarantine_name\<rparr>) (rs_delete_items st)\<rparr>))"

definition advance_delete_item_args :: "string \<Rightarrow> string \<Rightarrow> string \<Rightarrow> check" where
  "advance_delete_item_args generation expected_phase new_phase =
     bind_res (reject_if ((expected_phase, new_phase) \<notin>
       {(''planned'', ''quarantined''), (''quarantined'', ''removed'')}) Claim_Invalid)
       (\<lambda>_. validate_generation generation)"

definition advance_delete_item ::
  "string \<Rightarrow> string \<Rightarrow> string \<Rightarrow> string \<Rightarrow> string \<Rightarrow> string \<Rightarrow> unit mutator" where
  "advance_delete_item w slot generation expected_phase new_phase quarantine_name st =
     (case named_item st (w, slot) generation expected_phase quarantine_name of None \<Rightarrow> conflict
      | Some item \<Rightarrow> Inr (True, (), st\<lparr>rs_delete_items := AList.update (w, slot)
          (item\<lparr>rd_phase := new_phase, rd_quarantine_name := Some quarantine_name\<rparr>)
          (rs_delete_items st)\<rparr>))"

definition clear_deleted_workspace :: "string \<Rightarrow> string \<Rightarrow> unit mutator" where
  "clear_deleted_workspace w expected_generation st =
     (case map_of (rs_workspaces st) w of None \<Rightarrow> unchanged () st
      | Some workspace \<Rightarrow>
          if rw_generation workspace \<noteq> expected_generation \<or> rw_phase workspace \<noteq> ''deleting''
            \<or> list_ex (\<lambda>item. rd_phase item \<noteq> ''removed'') (delete_items_of st w) then conflict
          else Inr (True, (), st\<lparr>
            rs_workspaces := AList.delete w (rs_workspaces st),
            rs_collections := AList.delete w (rs_collections st),
            rs_intents := AList.delete w (rs_intents st),
            rs_journals := AList.delete w (rs_journals st),
            rs_artifacts := filter (\<lambda>kv. fst (fst kv) \<noteq> w) (rs_artifacts st),
            rs_delete_items := filter (\<lambda>kv. fst (fst kv) \<noteq> w) (rs_delete_items st)\<rparr>))"

section \<open>Steps\<close>

text \<open>
  \<open>_mutate\<close> keeps the changed copy only when \<open>_validate_state\<close> accepts it, so a step of the
  registry is a mutator that changed a valid copy. The state is always the one just loaded.
\<close>

definition mutates_to :: "registry_error + (bool \<times> 'a \<times> registry_state) \<Rightarrow> registry_state \<Rightarrow> bool" where
  "mutates_to r st' \<longleftrightarrow>
     (case r of Inl _ \<Rightarrow> False | Inr (changed, _, st) \<Rightarrow> changed \<and> st = st' \<and> validate_state st = Inr ())"

inductive registry_step :: "registry_state \<Rightarrow> registry_state \<Rightarrow> bool" where
  step_reserve: "generation_text g \<Longrightarrow> mutates_to (reserve_workspace w g st) st' \<Longrightarrow> registry_step st st'"
| step_retire: "mutates_to (retire_reserved_workspace w g st) st' \<Longrightarrow> registry_step st st'"
| step_finalize: "finalize_workspace_args g cs = Inr () \<Longrightarrow> distinct (map fst cs) \<Longrightarrow>
    mutates_to (finalize_workspace w g wi ei cs st) st' \<Longrightarrow> registry_step st st'"
| step_reserve_publish: "validate_publish_intent i = Inr () \<Longrightarrow>
    mutates_to (reserve_publish i st) st' \<Longrightarrow> registry_step st st'"
| step_temporary: "mutates_to (claim_publish_temporary w t g n st) st' \<Longrightarrow> registry_step st st'"
| step_clear_intent: "mutates_to (clear_publish_intent w g n st) st' \<Longrightarrow> registry_step st st'"
| step_prepare: "validate_publish_journal j = Inr () \<Longrightarrow>
    mutates_to (prepare_publish j st) st' \<Longrightarrow> registry_step st st'"
| step_advance: "advance_publish_args g n p q = Inr () \<Longrightarrow>
    mutates_to (advance_publish w g n p q st) st' \<Longrightarrow> registry_step st st'"
| step_commit: "mutates_to (commit_publish w c g n st) st' \<Longrightarrow> registry_step st st'"
| step_clear: "mutates_to (clear_publish w g n st) st' \<Longrightarrow> registry_step st st'"
| step_abort: "abort_publish_args g n ps = Inr () \<Longrightarrow>
    mutates_to (abort_publish w g n ps st) st' \<Longrightarrow> registry_step st st'"
| step_begin_delete: "mutates_to (begin_delete w g st) st' \<Longrightarrow> registry_step st st'"
| step_plan_quarantine: "mutates_to (plan_delete_quarantine w slot q g st) st' \<Longrightarrow> registry_step st st'"
| step_advance_delete: "mutates_to (advance_delete_item w slot g p p' q st) st' \<Longrightarrow> registry_step st st'"
| step_clear_deleted: "mutates_to (clear_deleted_workspace w g st) st' \<Longrightarrow> registry_step st st'"

section \<open>Lemmas\<close>

lemma check_simps [simp]:
  "reject_if bad code = Inr () \<longleftrightarrow> \<not> bad"
  "reject_if bad code = Inr u \<longleftrightarrow> \<not> bad"
  "bind_res c (\<lambda>_. d) = Inr () \<longleftrightarrow> c = Inr () \<and> d = Inr ()"
  by (cases c; simp add: reject_if_def)+

lemma for_each_Inr_iff [simp]: "for_each f xs = Inr () \<longleftrightarrow> (\<forall>x \<in> set xs. f x = Inr ())"
  by (induction xs) auto

lemma mutates_to_simps [simp]:
  "\<not> mutates_to (Inl e) st'"
  "\<not> mutates_to conflict st'"
  "\<not> mutates_to (unchanged r st) st'"
  "mutates_to (Inr (True, r, st)) st' \<longleftrightarrow> st = st' \<and> validate_state st = Inr ()"
  "mutates_to (if b then x else y) st' \<longleftrightarrow> (if b then mutates_to x st' else mutates_to y st')"
  by (auto simp: mutates_to_def conflict_def unchanged_def)

lemma mutates_to_option [simp]:
  "mutates_to (case x of None \<Rightarrow> r | Some a \<Rightarrow> f a) st' \<longleftrightarrow>
     (case x of None \<Rightarrow> mutates_to r st' | Some a \<Rightarrow> mutates_to (f a) st')"
  by (cases x) simp_all

lemma mutates_to_valid: "mutates_to r st' \<Longrightarrow> validate_state st' = Inr ()"
  by (auto simp: mutates_to_def split: sum.splits prod.splits)

lemma registry_step_valid: "registry_step st st' \<Longrightarrow> validate_state st' = Inr ()"
  by (induction rule: registry_step.induct) (auto dest: mutates_to_valid)

text \<open>what a valid state promises, read off the checks\<close>

lemma valid_artifact:
  assumes "validate_state st = Inr ()" and "map_of (rs_artifacts st) (w, slot) = Some c"
  shows "ra_workspace_id c = w" "ra_slot c = slot" "validate_artifact_claim c = Inr ()"
    "claim_route_valid c"
  using assms map_of_SomeD [OF assms(2)]
  by (auto simp: validate_state_def check_artifact_def Let_def)

lemma valid_intent:
  assumes "validate_state st = Inr ()" and "map_of (rs_intents st) w = Some i"
  shows "ri_workspace_id i = w" "map_of (rs_artifacts st) (w, ri_slot i) = ri_old_claim i"
    "map_of (rs_journals st) w = None" "validate_publish_intent i = Inr ()"
  using assms map_of_SomeD [OF assms(2)]
  by (auto simp: validate_state_def check_intent_def Let_def)

lemma valid_journal:
  assumes "validate_state st = Inr ()" and "map_of (rs_journals st) w = Some j"
  shows "rj_workspace_id j = w"
    "map_of (rs_artifacts st) (w, rj_slot j) =
       (if rj_phase j = ''committed'' then Some (rj_new_claim j) else rj_old_claim j)"
    "validate_publish_journal (j\<lparr>rj_phase := ''prepared''\<rparr>) = Inr ()"
    "ra_slot (rj_new_claim j) = rj_slot j"
  using assms map_of_SomeD [OF assms(2)]
  by (auto simp: validate_state_def check_journal_def validate_publish_journal_def Let_def)

lemma named_journal_Some:
  "named_journal st w g n ps = Some j \<longleftrightarrow> map_of (rs_journals st) w = Some j \<and> rj_generation j = g \<and>
     rj_temporary_name j = n \<and> rj_phase j \<in> set ps"
  by (auto simp: named_journal_def split: option.splits)

lemma named_item_Some:
  "named_item st key g p q = Some item \<longleftrightarrow> map_of (rs_delete_items st) key = Some item \<and>
     rd_generation item = g \<and> rd_phase item = p \<and> rd_quarantine_name item \<in> {None, Some q}"
  by (auto simp: named_item_def split: option.splits)

lemma map_of_filter_key:
  "map_of (filter (\<lambda>kv. P (fst kv)) xs) k = (if P k then map_of xs k else None)"
  by (induction xs) auto

end
