(* ===== verification/Json_Text.thy ===== *)
theory Json_Text
  imports Py_Text "HOL-Library.AList"
begin

text \<open>
  \<open>json.loads\<close> on the texts \<open>json.dumps(value, ensure_ascii=True, sort_keys=True,
  separators=(",", ":"))\<close> can produce, with \<open>bytes.hex\<close> and \<open>int(text)\<close>. The registry decodes a
  record, encodes the result again and refuses the record unless the two texts agree, so a text in
  another spelling (white space, a float, an escape the encoder would not write) is refused
  whatever \<open>json.loads\<close> makes of it; the parser refuses most of them at once.
\<close>

section \<open>Parsing\<close>

definition quote :: char where
  "quote = CHR 0x22"

definition escape_char :: char where
  "escape_char = CHR 0x5C"

definition hex_value :: "char \<Rightarrow> nat option" where
  "hex_value c = map_of (zip ''0123456789abcdef'' [0..<16]) c"

text \<open>the escapes of one letter\<close>

definition unescape :: "char \<Rightarrow> char option" where
  "unescape c = map_of [(CHR 0x22, CHR 0x22), (CHR 0x5C, CHR 0x5C), (CHR ''/'', CHR ''/''),
     (CHR ''b'', CHR 0x08), (CHR ''f'', CHR 0x0C), (CHR ''n'', CHR 0x0A), (CHR ''r'', CHR 0x0D),
     (CHR ''t'', CHR 0x09)] c"

definition push :: "char \<Rightarrow> (string \<times> string) option \<Rightarrow> (string \<times> string) option" where
  "push c r = map_option (\<lambda>(s, rest). (c # s, rest)) r"

text \<open>the characters of a string up to its closing quote\<close>

fun parse_chars :: "string \<Rightarrow> (string \<times> string) option" where
  "parse_chars [] = None"
| "parse_chars (c # cs) =
     (if c = quote then Some ([], cs)
      else if c = escape_char then
        (case cs of [] \<Rightarrow> None
         | e # rest \<Rightarrow>
             if e = CHR ''u'' then
               (case rest of a # b # x # y # rest' \<Rightarrow>
                  if a = CHR ''0'' \<and> b = CHR ''0'' then
                    (case (hex_value x, hex_value y) of
                       (Some m, Some n) \<Rightarrow> push (char_of (16 * m + n)) (parse_chars rest')
                     | _ \<Rightarrow> None)
                  else None
                | _ \<Rightarrow> None)
             else (case unescape e of None \<Rightarrow> None | Some d \<Rightarrow> push d (parse_chars rest)))
      else if (of_char c :: nat) < 32 then None
      else push c (parse_chars cs))"

definition parse_nat :: "string \<Rightarrow> (int \<times> string) option" where
  "parse_nat s = (let ds = takeWhile is_digit s in
     if ds = [] then None else Some (int (digits_value ds), dropWhile is_digit s))"

definition parse_number :: "string \<Rightarrow> (pyval \<times> string) option" where
  "parse_number s = (case s of [] \<Rightarrow> None
     | c # cs \<Rightarrow>
         if c = CHR ''-'' then map_option (\<lambda>(i, rest). (VInt (- i), rest)) (parse_nat cs)
         else map_option (\<lambda>(i, rest). (VInt i, rest)) (parse_nat s))"

definition parse_literal :: "string \<Rightarrow> pyval \<Rightarrow> string \<Rightarrow> (pyval \<times> string) option" where
  "parse_literal word v s =
     (if take (length word) s = word then Some (v, drop (length word) s) else None)"

text \<open>an object keeps the last value of a repeated key\<close>

definition dict_of :: "(string \<times> pyval) list \<Rightarrow> (string \<times> pyval) list" where
  "dict_of kvs = fold (\<lambda>(k, v). AList.update k v) kvs []"

text \<open>\<open>n\<close> bounds the depth of the calls, which the text does: a bracket costs two of it\<close>

fun parse_value :: "nat \<Rightarrow> string \<Rightarrow> (pyval \<times> string) option" and
  parse_items :: "nat \<Rightarrow> string \<Rightarrow> (pyval list \<times> string) option" and
  parse_members :: "nat \<Rightarrow> string \<Rightarrow> ((string \<times> pyval) list \<times> string) option" where
  "parse_value 0 s = None"
| "parse_value (Suc n) s = (case s of [] \<Rightarrow> None
     | c # cs \<Rightarrow>
         if c = quote then map_option (\<lambda>(t, rest). (VStr t, rest)) (parse_chars cs)
         else if c = CHR ''['' then
           (if take 1 cs = '']'' then Some (VList [], drop 1 cs)
            else map_option (\<lambda>(vs, rest). (VList vs, rest)) (parse_items n cs))
         else if c = CHR ''{'' then
           (if take 1 cs = ''}'' then Some (VDict [], drop 1 cs)
            else map_option (\<lambda>(kvs, rest). (VDict (dict_of kvs), rest)) (parse_members n cs))
         else if c = CHR ''n'' then parse_literal ''null'' VNone s
         else if c = CHR ''t'' then parse_literal ''true'' (VBool True) s
         else if c = CHR ''f'' then parse_literal ''false'' (VBool False) s
         else parse_number s)"
| "parse_items 0 s = None"
| "parse_items (Suc n) s = (case parse_value n s of None \<Rightarrow> None
     | Some (v, rest) \<Rightarrow> (case rest of [] \<Rightarrow> None
         | c # cs \<Rightarrow>
             if c = CHR '']'' then Some ([v], cs)
             else if c = CHR '','' then map_option (\<lambda>(vs, r). (v # vs, r)) (parse_items n cs)
             else None))"
| "parse_members 0 s = None"
| "parse_members (Suc n) s = (case s of [] \<Rightarrow> None
     | q # s' \<Rightarrow>
         if q \<noteq> quote then None
         else (case parse_chars s' of None \<Rightarrow> None
         | Some (k, rest) \<Rightarrow>
             if take 1 rest \<noteq> '':'' then None
             else (case parse_value n (drop 1 rest) of None \<Rightarrow> None
             | Some (v, rest') \<Rightarrow> (case rest' of [] \<Rightarrow> None
                 | c # cs \<Rightarrow>
                     if c = CHR ''}'' then Some ([(k, v)], cs)
                     else if c = CHR '','' then
                       map_option (\<lambda>(kvs, r). ((k, v) # kvs, r)) (parse_members n cs)
                     else None))))"

definition json_loads :: "string \<Rightarrow> pyval option" where
  "json_loads s = (case parse_value (2 * length s) s of
     Some (v, []) \<Rightarrow> Some v
   | _ \<Rightarrow> None)"

text \<open>\<open>bytes.hex\<close> and \<open>bytes.fromhex\<close> on lower-case digits\<close>

definition hex_of :: "string \<Rightarrow> string" where
  "hex_of bs = concat (map (\<lambda>c. let n = of_char c :: nat in [hex_digit (n div 16), hex_digit (n mod 16)]) bs)"

fun of_hex :: "string \<Rightarrow> string option" where
  "of_hex [] = Some []"
| "of_hex (x # y # s) = (case (hex_value x, hex_value y, of_hex s) of
     (Some m, Some n, Some bs) \<Rightarrow> Some (char_of (16 * m + n) # bs)
   | _ \<Rightarrow> None)"
| "of_hex [_] = None"

text \<open>
  \<open>int(text)\<close>: white space around it, a sign, digits with single underscores between them. A
  number of more than 4300 digits, which Python refuses, is not told apart.
\<close>

fun digit_groups :: "string \<Rightarrow> bool" where
  "digit_groups [] = False"
| "digit_groups [c] = is_digit c"
| "digit_groups (c # d # cs) =
     (is_digit c \<and> (if d = CHR ''_'' then digit_groups cs else digit_groups (d # cs)))"

definition py_int :: "string \<Rightarrow> int option" where
  "py_int text = (let s = py_strip text;
       negative = take 1 s = ''-'';
       ds = (if negative \<or> take 1 s = ''+'' then drop 1 s else s) in
     if digit_groups ds
     then let n = int (digits_value (filter is_digit ds)) in Some (if negative then - n else n)
     else None)"

section \<open>The values a dump keeps\<close>

fun sorted_json :: "pyval \<Rightarrow> pyval" where
  "sorted_json (VList vs) = VList (map sorted_json vs)"
| "sorted_json (VDict kvs) = VDict (sort_key fst (map (\<lambda>(k, v). (k, sorted_json v)) kvs))"
| "sorted_json v = v"

fun json_plain :: "pyval \<Rightarrow> bool" where
  "json_plain (VList vs) = list_all json_plain vs"
| "json_plain (VDict kvs) = (distinct (map fst kvs) \<and> list_all (\<lambda>(k, v). json_plain v) kvs)"
| "json_plain (VFloat _ _) = False"
| "json_plain VNonFinite = False"
| "json_plain _ = True"

section \<open>Lemmas: strings\<close>

lemma hex_table: "list_all (\<lambda>k. hex_value (hex_digit k) = Some k) [0..<16]"
  by code_simp

lemma hex_value_digit [simp]: "k < 16 \<Longrightarrow> hex_value (hex_digit k) = Some k"
  using hex_table by (simp add: list_all_iff)

lemma char_split [simp]: "char_of (16 * (of_char c div 16) + of_char c mod (16 :: nat)) = c"
  by (metis char_of_char mult_div_mod_eq)

lemma char_high [simp]: "of_char c div 16 < (16 :: nat)"
proof -
  have "of_char c < (256 :: nat)" using char_of_char [of c] by (metis char_of_mod_256 of_char_of mod_less_divisor zero_less_numeral)
  then show ?thesis by (simp add: less_mult_imp_div_less)
qed

lemma of_hex_hex_of [simp]: "of_hex (hex_of bs) = Some bs"
  by (induction bs) (simp_all add: hex_of_def Let_def)

lemma length_hex_of [simp]: "length (hex_of bs) = 2 * length bs"
  by (induction bs) (simp_all add: hex_of_def Let_def)

lemma parse_unicode:
  "parse_chars (CHR 0x5C # ''u00'' @ [hex_digit (of_char c div 16), hex_digit (of_char c mod 16)] @ t) =
     push c (parse_chars t)"
  by (simp add: quote_def escape_char_def)

lemma parse_short:
  "unescape e = Some d \<Longrightarrow> e \<noteq> CHR ''u'' \<Longrightarrow> parse_chars (CHR 0x5C # e # t) = push d (parse_chars t)"
  by (simp add: quote_def escape_char_def)

lemma char_eqI: "of_char c = (of_char d :: nat) \<Longrightarrow> c = d"
  by (metis char_of_char)

lemma parse_escape: "parse_chars (ascii_json_char c @ t) = push c (parse_chars t)"
proof -
  let ?n = "of_char c :: nat"
  have codes: "?n = 10 \<Longrightarrow> c = CHR 0x0A" "?n = 13 \<Longrightarrow> c = CHR 0x0D" "?n = 9 \<Longrightarrow> c = CHR 0x09"
    "?n = 12 \<Longrightarrow> c = CHR 0x0C" "?n = 8 \<Longrightarrow> c = CHR 0x08"
    by (rule char_eqI; simp)+
  consider (short) "c \<in> set [CHR 0x22, CHR 0x5C, CHR 0x0A, CHR 0x0D, CHR 0x09, CHR 0x0C, CHR 0x08]" |
    (other) "c \<noteq> CHR 0x22" "c \<noteq> CHR 0x5C" "?n \<notin> {10, 13, 9, 12, 8}"
    using codes by auto
  then show ?thesis
  proof cases
    case short
    then show ?thesis
      by (auto simp: ascii_json_char_def json_char_def quote_def escape_char_def unescape_def)
  next
    case other
    then have "ascii_json_char c = (if ?n < 127 \<and> \<not> ?n < 32 then [c]
        else CHR 0x5C # ''u00'' @ [hex_digit (?n div 16), hex_digit (?n mod 16)])"
      by (simp add: ascii_json_char_def json_char_def Let_def)
    then show ?thesis
      using parse_unicode [of c t] other(1,2) by (simp add: quote_def escape_char_def)
  qed
qed

lemma parse_chars_string:
  "parse_chars (concat (map ascii_json_char s) @ quote # rest) = Some (s, rest)"
  by (induction s) (simp_all add: parse_escape push_def)

section \<open>Lemmas: numbers\<close>

definition number_ends :: "string \<Rightarrow> bool" where
  "number_ends rest \<longleftrightarrow> (case rest of [] \<Rightarrow> True | c # _ \<Rightarrow> \<not> is_digit c)"

lemma take_digits:
  "number_ends rest \<Longrightarrow> takeWhile is_digit (nat_str n @ rest) = nat_str n"
  "number_ends rest \<Longrightarrow> dropWhile is_digit (nat_str n @ rest) = rest"
proof -
  have "\<And>c. c \<in> set (nat_str n) \<Longrightarrow> is_digit c" by (rule nat_str_digits)
  moreover assume "number_ends rest"
  ultimately show "takeWhile is_digit (nat_str n @ rest) = nat_str n"
    "dropWhile is_digit (nat_str n @ rest) = rest"
    by (auto simp: number_ends_def takeWhile_append2 dropWhile_append2 split: list.splits)
qed

lemma parse_nat_str:
  "number_ends rest \<Longrightarrow> parse_nat (nat_str n @ rest) = Some (int n, rest)"
  by (simp add: parse_nat_def take_digits digits_value_nat_str Let_def del: digits_value.simps)

lemma nat_str_head: "\<exists>c cs. nat_str n = c # cs \<and> is_digit c"
  by (metis list.exhaust list.set_intros(1) nat_str_digits nat_str_not_Nil)

lemma parse_int_str:
  assumes "number_ends rest"
  shows "parse_number (int_str i @ rest) = Some (VInt i, rest)"
proof (cases "i < 0")
  case True
  then show ?thesis
    using parse_nat_str [OF assms, of "nat (- i)"] by (simp add: int_str_def parse_number_def)
next
  case False
  obtain c cs where n: "nat_str (nat i) = c # cs" "is_digit c" using nat_str_head by metis
  then have "c \<noteq> CHR ''-''" by (auto simp: is_digit_def)
  with n False show ?thesis
    using parse_nat_str [OF assms, of "nat i"] by (simp add: int_str_def parse_number_def)
qed

lemma int_str_head: "\<exists>c cs. int_str i = c # cs \<and> (is_digit c \<or> c = CHR ''-'')"
  using nat_str_head by (simp add: int_str_def) metis

section \<open>Lemmas: values\<close>

lemma json_text_head:
  assumes "json_plain v"
  shows "\<exists>c cs. json_text enc v = c # cs \<and> c \<noteq> CHR '']'' \<and> c \<noteq> CHR ''}''"
proof (cases v)
  case (VInt i)
  then show ?thesis using int_str_head [of i] by (auto simp: is_digit_def)
qed (use assms in \<open>auto simp: json_string_def\<close>)

lemma number_ends_simps [simp]: "number_ends []" "number_ends (c # cs) \<longleftrightarrow> \<not> is_digit c"
  by (simp_all add: number_ends_def)

definition parses_back :: "pyval \<Rightarrow> bool" where
  "parses_back v \<longleftrightarrow> (\<forall>n rest. 2 * length (json_text ascii_json_char v) \<le> n \<longrightarrow> number_ends rest \<longrightarrow>
     parse_value n (json_text ascii_json_char v @ rest) = Some (sorted_json v, rest))"

lemma parse_items_back:
  assumes "vs \<noteq> []" and "\<forall>v \<in> set vs. parses_back v \<and> json_plain v"
    and "2 * length (join_with CHR '','' (map (json_text ascii_json_char) vs)) + 1 \<le> n"
  shows "parse_items n (join_with CHR '','' (map (json_text ascii_json_char) vs) @ CHR '']'' # rest) =
    Some (map sorted_json vs, rest)"
  using assms
proof (induction vs arbitrary: n)
  case (Cons v vs)
  then obtain m where n: "n = Suc m" by (cases n) auto
  let ?t = "json_text ascii_json_char v"
  have v: "parse_value m (?t @ r) = Some (sorted_json v, r)" if "number_ends r" for r
    using Cons.prems that by (cases vs) (auto simp: parses_back_def n)
  show ?case
  proof (cases vs)
    case Nil
    then show ?thesis using v [of "CHR '']'' # rest"] by (simp add: n is_digit_def)
  next
    case (Cons w ws)
    let ?j = "join_with CHR '','' (map (json_text ascii_json_char) vs)"
    have "parse_items m (?j @ CHR '']'' # rest) = Some (map sorted_json vs, rest)"
      using Cons.prems by (intro Cons.IH) (auto simp: n Cons)
    then show ?thesis
      using v [of "CHR '','' # ?j @ CHR '']'' # rest"] by (simp add: n Cons is_digit_def)
  qed
qed simp

definition member_text :: "string \<times> pyval \<Rightarrow> string" where
  "member_text kv = json_string ascii_json_char (fst kv) @ '':'' @ json_text ascii_json_char (snd kv)"

lemma parse_members_back:
  assumes "kvs \<noteq> []" and "\<forall>kv \<in> set kvs. parses_back (snd kv) \<and> json_plain (snd kv)"
    and "2 * length (join_with CHR '','' (map member_text kvs)) + 1 \<le> n"
  shows "parse_members n (join_with CHR '','' (map member_text kvs) @ CHR ''}'' # rest) =
    Some (map (\<lambda>kv. (fst kv, sorted_json (snd kv))) kvs, rest)"
  using assms
proof (induction kvs arbitrary: n)
  case (Cons kv kvs)
  then obtain m where n: "n = Suc m" by (cases n) auto
  obtain k v where kv: "kv = (k, v)" by fastforce
  let ?t = "json_text ascii_json_char v"
  have v: "parse_value m (?t @ r) = Some (sorted_json v, r)" if "number_ends r" for r
    using Cons.prems that by (cases kvs) (auto simp: parses_back_def n kv member_text_def)
  have step: "parse_members n (member_text kv @ c # cs) =
      (if c = CHR ''}'' then Some ([(k, sorted_json v)], cs)
       else if c = CHR '','' then map_option (\<lambda>(kvs, r). ((k, sorted_json v) # kvs, r)) (parse_members m cs)
       else None)" if "\<not> is_digit c" for c cs
    using parse_chars_string [of k "CHR '':'' # ?t @ c # cs"] v [of "c # cs"] that
    by (simp add: n kv member_text_def json_string_def quote_def)
  show ?case
  proof (cases kvs)
    case Nil
    then show ?thesis using step [of "CHR ''}''" rest] by (simp add: kv is_digit_def)
  next
    case (Cons w ws)
    define j where "j = join_with CHR '','' (map member_text kvs)"
    have "parse_members m (j @ CHR ''}'' # rest) = Some (map (\<lambda>kv. (fst kv, sorted_json (snd kv))) kvs, rest)"
      unfolding j_def using Cons.prems by (intro Cons.IH) (auto simp: n Cons)
    moreover have "join_with CHR '','' (map member_text (kv # kvs)) = member_text kv @ CHR '','' # j"
      by (simp add: j_def Cons)
    ultimately show ?thesis
      using step [of "CHR '',''" "j @ CHR ''}'' # rest"] by (simp add: kv is_digit_def)
  qed
qed simp

lemma insort_key_keep: "(\<And>x. k' (f x) = k x) \<Longrightarrow> insort_key k' (f x) (map f xs) = map f (insort_key k x xs)"
  by (induction xs) auto

lemma sort_key_keep: "(\<And>x. k' (f x) = k x) \<Longrightarrow> sort_key k' (map f xs) = map f (sort_key k xs)"
  by (induction xs) (simp_all add: insort_key_keep)

lemma json_text_dict:
  "json_text ascii_json_char (VDict kvs) =
     ''{'' @ join_with CHR '','' (map member_text (sort_key fst kvs)) @ ''}''"
proof -
  let ?f = "\<lambda>kv. (fst kv, member_text kv)"
  have f: "(\<lambda>(k, v). (k, json_string ascii_json_char k @ '':'' @ json_text ascii_json_char v)) = ?f"
    by (auto simp: member_text_def)
  have s: "sort_key fst (map ?f kvs) = map ?f (sort_key fst kvs)" by (rule sort_key_keep) simp
  show ?thesis by (simp add: f s comp_def del: append.simps)
qed

lemma sorted_json_dict:
  "sorted_json (VDict kvs) = VDict (map (\<lambda>kv. (fst kv, sorted_json (snd kv))) (sort_key fst kvs))"
proof -
  let ?f = "\<lambda>kv. (fst kv, sorted_json (snd kv))"
  have f: "(\<lambda>(k, v). (k, sorted_json v)) = ?f" by auto
  have s: "sort_key fst (map ?f kvs) = map ?f (sort_key fst kvs)" by (rule sort_key_keep) simp
  show ?thesis by (simp add: f s)
qed

lemma dict_of_distinct: "distinct (map fst kvs) \<Longrightarrow> dict_of kvs = kvs"
proof -
  have "distinct (map fst (acc @ kvs)) \<Longrightarrow> fold (\<lambda>(k, v). AList.update k v) kvs acc = acc @ kvs" for acc
  proof (induction kvs arbitrary: acc)
    case (Cons kv kvs)
    have "AList.update (fst kv) (snd kv) acc = acc @ [kv]"
      using Cons.prems by (induction acc) auto
    then show ?case using Cons by (auto simp: case_prod_unfold)
  qed simp
  from this [of "[]"] show "distinct (map fst kvs) \<Longrightarrow> dict_of kvs = kvs" by (simp add: dict_of_def)
qed

lemma distinct_sort_key: "distinct (map fst kvs) \<Longrightarrow> distinct (map fst (sort_key fst kvs))"
  by (metis distinct_map distinct_sort set_sort)

theorem parse_json_text: "json_plain v \<Longrightarrow> parses_back v"
proof (induction v)
  case (VList vs)
  show ?case unfolding parses_back_def
  proof (intro allI impI)
    fix n rest assume n: "2 * length (json_text ascii_json_char (VList vs)) \<le> n"
    then obtain m where m: "n = Suc m" by (cases n) auto
    show "parse_value n (json_text ascii_json_char (VList vs) @ rest) = Some (sorted_json (VList vs), rest)"
    proof (cases vs)
      case Nil
      then show ?thesis by (simp add: m quote_def)
    next
      case (Cons w ws)
      have h: "take 1 (join_with CHR '','' (map (json_text ascii_json_char) vs) @ r) \<noteq> '']''" for r
        using json_text_head [of w ascii_json_char] VList.prems by (cases ws) (auto simp: Cons)
      have "parse_items m (join_with CHR '','' (map (json_text ascii_json_char) vs) @ CHR '']'' # rest) =
          Some (map sorted_json vs, rest)"
        using VList n by (intro parse_items_back) (auto simp: m Cons list_all_iff)
      with h show ?thesis by (simp add: m quote_def)
    qed
  qed
next
  case (VDict kvs)
  show ?case unfolding parses_back_def
  proof (intro allI impI)
    fix n rest assume n: "2 * length (json_text ascii_json_char (VDict kvs)) \<le> n"
    then obtain m where m: "n = Suc m" by (cases n) (auto simp: json_text_dict simp del: json_text.simps)
    let ?s = "sort_key fst kvs"
    show "parse_value n (json_text ascii_json_char (VDict kvs) @ rest) = Some (sorted_json (VDict kvs), rest)"
    proof (cases ?s)
      case Nil
      then show ?thesis by (simp add: m quote_def json_text_dict sorted_json_dict del: json_text.simps sorted_json.simps)
    next
      case (Cons w ws)
      have h: "take 1 (join_with CHR '','' (map member_text ?s) @ r) \<noteq> ''}''" for r
        by (cases ws) (auto simp: Cons member_text_def json_string_def)
      have ok: "\<forall>kv \<in> set ?s. parses_back (snd kv) \<and> json_plain (snd kv)"
        using VDict by (fastforce simp: list_all_iff)
      have d: "distinct (map fst ?s)" using VDict.prems by (simp add: distinct_sort_key)
      have "parse_members m (join_with CHR '','' (map member_text ?s) @ CHR ''}'' # rest) =
          Some (map (\<lambda>kv. (fst kv, sorted_json (snd kv))) ?s, rest)"
        using n ok by (intro parse_members_back) (auto simp: m Cons json_text_dict simp del: json_text.simps)
      with h d show ?thesis
        by (simp add: m quote_def json_text_dict sorted_json_dict dict_of_distinct comp_def
            del: json_text.simps sorted_json.simps)
    qed
  qed
next
  case (VStr s)
  show ?case unfolding parses_back_def
  proof (intro allI impI)
    fix n rest assume n: "2 * length (json_text ascii_json_char (VStr s)) \<le> n"
    then obtain m where m: "n = Suc m" by (cases n) (auto simp: json_string_def)
    show "parse_value n (json_text ascii_json_char (VStr s) @ rest) = Some (sorted_json (VStr s), rest)"
      using parse_chars_string [of s rest] by (simp add: m json_string_def quote_def)
  qed
next
  case (VInt i)
  obtain c cs where c: "int_str i = c # cs" "is_digit c \<or> c = CHR ''-''" using int_str_head by metis
  show ?case unfolding parses_back_def
  proof (intro allI impI)
    fix n rest assume n: "2 * length (json_text ascii_json_char (VInt i)) \<le> n" and r: "number_ends rest"
    then obtain m where m: "n = Suc m" using c by (cases n) auto
    have "c \<noteq> quote" "c \<notin> set ''[{ntf''" using c(2) by (auto simp: quote_def is_digit_def)
    then show "parse_value n (json_text ascii_json_char (VInt i) @ rest) = Some (sorted_json (VInt i), rest)"
      using parse_int_str [OF r, of i] by (simp add: m c)
  qed
next
  case (VBool b)
  show ?case unfolding parses_back_def
  proof (intro allI impI)
    fix n rest assume n: "2 * length (json_text ascii_json_char (VBool b)) \<le> n"
    then obtain m where m: "n = Suc m" by (cases n; cases b) auto
    show "parse_value n (json_text ascii_json_char (VBool b) @ rest) = Some (sorted_json (VBool b), rest)"
      by (cases b) (simp_all add: m quote_def parse_literal_def)
  qed
next
  case VNone
  show ?case unfolding parses_back_def
  proof (intro allI impI)
    fix n rest assume n: "2 * length (json_text ascii_json_char VNone) \<le> n"
    then obtain m where m: "n = Suc m" by (cases n) auto
    show "parse_value n (json_text ascii_json_char VNone @ rest) = Some (sorted_json VNone, rest)"
      by (simp add: m quote_def parse_literal_def)
  qed
qed simp_all

lemma json_loads_text:
  assumes "json_plain v"
  shows "json_loads (json_text ascii_json_char v) = Some (sorted_json v)"
proof -
  let ?t = "json_text ascii_json_char v"
  have "parse_value (2 * length ?t) (?t @ []) = Some (sorted_json v, [])"
    using parse_json_text [OF assms] unfolding parses_back_def by (metis number_ends_simps(1) order_refl)
  then show ?thesis by (simp add: json_loads_def)
qed

lemma sort_key_twice: "sort_key fst (sort_key fst kvs) = sort_key fst kvs"
proof -
  have "insort_key fst x ys = x # ys" if "\<forall>y \<in> set ys. fst x \<le> fst y" for x and ys :: "('a \<times> 'b) list"
    using that by (cases ys) auto
  then have "sort_key fst ys = ys" if "sorted (map fst ys)" for ys :: "('a \<times> 'b) list"
    using that by (induction ys) auto
  then show ?thesis by simp
qed

lemma json_text_sorted: "json_plain v \<Longrightarrow> json_text ascii_json_char (sorted_json v) = json_text ascii_json_char v"
proof (induction v)
  case (VDict kvs)
  let ?f = "\<lambda>kv. (fst kv, sorted_json (snd kv))"
  have s: "sort_key fst (map ?f (sort_key fst kvs)) = map ?f (sort_key fst kvs)"
    by (subst sort_key_keep [of _ _ fst]) (simp_all add: sort_key_twice)
  have "member_text (?f kv) = member_text kv" if "kv \<in> set kvs" for kv
    using VDict that by (fastforce simp: member_text_def list_all_iff)
  then have "map (member_text \<circ> ?f) (sort_key fst kvs) = map member_text (sort_key fst kvs)"
    by (intro map_cong) simp_all
  then show ?case
    by (simp only: json_text_dict sorted_json_dict s list.map_comp)
next
  case (VList vs)
  then show ?case by (simp add: list_all_iff comp_def cong: map_cong)
qed simp_all

end
