(* ===== verification/Registry_Log.thy ===== *)
theory Registry_Log
  imports Registry Json_Text
begin

text \<open>
  The file behind the registry: a log with one record per state, each the canonical JSON of the
  whole state chained to the record before by its SHA-256 hash. Modelled are the two directions
  of the serialisation, the encoding and decoding of a record, the load of the file with its
  truncated tail and its check against what this process has already seen, the append with its
  failures, and \<open>_mutate\<close> and \<open>_read\<close>, which load, run a mutator or reader on the loaded state,
  and append.

  \<open>H\<close> is \<open>hashlib.sha256(..).digest()\<close> and \<open>R\<close> the identity of the pinned directory. The bytes of
  the file are characters. What the operating system does to a call is an argument of it.
\<close>

section \<open>A state as JSON\<close>

definition identity_json :: "file_identity \<Rightarrow> pyval" where
  "identity_json i = VList [VStr (int_str (fst i)), VStr (int_str (snd i))]"

definition optional_identity_json :: "file_identity option \<Rightarrow> pyval" where
  "optional_identity_json i = (case i of None \<Rightarrow> VNone | Some i \<Rightarrow> identity_json i)"

definition artifact_json :: "artifact_claim \<Rightarrow> pyval" where
  "artifact_json c = VDict [
     (''artifact_id'', VStr (ra_artifact_id c)),
     (''collection'', VStr (ra_collection c)),
     (''generation'', VStr (ra_generation c)),
     (''identity'', identity_json (ra_identity c)),
     (''kind'', VStr (ra_kind c)),
     (''sha256'', VStr (ra_sha256 c)),
     (''size'', VInt (ra_size c)),
     (''slot'', VStr (ra_slot c)),
     (''workspace_id'', VStr (ra_workspace_id c))]"

definition old_claim_json :: "artifact_claim option \<Rightarrow> pyval" where
  "old_claim_json old = (case old of None \<Rightarrow> VNone | Some c \<Rightarrow> artifact_json c)"

definition optional_string_json :: "string option \<Rightarrow> pyval" where
  "optional_string_json s = (case s of None \<Rightarrow> VNone | Some t \<Rightarrow> VStr t)"

definition intent_json :: "publish_intent \<Rightarrow> pyval" where
  "intent_json i = VDict [
     (''artifact_id'', VStr (ri_artifact_id i)),
     (''backup_name'', VStr (ri_backup_name i)),
     (''collection'', VStr (ri_collection i)),
     (''expected_sha256'', VStr (ri_expected_sha256 i)),
     (''expected_size'', VInt (ri_expected_size i)),
     (''generation'', VStr (ri_generation i)),
     (''kind'', VStr (ri_kind i)),
     (''old_claim'', old_claim_json (ri_old_claim i)),
     (''slot'', VStr (ri_slot i)),
     (''target_name'', VStr (ri_target_name i)),
     (''temporary_name'', VStr (ri_temporary_name i)),
     (''temporary_identity'', optional_identity_json (ri_temporary_identity i)),
     (''workspace_id'', VStr (ri_workspace_id i))]"

definition journal_json :: "publish_journal \<Rightarrow> pyval" where
  "journal_json j = VDict [
     (''backup_name'', VStr (rj_backup_name j)),
     (''generation'', VStr (rj_generation j)),
     (''new_claim'', artifact_json (rj_new_claim j)),
     (''old_claim'', old_claim_json (rj_old_claim j)),
     (''phase'', VStr (rj_phase j)),
     (''slot'', VStr (rj_slot j)),
     (''target_name'', VStr (rj_target_name j)),
     (''temporary_name'', VStr (rj_temporary_name j)),
     (''workspace_id'', VStr (rj_workspace_id j))]"

definition collection_row_json :: "string \<Rightarrow> string \<times> file_identity \<Rightarrow> pyval" where
  "collection_row_json w kv = VDict [
     (''collection'', VStr (fst kv)),
     (''identity'', identity_json (snd kv)),
     (''workspace_id'', VStr w)]"

definition delete_item_json :: "delete_item \<Rightarrow> pyval" where
  "delete_item_json item = VDict [
     (''claim'', artifact_json (rd_claim item)),
     (''generation'', VStr (rd_generation item)),
     (''phase'', VStr (rd_phase item)),
     (''quarantine_name'', optional_string_json (rd_quarantine_name item)),
     (''slot'', VStr (rd_slot item)),
     (''workspace_id'', VStr (rd_workspace_id item))]"

definition workspace_json :: "workspace_claim \<Rightarrow> pyval" where
  "workspace_json c = VDict [
     (''evidence_identity'', optional_identity_json (rw_evidence_identity c)),
     (''generation'', VStr (rw_generation c)),
     (''phase'', VStr (rw_phase c)),
     (''workspace_id'', VStr (rw_workspace_id c)),
     (''workspace_identity'', optional_identity_json (rw_workspace_identity c))]"

text \<open>\<open>sorted(d.items())\<close>: the keys of a dict differ, so the values are never compared\<close>

definition items_sorted :: "('k::linorder \<times> 'v) list \<Rightarrow> ('k \<times> 'v) list" where
  "items_sorted d = sort_key fst d"

definition collection_rows :: "(string \<times> (string \<times> file_identity) list) list \<Rightarrow> pyval list" where
  "collection_rows cs = concat (map (\<lambda>kv. map (collection_row_json (fst kv)) (items_sorted (snd kv)))
     (items_sorted cs))"

definition state_json :: "registry_state \<Rightarrow> pyval" where
  "state_json st = VDict [
     (''artifacts'', VList (map (artifact_json \<circ> snd) (items_sorted (rs_artifacts st)))),
     (''collections'', VList (collection_rows (rs_collections st))),
     (''delete_items'', VList (map (delete_item_json \<circ> snd) (items_sorted (rs_delete_items st)))),
     (''publish_intents'', VList (map (intent_json \<circ> snd) (items_sorted (rs_intents st)))),
     (''publish_journals'', VList (map (journal_json \<circ> snd) (items_sorted (rs_journals st)))),
     (''workspaces'', VList (map (workspace_json \<circ> snd) (items_sorted (rs_workspaces st))))]"

text \<open>\<open>_canonical\<close>\<close>

definition canonical_text :: "pyval \<Rightarrow> string" where
  "canonical_text = json_text ascii_json_char"

section \<open>Reading it back\<close>

definition require_keys :: "pyval \<Rightarrow> string list \<Rightarrow> registry_error + payload" where
  "require_keys v keys = (case v of
     VDict kvs \<Rightarrow> if set (map fst kvs) = set keys then Inr kvs else Inl DecodeError
   | _ \<Rightarrow> Inl DecodeError)"

definition require_list :: "pyval \<Rightarrow> registry_error + pyval list" where
  "require_list v = (case v of VList vs \<Rightarrow> Inr vs | _ \<Rightarrow> Inl DecodeError)"

definition require_string :: "pyval \<Rightarrow> registry_error + string" where
  "require_string v = (case v of VStr s \<Rightarrow> Inr s | _ \<Rightarrow> Inl DecodeError)"

definition optional_string :: "pyval \<Rightarrow> registry_error + string option" where
  "optional_string v =
     (case v of VNone \<Rightarrow> Inr None | _ \<Rightarrow> bind_res (require_string v) (\<lambda>s. Inr (Some s)))"

definition require_int :: "pyval \<Rightarrow> registry_error + int" where
  "require_int v = (case v of VInt i \<Rightarrow> Inr i | _ \<Rightarrow> Inl DecodeError)"

text \<open>\<open>value["key"]\<close> of a dict whose keys \<open>_require_keys\<close> has checked\<close>

definition dict_item :: "payload \<Rightarrow> string \<Rightarrow> pyval" where
  "dict_item kvs key = the (map_of kvs key)"

definition parse_decimal :: "pyval \<Rightarrow> registry_error + int" where
  "parse_decimal v = bind_res (require_string v)
     (\<lambda>s. case py_int s of None \<Rightarrow> Inl DecodeError | Some i \<Rightarrow> Inr i)"

definition parse_identity :: "pyval \<Rightarrow> registry_error + file_identity" where
  "parse_identity v = bind_res (require_list v) (\<lambda>values. case values of
     [a, b] \<Rightarrow> bind_res (parse_decimal a) (\<lambda>x. bind_res (parse_decimal b) (\<lambda>y. Inr (x, y)))
   | _ \<Rightarrow> Inl DecodeError)"

definition parse_optional_identity :: "pyval \<Rightarrow> registry_error + file_identity option" where
  "parse_optional_identity v =
     (case v of VNone \<Rightarrow> Inr None | _ \<Rightarrow> bind_res (parse_identity v) (\<lambda>i. Inr (Some i)))"

definition parse_artifact :: "pyval \<Rightarrow> registry_error + artifact_claim" where
  "parse_artifact v = bind_res (require_keys v [''artifact_id'', ''collection'', ''generation'',
       ''identity'', ''kind'', ''sha256'', ''size'', ''slot'', ''workspace_id'']) (\<lambda>d.
     bind_res (require_string (dict_item d ''workspace_id'')) (\<lambda>w.
     bind_res (require_string (dict_item d ''slot'')) (\<lambda>slot.
     bind_res (require_string (dict_item d ''collection'')) (\<lambda>collection.
     bind_res (require_string (dict_item d ''kind'')) (\<lambda>kind.
     bind_res (require_string (dict_item d ''artifact_id'')) (\<lambda>artifact_id.
     bind_res (parse_identity (dict_item d ''identity'')) (\<lambda>identity.
     bind_res (require_string (dict_item d ''sha256'')) (\<lambda>sha256.
     bind_res (require_int (dict_item d ''size'')) (\<lambda>size.
     bind_res (require_string (dict_item d ''generation'')) (\<lambda>generation.
     Inr \<lparr>ra_workspace_id = w, ra_slot = slot, ra_collection = collection, ra_kind = kind,
          ra_artifact_id = artifact_id, ra_identity = identity, ra_sha256 = sha256, ra_size = size,
          ra_generation = generation\<rparr>))))))))))"

definition parse_old_claim :: "pyval \<Rightarrow> registry_error + artifact_claim option" where
  "parse_old_claim v =
     (case v of VNone \<Rightarrow> Inr None | _ \<Rightarrow> bind_res (parse_artifact v) (\<lambda>c. Inr (Some c)))"

definition parse_intent :: "pyval \<Rightarrow> registry_error + publish_intent" where
  "parse_intent v = bind_res (require_keys v [''artifact_id'', ''backup_name'', ''collection'',
       ''expected_sha256'', ''expected_size'', ''generation'', ''kind'', ''old_claim'', ''slot'',
       ''target_name'', ''temporary_name'', ''temporary_identity'', ''workspace_id'']) (\<lambda>d.
     bind_res (parse_old_claim (dict_item d ''old_claim'')) (\<lambda>old.
     bind_res (require_string (dict_item d ''workspace_id'')) (\<lambda>w.
     bind_res (require_string (dict_item d ''slot'')) (\<lambda>slot.
     bind_res (require_string (dict_item d ''target_name'')) (\<lambda>target_name.
     bind_res (require_string (dict_item d ''temporary_name'')) (\<lambda>temporary_name.
     bind_res (require_string (dict_item d ''backup_name'')) (\<lambda>backup_name.
     bind_res (require_string (dict_item d ''collection'')) (\<lambda>collection.
     bind_res (require_string (dict_item d ''kind'')) (\<lambda>kind.
     bind_res (require_string (dict_item d ''artifact_id'')) (\<lambda>artifact_id.
     bind_res (require_string (dict_item d ''expected_sha256'')) (\<lambda>sha256.
     bind_res (require_int (dict_item d ''expected_size'')) (\<lambda>size.
     bind_res (parse_optional_identity (dict_item d ''temporary_identity'')) (\<lambda>temporary.
     bind_res (require_string (dict_item d ''generation'')) (\<lambda>generation.
     Inr \<lparr>ri_workspace_id = w, ri_slot = slot, ri_target_name = target_name,
          ri_temporary_name = temporary_name, ri_backup_name = backup_name,
          ri_collection = collection, ri_kind = kind, ri_artifact_id = artifact_id,
          ri_expected_sha256 = sha256, ri_expected_size = size, ri_old_claim = old,
          ri_temporary_identity = temporary, ri_generation = generation\<rparr>))))))))))))))"

definition parse_journal :: "pyval \<Rightarrow> registry_error + publish_journal" where
  "parse_journal v = bind_res (require_keys v [''backup_name'', ''generation'', ''new_claim'',
       ''old_claim'', ''phase'', ''slot'', ''target_name'', ''temporary_name'', ''workspace_id'']) (\<lambda>d.
     bind_res (parse_old_claim (dict_item d ''old_claim'')) (\<lambda>old.
     bind_res (require_string (dict_item d ''workspace_id'')) (\<lambda>w.
     bind_res (require_string (dict_item d ''slot'')) (\<lambda>slot.
     bind_res (require_string (dict_item d ''phase'')) (\<lambda>phase.
     bind_res (require_string (dict_item d ''target_name'')) (\<lambda>target_name.
     bind_res (require_string (dict_item d ''temporary_name'')) (\<lambda>temporary_name.
     bind_res (require_string (dict_item d ''backup_name'')) (\<lambda>backup_name.
     bind_res (parse_artifact (dict_item d ''new_claim'')) (\<lambda>claim.
     bind_res (require_string (dict_item d ''generation'')) (\<lambda>generation.
     Inr \<lparr>rj_workspace_id = w, rj_slot = slot, rj_phase = phase, rj_target_name = target_name,
          rj_temporary_name = temporary_name, rj_backup_name = backup_name, rj_new_claim = claim,
          rj_old_claim = old, rj_generation = generation\<rparr>))))))))))"

definition parse_workspace :: "pyval \<Rightarrow> registry_error + workspace_claim" where
  "parse_workspace v = bind_res (require_keys v [''evidence_identity'', ''generation'', ''phase'',
       ''workspace_id'', ''workspace_identity'']) (\<lambda>d.
     bind_res (require_string (dict_item d ''workspace_id'')) (\<lambda>w.
     bind_res (require_string (dict_item d ''phase'')) (\<lambda>phase.
     bind_res (require_string (dict_item d ''generation'')) (\<lambda>generation.
     bind_res (parse_optional_identity (dict_item d ''workspace_identity'')) (\<lambda>wi.
     bind_res (parse_optional_identity (dict_item d ''evidence_identity'')) (\<lambda>ei.
     Inr \<lparr>rw_workspace_id = w, rw_phase = phase, rw_generation = generation,
          rw_workspace_identity = wi, rw_evidence_identity = ei\<rparr>))))))"

definition parse_delete_item :: "pyval \<Rightarrow> registry_error + delete_item" where
  "parse_delete_item v = bind_res (require_keys v [''claim'', ''generation'', ''phase'',
       ''quarantine_name'', ''slot'', ''workspace_id'']) (\<lambda>d.
     bind_res (parse_artifact (dict_item d ''claim'')) (\<lambda>claim.
     bind_res (require_string (dict_item d ''workspace_id'')) (\<lambda>w.
     bind_res (require_string (dict_item d ''slot'')) (\<lambda>slot.
     bind_res (require_string (dict_item d ''phase'')) (\<lambda>phase.
     bind_res (optional_string (dict_item d ''quarantine_name'')) (\<lambda>quarantine.
     bind_res (require_string (dict_item d ''generation'')) (\<lambda>generation.
     Inr \<lparr>rd_workspace_id = w, rd_slot = slot, rd_phase = phase, rd_quarantine_name = quarantine,
          rd_claim = claim, rd_generation = generation\<rparr>)))))))"

text \<open>the loops that fill a dict and raise on a repeated key\<close>

fun parse_rows :: "(pyval \<Rightarrow> registry_error + 'v) \<Rightarrow> ('v \<Rightarrow> 'k) \<Rightarrow> pyval list \<Rightarrow> ('k \<times> 'v) list \<Rightarrow>
  registry_error + ('k \<times> 'v) list" where
  "parse_rows f key [] d = Inr d"
| "parse_rows f key (v # vs) d = bind_res (f v) (\<lambda>row.
     if map_of d (key row) \<noteq> None then Inl DecodeError
     else parse_rows f key vs (AList.update (key row) row d))"

fun parse_collections :: "pyval list \<Rightarrow> (string \<times> (string \<times> file_identity) list) list \<Rightarrow>
  registry_error + (string \<times> (string \<times> file_identity) list) list" where
  "parse_collections [] d = Inr d"
| "parse_collections (v # vs) d =
     bind_res (require_keys v [''collection'', ''identity'', ''workspace_id'']) (\<lambda>kvs.
     bind_res (require_string (dict_item kvs ''workspace_id'')) (\<lambda>w.
     bind_res (require_string (dict_item kvs ''collection'')) (\<lambda>name.
     let identities = (case map_of d w of None \<Rightarrow> [] | Some ids \<Rightarrow> ids) in
     if map_of identities name \<noteq> None then Inl DecodeError
     else bind_res (parse_identity (dict_item kvs ''identity'')) (\<lambda>identity.
       parse_collections vs (AList.update w (AList.update name identity identities) d)))))"

definition parse_state :: "pyval \<Rightarrow> registry_error + registry_state" where
  "parse_state v = bind_res (require_keys v [''artifacts'', ''collections'', ''delete_items'',
       ''publish_intents'', ''publish_journals'', ''workspaces'']) (\<lambda>d.
     bind_res (require_list (dict_item d ''workspaces'')) (\<lambda>rows.
     bind_res (parse_rows parse_workspace rw_workspace_id rows []) (\<lambda>workspaces.
     bind_res (require_list (dict_item d ''collections'')) (\<lambda>rows.
     bind_res (parse_collections rows []) (\<lambda>collections.
     bind_res (require_list (dict_item d ''artifacts'')) (\<lambda>rows.
     bind_res (parse_rows parse_artifact (\<lambda>c. (ra_workspace_id c, ra_slot c)) rows []) (\<lambda>artifacts.
     bind_res (require_list (dict_item d ''publish_intents'')) (\<lambda>rows.
     bind_res (parse_rows parse_intent ri_workspace_id rows []) (\<lambda>intents.
     bind_res (require_list (dict_item d ''publish_journals'')) (\<lambda>rows.
     bind_res (parse_rows parse_journal rj_workspace_id rows []) (\<lambda>journals.
     bind_res (require_list (dict_item d ''delete_items'')) (\<lambda>rows.
     bind_res (parse_rows parse_delete_item (\<lambda>i. (rd_workspace_id i, rd_slot i)) rows []) (\<lambda>delete_items.
     Inr \<lparr>rs_workspaces = workspaces, rs_collections = collections, rs_artifacts = artifacts,
          rs_intents = intents, rs_journals = journals, rs_delete_items = delete_items\<rparr>)))))))))))))"

section \<open>Records\<close>

definition LOG_MAGIC :: string where
  "LOG_MAGIC = ''EXAMSAGE-EVIDENCE-REGISTRY-LOG-v1'' @ [newline]"

definition SCHEMA_VERSION :: int where
  "SCHEMA_VERSION = 1"

definition MAX_RECORD_BYTES :: int where
  "MAX_RECORD_BYTES = 16 * 1024 * 1024"

definition MAX_LOG_BYTES :: int where
  "MAX_LOG_BYTES = 256 * 1024 * 1024"

definition tab :: char where
  "tab = CHR 0x09"

text \<open>\<open>bytes(32)\<close>\<close>

definition ZERO_DIGEST :: string where
  "ZERO_DIGEST = replicate 32 (CHR 0x00)"

text \<open>\<open>line.rpartition(b"\t")\<close> when the separator is found\<close>

definition rpartition_tab :: "string \<Rightarrow> (string \<times> string) option" where
  "rpartition_tab line = (let r = rev line; last = takeWhile (\<lambda>c. c \<noteq> tab) r in
     if tab \<notin> set line then None else Some (rev (drop (Suc (length last)) r), rev last))"

definition record_document :: "file_identity \<Rightarrow> registry_state \<Rightarrow> int \<Rightarrow> string \<Rightarrow> pyval" where
  "record_document R st sequence previous = VDict [
     (''previous_sha256'', VStr (hex_of previous)),
     (''root_identity'', identity_json R),
     (''schema_version'', VInt SCHEMA_VERSION),
     (''sequence'', VInt sequence),
     (''state'', state_json st)]"

definition record_line :: "string \<Rightarrow> string \<Rightarrow> string" where
  "record_line body digest = body @ tab # hex_of digest @ [newline]"

definition encode_state_record ::
  "(string \<Rightarrow> string) \<Rightarrow> file_identity \<Rightarrow> registry_state \<Rightarrow> int \<Rightarrow> string \<Rightarrow> registry_error + (string \<times> string)" where
  "encode_state_record H R st sequence previous =
     (let body = canonical_text (record_document R st sequence previous);
          digest = H (previous @ body);
          bytes = record_line body digest in
      if MAX_RECORD_BYTES < int (length bytes) then Inl (RegistryError Operation_Failed)
      else Inr (bytes, digest))"

text \<open>the \<open>except\<close> clause of \<open>_decode_record\<close>\<close>

definition or_corrupt :: "registry_error + 'a \<Rightarrow> registry_error + 'a" where
  "or_corrupt r = (case r of Inl _ \<Rightarrow> Inl (RegistryError Registry_Corrupt) | Inr x \<Rightarrow> Inr x)"

definition decode_document ::
  "file_identity \<Rightarrow> pyval \<Rightarrow> int \<Rightarrow> string \<Rightarrow> registry_error + (registry_state \<times> int)" where
  "decode_document R document previous_sequence previous_digest =
     bind_res (require_keys document [''schema_version'', ''sequence'', ''previous_sha256'',
       ''root_identity'', ''state'']) (\<lambda>d.
     bind_res (require_int (dict_item d ''sequence'')) (\<lambda>sequence.
     bind_res (require_int (dict_item d ''schema_version'')) (\<lambda>version.
     bind_res (require_string (dict_item d ''previous_sha256'')) (\<lambda>previous.
     bind_res (parse_identity (dict_item d ''root_identity'')) (\<lambda>root.
     if version \<noteq> SCHEMA_VERSION \<or> sequence \<noteq> previous_sequence + 1
       \<or> previous \<noteq> hex_of previous_digest \<or> root \<noteq> R then Inl DecodeError
     else bind_res (parse_state (dict_item d ''state'')) (\<lambda>st.
       bind_res (validate_state st) (\<lambda>_. Inr (st, sequence))))))))"

definition decode_record :: "(string \<Rightarrow> string) \<Rightarrow> file_identity \<Rightarrow> string \<Rightarrow> int \<Rightarrow> string \<Rightarrow>
  registry_error + (registry_state \<times> int \<times> string)" where
  "decode_record H R line previous_sequence previous_digest = or_corrupt
     (case rpartition_tab line of None \<Rightarrow> Inl DecodeError
      | Some (body, encoded) \<Rightarrow>
          if \<not> sha256_text encoded then Inl DecodeError
          else (case of_hex encoded of None \<Rightarrow> Inl DecodeError
          | Some digest \<Rightarrow>
              if digest \<noteq> H (previous_digest @ body) then Inl DecodeError
              else (case json_loads body of None \<Rightarrow> Inl DecodeError
              | Some document \<Rightarrow>
                  if canonical_text document \<noteq> body then Inl DecodeError
                  else bind_res (decode_document R document previous_sequence previous_digest)
                    (\<lambda>(st, sequence). Inr (st, sequence, digest)))))"

section \<open>The file\<close>

text \<open>The loop of \<open>_load\<close>: what remains of the file, the state so far, and the end of the last line.\<close>

function load_records :: "(string \<Rightarrow> string) \<Rightarrow> file_identity \<Rightarrow> string \<Rightarrow> registry_state \<Rightarrow> int \<Rightarrow>
  string \<Rightarrow> nat \<Rightarrow> registry_error + (registry_state \<times> int \<times> string \<times> nat \<times> bool)" where
  "load_records H R rest st sequence previous last_good =
     (if rest = [] then Inr (st, sequence, previous, last_good, False)
      else if newline \<notin> set rest then Inr (st, sequence, previous, last_good, True)
      else let line = takeWhile (\<lambda>c. c \<noteq> newline) rest in
        if line = [] \<or> MAX_RECORD_BYTES < int (length line) then Inl (RegistryError Registry_Corrupt)
        else bind_res (decode_record H R line sequence previous) (\<lambda>(st', sequence', previous').
          load_records H R (drop (Suc (length line)) rest) st' sequence' previous'
            (last_good + length line + 1)))"
  by pat_completeness auto
termination
  by (relation "measure (\<lambda>(H, R, rest, _). length rest)") auto

declare load_records.simps [simp del]

text \<open>
  The attributes of the registry object, less the file, whose bytes the calls take and return.
  \<open>rh_open\<close> is \<open>not _closed and _file is not None\<close>, \<open>rh_created\<close> the file's \<open>created\<close> flag.
\<close>

record registry_handle =
  rh_open :: bool
  rh_created :: bool
  rh_sequence :: int
  rh_previous :: string
  rh_minimum_sequence :: int
  rh_minimum_length :: nat
  rh_minimum_digest :: string
  rh_state :: registry_state
  rh_recovered :: "(string \<times> string) list"

definition new_handle :: "bool \<Rightarrow> registry_handle" where
  "new_handle created = \<lparr>rh_open = True, rh_created = created, rh_sequence = 0,
     rh_previous = ZERO_DIGEST, rh_minimum_sequence = 0, rh_minimum_length = 0,
     rh_minimum_digest = ZERO_DIGEST, rh_state = empty_registry_state, rh_recovered = []\<rparr>"

text \<open>
  What the operating system does to one call: whether \<open>fstat\<close> and the read succeed, whether the
  truncation of a torn tail takes effect and is synced, how many bytes a failing write leaves
  (\<open>None\<close>: it writes all), whether the sync after it succeeds, whether the truncation undoing a
  failed append takes effect, and whether the pinned file is still in place at the two checks.
\<close>

record registry_os =
  ro_stat :: bool
  ro_read :: bool
  ro_resized :: bool
  ro_resize_synced :: bool
  ro_written :: "nat option"
  ro_synced :: bool
  ro_rolled_back :: bool
  ro_pinned_before :: bool
  ro_pinned_after :: bool

definition healthy_os :: registry_os where
  "healthy_os = \<lparr>ro_stat = True, ro_read = True, ro_resized = True, ro_resize_synced = True,
     ro_written = None, ro_synced = True, ro_rolled_back = True, ro_pinned_before = True,
     ro_pinned_after = True\<rparr>"

type_synonym 'a log_call = "string \<times> registry_handle \<Rightarrow> (string \<times> registry_handle) \<times> (registry_error + 'a)"

definition fail_call :: "registry_code \<Rightarrow> 'a log_call" where
  "fail_call code s = (s, Inl (RegistryError code))"

definition bind_call :: "'a log_call \<Rightarrow> ('a \<Rightarrow> 'b log_call) \<Rightarrow> 'b log_call" where
  "bind_call m k s = (case m s of (s', r) \<Rightarrow> (case r of Inl e \<Rightarrow> (s', Inl e) | Inr x \<Rightarrow> k x s'))"

definition rewrite_magic :: "registry_os \<Rightarrow> unit log_call" where
  "rewrite_magic os s = (case s of (log, h) \<Rightarrow>
     if \<not> ro_resized os then fail_call Operation_Failed s
     else (case ro_written os of Some k \<Rightarrow> fail_call Operation_Failed (take k LOG_MAGIC, h)
     | None \<Rightarrow>
         if \<not> ro_synced os then fail_call Operation_Failed (LOG_MAGIC, h)
         else ((LOG_MAGIC, h\<lparr>rh_minimum_length := length LOG_MAGIC\<rparr>), Inr ())))"

definition truncate_log :: "registry_os \<Rightarrow> nat \<Rightarrow> unit log_call" where
  "truncate_log os k s = (case s of (log, h) \<Rightarrow>
     if \<not> ro_resized os then fail_call Operation_Failed s
     else if \<not> ro_resize_synced os then fail_call Operation_Failed (take k log, h)
     else ((take k log, h), Inr ()))"

text \<open>the log goes back behind what this process has seen\<close>

definition behind :: "registry_handle \<Rightarrow> int \<Rightarrow> string \<Rightarrow> nat \<Rightarrow> bool" where
  "behind h sequence previous last_good \<longleftrightarrow>
     sequence < rh_minimum_sequence h \<or> last_good < rh_minimum_length h
     \<or> sequence = rh_minimum_sequence h \<and> 0 < rh_minimum_sequence h \<and> previous \<noteq> rh_minimum_digest h"

definition loaded :: "registry_state \<Rightarrow> int \<Rightarrow> string \<Rightarrow> nat \<Rightarrow> registry_handle \<Rightarrow> registry_handle" where
  "loaded st sequence previous last_good h =
     (let ahead = rh_minimum_sequence h < sequence in
      h\<lparr>rh_state := st, rh_sequence := sequence, rh_previous := previous,
        rh_minimum_sequence := (if ahead then sequence else rh_minimum_sequence h),
        rh_minimum_digest := (if ahead then previous else rh_minimum_digest h),
        rh_minimum_length := max (rh_minimum_length h) last_good\<rparr>)"

definition load_log :: "(string \<Rightarrow> string) \<Rightarrow> file_identity \<Rightarrow> registry_os \<Rightarrow> unit log_call" where
  "load_log H R os s = (case s of (log, h) \<Rightarrow>
     if \<not> rh_open h then fail_call Registry_Closed s
     else if \<not> ro_stat os then fail_call Operation_Failed s
     else if MAX_LOG_BYTES < int (length log) then fail_call Registry_Corrupt s
     else if \<not> ro_read os then fail_call Operation_Failed s
     else if log = [] then
       (if rh_created h \<and> rh_minimum_sequence h = 0 \<and> rh_minimum_length h = 0 then rewrite_magic os s
        else fail_call Registry_Corrupt s)
     else if take (length LOG_MAGIC) log \<noteq> LOG_MAGIC then fail_call Registry_Corrupt s
     else (case load_records H R (drop (length LOG_MAGIC) log) empty_registry_state 0 ZERO_DIGEST
             (length LOG_MAGIC) of
         Inl e \<Rightarrow> (s, Inl e)
       | Inr (st, sequence, previous, last_good, incomplete_tail) \<Rightarrow>
           if behind h sequence previous last_good then fail_call Registry_Corrupt s
           else bind_call (if incomplete_tail then truncate_log os last_good else (\<lambda>s. (s, Inr ())))
             (\<lambda>_ (log', h'). ((log', loaded st sequence previous last_good h'), Inr ())) s))"

definition append_state :: "(string \<Rightarrow> string) \<Rightarrow> file_identity \<Rightarrow> registry_os \<Rightarrow> registry_state \<Rightarrow> unit log_call" where
  "append_state H R os st s = (case s of (log, h) \<Rightarrow>
     let sequence = rh_sequence h + 1 in
     case encode_state_record H R st sequence (rh_previous h) of Inl e \<Rightarrow> (s, Inl e)
     | Inr (bytes, digest) \<Rightarrow>
         if MAX_LOG_BYTES < int (length log) + int (length bytes) then fail_call Operation_Failed s
         else if ro_written os \<noteq> None \<or> \<not> ro_synced os then
           (let wrote = (case ro_written os of None \<Rightarrow> bytes | Some k \<Rightarrow> take k bytes) in
            fail_call Operation_Failed (if ro_rolled_back os then log else log @ wrote, h))
         else ((log @ bytes, h\<lparr>rh_sequence := sequence, rh_previous := digest,
           rh_minimum_sequence := sequence, rh_minimum_length := length log + length bytes,
           rh_minimum_digest := digest\<rparr>), Inr ()))"

definition verify_pinned :: "bool \<Rightarrow> unit log_call" where
  "verify_pinned pinned s =
     (if \<not> rh_open (snd s) then fail_call Registry_Closed s
      else if \<not> pinned then fail_call Identity_Changed s
      else (s, Inr ()))"

definition read_registry :: "(string \<Rightarrow> string) \<Rightarrow> file_identity \<Rightarrow> registry_os \<Rightarrow>
  (registry_state \<Rightarrow> registry_error + 'a) \<Rightarrow> 'a log_call" where
  "read_registry H R os reader =
     bind_call (load_log H R os) (\<lambda>_.
     bind_call (verify_pinned (ro_pinned_before os)) (\<lambda>_ s. (s, reader (rh_state (snd s)))))"

definition mutate_registry ::
  "(string \<Rightarrow> string) \<Rightarrow> file_identity \<Rightarrow> registry_os \<Rightarrow> 'a mutator \<Rightarrow> 'a log_call" where
  "mutate_registry H R os mutator =
     bind_call (load_log H R os) (\<lambda>_.
     bind_call (verify_pinned (ro_pinned_before os)) (\<lambda>_ s.
     case mutator (rh_state (snd s)) of Inl e \<Rightarrow> (s, Inl e)
     | Inr (changed, result, candidate) \<Rightarrow>
         bind_call
           (if changed then
              bind_call (\<lambda>s. (s, validate_state candidate)) (\<lambda>_.
              bind_call (append_state H R os candidate)
                (\<lambda>_ (log, h). ((log, h\<lparr>rh_state := candidate\<rparr>), Inr ())))
            else (\<lambda>s. (s, Inr ())))
           (\<lambda>_. bind_call (verify_pinned (ro_pinned_after os)) (\<lambda>_ s. (s, Inr result))) s))"

section \<open>Opening the registry\<close>

definition initial_registry_bytes :: "(string \<Rightarrow> string) \<Rightarrow> file_identity \<Rightarrow> registry_error + string" where
  "initial_registry_bytes H R = bind_res (encode_state_record H R empty_registry_state 1 ZERO_DIGEST)
     (\<lambda>(bytes, _). Inr (LOG_MAGIC @ bytes))"

text \<open>
  What the directory does while a registry opens: the two existence checks (\<open>None\<close> when the call
  raises), the installation of the first file (it may lose against another process, which leaves
  that one's file, or fail), and the opening, with the \<open>created\<close> flag of the file opened.
\<close>

datatype install_outcome = Installed | Destination_Exists | Install_Failed

record registry_open =
  rn_legacy :: "bool option"
  rn_exists :: "bool option"
  rn_install :: install_outcome
  rn_opened :: "bool option"

definition install_initial_registry :: "(string \<Rightarrow> string) \<Rightarrow> file_identity \<Rightarrow> install_outcome \<Rightarrow> string \<Rightarrow>
  registry_error + string" where
  "install_initial_registry H R outcome log =
     bind_res (initial_registry_bytes H R) (\<lambda>bytes. case outcome of
         Installed \<Rightarrow> Inr bytes
       | Destination_Exists \<Rightarrow> Inr log
       | Install_Failed \<Rightarrow> Inl (RegistryError Operation_Failed))"

definition reserved_claims :: "registry_state \<Rightarrow> (string \<times> string) list" where
  "reserved_claims st = map (\<lambda>(w, c). (w, rw_generation c))
     (filter (\<lambda>(w, c). rw_phase c = ''reserved'') (rs_workspaces st))"

text \<open>a handle that failed to open is closed, so only its error is left\<close>

definition initialize_registry :: "(string \<Rightarrow> string) \<Rightarrow> file_identity \<Rightarrow> registry_open \<Rightarrow> registry_os \<Rightarrow> string \<Rightarrow>
  string \<times> (registry_error + registry_handle)" where
  "initialize_registry H R opening os log =
     (case rn_legacy opening of None \<Rightarrow> (log, Inl OwnedFilesystemError)
      | Some True \<Rightarrow> (log, Inl (RegistryError Legacy_State))
      | Some False \<Rightarrow>
     (case rn_exists opening of None \<Rightarrow> (log, Inl OwnedFilesystemError)
      | Some there \<Rightarrow>
     (case (if there then Inr log else install_initial_registry H R (rn_install opening) log) of
        Inl e \<Rightarrow> (log, Inl e)
      | Inr log1 \<Rightarrow>
     (case rn_opened opening of None \<Rightarrow> (log1, Inl (RegistryError Operation_Failed))
      | Some created \<Rightarrow>
     (case load_log H R os (log1, new_handle created) of
        ((log2, h), Inl e) \<Rightarrow> (log2, Inl e)
      | ((log2, h), Inr _) \<Rightarrow>
          let h' = h\<lparr>rh_recovered := reserved_claims (rh_state h)\<rparr> in
          if rh_sequence h' = 0 then (log2, Inl (RegistryError Registry_Corrupt))
          else if \<not> ro_pinned_before os then (log2, Inl (RegistryError Identity_Changed))
          else (log2, Inr h'))))))"

definition close_registry :: "registry_handle \<Rightarrow> registry_handle" where
  "close_registry h = h\<lparr>rh_open := False\<rparr>"

section \<open>The operations of the registry\<close>

text \<open>the checks of the arguments come first; a failing one leaves the log and the handle alone\<close>

definition after_check :: "check \<Rightarrow> 'a log_call \<Rightarrow> 'a log_call" where
  "after_check c m s = (case c of Inl e \<Rightarrow> (s, Inl e) | Inr _ \<Rightarrow> m s)"

definition registry_reserve_workspace where
  "registry_reserve_workspace H R os w generation =
     after_check (reject_if (\<not> generation_text generation) Claim_Invalid)
       (mutate_registry H R os (reserve_workspace w generation))"

definition forget_recovered :: "string \<Rightarrow> 'a log_call \<Rightarrow> 'a log_call" where
  "forget_recovered w m = bind_call m
     (\<lambda>r (log, h). ((log, h\<lparr>rh_recovered := AList.delete w (rh_recovered h)\<rparr>), Inr r))"

definition registry_retire_reserved_workspace where
  "registry_retire_reserved_workspace H R os w generation =
     after_check (validate_generation generation)
       (forget_recovered w (mutate_registry H R os (retire_reserved_workspace w generation)))"

definition registry_retire_recovered_workspace where
  "registry_retire_recovered_workspace H R os w s =
     (case map_of (rh_recovered (snd s)) w of None \<Rightarrow> (s, Inr False)
      | Some generation \<Rightarrow>
          (case registry_retire_reserved_workspace H R os w generation s of
             (s', Inl e) \<Rightarrow>
               (if e = RegistryError State_Conflict then (s', Inr False) else (s', Inl e))
           | (s', Inr r) \<Rightarrow> (s', Inr r)))"

definition registry_finalize_workspace where
  "registry_finalize_workspace H R os w generation workspace_identity evidence_identity collections =
     after_check (finalize_workspace_args generation collections)
       (forget_recovered w (mutate_registry H R os
         (finalize_workspace w generation workspace_identity evidence_identity collections)))"

definition registry_reserve_publish where
  "registry_reserve_publish H R os i =
     after_check (validate_publish_intent i) (mutate_registry H R os (reserve_publish i))"

definition registry_claim_publish_temporary where
  "registry_claim_publish_temporary H R os w identity generation temporary_name =
     after_check (claim_publish_temporary_args identity generation temporary_name)
       (mutate_registry H R os (claim_publish_temporary w identity generation temporary_name))"

definition registry_clear_publish_intent where
  "registry_clear_publish_intent H R os w generation temporary_name =
     after_check (validate_publish_token generation temporary_name)
       (mutate_registry H R os (clear_publish_intent w generation temporary_name))"

definition registry_prepare_publish where
  "registry_prepare_publish H R os j =
     after_check (validate_publish_journal j) (mutate_registry H R os (prepare_publish j))"

definition registry_advance_publish where
  "registry_advance_publish H R os w generation temporary_name expected_phase new_phase =
     after_check (advance_publish_args generation temporary_name expected_phase new_phase)
       (mutate_registry H R os (advance_publish w generation temporary_name expected_phase new_phase))"

definition registry_commit_publish where
  "registry_commit_publish H R os w claim generation temporary_name =
     after_check (validate_publish_token generation temporary_name)
       (mutate_registry H R os (commit_publish w claim generation temporary_name))"

definition registry_clear_publish where
  "registry_clear_publish H R os w generation temporary_name =
     after_check (validate_publish_token generation temporary_name)
       (mutate_registry H R os (clear_publish w generation temporary_name))"

definition registry_abort_publish where
  "registry_abort_publish H R os w generation temporary_name expected_phases =
     after_check (abort_publish_args generation temporary_name expected_phases)
       (mutate_registry H R os (abort_publish w generation temporary_name expected_phases))"

definition registry_begin_delete where
  "registry_begin_delete H R os w generation =
     after_check (validate_generation generation) (mutate_registry H R os (begin_delete w generation))"

definition registry_get_delete_items where
  "registry_get_delete_items H R os w generation =
     after_check (validate_generation generation) (read_registry H R os (get_delete_items w generation))"

definition registry_plan_delete_quarantine where
  "registry_plan_delete_quarantine H R os w slot quarantine_name generation =
     after_check (validate_generation generation)
       (mutate_registry H R os (plan_delete_quarantine w slot quarantine_name generation))"

definition registry_advance_delete_item where
  "registry_advance_delete_item H R os w slot generation expected_phase new_phase quarantine_name =
     after_check (advance_delete_item_args generation expected_phase new_phase)
       (mutate_registry H R os
         (advance_delete_item w slot generation expected_phase new_phase quarantine_name))"

definition registry_clear_deleted_workspace where
  "registry_clear_deleted_workspace H R os w generation =
     after_check (validate_generation generation)
       (mutate_registry H R os (clear_deleted_workspace w generation))"

text \<open>the getters\<close>

definition registry_get where
  "registry_get H R os reader = read_registry H R os (\<lambda>st. Inr (reader st))"

end
