(* ===== verification/Registry_Serial.thy ===== *)
theory Registry_Serial
  imports Registry_Log
begin

text \<open>
  The two directions of the registry's serialisation agree: a value dumped and loaded comes back
  with its keys sorted, each row comes back as it was, and a state with each dict sorted by key.
\<close>

section \<open>Dicts\<close>

lemma map_of_sort_key: "distinct (map fst kvs) \<Longrightarrow> map_of (sort_key fst kvs) = map_of kvs"
  by (simp add: map_of_inject_set distinct_sort_key)

lemma map_of_sorted_dict:
  assumes "distinct (map fst kvs)"
  shows "map_of (sort_key fst (map (\<lambda>(k, v). (k, sorted_json v)) kvs)) k = map_option sorted_json (map_of kvs k)"
proof -
  let ?g = "\<lambda>(k, v). (k, sorted_json v)"
  have "map fst (map ?g kvs) = map fst kvs" by (simp add: case_prod_unfold)
  then have "map_of (sort_key fst (map ?g kvs)) k = map_of (map ?g kvs) k"
    using assms by (simp add: map_of_sort_key del: map_map)
  then show ?thesis by (simp add: map_of_map)
qed

lemma require_keys_sorted:
  assumes "distinct (map fst kvs)" and "set (map fst kvs) = set keys"
  shows "\<exists>d. require_keys (sorted_json (VDict kvs)) keys = Inr d \<and>
    (\<forall>k \<in> set keys. dict_item d k = sorted_json (the (map_of kvs k)))"
proof (intro exI conjI ballI)
  let ?d = "sort_key fst (map (\<lambda>(k, v). (k, sorted_json v)) kvs)"
  show "require_keys (sorted_json (VDict kvs)) keys = Inr ?d"
    using assms(2) by (force simp: require_keys_def)
  show "dict_item ?d k = sorted_json (the (map_of kvs k))" if "k \<in> set keys" for k
  proof -
    have "map_of kvs k \<noteq> None" using that assms(2) by (auto simp: map_of_eq_None_iff)
    then show ?thesis by (auto simp: dict_item_def map_of_sorted_dict [OF assms(1)])
  qed
qed

lemma update_fresh: "k \<notin> fst ` set d \<Longrightarrow> AList.update k v d = d @ [(k, v)]"
  by (induction d) auto

section \<open>Numbers\<close>

lemma digit_groups_digits: "s \<noteq> [] \<Longrightarrow> list_all is_digit s \<Longrightarrow> digit_groups s"
  by (induction s rule: digit_groups.induct) (auto simp: is_digit_def)

lemma nat_str_all_digits: "list_all is_digit (nat_str n)"
  by (simp add: list_all_iff nat_str_digits)

lemma digit_not_space: "is_digit c \<Longrightarrow> \<not> py_space c"
  by (auto simp: is_digit_def py_space_def)

lemma strip_same:
  assumes "s \<noteq> []" "\<not> py_space (hd s)" "\<not> py_space (last s)"
  shows "py_strip s = s"
proof -
  have "dropWhile py_space s = s" using assms by (cases s) auto
  moreover have "dropWhile py_space (rev s) = rev s" using assms by (cases "rev s") (auto simp: last_rev [symmetric])
  ultimately show ?thesis by (simp add: py_strip_def)
qed

lemma int_str_strip: "py_strip (int_str i) = int_str i"
proof (rule strip_same)
  have n: "is_digit (last (nat_str n))" "is_digit (hd (nat_str n))" for n
    using nat_str_digits [of _ n] by simp_all
  show "int_str i \<noteq> []" by (simp add: int_str_def)
  show "\<not> py_space (hd (int_str i))"
    using n digit_not_space by (auto simp: int_str_def py_space_def)
  show "\<not> py_space (last (int_str i))"
    using n digit_not_space by (simp add: int_str_def)
qed

lemma py_int_str [simp]: "py_int (int_str i) = Some i"
proof -
  have f: "filter is_digit (nat_str n) = nat_str n" for n
    using nat_str_all_digits [of n] by (simp add: list_all_iff filter_id_conv)
  have g: "digit_groups (nat_str n)" for n
    by (simp add: digit_groups_digits nat_str_all_digits)
  show ?thesis
  proof (cases "i < 0")
    case True
    then have s: "int_str i = CHR ''-'' # nat_str (nat (- i))" by (simp add: int_str_def)
    then have "py_strip (CHR ''-'' # nat_str (nat (- i))) = CHR ''-'' # nat_str (nat (- i))"
      using int_str_strip [of i] by simp
    then show ?thesis
      using True by (simp add: s py_int_def f g digits_value_nat_str Let_def del: digits_value.simps)
  next
    case False
    then have s: "int_str i = nat_str (nat i)" by (simp add: int_str_def)
    obtain c cs where c: "nat_str (nat i) = c # cs" "is_digit c" using nat_str_head by metis
    have "take 1 (nat_str (nat i)) \<notin> {''-'', ''+''}" using c by (auto simp: is_digit_def)
    then show ?thesis
      using False int_str_strip [of i]
      by (simp add: s py_int_def f g digits_value_nat_str Let_def del: digits_value.simps take_Suc_conv_app_nth One_nat_def)
  qed
qed

section \<open>Rows\<close>

lemma sorted_json_string [simp]: "sorted_json (optional_string_json s) = optional_string_json s"
  by (cases s) (simp_all add: optional_string_json_def)

lemma sorted_json_identity [simp]:
  "sorted_json (identity_json i) = identity_json i"
  "sorted_json (optional_identity_json j) = optional_identity_json j"
  by (cases j; simp add: identity_json_def optional_identity_json_def)+

lemma parse_identity_json [simp]: "parse_identity (identity_json i) = Inr i"
  by (simp add: parse_identity_def identity_json_def require_list_def parse_decimal_def require_string_def)

lemma parse_optional_identity_json [simp]: "parse_optional_identity (optional_identity_json i) = Inr i"
proof (cases i)
  case (Some j)
  have "parse_optional_identity (identity_json j) = Inr (Some j)"
    using parse_identity_json [of j] by (simp add: parse_optional_identity_def identity_json_def)
  with Some show ?thesis by (simp add: optional_identity_json_def)
qed (simp add: parse_optional_identity_def optional_identity_json_def)

lemma require_simps [simp]:
  "require_string (VStr s) = Inr s" "require_int (VInt i) = Inr i" "require_list (VList vs) = Inr vs"
  "optional_string (optional_string_json t) = Inr t"
  by (cases t; simp add: require_string_def require_int_def require_list_def optional_string_def
      optional_string_json_def)+

text \<open>
  How a row comes back: the dict read has the keys dumped, and each member is the one dumped,
  sorted.
\<close>

lemma row_read:
  assumes "row = VDict kvs" and "distinct (map fst kvs)" and "set (map fst kvs) = set keys"
    and "\<And>d. \<forall>k \<in> set keys. dict_item d k = sorted_json (the (map_of kvs k)) \<Longrightarrow> f d = r"
  shows "bind_res (require_keys (sorted_json row) keys) f = r"
  using require_keys_sorted [OF assms(2,3)] assms(1,4) by (metis bind_res_simps(2))

lemma parse_artifact_json [simp]: "parse_artifact (sorted_json (artifact_json c)) = Inr c"
  unfolding parse_artifact_def by (rule row_read [OF artifact_json_def]) simp_all

lemma sorted_artifact_json: "\<exists>kvs. sorted_json (artifact_json c) = VDict kvs"
  by (simp add: artifact_json_def)

lemma parse_old_claim_json [simp]: "parse_old_claim (sorted_json (old_claim_json old)) = Inr old"
proof (cases old)
  case (Some c)
  obtain kvs where kvs: "sorted_json (artifact_json c) = VDict kvs" using sorted_artifact_json by blast
  then show ?thesis
    using Some parse_artifact_json [of c] by (simp add: parse_old_claim_def old_claim_json_def)
qed (simp add: parse_old_claim_def old_claim_json_def)

lemma parse_intent_json [simp]: "parse_intent (sorted_json (intent_json i)) = Inr i"
  unfolding parse_intent_def by (rule row_read [OF intent_json_def]) simp_all

lemma parse_journal_json [simp]: "parse_journal (sorted_json (journal_json j)) = Inr j"
  unfolding parse_journal_def by (rule row_read [OF journal_json_def]) simp_all

lemma parse_workspace_json [simp]: "parse_workspace (sorted_json (workspace_json c)) = Inr c"
  unfolding parse_workspace_def by (rule row_read [OF workspace_json_def]) simp_all

lemma parse_delete_item_json [simp]: "parse_delete_item (sorted_json (delete_item_json i)) = Inr i"
  unfolding parse_delete_item_def by (rule row_read [OF delete_item_json_def]) simp_all

section \<open>States\<close>

text \<open>each dict of a state sorted by its keys, which is how a state comes back from the log\<close>

definition sorted_state :: "registry_state \<Rightarrow> registry_state" where
  "sorted_state st = \<lparr>rs_workspaces = items_sorted (rs_workspaces st),
     rs_collections = map (\<lambda>kv. (fst kv, items_sorted (snd kv))) (items_sorted (rs_collections st)),
     rs_artifacts = items_sorted (rs_artifacts st), rs_intents = items_sorted (rs_intents st),
     rs_journals = items_sorted (rs_journals st), rs_delete_items = items_sorted (rs_delete_items st)\<rparr>"

text \<open>the lists that stand for dicts have distinct keys, and no collection dict is empty\<close>

definition dicts_ok :: "registry_state \<Rightarrow> bool" where
  "dicts_ok st \<longleftrightarrow> distinct (map fst (rs_workspaces st)) \<and> distinct (map fst (rs_collections st))
     \<and> list_all (\<lambda>kv. distinct (map fst (snd kv))) (rs_collections st)
     \<and> distinct (map fst (rs_artifacts st)) \<and> distinct (map fst (rs_intents st))
     \<and> distinct (map fst (rs_journals st)) \<and> distinct (map fst (rs_delete_items st))"

lemma set_items_sorted [simp]: "set (items_sorted d) = set d"
  by (simp add: items_sorted_def)

lemma distinct_items_sorted: "distinct (map fst d) \<Longrightarrow> distinct (map fst (items_sorted d))"
  by (simp add: items_sorted_def distinct_sort_key)

lemma map_of_items_sorted: "distinct (map fst d) \<Longrightarrow> map_of (items_sorted d) = map_of d"
  by (simp add: items_sorted_def map_of_sort_key)

lemma items_sorted_twice [simp]: "items_sorted (items_sorted d) = items_sorted d"
  by (simp add: items_sorted_def sort_key_twice)

lemma parse_rows_back:
  assumes "\<And>row. f (sorted_json (g row)) = Inr row"
    and "\<forall>kv \<in> set d. key (snd kv) = fst kv" and "distinct (map fst (acc @ d))"
  shows "parse_rows f key (map (sorted_json \<circ> g \<circ> snd) d) acc = Inr (acc @ d)"
  using assms(2,3)
proof (induction d arbitrary: acc)
  case (Cons kv d)
  then have "\<forall>y. (fst kv, y) \<notin> set acc" "AList.update (fst kv) (snd kv) acc = acc @ [kv]"
    by (auto simp: update_fresh image_iff)
  with Cons show ?case by (simp add: assms(1))
qed simp

lemma parse_collection_row:
  assumes "distinct (map fst acc)" and "w \<notin> fst ` set acc" and "distinct (map fst (seen @ [kv]))"
  shows "parse_collections (sorted_json (collection_row_json w kv) # vs)
      (if seen = [] then acc else acc @ [(w, seen)]) =
    parse_collections vs (acc @ [(w, seen @ [kv])])"
proof -
  let ?d = "if seen = [] then acc else acc @ [(w, seen)]"
  have ids: "(case map_of ?d w of None \<Rightarrow> [] | Some ids \<Rightarrow> ids) = seen"
  proof -
    have "map_of acc w = None" using assms(2) by (simp add: map_of_eq_None_iff)
    then show ?thesis by (simp add: map_add_def)
  qed
  have fresh: "map_of seen (fst kv) = None" "AList.update (fst kv) (snd kv) seen = seen @ [kv]"
    using assms(3) by (auto simp: map_of_eq_None_iff update_fresh)
  have "AList.update w (seen @ [kv]) (acc @ [(w, seen)]) = acc @ [(w, seen @ [kv])]"
    using assms(2) by (induction acc) auto
  then have upd: "AList.update w (seen @ [kv]) ?d = acc @ [(w, seen @ [kv])]"
    using assms(2) by (simp add: update_fresh)
  show ?thesis
    unfolding parse_collections.simps
    by (rule row_read [OF collection_row_json_def])
      (simp_all add: ids fresh upd Let_def del: bind_res_simps(1))
qed

lemma parse_collection_rows:
  assumes "distinct (map fst acc)" and "w \<notin> fst ` set acc" and "distinct (map fst (seen @ ids))" and "ids \<noteq> []"
  shows "parse_collections (map (sorted_json \<circ> collection_row_json w) ids @ vs)
      (if seen = [] then acc else acc @ [(w, seen)]) =
    parse_collections vs (acc @ [(w, seen @ ids)])"
  using assms(3,4)
proof (induction ids arbitrary: seen)
  case (Cons kv ids)
  have "parse_collections (map (sorted_json \<circ> collection_row_json w) (kv # ids) @ vs)
      (if seen = [] then acc else acc @ [(w, seen)]) =
    parse_collections (map (sorted_json \<circ> collection_row_json w) ids @ vs) (acc @ [(w, seen @ [kv])])"
    using parse_collection_row [OF assms(1,2), of seen kv] Cons.prems by simp
  also have "\<dots> = parse_collections vs (acc @ [(w, seen @ kv # ids)])"
    using Cons.IH [of "seen @ [kv]"] Cons.prems by (cases "ids = []") (auto simp: comp_def)
  finally show ?case .
qed simp

lemma parse_collections_back:
  assumes "distinct (map fst (acc @ cs))" and "\<forall>kv \<in> set cs. distinct (map fst (snd kv)) \<and> snd kv \<noteq> []"
  shows "parse_collections (map sorted_json (concat (map (\<lambda>kv. map (collection_row_json (fst kv)) (snd kv)) cs))) acc =
    Inr (acc @ cs)"
  using assms
proof (induction cs arbitrary: acc)
  case (Cons kv cs)
  have "parse_collections (map (sorted_json \<circ> collection_row_json (fst kv)) (snd kv) @ vs) acc =
      parse_collections vs (acc @ [kv])" for vs
    using parse_collection_rows [of acc "fst kv" "[]" "snd kv" vs] Cons.prems by (auto split: if_splits)
  then show ?case using Cons.IH [of "acc @ [kv]"] Cons.prems by (auto simp: comp_assoc)
qed simp

lemma keyed_rows:
  assumes "validate_state st = Inr ()"
  shows "\<forall>kv \<in> set (rs_workspaces st). rw_workspace_id (snd kv) = fst kv"
    "\<forall>kv \<in> set (rs_artifacts st). (ra_workspace_id (snd kv), ra_slot (snd kv)) = fst kv"
    "\<forall>kv \<in> set (rs_intents st). ri_workspace_id (snd kv) = fst kv"
    "\<forall>kv \<in> set (rs_journals st). rj_workspace_id (snd kv) = fst kv"
    "\<forall>kv \<in> set (rs_delete_items st). (rd_workspace_id (snd kv), rd_slot (snd kv)) = fst kv"
    "\<forall>kv \<in> set (rs_collections st). snd kv \<noteq> []"
  using assms by (auto simp: validate_state_def check_workspace_claim_def check_artifact_def check_intent_def
    check_journal_def check_delete_item_def check_collection_def has_all_collections_def
    REGISTRY_COLLECTIONS_def Let_def)

lemma parse_state_json:
  assumes "validate_state st = Inr ()" and "dicts_ok st"
  shows "parse_state (sorted_json (state_json st)) = Inr (sorted_state st)"
proof -
  note keyed = keyed_rows [OF assms(1)]
  let ?s = items_sorted
  have d: "distinct (map fst (?s (rs_workspaces st)))" "distinct (map fst (?s (rs_artifacts st)))"
    "distinct (map fst (?s (rs_intents st)))" "distinct (map fst (?s (rs_journals st)))"
    "distinct (map fst (?s (rs_delete_items st)))" "distinct (map fst (?s (rs_collections st)))"
    using assms(2) by (simp_all add: dicts_ok_def distinct_items_sorted)
  have rows:
    "parse_rows parse_workspace rw_workspace_id (map (sorted_json \<circ> workspace_json \<circ> snd) (?s (rs_workspaces st))) [] =
       Inr (?s (rs_workspaces st))"
    "parse_rows parse_artifact (\<lambda>c. (ra_workspace_id c, ra_slot c))
       (map (sorted_json \<circ> artifact_json \<circ> snd) (?s (rs_artifacts st))) [] = Inr (?s (rs_artifacts st))"
    "parse_rows parse_intent ri_workspace_id (map (sorted_json \<circ> intent_json \<circ> snd) (?s (rs_intents st))) [] =
       Inr (?s (rs_intents st))"
    "parse_rows parse_journal rj_workspace_id (map (sorted_json \<circ> journal_json \<circ> snd) (?s (rs_journals st))) [] =
       Inr (?s (rs_journals st))"
    "parse_rows parse_delete_item (\<lambda>i. (rd_workspace_id i, rd_slot i))
       (map (sorted_json \<circ> delete_item_json \<circ> snd) (?s (rs_delete_items st))) [] = Inr (?s (rs_delete_items st))"
    using d keyed by (simp_all add: parse_rows_back)
  have cs: "parse_collections (map sorted_json (collection_rows (rs_collections st))) [] =
      Inr (rs_collections (sorted_state st))"
  proof -
    let ?cs = "map (\<lambda>kv. (fst kv, ?s (snd kv))) (?s (rs_collections st))"
    have "distinct (map fst ?cs)" using d(6) by (simp add: comp_def)
    moreover have "\<forall>kv \<in> set ?cs. distinct (map fst (snd kv)) \<and> snd kv \<noteq> []"
    proof
      fix kv assume "kv \<in> set ?cs"
      then obtain c where c: "c \<in> set (rs_collections st)" "kv = (fst c, ?s (snd c))" by auto
      then have "distinct (map fst (snd c))" "snd c \<noteq> []"
        using assms(2) keyed(6) by (auto simp: dicts_ok_def list_all_iff)
      then show "distinct (map fst (snd kv)) \<and> snd kv \<noteq> []"
        using set_items_sorted [of "snd c"] by (simp add: c(2) distinct_items_sorted del: set_items_sorted) force
    qed
    ultimately have "parse_collections (map sorted_json (concat (map (\<lambda>kv. map (collection_row_json (fst kv)) (snd kv)) ?cs))) [] =
        Inr ?cs"
      using parse_collections_back [of "[]" ?cs] by simp
    then show ?thesis by (simp add: collection_rows_def sorted_state_def comp_def)
  qed
  show ?thesis
    unfolding parse_state_def
    by (rule row_read [OF state_json_def])
      (simp_all add: rows [unfolded comp_assoc] cs comp_assoc, simp add: sorted_state_def)
qed

text \<open>the checks read the dicts only by lookup and by their keys\<close>

lemma map_of_values: "map_of (map (\<lambda>kv. (fst kv, f (snd kv))) xs) k = map_option f (map_of xs k)"
  by (induction xs) auto

lemma sorted_lookups:
  assumes "dicts_ok st"
  shows "map_of (rs_workspaces (sorted_state st)) = map_of (rs_workspaces st)"
    "map_of (rs_artifacts (sorted_state st)) = map_of (rs_artifacts st)"
    "map_of (rs_intents (sorted_state st)) = map_of (rs_intents st)"
    "map_of (rs_journals (sorted_state st)) = map_of (rs_journals st)"
    "map_of (rs_delete_items (sorted_state st)) = map_of (rs_delete_items st)"
    "map_of (rs_collections (sorted_state st)) w = map_option items_sorted (map_of (rs_collections st) w)"
  using assms by (simp_all add: dicts_ok_def sorted_state_def map_of_items_sorted map_of_values)

lemma sorted_slots:
  "slots_of w (items_sorted d) = [] \<longleftrightarrow> slots_of w d = []"
  "set (slots_of w (items_sorted d)) = set (slots_of w d)"
  by (simp_all add: slots_of_def filter_empty_conv)

lemma sorted_collection:
  assumes "dicts_ok st"
  shows "has_all_collections (collection_of (sorted_state st) w) = has_all_collections (collection_of st w)"
    "set (map fst (collection_of (sorted_state st) w)) = set (map fst (collection_of st w))"
    "map_of (rs_collections (sorted_state st)) w = None \<longleftrightarrow> map_of (rs_collections st) w = None"
  by (simp_all add: collection_of_def sorted_lookups [OF assms] has_all_collections_def split: option.split)

lemma sorted_checks:
  assumes ok: "dicts_ok st"
  shows "check_workspace_claim (sorted_state st) = check_workspace_claim st"
    "check_artifact (sorted_state st) = check_artifact st"
    "check_intent (sorted_state st) = check_intent st"
    "check_journal (sorted_state st) = check_journal st"
    "check_delete_item (sorted_state st) = check_delete_item st"
    "check_collection (sorted_state st) (w, items_sorted ids) = check_collection st (w, ids)"
proof -
  note l = sorted_lookups(1-5) [OF ok] sorted_collection [OF ok]
  have s: "(slots_of w (rs_artifacts (sorted_state st)) = []) = (slots_of w (rs_artifacts st) = [])"
    "(slots_of w (rs_delete_items (sorted_state st)) = []) = (slots_of w (rs_delete_items st) = [])"
    "set (slots_of w (rs_artifacts (sorted_state st))) = set (slots_of w (rs_artifacts st))"
    "set (slots_of w (rs_delete_items (sorted_state st))) = set (slots_of w (rs_delete_items st))" for w
    by (simp_all add: sorted_state_def sorted_slots)
  show "check_workspace_claim (sorted_state st) = check_workspace_claim st"
    by (rule ext) (simp only: check_workspace_claim_def Let_def l s has_publish_def)
  show "check_artifact (sorted_state st) = check_artifact st"
    by (rule ext) (simp only: check_artifact_def Let_def l)
  show "check_intent (sorted_state st) = check_intent st"
    by (rule ext) (simp only: check_intent_def Let_def l workspace_in_phase_def)
  show "check_journal (sorted_state st) = check_journal st"
    by (rule ext) (simp only: check_journal_def Let_def l workspace_in_phase_def)
  show "check_delete_item (sorted_state st) = check_delete_item st"
    by (rule ext) (simp only: check_delete_item_def Let_def l workspace_in_phase_def)
  show "check_collection (sorted_state st) (w, items_sorted ids) = check_collection st (w, ids)"
    by (simp add: check_collection_def l has_all_collections_def list_ex_iff)
qed

lemma validate_sorted:
  assumes "dicts_ok st" and "validate_state st = Inr ()"
  shows "validate_state (sorted_state st) = Inr ()"
  using assms(2) unfolding validate_state_def sorted_checks(1-5) [OF assms(1)]
  by (fastforce simp: sorted_state_def sorted_checks(6) [OF assms(1), unfolded sorted_state_def])

lemma dicts_ok_sorted: "dicts_ok st \<Longrightarrow> dicts_ok (sorted_state st)"
  by (auto simp: dicts_ok_def sorted_state_def distinct_items_sorted comp_def list_all_iff)

section \<open>Records\<close>

lemma json_plain_rows:
  "json_plain (identity_json i)" "json_plain (optional_identity_json oi)" "json_plain (artifact_json c)"
  "json_plain (old_claim_json old)" "json_plain (intent_json pi)" "json_plain (journal_json j)"
  "json_plain (collection_row_json w kv)" "json_plain (delete_item_json di)" "json_plain (workspace_json wc)"
proof -
  show i: "json_plain (identity_json i)" for i by (simp add: identity_json_def)
  show oi: "json_plain (optional_identity_json oi)" for oi by (cases oi) (simp_all add: optional_identity_json_def i)
  show c: "json_plain (artifact_json c)" for c by (simp add: artifact_json_def i)
  show old: "json_plain (old_claim_json old)" for old by (cases old) (simp_all add: old_claim_json_def c)
  have s: "json_plain (optional_string_json t)" for t by (cases t) (simp_all add: optional_string_json_def)
  show "json_plain (intent_json pi)" by (simp add: intent_json_def old oi)
  show "json_plain (journal_json j)" by (simp add: journal_json_def old c)
  show "json_plain (collection_row_json w kv)" by (simp add: collection_row_json_def i)
  show "json_plain (delete_item_json di)" by (simp add: delete_item_json_def c s)
  show "json_plain (workspace_json wc)" by (simp add: workspace_json_def oi)
qed

lemma json_plain_document: "json_plain (record_document R st sequence previous)"
  by (auto simp: record_document_def state_json_def collection_rows_def list_all_iff json_plain_rows)

lemma hex_digit_char: "k < 16 \<Longrightarrow> hex_digit k \<in> set ''0123456789abcdef''"
  by (simp add: hex_digit_def nth_mem del: list.set)

lemma hex_of_lower: "list_all lower_hex (hex_of bs)"
proof -
  have "lower_hex (hex_digit k)" if "k < 16" for k using hex_digit_char [OF that] by (simp add: lower_hex_def)
  then show ?thesis by (induction bs) (simp_all add: hex_of_def Let_def)
qed

lemma lower_hex_safe: "lower_hex c \<Longrightarrow> c \<noteq> newline \<and> c \<noteq> tab"
  by (auto simp: lower_hex_def newline_def tab_def)

lemma hex_of_safe: "newline \<notin> set (hex_of bs)" "tab \<notin> set (hex_of bs)"
  using hex_of_lower [of bs] lower_hex_safe by (auto simp: list_all_iff)

lemma ascii_json_char_safe: "newline \<notin> set (ascii_json_char c)"
proof -
  have "hex_digit k \<noteq> newline" if "k < 16" for k
    using hex_digit_char [OF that] lower_hex_safe by (auto simp: lower_hex_def)
  then have h: "hex_digit (of_char c div 16) \<noteq> newline" "hex_digit (of_char c mod 16) \<noteq> newline" by simp_all
  show ?thesis
    using h by (auto simp: ascii_json_char_def json_char_def Let_def newline_def split: if_splits)
qed

lemma json_text_safe: "json_plain v \<Longrightarrow> newline \<notin> set (json_text ascii_json_char v)"
proof (induction v)
  case (VInt i)
  have "\<not> is_digit newline" by (simp add: is_digit_def newline_def)
  then show ?case using nat_str_digits by (auto simp: int_str_def newline_def)
next
  case (VStr s)
  then show ?case using ascii_json_char_safe by (auto simp: json_string_def newline_def)
next
  case (VList vs)
  then show ?case
    using set_join_with [of "CHR '',''" "map (json_text ascii_json_char) vs"]
    by (auto simp: newline_def list_all_iff dest!: subsetD)
next
  case (VDict kvs)
  have "newline \<notin> set (member_text kv)" if "kv \<in> set kvs" for kv
    using VDict that ascii_json_char_safe
    by (cases kv) (fastforce simp: member_text_def json_string_def list_all_iff newline_def)
  then show ?case
    using set_join_with [of "CHR '',''" "map member_text (sort_key fst kvs)"]
    by (auto simp: json_text_dict newline_def dest!: subsetD simp del: json_text.simps)
qed (simp_all add: newline_def)

lemma rpartition_record: "tab \<notin> set s \<Longrightarrow> rpartition_tab (body @ tab # s) = Some (body, s)"
proof -
  assume "tab \<notin> set s"
  then have "takeWhile (\<lambda>c. c \<noteq> tab) (rev s @ tab # rev body) = rev s"
    by (subst takeWhile_append2) auto
  then show ?thesis by (simp add: rpartition_tab_def Let_def)
qed

lemma parse_document_state:
  assumes "validate_state st = Inr ()" and "dicts_ok st"
  shows "decode_document R (sorted_json (record_document R st (n + 1) previous)) n previous =
    Inr (sorted_state st, n + 1)"
  unfolding decode_document_def
  by (rule row_read [OF record_document_def])
    (simp_all add: parse_state_json [OF assms] validate_sorted [OF assms(2,1)], auto)

text \<open>a record decodes to the state it encodes, with its dicts sorted\<close>

lemma decode_encoded:
  assumes "validate_state st = Inr ()" and "dicts_ok st" and "\<And>x. length (H x) = 32"
    and "encode_state_record H R st (n + 1) previous = Inr (bytes, digest)"
  shows "decode_record H R (butlast bytes) n previous = Inr (sorted_state st, n + 1, digest)"
proof -
  let ?doc = "record_document R st (n + 1) previous" and ?body = "canonical_text (record_document R st (n + 1) previous)"
  have b: "bytes = record_line ?body digest" "digest = H (previous @ ?body)"
    using assms(4) by (auto simp: encode_state_record_def Let_def split: if_splits)
  have hex: "sha256_text (hex_of digest)"
    using assms(3) by (simp add: sha256_text_def hex_of_lower b(2))
  have part: "rpartition_tab (butlast bytes) = Some (?body, hex_of digest)"
    by (simp add: b(1) record_line_def butlast_append rpartition_record hex_of_safe)
  have "json_loads ?body = Some (sorted_json ?doc)" "canonical_text (sorted_json ?doc) = ?body"
    using json_plain_document by (simp_all add: canonical_text_def json_loads_text json_text_sorted)
  with hex part show ?thesis
    by (simp add: decode_record_def or_corrupt_def parse_document_state [OF assms(1,2)] b(2))
qed

end
