(* ===== verification/Registry_Inv.thy ===== *)
theory Registry_Inv
  imports Registry_Serial
begin

text \<open>
  What every step of the registry keeps: the dicts have distinct keys, the state passes
  \<open>_validate_state\<close>, and a snapshot slot that holds a revoked artifact can only be written with a
  revoked one. With these, what a step does to the artifacts of each slot.
\<close>

section \<open>Dicts\<close>

lemma dicts_ok_planned:
  "distinct (map fst items) \<Longrightarrow>
   distinct (map fst (fold (\<lambda>kv items. if P kv then AList.update (k kv) (v kv) items else items) xs items))"
  by (induction xs arbitrary: items) (simp_all add: distinct_update)

lemma distinct_delete_key: "distinct (map fst d) \<Longrightarrow> distinct (map fst (AList.delete k d))"
  by (rule distinct_delete)

lemma distinct_filter_keys: "distinct (map fst d) \<Longrightarrow> distinct (map fst (filter P d))"
  by (rule distinct_map_filter)

lemma list_all_update:
  "list_all P d \<Longrightarrow> P (k, v) \<Longrightarrow> list_all P (AList.update k v d)"
  by (induction d) auto

lemma list_all_delete: "list_all P d \<Longrightarrow> list_all P (AList.delete k d)"
  by (auto simp: list_all_iff AList.delete_eq)

lemmas mutator_defs = reserve_workspace_def retire_reserved_workspace_def finalize_workspace_def
  reserve_publish_def claim_publish_temporary_def clear_publish_intent_def prepare_publish_def
  advance_publish_def commit_publish_def clear_publish_def abort_publish_def begin_delete_def
  plan_delete_quarantine_def advance_delete_item_def clear_deleted_workspace_def

lemma registry_step_dicts:
  assumes "registry_step st st'" and "dicts_ok st"
  shows "dicts_ok st'"
  using assms
  by (induction rule: registry_step.induct)
    (auto simp: mutator_defs dicts_ok_def Let_def distinct_update distinct_delete_key distinct_filter_keys
      list_all_update list_all_delete dicts_ok_planned split: option.splits if_splits)

section \<open>Revoked snapshots\<close>

text \<open>the slot of a snapshot holds the artifact that stands for a revoked one\<close>

definition slot_revoked :: "registry_state \<Rightarrow> string \<Rightarrow> string \<Rightarrow> bool" where
  "slot_revoked st w slot = (case map_of (rs_artifacts st) (w, slot) of None \<Rightarrow> False
     | Some c \<Rightarrow> ra_collection c = ''snapshots'' \<and> ra_sha256 c = REVOKED_ARTIFACT_SHA256)"

text \<open>a publication under way does not replace a revoked snapshot by another artifact\<close>

definition keeps_revoked :: "registry_state \<Rightarrow> bool" where
  "keeps_revoked st \<longleftrightarrow>
     (\<forall>w i. map_of (rs_intents st) w = Some i \<longrightarrow> slot_revoked st w (ri_slot i) \<longrightarrow>
        ri_expected_sha256 i = REVOKED_ARTIFACT_SHA256) \<and>
     (\<forall>w j. map_of (rs_journals st) w = Some j \<longrightarrow> slot_revoked st w (rj_slot j) \<longrightarrow>
        ra_sha256 (rj_new_claim j) = REVOKED_ARTIFACT_SHA256)"

definition registry_inv :: "registry_state \<Rightarrow> bool" where
  "registry_inv st \<longleftrightarrow> validate_state st = Inr () \<and> dicts_ok st \<and> keeps_revoked st"

lemma collection_no_slash: "c \<in> set REGISTRY_COLLECTIONS \<Longrightarrow> CHR ''/'' \<notin> set c"
  by (auto simp: REGISTRY_COLLECTIONS_def)

lemma intent_collection:
  assumes "validate_publish_intent i = Inr ()"
  shows "split_on CHR ''/'' (ri_slot i) ! 0 = ri_collection i"
proof -
  have "ri_slot i = ri_collection i @ CHR ''/'' # ri_target_name i" "CHR ''/'' \<notin> set (ri_collection i)"
    using assms collection_no_slash by (simp_all add: validate_publish_intent_def)
  then show ?thesis by (simp add: split_on_append_sep)
qed

lemma claim_collection:
  "validate_artifact_claim c = Inr () \<Longrightarrow> split_on CHR ''/'' (ra_slot c) ! 0 = ra_collection c"
  by (simp add: validate_artifact_claim_def Let_def)

lemma update_lookup: "map_of (AList.update k v d) = (map_of d)(k \<mapsto> v)"
  by (rule update_conv')

lemma delete_lookup: "map_of (AList.delete k d) = (map_of d)(k := None)"
  by (rule delete_conv')

text \<open>the publications a step leaves on the slots it does not write\<close>

lemma keeps_revoked_frame:
  assumes "keeps_revoked st" and "rs_artifacts st' = rs_artifacts st"
    and "\<And>w i. map_of (rs_intents st') w = Some i \<Longrightarrow> map_of (rs_intents st) w \<noteq> Some i \<Longrightarrow>
      slot_revoked st w (ri_slot i) \<Longrightarrow> ri_expected_sha256 i = REVOKED_ARTIFACT_SHA256"
    and "\<And>w j. map_of (rs_journals st') w = Some j \<Longrightarrow> map_of (rs_journals st) w \<noteq> Some j \<Longrightarrow>
      slot_revoked st w (rj_slot j) \<Longrightarrow> ra_sha256 (rj_new_claim j) = REVOKED_ARTIFACT_SHA256"
  shows "keeps_revoked st'"
proof -
  have r: "slot_revoked st' = slot_revoked st" by (simp add: slot_revoked_def assms(2) fun_eq_iff)
  show ?thesis
    unfolding keeps_revoked_def r
  proof (intro conjI allI impI)
    fix w i assume "map_of (rs_intents st') w = Some i" "slot_revoked st w (ri_slot i)"
    then show "ri_expected_sha256 i = REVOKED_ARTIFACT_SHA256"
      using assms(1,3) by (cases "map_of (rs_intents st) w = Some i") (auto simp: keeps_revoked_def)
  next
    fix w j assume "map_of (rs_journals st') w = Some j" "slot_revoked st w (rj_slot j)"
    then show "ra_sha256 (rj_new_claim j) = REVOKED_ARTIFACT_SHA256"
      using assms(1,4) by (cases "map_of (rs_journals st) w = Some j") (auto simp: keeps_revoked_def)
  qed
qed

lemma reserve_publish_keeps:
  assumes "registry_inv st" and "validate_publish_intent i = Inr ()" and "mutates_to (reserve_publish i st) st'"
  shows "keeps_revoked st'"
proof -
  let ?w = "ri_workspace_id i"
  have st': "st' = st\<lparr>rs_intents := AList.update ?w i (rs_intents st)\<rparr>"
    and guard: "\<And>c. map_of (rs_artifacts st) (?w, ri_slot i) = Some c \<Longrightarrow> ri_collection i = ''snapshots'' \<Longrightarrow>
      ra_sha256 c = REVOKED_ARTIFACT_SHA256 \<Longrightarrow> ri_expected_sha256 i = REVOKED_ARTIFACT_SHA256"
    using assms(3) by (auto simp: reserve_publish_def Let_def split: if_splits option.splits)
  have new: "ri_expected_sha256 i = REVOKED_ARTIFACT_SHA256" if r: "slot_revoked st ?w (ri_slot i)"
  proof -
    obtain c where c: "map_of (rs_artifacts st) (?w, ri_slot i) = Some c" "ra_collection c = ''snapshots''"
      "ra_sha256 c = REVOKED_ARTIFACT_SHA256"
      using r by (auto simp: slot_revoked_def split: option.splits)
    have "ra_slot c = ri_slot i" "validate_artifact_claim c = Inr ()"
      using valid_artifact [OF _ c(1)] assms(1) by (simp_all add: registry_inv_def)
    then have "ri_collection i = ''snapshots''"
      using intent_collection [OF assms(2)] claim_collection [of c] c(2) by simp
    with guard c show ?thesis by blast
  qed
  show ?thesis
    by (rule keeps_revoked_frame [of st])
      (use assms(1) new in \<open>auto simp: registry_inv_def st' update_lookup split: if_splits\<close>)
qed

lemma commit_publish_keeps:
  assumes "registry_inv st" and "mutates_to (commit_publish w c g n st) st'"
  shows "keeps_revoked st'" "slot_revoked st w' slot \<Longrightarrow> slot_revoked st' w' slot"
proof -
  obtain j where j: "map_of (rs_journals st) w = Some j" "rj_phase j = ''installed''" "rj_new_claim j = c"
    and st': "st' = st\<lparr>rs_artifacts := AList.update (w, ra_slot c) c (rs_artifacts st),
      rs_journals := AList.update w (j\<lparr>rj_phase := ''committed''\<rparr>) (rs_journals st)\<rparr>"
    and valid': "validate_state st' = Inr ()"
    using assms(2)
    by (auto simp: commit_publish_def named_journal_Some split: option.splits if_splits)
  have valid: "validate_state st = Inr ()" and keep: "keeps_revoked st"
    using assms(1) by (simp_all add: registry_inv_def)
  have slot: "ra_slot c = rj_slot j" using valid_journal(4) [OF valid j(1)] j(3) by simp
  have new: "slot_revoked st' w (rj_slot j)" if r: "slot_revoked st w (rj_slot j)"
  proof -
    have sha: "ra_sha256 c = REVOKED_ARTIFACT_SHA256" using keep r j by (auto simp: keeps_revoked_def)
    obtain b where b: "map_of (rs_artifacts st) (w, rj_slot j) = Some b" "ra_collection b = ''snapshots''"
      using r by (auto simp: slot_revoked_def split: option.splits)
    have c: "map_of (rs_artifacts st') (w, rj_slot j) = Some c" by (simp add: st' update_lookup slot)
    have "ra_collection c = ra_collection b"
      using claim_collection [of b] claim_collection [of c] valid_artifact [OF valid b(1)]
        valid_artifact [OF valid' c] by simp
    with c b sha show ?thesis by (simp add: slot_revoked_def)
  qed
  have other: "slot_revoked st' w' s = slot_revoked st w' s" if "(w', s) \<noteq> (w, rj_slot j)" for w' s
    using that by (auto simp: slot_revoked_def st' update_lookup slot)
  show "slot_revoked st w' slot \<Longrightarrow> slot_revoked st' w' slot"
    using new other by (cases "(w', slot) = (w, rj_slot j)") auto
  show "keeps_revoked st'"
    unfolding keeps_revoked_def
  proof (intro conjI allI impI)
    fix v i assume i: "map_of (rs_intents st') v = Some i" and r: "slot_revoked st' v (ri_slot i)"
    have "v \<noteq> w" using valid_intent(3) [OF valid, of v i] i j(1) by (auto simp: st')
    then show "ri_expected_sha256 i = REVOKED_ARTIFACT_SHA256"
      using keep i r other [of v "ri_slot i"] by (auto simp: keeps_revoked_def st')
  next
    fix v k assume k: "map_of (rs_journals st') v = Some k" and r: "slot_revoked st' v (rj_slot k)"
    show "ra_sha256 (rj_new_claim k) = REVOKED_ARTIFACT_SHA256"
    proof (cases "v = w")
      case True
      then have "k = j\<lparr>rj_phase := ''committed''\<rparr>" using k by (simp add: st' update_lookup)
      with True r slot j(3) show ?thesis by (simp add: slot_revoked_def st' update_lookup)
    next
      case False
      then show ?thesis
        using keep k r other [of v "rj_slot k"] by (auto simp: keeps_revoked_def st' update_lookup)
    qed
  qed
qed

lemma prepare_publish_keeps:
  assumes "registry_inv st" and "mutates_to (prepare_publish j st) st'"
  shows "keeps_revoked st'"
proof -
  let ?w = "rj_workspace_id j" and ?id = "ra_identity (rj_new_claim j)"
  obtain i where i: "map_of (rs_intents st) ?w = Some i" "i\<lparr>ri_temporary_identity := Some ?id\<rparr> = intent_for_journal j"
    and st': "st' = st\<lparr>rs_intents := AList.delete ?w (rs_intents st), rs_journals := AList.update ?w j (rs_journals st)\<rparr>"
    using assms(2) by (auto simp: prepare_publish_def Let_def split: option.splits if_splits)
  have "ri_slot i = rj_slot j" "ri_expected_sha256 i = ra_sha256 (rj_new_claim j)"
    using arg_cong [OF i(2), of ri_slot] arg_cong [OF i(2), of ri_expected_sha256]
    by (simp_all add: intent_for_journal_def Let_def)
  then have new: "ra_sha256 (rj_new_claim j) = REVOKED_ARTIFACT_SHA256" if "slot_revoked st ?w (rj_slot j)"
    using assms(1) i(1) that by (auto simp: registry_inv_def keeps_revoked_def)
  show ?thesis
    by (rule keeps_revoked_frame [of st])
      (use assms(1) new in \<open>auto simp: registry_inv_def st' update_lookup delete_lookup split: if_splits\<close>)
qed

lemma clear_deleted_keeps:
  assumes "keeps_revoked st" and "mutates_to (clear_deleted_workspace w g st) st'"
  shows "keeps_revoked st'" "slot_revoked st v slot \<Longrightarrow> slot_revoked st' v slot \<or> map_of (rs_workspaces st') v = None"
proof -
  have st': "st' = st\<lparr>rs_workspaces := AList.delete w (rs_workspaces st),
      rs_collections := AList.delete w (rs_collections st), rs_intents := AList.delete w (rs_intents st),
      rs_journals := AList.delete w (rs_journals st),
      rs_artifacts := filter (\<lambda>kv. fst (fst kv) \<noteq> w) (rs_artifacts st),
      rs_delete_items := filter (\<lambda>kv. fst (fst kv) \<noteq> w) (rs_delete_items st)\<rparr>"
    using assms(2) by (auto simp: clear_deleted_workspace_def split: option.splits if_splits)
  have art: "map_of (rs_artifacts st') (v, s) = (if v = w then None else map_of (rs_artifacts st) (v, s))" for v s
    using map_of_filter_key [of "\<lambda>k. fst k \<noteq> w" "rs_artifacts st" "(v, s)"] by (simp add: st')
  have r: "slot_revoked st' v s \<longleftrightarrow> v \<noteq> w \<and> slot_revoked st v s" for v s
    by (simp add: slot_revoked_def art)
  have gone: "map_of (rs_workspaces st') w = None" by (simp add: st' delete_lookup)
  show "slot_revoked st v slot \<Longrightarrow> slot_revoked st' v slot \<or> map_of (rs_workspaces st') v = None"
    using gone by (cases "v = w") (simp_all add: r)
  have "map_of (rs_intents st') v = (if v = w then None else map_of (rs_intents st) v)"
    "map_of (rs_journals st') v = (if v = w then None else map_of (rs_journals st) v)" for v
    by (simp_all add: st' delete_lookup)
  then show "keeps_revoked st'"
    using assms(1) by (simp add: keeps_revoked_def r)
qed

text \<open>the other steps leave the artifacts alone and rewrite at most the bookkeeping of a publication\<close>

definition quiet :: "registry_state \<Rightarrow> registry_state \<Rightarrow> bool" where
  "quiet st st' \<longleftrightarrow> rs_artifacts st' = rs_artifacts st \<and>
     (\<forall>w i. map_of (rs_intents st') w = Some i \<longrightarrow> (\<exists>i'. map_of (rs_intents st) w = Some i' \<and>
        ri_slot i = ri_slot i' \<and> ri_expected_sha256 i = ri_expected_sha256 i')) \<and>
     (\<forall>w j. map_of (rs_journals st') w = Some j \<longrightarrow> (\<exists>j'. map_of (rs_journals st) w = Some j' \<and>
        rj_slot j = rj_slot j' \<and> rj_new_claim j = rj_new_claim j'))"

lemma quiet_keeps:
  assumes "keeps_revoked st" and "quiet st st'"
  shows "keeps_revoked st'" "slot_revoked st' w slot = slot_revoked st w slot"
proof -
  show r: "slot_revoked st' w slot = slot_revoked st w slot" for w slot
    using assms(2) by (simp add: slot_revoked_def quiet_def)
  show "keeps_revoked st'"
    unfolding keeps_revoked_def r
  proof (intro conjI allI impI)
    fix w i assume "map_of (rs_intents st') w = Some i" "slot_revoked st w (ri_slot i)"
    then show "ri_expected_sha256 i = REVOKED_ARTIFACT_SHA256"
      using assms by (fastforce simp: keeps_revoked_def quiet_def)
  next
    fix w j assume "map_of (rs_journals st') w = Some j" "slot_revoked st w (rj_slot j)"
    then show "ra_sha256 (rj_new_claim j) = REVOKED_ARTIFACT_SHA256"
      using assms by (fastforce simp: keeps_revoked_def quiet_def)
  qed
qed

lemma quiet_steps:
  "mutates_to (reserve_workspace w g st) st' \<Longrightarrow> quiet st st'"
  "mutates_to (retire_reserved_workspace w g st) st' \<Longrightarrow> quiet st st'"
  "mutates_to (finalize_workspace w g wi ei cs st) st' \<Longrightarrow> quiet st st'"
  "mutates_to (claim_publish_temporary w t g n st) st' \<Longrightarrow> quiet st st'"
  "mutates_to (clear_publish_intent w g n st) st' \<Longrightarrow> quiet st st'"
  "mutates_to (advance_publish w g n p q st) st' \<Longrightarrow> quiet st st'"
  "mutates_to (clear_publish w g n st) st' \<Longrightarrow> quiet st st'"
  "mutates_to (abort_publish w g n ps st) st' \<Longrightarrow> quiet st st'"
  "mutates_to (begin_delete w g st) st' \<Longrightarrow> quiet st st'"
  "mutates_to (plan_delete_quarantine w slot q g st) st' \<Longrightarrow> quiet st st'"
  "mutates_to (advance_delete_item w slot g p p' q st) st' \<Longrightarrow> quiet st st'"
  by (auto simp: quiet_def mutator_defs named_journal_Some named_item_Some update_lookup delete_lookup Let_def
    split: option.splits if_splits)

lemma registry_step_keeps:
  assumes "registry_step st st'" and "registry_inv st"
  shows "keeps_revoked st' \<and>
    (slot_revoked st w slot \<longrightarrow> slot_revoked st' w slot \<or> map_of (rs_workspaces st') w = None)"
proof -
  have keep: "keeps_revoked st" using assms(2) by (simp add: registry_inv_def)
  have calm: ?thesis if "quiet st st'" using quiet_keeps [OF keep that] by simp
  have same: "slot_revoked st' w slot = slot_revoked st w slot" if "rs_artifacts st' = rs_artifacts st"
    using that by (simp add: slot_revoked_def)
  show ?thesis
    using assms(1)
  proof cases
    case (step_reserve_publish i)
    then have "rs_artifacts st' = rs_artifacts st"
      by (auto simp: reserve_publish_def Let_def split: option.splits if_splits)
    then show ?thesis using reserve_publish_keeps [OF assms(2) step_reserve_publish] same by simp
  next
    case (step_prepare j)
    then have "rs_artifacts st' = rs_artifacts st"
      by (auto simp: prepare_publish_def Let_def split: option.splits if_splits)
    then show ?thesis using prepare_publish_keeps [OF assms(2) step_prepare(2)] same by simp
  next
    case (step_commit v c g n)
    show ?thesis using commit_publish_keeps [OF assms(2) step_commit] by simp
  next
    case (step_clear_deleted v g)
    show ?thesis
      using clear_deleted_keeps(1) [OF keep step_clear_deleted]
        clear_deleted_keeps(2) [OF keep step_clear_deleted, of w slot] by auto
  qed (rule calm; erule quiet_steps)+
qed

lemma registry_step_inv: "registry_step st st' \<Longrightarrow> registry_inv st \<Longrightarrow> registry_inv st'"
  using registry_step_valid registry_step_dicts registry_step_keeps by (auto simp: registry_inv_def)

end
