(* ===== verification/Registry_Recovery.thy ===== *)
theory Registry_Recovery
  imports Registry_Inv
begin

text \<open>
  What a load makes of a log: of one that ends with a complete record, of one whose last append
  was torn, and of one put back to an earlier state. With these, what an operation of the registry
  leaves behind when it returns and when it raises.
\<close>

text \<open>a complete log: it ends with a record, and \<open>_load\<close> reads these values off it\<close>

definition logged :: "(string \<Rightarrow> string) \<Rightarrow> file_identity \<Rightarrow> string \<Rightarrow> registry_state \<Rightarrow> int \<Rightarrow> string \<Rightarrow> bool" where
  "logged H R log st sequence previous \<longleftrightarrow>
     take (length LOG_MAGIC) log = LOG_MAGIC \<and> int (length log) \<le> MAX_LOG_BYTES \<and>
     load_records H R (drop (length LOG_MAGIC) log) empty_registry_state 0 ZERO_DIGEST (length LOG_MAGIC) =
       Inr (st, sequence, previous, length log, False)"

section \<open>Reading records\<close>

lemma takeWhile_newline:
  "newline \<in> set rest \<Longrightarrow> takeWhile (\<lambda>c. c \<noteq> newline) (rest @ s) = takeWhile (\<lambda>c. c \<noteq> newline) rest"
  using takeWhile_append1 [of newline rest "\<lambda>c. c \<noteq> newline" s] by simp

lemma length_line: "newline \<in> set rest \<Longrightarrow> length (takeWhile (\<lambda>c. c \<noteq> newline) rest) < length rest"
  by (induction rest) auto

text \<open>one turn of the loop\<close>

lemma load_records_line:
  assumes "newline \<in> set rest"
  shows "load_records H R (rest @ s) st n d good =
    (let line = takeWhile (\<lambda>c. c \<noteq> newline) rest in
     if line = [] \<or> MAX_RECORD_BYTES < int (length line) then Inl (RegistryError Registry_Corrupt)
     else bind_res (decode_record H R line n d) (\<lambda>(st', n', d').
       load_records H R (drop (Suc (length line)) rest @ s) st' n' d' (good + length line + 1)))"
proof -
  define line where "line = takeWhile (\<lambda>c. c \<noteq> newline) rest"
  have facts: "rest @ s \<noteq> []" "\<not> newline \<notin> set (rest @ s)"
    "takeWhile (\<lambda>c. c \<noteq> newline) (rest @ s) = line"
    "drop (Suc (length line)) (rest @ s) = drop (Suc (length line)) rest @ s"
    using assms takeWhile_newline [OF assms, of s] length_line [OF assms] by (auto simp: line_def)
  show ?thesis
    unfolding line_def [symmetric]
    by (subst load_records.simps) (simp only: facts if_False Let_def)
qed

lemma load_records_end:
  "load_records H R [] st n d good = Inr (st, n, d, good, False)"
  "s \<noteq> [] \<Longrightarrow> newline \<notin> set s \<Longrightarrow> load_records H R s st n d good = Inr (st, n, d, good, True)"
  by (simp_all add: load_records.simps)

lemma load_records_append:
  "load_records H R rest st n d good = Inr (st', n', d', good', False) \<Longrightarrow>
   load_records H R (rest @ s) st n d good = load_records H R s st' n' d' good' \<and> good' = good + length rest"
proof (induction "length rest" arbitrary: rest st n d good rule: less_induct)
  case less
  show ?case
  proof (cases "rest = []")
    case True
    then show ?thesis using less.prems by (simp add: load_records_end)
  next
    case False
    then have nl: "newline \<in> set rest"
      using less.prems load_records_end(2) [OF False, of H R st n d good] by auto
    let ?line = "takeWhile (\<lambda>c. c \<noteq> newline) rest" and ?rest = "drop (Suc (length (takeWhile (\<lambda>c. c \<noteq> newline) rest))) rest"
    note turn = load_records_line [OF nl, where H = H and R = R and st = st and n = n and d = d and good = good]
    obtain st1 n1 d1 where dec: "decode_record H R ?line n d = Inr (st1, n1, d1)"
      and line: "?line \<noteq> []" "\<not> MAX_RECORD_BYTES < int (length ?line)"
      and rec: "load_records H R ?rest st1 n1 d1 (good + length ?line + 1) = Inr (st', n', d', good', False)"
      using less.prems [unfolded turn [of "[]", unfolded append_Nil2]]
      by (auto simp: Let_def bind_res_Inr_iff split: if_splits)
    have "length ?rest < length rest" using False by simp
    from less.hyps [OF this rec] length_line [OF nl] show ?thesis
      using turn [of s] by (simp add: dec line Let_def)
  qed
qed

lemma logged_tail:
  assumes "logged H R log st n d"
  shows "load_records H R (drop (length LOG_MAGIC) log @ s) empty_registry_state 0 ZERO_DIGEST (length LOG_MAGIC) =
      load_records H R s st n d (length log)"
    "take (length LOG_MAGIC) (log @ s) = LOG_MAGIC"
    "drop (length LOG_MAGIC) (log @ s) = drop (length LOG_MAGIC) log @ s" "log \<noteq> []"
proof -
  show "load_records H R (drop (length LOG_MAGIC) log @ s) empty_registry_state 0 ZERO_DIGEST (length LOG_MAGIC) =
      load_records H R s st n d (length log)"
    using assms load_records_append by (simp add: logged_def)
  have t: "take (length LOG_MAGIC) log = LOG_MAGIC" using assms by (simp add: logged_def)
  from arg_cong [OF t, of length] have "min (length log) (length LOG_MAGIC) = length LOG_MAGIC"
    unfolding length_take .
  then have len: "length LOG_MAGIC \<le> length log" by linarith
  from t len show "take (length LOG_MAGIC) (log @ s) = LOG_MAGIC"
    "drop (length LOG_MAGIC) (log @ s) = drop (length LOG_MAGIC) log @ s" by simp_all
  show "log \<noteq> []" using len by (auto simp: LOG_MAGIC_def)
qed

text \<open>the bytes of an encoded record: one line\<close>

lemma encoded_shape:
  assumes "encode_state_record H R st n d = Inr (bytes, digest)"
  shows "bytes = butlast bytes @ [newline]" "newline \<notin> set (butlast bytes)" "butlast bytes \<noteq> []"
    "int (length bytes) \<le> MAX_RECORD_BYTES" "bytes \<noteq> []"
proof -
  let ?body = "canonical_text (record_document R st n d)"
  have b: "bytes = record_line ?body digest" and len: "int (length bytes) \<le> MAX_RECORD_BYTES"
    using assms by (auto simp: encode_state_record_def Let_def split: if_splits)
  have bl: "butlast bytes = ?body @ tab # hex_of digest" by (simp add: b record_line_def butlast_append)
  show "bytes = butlast bytes @ [newline]" "butlast bytes \<noteq> []" "bytes \<noteq> []"
    by (simp_all add: bl) (simp_all add: b record_line_def)
  show "newline \<notin> set (butlast bytes)"
    using json_text_safe [OF json_plain_document] hex_of_safe(1)
    by (simp add: bl canonical_text_def) (simp add: newline_def tab_def)
  show "int (length bytes) \<le> MAX_RECORD_BYTES" by (rule len)
qed

section \<open>Logs after an append\<close>

definition registry_storable :: "registry_state \<Rightarrow> bool" where
  "registry_storable st \<longleftrightarrow> validate_state st = Inr () \<and> dicts_ok st"

lemma load_appended:
  assumes H: "\<And>x. length (H x) = 32" and ok: "registry_storable st'"
    and enc: "encode_state_record H R st' (n + 1) d = Inr (bytes, digest)"
  shows "load_records H R bytes st n d good = Inr (sorted_state st', n + 1, digest, good + length bytes, False)"
proof -
  note shape = encoded_shape [OF enc]
  obtain b where b: "bytes = b @ [newline]" using shape(1) by blast
  have line: "takeWhile (\<lambda>c. c \<noteq> newline) bytes = butlast bytes"
    using shape(2) unfolding b by (subst takeWhile_append2) auto
  have facts: "drop (Suc (length (butlast bytes))) bytes = []"
    "good + length (butlast bytes) + 1 = good + length bytes"
    "\<not> MAX_RECORD_BYTES < int (length (butlast bytes))"
    using shape(4,5) by (simp_all add: b)
  have nl: "newline \<in> set bytes" by (simp add: b)
  have "decode_record H R (butlast bytes) n d = Inr (sorted_state st', n + 1, digest)"
    using decode_encoded [OF _ _ H enc] ok by (simp add: registry_storable_def)
  then show ?thesis
    unfolding load_records_line [OF nl, of H R "[]", unfolded append_Nil2] line
    using shape(3) by (simp only: facts Let_def load_records_end(1) bind_res_simps prod.case if_False simp_thms)
qed

lemma load_torn:
  assumes "encode_state_record H R st' n' d' = Inr (bytes, digest)" and "k < length bytes"
  shows "load_records H R (take k bytes) st n d good = Inr (st, n, d, good, k \<noteq> 0)"
proof -
  note shape = encoded_shape [OF assms(1)]
  have "take k bytes = take k (butlast bytes)"
    using assms(2) by (simp add: take_butlast)
  then have "newline \<notin> set (take k bytes)" using shape(2) by (auto dest: in_set_takeD)
  then show ?thesis using shape(5) by (cases "k = 0") (simp_all add: load_records_end)
qed

lemma empty_loaded_state: "validate_state empty_registry_state = Inr ()" "dicts_ok empty_registry_state"
  by (simp_all add: validate_state_def empty_registry_state_def dicts_ok_def)

text \<open>a whole record makes the log a longer complete one\<close>

lemma logged_append:
  assumes "logged H R log st n d" and "\<And>x. length (H x) = 32" and "registry_storable st'"
    and "encode_state_record H R st' (n + 1) d = Inr (bytes, digest)"
    and "int (length log) + int (length bytes) \<le> MAX_LOG_BYTES"
  shows "logged H R (log @ bytes) (sorted_state st') (n + 1) digest"
  using logged_tail(1-3) [OF assms(1), of bytes] load_appended [OF assms(2-4)] assms(5)
  by (simp add: logged_def)

text \<open>the first log of a registry\<close>

lemma logged_initial:
  assumes "\<And>x. length (H x) = 32" and "initial_registry_bytes H R = Inr log" and "int (length log) \<le> MAX_LOG_BYTES"
  shows "\<exists>b. logged H R log empty_registry_state 1 (H b)"
proof -
  obtain bytes d where enc: "encode_state_record H R empty_registry_state (0 + 1) ZERO_DIGEST = Inr (bytes, d)"
    and log: "log = LOG_MAGIC @ bytes"
    using assms(2) by (auto simp: initial_registry_bytes_def bind_res_Inr_iff)
  have d: "\<exists>b. d = H b" using enc by (auto simp: encode_state_record_def Let_def split: if_splits)
  have "sorted_state empty_registry_state = empty_registry_state"
    by (simp add: sorted_state_def empty_registry_state_def items_sorted_def)
  then have "logged H R log empty_registry_state 1 d"
    using load_appended [OF assms(1) _ enc, where st = empty_registry_state and good = "length LOG_MAGIC"]
      assms(3) by (auto simp: logged_def log registry_storable_def empty_loaded_state)
  with d show ?thesis by blast
qed

section \<open>Loads\<close>

lemma load_log_of_logged:
  assumes "logged H R log st n d" and "rh_open h" and "\<not> behind h n d (length log)"
    and "ro_stat os" and "ro_read os"
  shows "load_log H R os (log, h) = ((log, loaded st n d (length log) h), Inr ())"
  using assms logged_tail(1-3) [OF assms(1), of "[]"] logged_tail(4) [OF assms(1)]
  by (simp add: load_log_def logged_def bind_call_def load_records_end(1))

lemma load_log_fails:
  assumes "logged H R log st n d" and "rh_open h" and "\<not> (ro_stat os \<and> ro_read os)"
  shows "load_log H R os (log, h) = ((log, h), Inl (RegistryError Operation_Failed))"
  using assms by (auto simp: load_log_def logged_def fail_call_def)

lemma load_log_of_torn:
  assumes logged: "logged H R log st n d" and h: "rh_open h" "\<not> behind h n d (length log)"
    and enc: "encode_state_record H R st' n' d' = Inr (bytes, digest)" and k: "k < length bytes"
    and size: "int (length log) + int k \<le> MAX_LOG_BYTES"
  shows "load_log H R healthy_os (log @ take k bytes, h) = ((log, loaded st n d (length log) h), Inr ())"
proof -
  have "int (length (log @ take k bytes)) \<le> MAX_LOG_BYTES" using size k by simp
  then show ?thesis
    using logged_tail(1-3) [OF logged, of "take k bytes"] logged_tail(4) [OF logged] h load_torn [OF enc k] k
    by (simp add: load_log_def healthy_os_def bind_call_def truncate_log_def)
qed

lemma loaded_simps [simp]:
  "rh_open (loaded st n d len h) = rh_open h" "rh_state (loaded st n d len h) = st"
  "rh_sequence (loaded st n d len h) = n" "rh_previous (loaded st n d len h) = d"
  "rh_created (loaded st n d len h) = rh_created h"
  "rh_minimum_length (loaded st n d len h) = max (rh_minimum_length h) len"
  by (simp_all add: loaded_def Let_def)

lemma behind_loaded:
  "\<not> behind h n d len \<Longrightarrow> \<not> behind (loaded st n d len h) n d len"
  by (auto simp: behind_def loaded_def Let_def)

lemma behind_next:
  "\<not> behind h n d len \<Longrightarrow> len \<le> len' \<Longrightarrow> \<not> behind (loaded st n d len h) (n + 1) d' len'"
  "\<not> behind h n d len \<Longrightarrow> len \<le> len' \<Longrightarrow> \<not> behind h (n + 1) d' len'"
  by (auto simp: behind_def loaded_def Let_def)

end
