(* ===== verification/Registry_Correctness.thy ===== *)
theory Registry_Correctness
  imports Registry_Recovery
begin

text \<open>
  The properties of the evidence registry: what a record keeps, what a crash, a failed append and a
  file put back do, which states an operation can leave behind, and what the steps of the registry
  promise about artifacts, revoked snapshots and deleted workspaces. The witnesses run on a registry
  just created, with a hash that is constant.
\<close>

section \<open>A registry just created\<close>

definition rgy_hash :: "string \<Rightarrow> string" where
  "rgy_hash _ = replicate 32 (CHR 0x00)"

definition rgy_log :: string where
  "rgy_log = (case initial_registry_bytes rgy_hash (1, 2) of Inl _ \<Rightarrow> [] | Inr log \<Rightarrow> log)"

definition rgy_generation :: string where
  "rgy_generation = replicate 32 (CHR ''0'')"

lemma rgy_hash_length: "length (rgy_hash x) = 32"
  by (simp add: rgy_hash_def)

lemma rgy_initial: "initial_registry_bytes rgy_hash (1, 2) = Inr rgy_log"
proof -
  have "(case initial_registry_bytes rgy_hash (1, 2) of Inl _ \<Rightarrow> False | Inr _ \<Rightarrow> True)" by code_simp
  then show ?thesis by (auto simp: rgy_log_def split: sum.splits)
qed

lemma rgy_short: "int (length rgy_log) < 1000"
  by code_simp

lemma rgy_logged: "logged rgy_hash (1, 2) rgy_log empty_registry_state 1 ZERO_DIGEST"
  using logged_initial [of rgy_hash, OF rgy_hash_length rgy_initial] rgy_short
  by (simp add: MAX_LOG_BYTES_def rgy_hash_def ZERO_DIGEST_def)

definition rgy_reserved :: registry_state where
  "rgy_reserved = (case reserve_workspace ''course'' rgy_generation empty_registry_state of
     Inl _ \<Rightarrow> empty_registry_state | Inr (_, _, st) \<Rightarrow> st)"

lemma rgy_reserved_storable: "registry_storable rgy_reserved"
proof -
  have "validate_state rgy_reserved = Inr ()" by code_simp
  moreover have "dicts_ok rgy_reserved"
    by (simp add: rgy_reserved_def reserve_workspace_def empty_registry_state_def dicts_ok_def)
  ultimately show ?thesis by (simp add: registry_storable_def)
qed

definition rgy_record :: string where
  "rgy_record = (case encode_state_record rgy_hash (1, 2) rgy_reserved (1 + 1) ZERO_DIGEST of
     Inl _ \<Rightarrow> [] | Inr (bytes, _) \<Rightarrow> bytes)"

lemma rgy_encoded: "\<exists>digest. encode_state_record rgy_hash (1, 2) rgy_reserved (1 + 1) ZERO_DIGEST = Inr (rgy_record, digest)"
proof -
  have "(case encode_state_record rgy_hash (1, 2) rgy_reserved (1 + 1) ZERO_DIGEST of Inl _ \<Rightarrow> False | Inr _ \<Rightarrow> True)"
    by code_simp
  then show ?thesis by (auto simp: rgy_record_def split: sum.splits)
qed

section \<open>A record keeps its state\<close>

text \<open>
  C29: a record written and read back yields the state it was written for. For every state the
  registry accepts, the line that encodes it as number \<open>n + 1\<close> after a record with hash \<open>d\<close> is
  decoded at that place of the chain to that state, each of its dicts sorted by key, with all rows,
  old claims, optional names and identities as they were.
\<close>

theorem record_round_trip:
  assumes "registry_storable st" and "\<And>x. length (H x) = 32"
    and "encode_state_record H R st (n + 1) d = Inr (bytes, digest)"
  shows "decode_record H R (butlast bytes) n d = Inr (sorted_state st, n + 1, digest)"
  using decode_encoded [OF _ _ assms(2,3)] assms(1) by (simp add: registry_storable_def)

theorem record_round_trip_witness:
  "\<exists>digest. decode_record rgy_hash (1, 2) (butlast rgy_record) 1 ZERO_DIGEST = Inr (sorted_state rgy_reserved, 1 + 1, digest)"
proof -
  obtain digest where "encode_state_record rgy_hash (1, 2) rgy_reserved (1 + 1) ZERO_DIGEST = Inr (rgy_record, digest)"
    using rgy_encoded by blast
  then show ?thesis using record_round_trip [of rgy_reserved rgy_hash, OF rgy_reserved_storable rgy_hash_length] by blast
qed

section \<open>What an operation leaves behind\<close>

text \<open>the state the next operation of this process would load, were nothing to fail\<close>

definition recovers :: "(string \<Rightarrow> string) \<Rightarrow> file_identity \<Rightarrow> string \<times> registry_handle \<Rightarrow> registry_state \<Rightarrow> bool" where
  "recovers H R s st = (case load_log H R healthy_os s of ((_, h), r) \<Rightarrow> r = Inr () \<and> rh_state h = st)"

lemma recovers_logged:
  "logged H R log st n d \<Longrightarrow> rh_open h \<Longrightarrow> \<not> behind h n d (length log) \<Longrightarrow> recovers H R (log, h) st"
  by (simp add: recovers_def load_log_of_logged healthy_os_def)

lemma recovers_torn:
  assumes "logged H R log st n d" and "rh_open h" and "\<not> behind h n d (length log)"
    and H: "\<And>x. length (H x) = 32" and "registry_storable st'"
    and enc: "encode_state_record H R st' (n + 1) d = Inr (bytes, digest)"
    and size: "int (length log) + int (length bytes) \<le> MAX_LOG_BYTES"
  shows "recovers H R (log @ take k bytes, h) (if k < length bytes then st else sorted_state st')"
proof (cases "k < length bytes")
  case True
  then have "int (length log) + int k \<le> MAX_LOG_BYTES" using size by simp
  then show ?thesis
    using load_log_of_torn [OF assms(1-3) enc True] True by (simp add: recovers_def)
next
  case False
  have "logged H R (log @ bytes) (sorted_state st') (n + 1) digest"
    by (rule logged_append [OF assms(1) H assms(5) enc size])
  then show ?thesis
    using False recovers_logged behind_next(2) [OF assms(3), of "length (log @ bytes)"] assms(2) by simp
qed

text \<open>the outcomes of an append, the ones in which the system fails included\<close>

lemma append_outcome:
  assumes "logged H R log st n d" and "rh_open h" and "\<not> behind h n d (length log)"
    and H: "\<And>x. length (H x) = 32" and ok: "registry_storable st'" and h: "rh_sequence h = n" "rh_previous h = d"
  shows "case append_state H R os st' (log, h) of ((log', h'), r) \<Rightarrow>
    rh_open h' \<and> (case r of
      Inl e \<Rightarrow> recovers H R (log', h') st \<or> recovers H R (log', h') (sorted_state st')
    | Inr _ \<Rightarrow> \<exists>d'. logged H R log' (sorted_state st') (n + 1) d' \<and> \<not> behind h' (n + 1) d' (length log'))"
proof (cases "encode_state_record H R st' (n + 1) d")
  case (Inl e)
  then show ?thesis using recovers_logged [OF assms(1-3)] assms(2) h by (simp add: append_state_def)
next
  case (Inr r)
  then obtain bytes digest where enc: "encode_state_record H R st' (n + 1) d = Inr (bytes, digest)" by (cases r) simp
  have old: "recovers H R (log, h) st" by (rule recovers_logged [OF assms(1-3)])
  consider (full) "MAX_LOG_BYTES < int (length log) + int (length bytes)" |
    (failed) "int (length log) + int (length bytes) \<le> MAX_LOG_BYTES" "ro_written os \<noteq> None \<or> \<not> ro_synced os" |
    (written) "int (length log) + int (length bytes) \<le> MAX_LOG_BYTES" "ro_written os = None" "ro_synced os"
    by linarith
  then show ?thesis
  proof cases
    case full
    then show ?thesis using old assms(2) by (simp add: append_state_def h enc fail_call_def)
  next
    case failed
    define k where "k = (case ro_written os of None \<Rightarrow> length bytes | Some k \<Rightarrow> k)"
    have wrote: "(case ro_written os of None \<Rightarrow> bytes | Some k \<Rightarrow> take k bytes) = take k bytes"
      by (simp add: k_def split: option.split)
    have "recovers H R (log @ take k bytes, h) st \<or> recovers H R (log @ take k bytes, h) (sorted_state st')"
      using recovers_torn [OF assms(1-3) H ok enc failed(1), of k] by (cases "k < length bytes") auto
    then show ?thesis
      using failed old assms(2) by (auto simp: append_state_def h enc fail_call_def wrote Let_def)
  next
    case written
    have "logged H R (log @ bytes) (sorted_state st') (n + 1) digest"
      by (rule logged_append [OF assms(1) H ok enc written(1)])
    then show ?thesis
      using written assms(2) by (auto simp: append_state_def h enc behind_def Let_def)
  qed
qed

text \<open>
  C25: an operation of the registry that changes it is atomic on the file, whatever the operating
  system does to its calls (a failing read, a write cut short at any byte, a failing sync, an undo
  that fails, a registry file replaced before or after). Let the log be complete and record the
  state \<open>st\<close>. When the operation returns, its result is the one its mutator has on \<open>st\<close>, and the
  file is either unchanged (the mutator reported no change) or one valid record longer, recording
  the mutator's state. When it raises, the next load yields \<open>st\<close> itself or the mutator's new state,
  never a mixture and never an unreadable log.
\<close>

theorem mutation_atomic:
  assumes "logged H R log st n d" and "rh_open h" and "\<not> behind h n d (length log)"
    and "\<And>x. length (H x) = 32"
    and "\<And>x st'. m st = Inr (True, x, st') \<Longrightarrow> dicts_ok st'"
  shows "case mutate_registry H R os m (log, h) of ((log', h'), result) \<Rightarrow> (case result of
      Inr x \<Rightarrow> (\<exists>changed st'. m st = Inr (changed, x, st') \<and>
        (if changed then validate_state st' = Inr () \<and> (\<exists>d'. logged H R log' (sorted_state st') (n + 1) d')
         else log' = log))
    | Inl e \<Rightarrow> recovers H R (log', h') st \<or>
        (\<exists>x st'. m st = Inr (True, x, st') \<and> recovers H R (log', h') (sorted_state st')))"
proof -
  note old = recovers_logged [OF assms(1-3)]
  let ?h = "loaded st n d (length log) h"
  have h': "rh_open ?h" "\<not> behind ?h n d (length log)" using assms(2,3) behind_loaded by simp_all
  note now = recovers_logged [OF assms(1) h']
  show ?thesis
  proof (cases "ro_stat os \<and> ro_read os")
    case False
    then show ?thesis
      using old by (simp add: mutate_registry_def bind_call_def load_log_fails [OF assms(1,2)])
  next
    case True
    then have load: "load_log H R os (log, h) = ((log, ?h), Inr ())"
      using load_log_of_logged [OF assms(1-3)] by simp
    show ?thesis
    proof (cases "ro_pinned_before os")
      case False
      then show ?thesis
        using now by (simp add: mutate_registry_def bind_call_def load verify_pinned_def fail_call_def h'(1))
    next
      case pinned: True
      note run = mutate_registry_def bind_call_def load verify_pinned_def fail_call_def h'(1) pinned assms(2)
      show ?thesis
      proof (cases "m st")
        case (Inl e)
        then show ?thesis using now by (simp add: run)
      next
        case (Inr r)
        then obtain changed x st' where m: "m st = Inr (changed, x, st')" by (cases r) auto
        show ?thesis
        proof (cases "changed \<and> validate_state st' = Inr ()")
          case False
          then show ?thesis
            using now by (cases "validate_state st'"; cases changed) (auto simp: run m)
        next
          case True
          then have ok: "registry_storable st'" using assms(5) m by (simp add: registry_storable_def)
          obtain s2 r2 where app: "append_state H R os st' (log, ?h) = (s2, r2)" by fastforce
          note out = append_outcome [OF assms(1) h' assms(4) ok, of os, unfolded app]
          show ?thesis
          proof (cases r2)
            case (Inl e)
            then show ?thesis using out True by (cases s2) (auto simp: run m app)
          next
            case (Inr u)
            obtain log2 h2 where s2: "s2 = (log2, h2)" by fastforce
            obtain d' where d': "rh_open h2" "logged H R log2 (sorted_state st') (n + 1) d'"
              "\<not> behind h2 (n + 1) d' (length log2)"
              using out Inr by (auto simp: s2)
            then have "recovers H R (log2, h2\<lparr>rh_state := st'\<rparr>) (sorted_state st')"
              by (intro recovers_logged) (auto simp: behind_def)
            then show ?thesis using d' True Inr by (cases "ro_pinned_after os") (auto simp: run m app s2)
          qed
        qed
      qed
    qed
  qed
qed

lemma reserve_dicts:
  "dicts_ok st \<Longrightarrow> reserve_workspace w g st = Inr (True, x, st') \<Longrightarrow> dicts_ok st'"
  by (auto simp: reserve_workspace_def unchanged_def dicts_ok_def distinct_update split: if_splits)

lemma new_handle_behind: "1 \<le> n \<Longrightarrow> \<not> behind (new_handle created) n d len"
  by (simp add: behind_def new_handle_def)

theorem mutation_atomic_witness:
  "case mutate_registry rgy_hash (1, 2) (healthy_os\<lparr>ro_written := Some 40, ro_rolled_back := False\<rparr>)
      (reserve_workspace ''course'' rgy_generation) (rgy_log, new_handle False) of
    ((log', h'), result) \<Rightarrow> (case result of
      Inr x \<Rightarrow> (\<exists>changed st'. reserve_workspace ''course'' rgy_generation empty_registry_state = Inr (changed, x, st') \<and>
        (if changed then validate_state st' = Inr () \<and> (\<exists>d'. logged rgy_hash (1, 2) log' (sorted_state st') (1 + 1) d')
         else log' = rgy_log))
    | Inl e \<Rightarrow> recovers rgy_hash (1, 2) (log', h') empty_registry_state \<or>
        (\<exists>x st'. reserve_workspace ''course'' rgy_generation empty_registry_state = Inr (True, x, st') \<and>
          recovers rgy_hash (1, 2) (log', h') (sorted_state st')))"
  by (rule mutation_atomic [OF rgy_logged _ new_handle_behind rgy_hash_length])
    (simp_all add: new_handle_def reserve_dicts [OF empty_loaded_state(2)])

section \<open>Crashes and files put back\<close>

text \<open>
  C26: a crash during an append loses at most that append. Take a complete log recording \<open>st\<close> and any
  number \<open>k\<close> of bytes of the record that was being appended for the state \<open>st'\<close>. A registry opened
  afresh on the file loads \<open>st\<close> when the record is cut short, and cuts the torn bytes off the file; it
  loads \<open>st'\<close> (its dicts sorted) when the record is whole.
\<close>

theorem crash_loses_at_most_the_append:
  assumes "logged H R log st n d" and "0 < n" and "\<And>x. length (H x) = 32"
    and "registry_storable st'" and "encode_state_record H R st' (n + 1) d = Inr (bytes, digest)"
    and "int (length log) + int (length bytes) \<le> MAX_LOG_BYTES"
  shows "(case load_log H R healthy_os (log @ take k bytes, new_handle created) of ((log', h'), r) \<Rightarrow>
    r = Inr () \<and> rh_state h' = (if k < length bytes then st else sorted_state st') \<and>
    log' = (if k < length bytes then log else log @ bytes))"
proof (cases "k < length bytes")
  case True
  then show ?thesis
    using load_log_of_torn [OF assms(1) _ _ assms(5) True, of "new_handle created"] assms(2,6)
    by (simp add: new_handle_def behind_def)
next
  case False
  have "logged H R (log @ bytes) (sorted_state st') (n + 1) digest"
    by (rule logged_append [OF assms(1,3,4,5,6)])
  then show ?thesis
    using False load_log_of_logged [of H R "log @ bytes" _ _ _ "new_handle created" healthy_os] assms(2)
    by (simp add: new_handle_def behind_def healthy_os_def)
qed

lemma rgy_record_short: "int (length rgy_record) < 1000" "100 < length rgy_record"
  by code_simp+

theorem crash_loses_at_most_the_append_witness:
  "case load_log rgy_hash (1, 2) healthy_os (rgy_log @ take 100 rgy_record, new_handle False) of ((log', h'), r) \<Rightarrow>
    r = Inr () \<and> rh_state h' = empty_registry_state \<and> log' = rgy_log"
proof -
  obtain digest where enc: "encode_state_record rgy_hash (1, 2) rgy_reserved (1 + 1) ZERO_DIGEST = Inr (rgy_record, digest)"
    using rgy_encoded by blast
  show ?thesis
    using crash_loses_at_most_the_append [OF rgy_logged _ rgy_hash_length rgy_reserved_storable enc, of 100 False]
      rgy_record_short rgy_short by (simp add: MAX_LOG_BYTES_def)
qed

lemma mutation_seen:
  assumes "logged H R log st n d" and "rh_open h" and "\<not> behind h n d (length log)"
    and "m st = Inr (True, x, st')" and "mutate_registry H R os m (log, h) = ((log', h'), Inr y)"
  shows "rh_open h' \<and> rh_minimum_sequence h' = n + 1"
proof -
  have os: "ro_stat os" "ro_read os"
    using assms(5) load_log_fails [OF assms(1,2), of os]
    by (cases "ro_stat os \<and> ro_read os"; simp add: mutate_registry_def bind_call_def)+
  note load = load_log_of_logged [OF assms(1-3) os]
  show ?thesis
    using assms(2,5)
    by (auto simp: mutate_registry_def bind_call_def load verify_pinned_def fail_call_def assms(4)
        append_state_def Let_def split: prod.splits sum.splits if_splits)
qed

text \<open>
  C27: a registry file put back is refused. After an operation that changed the state returned, the
  process that made it refuses every later operation on the log as it was before, although that log
  is complete and each of its records is intact.
\<close>

theorem rollback_refused:
  assumes "logged H R log st n d" and "rh_open h" and "\<not> behind h n d (length log)"
    and "m st = Inr (True, x, st')" and "mutate_registry H R os m (log, h) = ((log', h'), Inr y)"
    and "ro_stat os'" and "ro_read os'"
  shows "mutate_registry H R os' m' (log, h') = ((log, h'), Inl (RegistryError Registry_Corrupt))"
proof -
  have "behind h' n d (length log)" "rh_open h'"
    using mutation_seen [OF assms(1-5)] by (simp_all add: behind_def)
  then show ?thesis
    using assms(1,6,7) logged_tail(4) [OF assms(1)]
    by (simp add: mutate_registry_def bind_call_def load_log_def logged_def fail_call_def)
qed

definition rgy_after :: "string \<times> registry_handle" where
  "rgy_after = fst (mutate_registry rgy_hash (1, 2) healthy_os (reserve_workspace ''course'' rgy_generation)
     (rgy_log, new_handle False))"

theorem rollback_refused_witness:
  "mutate_registry rgy_hash (1, 2) healthy_os (begin_delete ''course'' rgy_generation) (rgy_log, snd rgy_after) =
    ((rgy_log, snd rgy_after), Inl (RegistryError Registry_Corrupt))"
proof -
  have "(case mutate_registry rgy_hash (1, 2) healthy_os (reserve_workspace ''course'' rgy_generation)
      (rgy_log, new_handle False) of (_, r) \<Rightarrow> r = Inr True)"
    by code_simp
  then have run: "mutate_registry rgy_hash (1, 2) healthy_os (reserve_workspace ''course'' rgy_generation)
      (rgy_log, new_handle False) = ((fst rgy_after, snd rgy_after), Inr True)"
    by (auto simp: rgy_after_def)
  have m: "reserve_workspace ''course'' rgy_generation empty_registry_state = Inr (True, True, rgy_reserved)"
    by (simp add: rgy_reserved_def reserve_workspace_def empty_registry_state_def)
  show ?thesis
    by (rule rollback_refused [OF rgy_logged _ new_handle_behind m run]) (simp_all add: new_handle_def healthy_os_def)
qed

section \<open>What is loaded\<close>

text \<open>the shape of a registry state, over the lookups of its dicts\<close>

definition registry_typed :: "registry_state \<Rightarrow> bool" where
  "registry_typed st \<longleftrightarrow>
     (\<forall>w c. map_of (rs_workspaces st) w = Some c \<longrightarrow>
        rw_phase c \<in> {''reserved'', ''active'', ''deleting''} \<and> generation_text (rw_generation c)) \<and>
     (\<forall>w slot a. map_of (rs_artifacts st) (w, slot) = Some a \<longrightarrow>
        ra_workspace_id a = w \<and> ra_slot a = slot \<and> sha256_text (ra_sha256 a) \<and>
        (\<exists>c. map_of (rs_workspaces st) w = Some c \<and> rw_phase c \<noteq> ''reserved'' \<and> ra_generation a = rw_generation c)) \<and>
     (\<forall>w. map_of (rs_intents st) w = None \<or> map_of (rs_journals st) w = None) \<and>
     (\<forall>w. has_publish st w \<longrightarrow> (\<exists>c. map_of (rs_workspaces st) w = Some c \<and> rw_phase c = ''active'')) \<and>
     (\<forall>w slot. map_of (rs_delete_items st) (w, slot) \<noteq> None \<longrightarrow>
        (\<exists>c. map_of (rs_workspaces st) w = Some c \<and> rw_phase c = ''deleting'')) \<and>
     (\<forall>w c slot. map_of (rs_workspaces st) w = Some c \<and> rw_phase c = ''deleting'' \<longrightarrow>
        (map_of (rs_delete_items st) (w, slot) = None \<longleftrightarrow> map_of (rs_artifacts st) (w, slot) = None))"

lemma set_slots: "slot \<in> set (slots_of w d) \<longleftrightarrow> fst slot = w \<and> map_of d slot \<noteq> None"
  by (auto simp: slots_of_def map_of_eq_None_iff)

lemma valid_typed:
  assumes "validate_state st = Inr ()"
  shows "registry_typed st"
proof -
  have ws: "check_workspace_claim st (w, c) = Inr ()" if "map_of (rs_workspaces st) w = Some c" for w c
    using assms map_of_SomeD [OF that] by (auto simp: validate_state_def)
  have "\<exists>c. map_of (rs_workspaces st) w = Some c \<and> rw_phase c \<noteq> ''reserved'' \<and> ra_generation a = rw_generation c"
    if "map_of (rs_artifacts st) (w, slot) = Some a" for w slot a
    using assms map_of_SomeD [OF that]
    by (auto simp: validate_state_def check_artifact_def Let_def split: option.splits)
  moreover have "sha256_text (ra_sha256 a)" if "map_of (rs_artifacts st) (w, slot) = Some a" for w slot a
    using valid_artifact(3) [OF assms that] by (simp add: validate_artifact_claim_def Let_def)
  moreover have "\<exists>c. map_of (rs_workspaces st) w = Some c \<and> rw_phase c = ''active''" if "has_publish st w" for w
    using assms that map_of_SomeD [of "rs_intents st" w] map_of_SomeD [of "rs_journals st" w]
    by (fastforce simp: validate_state_def has_publish_def check_intent_def check_journal_def Let_def
        workspace_in_phase_def split: option.splits)
  moreover have "\<exists>c. map_of (rs_workspaces st) w = Some c \<and> rw_phase c = ''deleting''"
    if "map_of (rs_delete_items st) (w, slot) \<noteq> None" for w slot
    using assms that map_of_SomeD [of "rs_delete_items st" "(w, slot)"]
    by (fastforce simp: validate_state_def check_delete_item_def Let_def workspace_in_phase_def split: option.splits)
  moreover have "map_of (rs_delete_items st) (w, slot) = None \<longleftrightarrow> map_of (rs_artifacts st) (w, slot) = None"
    if "map_of (rs_workspaces st) w = Some c" "rw_phase c = ''deleting''" for w c slot
  proof -
    have "set (slots_of w (rs_delete_items st)) = set (slots_of w (rs_artifacts st))"
      using ws [OF that(1)] that(2) by (simp add: check_workspace_claim_def Let_def)
    then have "(w, slot) \<in> set (slots_of w (rs_delete_items st)) \<longleftrightarrow> (w, slot) \<in> set (slots_of w (rs_artifacts st))"
      by (simp only:)
    then show ?thesis unfolding set_slots fst_conv by blast
  qed
  moreover have "rw_phase c \<in> {''reserved'', ''active'', ''deleting''} \<and> generation_text (rw_generation c)"
    if "map_of (rs_workspaces st) w = Some c" for w c
    using ws [OF that] by (simp add: check_workspace_claim_def Let_def)
  ultimately show ?thesis
    using valid_artifact(1,2) [OF assms] valid_intent(3) [OF assms]
    unfolding registry_typed_def by (meson not_Some_eq)
qed





section \<open>Runs of the registry\<close>

text \<open>
  A run of the registry: changes, each made on the state just loaded, that is on the last one with
  its dicts sorted.
\<close>

inductive registry_run :: "registry_state \<Rightarrow> registry_state \<Rightarrow> bool" where
  run_change: "registry_step st st' \<Longrightarrow> registry_run st st'"
| run_reload: "registry_run st (sorted_state st)"

lemma sorted_keeps_revoked:
  assumes "dicts_ok st"
  shows "slot_revoked (sorted_state st) w slot = slot_revoked st w slot"
    "keeps_revoked (sorted_state st) = keeps_revoked st"
proof -
  show r: "slot_revoked (sorted_state st) w slot = slot_revoked st w slot" for w slot
    by (simp add: slot_revoked_def sorted_lookups [OF assms])
  show "keeps_revoked (sorted_state st) = keeps_revoked st"
    by (simp add: keeps_revoked_def r sorted_lookups [OF assms])
qed

lemma registry_run_inv: "registry_run st st' \<Longrightarrow> registry_inv st \<Longrightarrow> registry_inv st'"
  by (induction rule: registry_run.induct)
    (auto simp: registry_step_inv registry_inv_def validate_sorted dicts_ok_sorted sorted_keeps_revoked
      dest: registry_step_inv)

lemma empty_registry_inv: "registry_inv empty_registry_state"
  by (simp add: registry_inv_def empty_loaded_state keeps_revoked_def) (simp add: empty_registry_state_def)

interpretation registry: transition_system "\<lambda>st. st = empty_registry_state" registry_run registry_inv
  by unfold_locales (auto simp: empty_registry_inv registry_run_inv)

text \<open>changes during which the claim on a workspace stays\<close>

definition run_keeping :: "string \<Rightarrow> registry_state \<Rightarrow> registry_state \<Rightarrow> bool" where
  "run_keeping w st st' \<longleftrightarrow> registry_run st st' \<and> map_of (rs_workspaces st') w \<noteq> None"

lemma revoked_step:
  assumes "registry_inv st" and "slot_revoked st w slot" and "run_keeping w st st'"
  shows "slot_revoked st' w slot"
proof -
  have "registry_run st st'" "map_of (rs_workspaces st') w \<noteq> None" using assms(3) by (auto simp: run_keeping_def)
  then show ?thesis
    using assms(1,2)
    by cases (use registry_step_keeps [of st st' w slot] sorted_keeps_revoked(1) [of st] in \<open>auto simp: registry_inv_def\<close>)
qed

text \<open>
  C30: revoking a snapshot is final. Once the claim of a snapshot slot has the hash of the revoked
  artifact, it keeps it through every further sequence of publications, aborts, deletions of items
  and reloads, for as long as the workspace's claim exists: no publication under way or started
  later can put another artifact into the slot.
\<close>

theorem revoked_snapshot_stays:
  assumes "reach (\<lambda>st. st = empty_registry_state) registry_run st" and "slot_revoked st w slot"
    and "(run_keeping w)\<^sup>*\<^sup>* st st'"
  shows "slot_revoked st' w slot"
  using assms(3)
proof (induction rule: rtranclp_induct)
  case base
  then show ?case by (rule assms(2))
next
  case (step t u)
  have "registry_run\<^sup>*\<^sup>* st t"
    using step.hyps(1) by (rule rtranclp_mono [THEN predicate2D, rotated]) (auto simp: run_keeping_def)
  then have "registry_inv t" using registry.steps_inv registry.reach_inv [OF assms(1)] by blast
  then show ?case using revoked_step step by blast
qed

section \<open>A snapshot published and deleted\<close>

text \<open>the life of one workspace: claimed, a revoked snapshot published, everything deleted\<close>

definition rgy_intent :: publish_intent where
  "rgy_intent = \<lparr>ri_workspace_id = ''course'', ri_slot = ''snapshots/map.json'', ri_target_name = ''map.json'',
     ri_temporary_name = ''temporary'', ri_backup_name = ''backup'', ri_collection = ''snapshots'',
     ri_kind = ''snapshot'', ri_artifact_id = ''map'', ri_expected_sha256 = REVOKED_ARTIFACT_SHA256,
     ri_expected_size = 2, ri_old_claim = None, ri_temporary_identity = None, ri_generation = rgy_generation\<rparr>"

definition rgy_claim :: artifact_claim where
  "rgy_claim = \<lparr>ra_workspace_id = ''course'', ra_slot = ''snapshots/map.json'', ra_collection = ''snapshots'',
     ra_kind = ''snapshot'', ra_artifact_id = ''map'', ra_identity = (1, 9),
     ra_sha256 = REVOKED_ARTIFACT_SHA256, ra_size = 2, ra_generation = rgy_generation\<rparr>"

definition rgy_journal :: publish_journal where
  "rgy_journal = \<lparr>rj_workspace_id = ''course'', rj_slot = ''snapshots/map.json'', rj_phase = ''prepared'',
     rj_target_name = ''map.json'', rj_temporary_name = ''temporary'', rj_backup_name = ''backup'',
     rj_new_claim = rgy_claim, rj_old_claim = None, rj_generation = rgy_generation\<rparr>"

definition stepped :: "registry_error + (bool \<times> 'a \<times> registry_state) \<Rightarrow> registry_state" where
  "stepped r = (case r of Inl _ \<Rightarrow> empty_registry_state | Inr (_, _, st) \<Rightarrow> st)"

definition rgy_active :: registry_state where
  "rgy_active = stepped (finalize_workspace ''course'' rgy_generation (1, 3) (1, 4)
     [(''parts'', (1, 5)), (''units'', (1, 6)), (''snapshots'', (1, 7))] rgy_reserved)"

definition rgy_intended :: registry_state where
  "rgy_intended = stepped (reserve_publish rgy_intent rgy_active)"

definition rgy_temporary :: registry_state where
  "rgy_temporary = stepped (claim_publish_temporary ''course'' (1, 9) rgy_generation ''temporary'' rgy_intended)"

definition rgy_prepared :: registry_state where
  "rgy_prepared = stepped (prepare_publish rgy_journal rgy_temporary)"

definition rgy_backed_up :: registry_state where
  "rgy_backed_up = stepped (advance_publish ''course'' rgy_generation ''temporary'' ''prepared'' ''backup'' rgy_prepared)"

definition rgy_installed :: registry_state where
  "rgy_installed = stepped (advance_publish ''course'' rgy_generation ''temporary'' ''backup'' ''installed'' rgy_backed_up)"

definition rgy_committed :: registry_state where
  "rgy_committed = stepped (commit_publish ''course'' rgy_claim rgy_generation ''temporary'' rgy_installed)"

definition rgy_published :: registry_state where
  "rgy_published = stepped (clear_publish ''course'' rgy_generation ''temporary'' rgy_committed)"

definition rgy_deleting :: registry_state where
  "rgy_deleting = stepped (begin_delete ''course'' rgy_generation rgy_published)"

definition rgy_planned :: registry_state where
  "rgy_planned = stepped (plan_delete_quarantine ''course'' ''snapshots/map.json'' ''aside'' rgy_generation rgy_deleting)"

definition rgy_quarantined :: registry_state where
  "rgy_quarantined = stepped (advance_delete_item ''course'' ''snapshots/map.json'' rgy_generation
     ''planned'' ''quarantined'' ''aside'' rgy_planned)"

definition rgy_removed :: registry_state where
  "rgy_removed = stepped (advance_delete_item ''course'' ''snapshots/map.json'' rgy_generation
     ''quarantined'' ''removed'' ''aside'' rgy_quarantined)"

definition rgy_cleared :: registry_state where
  "rgy_cleared = stepped (clear_deleted_workspace ''course'' rgy_generation rgy_removed)"

lemma rgy_steps:
  "registry_step empty_registry_state rgy_reserved" "registry_step rgy_reserved rgy_active"
  "registry_step rgy_active rgy_intended" "registry_step rgy_intended rgy_temporary"
  "registry_step rgy_temporary rgy_prepared" "registry_step rgy_prepared rgy_backed_up"
  "registry_step rgy_backed_up rgy_installed" "registry_step rgy_installed rgy_committed"
  "registry_step rgy_committed rgy_published" "registry_step rgy_published rgy_deleting"
  "registry_step rgy_deleting rgy_planned" "registry_step rgy_planned rgy_quarantined"
  "registry_step rgy_quarantined rgy_removed"
proof -
  show "registry_step empty_registry_state rgy_reserved"
    by (rule step_reserve [of rgy_generation "''course''"]) code_simp+
  show "registry_step rgy_reserved rgy_active"
    by (rule step_finalize [of rgy_generation "[(''parts'', (1, 5)), (''units'', (1, 6)), (''snapshots'', (1, 7))]"
      "''course''" "(1, 3)" "(1, 4)"]) code_simp+
  show "registry_step rgy_active rgy_intended"
    by (rule step_reserve_publish [of rgy_intent]) code_simp+
  show "registry_step rgy_intended rgy_temporary"
    by (rule step_temporary [of "''course''" "(1, 9)" rgy_generation "''temporary''"]) code_simp
  show "registry_step rgy_temporary rgy_prepared"
    by (rule step_prepare [of rgy_journal]) code_simp+
  show "registry_step rgy_prepared rgy_backed_up"
    by (rule step_advance [of rgy_generation "''temporary''" "''prepared''" "''backup''" "''course''"]) code_simp+
  show "registry_step rgy_backed_up rgy_installed"
    by (rule step_advance [of rgy_generation "''temporary''" "''backup''" "''installed''" "''course''"]) code_simp+
  show "registry_step rgy_installed rgy_committed"
    by (rule step_commit [of "''course''" rgy_claim rgy_generation "''temporary''"]) code_simp
  show "registry_step rgy_committed rgy_published"
    by (rule step_clear [of "''course''" rgy_generation "''temporary''"]) code_simp
  show "registry_step rgy_published rgy_deleting"
    by (rule step_begin_delete [of "''course''" rgy_generation]) code_simp
  show "registry_step rgy_deleting rgy_planned"
    by (rule step_plan_quarantine [of "''course''" "''snapshots/map.json''" "''aside''" rgy_generation]) code_simp
  show "registry_step rgy_planned rgy_quarantined"
    by (rule step_advance_delete [of "''course''" "''snapshots/map.json''" rgy_generation "''planned''" "''quarantined''" "''aside''"]) code_simp
  show "registry_step rgy_quarantined rgy_removed"
    by (rule step_advance_delete [of "''course''" "''snapshots/map.json''" rgy_generation "''quarantined''" "''removed''" "''aside''"]) code_simp
qed

lemma registry_reach:
  "reach (\<lambda>st. st = empty_registry_state) registry_run st \<Longrightarrow> registry_step st st' \<Longrightarrow>
   reach (\<lambda>st. st = empty_registry_state) registry_run st'"
  by (rule reach.reach_step) (auto intro: run_change)

lemma rgy_reach:
  "reach (\<lambda>st. st = empty_registry_state) registry_run rgy_installed"
  "reach (\<lambda>st. st = empty_registry_state) registry_run rgy_committed"
  "reach (\<lambda>st. st = empty_registry_state) registry_run rgy_removed"
proof -
  have "reach (\<lambda>st. st = empty_registry_state) registry_run empty_registry_state" by (rule reach_init) simp
  then show i: "reach (\<lambda>st. st = empty_registry_state) registry_run rgy_installed"
    using registry_reach rgy_steps(1-7) by blast
  then show c: "reach (\<lambda>st. st = empty_registry_state) registry_run rgy_committed"
    using registry_reach rgy_steps(8) by blast
  then show "reach (\<lambda>st. st = empty_registry_state) registry_run rgy_removed"
    using registry_reach rgy_steps(9-13) by blast
qed

theorem revoked_snapshot_stays_witness: "slot_revoked rgy_removed ''course'' ''snapshots/map.json''"
proof (rule revoked_snapshot_stays [OF rgy_reach(2)])
  show "slot_revoked rgy_committed ''course'' ''snapshots/map.json''" by code_simp
  have there: "map_of (rs_workspaces rgy_published) ''course'' \<noteq> None"
    "map_of (rs_workspaces rgy_deleting) ''course'' \<noteq> None" "map_of (rs_workspaces rgy_planned) ''course'' \<noteq> None"
    "map_of (rs_workspaces rgy_quarantined) ''course'' \<noteq> None" "map_of (rs_workspaces rgy_removed) ''course'' \<noteq> None"
    by code_simp+
  have "run_keeping ''course'' rgy_committed rgy_published" "run_keeping ''course'' rgy_published rgy_deleting"
    "run_keeping ''course'' rgy_deleting rgy_planned" "run_keeping ''course'' rgy_planned rgy_quarantined"
    "run_keeping ''course'' rgy_quarantined rgy_removed"
    using rgy_steps there by (auto simp: run_keeping_def intro: run_change)
  then show "(run_keeping ''course'')\<^sup>*\<^sup>* rgy_committed rgy_removed"
    by (meson converse_rtranclp_into_rtranclp rtranclp.rtrancl_refl)
qed

text \<open>
  The claim on an artifact changes in one way only: the journal of its workspace, which had the
  present claim as its old one and had reached the phase after the file was put in place, is
  committed and its new claim recorded. The other change is that the whole workspace is forgotten.
\<close>

theorem artifact_changes_by_commit:
  assumes "reach (\<lambda>st. st = empty_registry_state) registry_run st" and "registry_step st st'"
    and "map_of (rs_artifacts st') (w, slot) \<noteq> map_of (rs_artifacts st) (w, slot)"
  shows "(\<exists>j. map_of (rs_journals st) w = Some j \<and> rj_phase j = ''installed'' \<and> rj_slot j = slot \<and>
      rj_old_claim j = map_of (rs_artifacts st) (w, slot) \<and>
      map_of (rs_artifacts st') (w, slot) = Some (rj_new_claim j)) \<or>
    map_of (rs_workspaces st') w = None"
proof -
  have valid: "validate_state st = Inr ()"
    using registry.reach_inv [OF assms(1)] by (simp add: registry_inv_def)
  have calm: ?thesis if "quiet st st'" using that assms(3) by (simp add: quiet_def)
  show ?thesis
    using assms(2)
  proof cases
    case (step_commit v c g n)
    then obtain j where j: "map_of (rs_journals st) v = Some j" "rj_phase j = ''installed''" "rj_new_claim j = c"
      and st': "rs_artifacts st' = AList.update (v, ra_slot c) c (rs_artifacts st)"
      by (auto simp: commit_publish_def named_journal_Some split: option.splits if_splits)
    then have "(w, slot) = (v, ra_slot c)" using assms(3) by (auto simp: update_lookup split: if_splits)
    then show ?thesis
      using j st' valid_journal(2,4) [OF valid j(1)] by (auto simp: update_lookup)
  next
    case (step_clear_deleted v g)
    then have st': "rs_artifacts st' = filter (\<lambda>kv. fst (fst kv) \<noteq> v) (rs_artifacts st)"
      "rs_workspaces st' = AList.delete v (rs_workspaces st)"
      by (auto simp: clear_deleted_workspace_def split: option.splits if_splits)
    then have "w = v"
      using assms(3) map_of_filter_key [of "\<lambda>k. fst k \<noteq> v" "rs_artifacts st" "(w, slot)"] by (auto split: if_splits)
    then show ?thesis by (simp add: st'(2) delete_lookup)
  next
    case (step_reserve_publish i)
    then show ?thesis
      using assms(3) by (auto simp: reserve_publish_def Let_def split: option.splits if_splits)
  next
    case (step_prepare j)
    then show ?thesis
      using assms(3) by (auto simp: prepare_publish_def Let_def split: option.splits if_splits)
  qed (rule calm; erule quiet_steps)+
qed

theorem artifact_changes_by_commit_witness:
  "(\<exists>j. map_of (rs_journals rgy_installed) ''course'' = Some j \<and> rj_phase j = ''installed'' \<and>
      rj_slot j = ''snapshots/map.json'' \<and>
      rj_old_claim j = map_of (rs_artifacts rgy_installed) (''course'', ''snapshots/map.json'') \<and>
      map_of (rs_artifacts rgy_committed) (''course'', ''snapshots/map.json'') = Some (rj_new_claim j)) \<or>
    map_of (rs_workspaces rgy_committed) ''course'' = None"
proof (rule artifact_changes_by_commit [OF rgy_reach(1) rgy_steps(8)])
  show "map_of (rs_artifacts rgy_committed) (''course'', ''snapshots/map.json'') \<noteq>
      map_of (rs_artifacts rgy_installed) (''course'', ''snapshots/map.json'')"
    by code_simp
qed

text \<open>the registry holds nothing under the name, and the same as another one under it\<close>

definition forgotten :: "registry_state \<Rightarrow> string \<Rightarrow> bool" where
  "forgotten st w \<longleftrightarrow> map_of (rs_workspaces st) w = None \<and> map_of (rs_collections st) w = None \<and>
     map_of (rs_intents st) w = None \<and> map_of (rs_journals st) w = None \<and>
     slots_of w (rs_artifacts st) = [] \<and> slots_of w (rs_delete_items st) = []"

definition agrees_on :: "registry_state \<Rightarrow> registry_state \<Rightarrow> string \<Rightarrow> bool" where
  "agrees_on st st' v \<longleftrightarrow> map_of (rs_workspaces st') v = map_of (rs_workspaces st) v \<and>
     map_of (rs_collections st') v = map_of (rs_collections st) v \<and>
     map_of (rs_intents st') v = map_of (rs_intents st) v \<and> map_of (rs_journals st') v = map_of (rs_journals st) v \<and>
     (\<forall>slot. map_of (rs_artifacts st') (v, slot) = map_of (rs_artifacts st) (v, slot)) \<and>
     (\<forall>slot. map_of (rs_delete_items st') (v, slot) = map_of (rs_delete_items st) (v, slot))"

lemma map_of_other_keys:
  "v \<noteq> w \<Longrightarrow> map_of (filter (\<lambda>kv. fst (fst kv) \<noteq> w) d) (v, slot) = map_of d (v, slot)"
  using map_of_filter_key [of "\<lambda>k. fst k \<noteq> w" d "(v, slot)"] by simp

text \<open>
  A workspace is cleared from the registry only after each of its artifacts has a delete item
  for that very claim which reached \<open>removed\<close>, that is after the file is gone; then no row of any
  table names the workspace, so the name can be reserved again, and every other workspace keeps
  all its rows.
\<close>

theorem cleared_workspace_forgotten:
  assumes "reach (\<lambda>st. st = empty_registry_state) registry_run st"
    and "mutates_to (clear_deleted_workspace w g st) st'"
  shows "(\<forall>slot claim. map_of (rs_artifacts st) (w, slot) = Some claim \<longrightarrow>
      (\<exists>item. map_of (rs_delete_items st) (w, slot) = Some item \<and> rd_phase item = ''removed'' \<and> rd_claim item = claim)) \<and>
    forgotten st' w \<and> (\<forall>v. v \<noteq> w \<longrightarrow> agrees_on st st' v)"
proof -
  have valid: "validate_state st = Inr ()" using registry.reach_inv [OF assms(1)] by (simp add: registry_inv_def)
  obtain c where c: "map_of (rs_workspaces st) w = Some c" "rw_phase c = ''deleting''"
    and removed: "\<not> list_ex (\<lambda>item. rd_phase item \<noteq> ''removed'') (delete_items_of st w)"
    and st': "st' = st\<lparr>rs_workspaces := AList.delete w (rs_workspaces st),
      rs_collections := AList.delete w (rs_collections st), rs_intents := AList.delete w (rs_intents st),
      rs_journals := AList.delete w (rs_journals st),
      rs_artifacts := filter (\<lambda>kv. fst (fst kv) \<noteq> w) (rs_artifacts st),
      rs_delete_items := filter (\<lambda>kv. fst (fst kv) \<noteq> w) (rs_delete_items st)\<rparr>"
    using assms(2) by (auto simp: clear_deleted_workspace_def split: option.splits if_splits)
  have item: "\<exists>item. map_of (rs_delete_items st) (w, slot) = Some item \<and> rd_phase item = ''removed'' \<and> rd_claim item = claim"
    if claim: "map_of (rs_artifacts st) (w, slot) = Some claim" for slot claim
  proof -
    obtain item where i: "map_of (rs_delete_items st) (w, slot) = Some item"
      using valid_typed [OF valid] c claim unfolding registry_typed_def by (metis not_None_eq)
    then have "((w, slot), item) \<in> set (rs_delete_items st)" by (rule map_of_SomeD)
    then have "item \<in> set (delete_items_of st w)" by (force simp: delete_items_of_def)
    then have "rd_phase item = ''removed''" using removed by (auto simp: list_ex_iff)
    moreover have "rd_claim item = claim"
      using valid map_of_SomeD [OF i] claim by (auto simp: validate_state_def check_delete_item_def Let_def)
    ultimately show ?thesis using i by blast
  qed
  have "forgotten st' w"
    by (simp add: forgotten_def st' delete_lookup slots_of_def filter_empty_conv)
  moreover have "agrees_on st st' v" if "v \<noteq> w" for v
    using that by (simp add: agrees_on_def st' delete_lookup map_of_other_keys)
  ultimately show ?thesis using item by blast
qed

theorem cleared_workspace_forgotten_witness:
  "(\<exists>item. map_of (rs_delete_items rgy_removed) (''course'', ''snapshots/map.json'') = Some item \<and>
      rd_phase item = ''removed'' \<and> rd_claim item = rgy_claim) \<and>
    forgotten rgy_cleared ''course'' \<and> agrees_on rgy_removed rgy_cleared ''other''"
proof -
  have acc: "mutates_to (clear_deleted_workspace ''course'' rgy_generation rgy_removed) rgy_cleared" by code_simp
  have art: "map_of (rs_artifacts rgy_removed) (''course'', ''snapshots/map.json'') = Some rgy_claim" by code_simp
  note cleared = cleared_workspace_forgotten [OF rgy_reach(3) acc]
  show ?thesis
    using cleared [THEN conjunct1, rule_format, OF art] cleared [THEN conjunct2, THEN conjunct1]
      cleared [THEN conjunct2, THEN conjunct2, rule_format, of "''other''"]
    by simp
qed

end
