(* ===== verification/Study_Evidence.thy ===== *)
theory Study_Evidence
  imports Evidence_Store Evidence_Text
begin

text \<open>
  The first part of \<^verbatim>\<open>exam_predictor/evidence/study_map.py\<close>: \<open>EvidenceValidator\<close> turns the raw output of
  a provider into one cited evidence unit, with at most one repair. \<open>loads\<close> stands for \<open>json.loads\<close>
  and the shape checks of the model's fields (names, types): it gives the fields as they were sent or
  an exception. The issues reported to the repairer are not modelled.
\<close>

section \<open>Provider evidence\<close>

record Definition =
  df_term :: string
  df_explanation :: string

record RawEvidence =
  rw_locator :: string
  rw_detected_language :: string
  rw_material_role :: string
  rw_headings :: "string list"
  rw_concepts :: "string list"
  rw_definitions :: "Definition list"
  rw_formulas :: "string list"
  rw_procedures :: "string list"
  rw_examples :: "string list"
  rw_assessment_items :: "string list"
  rw_visual_descriptions :: "string list"
  rw_ocr_text :: "string list"
  rw_limitations :: "string list"
  rw_warnings :: "string list"
  rw_prompt_injection_indicators :: "string list"

text \<open>The length is checked on the text as sent, the patterns on the stripped text.\<close>

definition stripped_safe :: "string \<Rightarrow> bool" where
  "stripped_safe v \<longleftrightarrow> py_strip v \<noteq> [] \<and> safe_text (py_strip v)"

definition scalar_ok :: "int \<Rightarrow> string \<Rightarrow> bool" where
  "scalar_ok limit v \<longleftrightarrow> 1 \<le> length v \<and> int (length v) \<le> limit \<and> stripped_safe v"

definition text_items_ok :: "int \<Rightarrow> string list \<Rightarrow> bool" where
  "text_items_ok limit vs \<longleftrightarrow>
     int (length vs) \<le> limit \<and> list_all (\<lambda>v. int (length (py_strip v)) \<le> 4096 \<and> stripped_safe v) vs"

definition Definition_ok :: "Definition \<Rightarrow> bool" where
  "Definition_ok d \<longleftrightarrow> scalar_ok 512 (df_term d) \<and> scalar_ok 4096 (df_explanation d)"

definition strip_definition :: "Definition \<Rightarrow> Definition" where
  "strip_definition d = d\<lparr>df_term := py_strip (df_term d), df_explanation := py_strip (df_explanation d)\<rparr>"

definition strip_evidence :: "RawEvidence \<Rightarrow> RawEvidence" where
  "strip_evidence w =
     \<lparr>rw_locator = py_strip (rw_locator w), rw_detected_language = py_strip (rw_detected_language w),
      rw_material_role = py_strip (rw_material_role w), rw_headings = map py_strip (rw_headings w),
      rw_concepts = map py_strip (rw_concepts w), rw_definitions = map strip_definition (rw_definitions w),
      rw_formulas = map py_strip (rw_formulas w), rw_procedures = map py_strip (rw_procedures w),
      rw_examples = map py_strip (rw_examples w), rw_assessment_items = map py_strip (rw_assessment_items w),
      rw_visual_descriptions = map py_strip (rw_visual_descriptions w),
      rw_ocr_text = map py_strip (rw_ocr_text w), rw_limitations = map py_strip (rw_limitations w),
      rw_warnings = map py_strip (rw_warnings w),
      rw_prompt_injection_indicators = map py_strip (rw_prompt_injection_indicators w)\<rparr>"

definition RawEvidence_validate :: "RawEvidence \<Rightarrow> py_error + RawEvidence" where
  "RawEvidence_validate w =
     checked (scalar_ok 512 (rw_locator w) \<and> scalar_ok 64 (rw_detected_language w) \<and>
              scalar_ok 128 (rw_material_role w) \<and>
              text_items_ok 128 (rw_headings w) \<and> text_items_ok 256 (rw_concepts w) \<and>
              int (length (rw_definitions w)) \<le> 128 \<and> list_all Definition_ok (rw_definitions w) \<and>
              text_items_ok 128 (rw_formulas w) \<and> text_items_ok 128 (rw_procedures w) \<and>
              text_items_ok 128 (rw_examples w) \<and> text_items_ok 128 (rw_assessment_items w) \<and>
              text_items_ok 128 (rw_visual_descriptions w) \<and> text_items_ok 128 (rw_ocr_text w) \<and>
              text_items_ok 128 (rw_limitations w) \<and> text_items_ok 128 (rw_warnings w) \<and>
              text_items_ok 128 (rw_prompt_injection_indicators w))
       (strip_evidence w)"

definition str_list :: "string list \<Rightarrow> pyval" where
  "str_list vs = VList (map VStr vs)"

definition definition_payload :: "Definition \<Rightarrow> pyval" where
  "definition_payload d =
     VDict [(''term'', VStr (df_term d)), (''explanation'', VStr (df_explanation d))]"

definition evidence_payload :: "RawEvidence \<Rightarrow> pyval" where
  "evidence_payload w = VDict
     [(''locator'', VStr (rw_locator w)), (''detected_language'', VStr (rw_detected_language w)),
      (''material_role'', VStr (rw_material_role w)), (''headings'', str_list (rw_headings w)),
      (''concepts'', str_list (rw_concepts w)),
      (''definitions'', VList (map definition_payload (rw_definitions w))),
      (''formulas'', str_list (rw_formulas w)), (''procedures'', str_list (rw_procedures w)),
      (''examples'', str_list (rw_examples w)), (''assessment_items'', str_list (rw_assessment_items w)),
      (''visual_descriptions'', str_list (rw_visual_descriptions w)),
      (''ocr_text'', str_list (rw_ocr_text w)), (''limitations'', str_list (rw_limitations w)),
      (''warnings'', str_list (rw_warnings w)),
      (''prompt_injection_indicators'', str_list (rw_prompt_injection_indicators w))]"

section \<open>Validation and repair\<close>

record EvidencePartResult =
  pr_source_part_id :: string
  pr_locator :: string
  pr_provider :: string
  pr_model_id :: string
  pr_prompt_version :: string
  pr_raw_output :: string

record EvidenceRepairRequest =
  rr_source_part_id :: string
  rr_locator :: string
  rr_raw_output :: string
  rr_deadline_seconds :: rat

text \<open>\<open>len(text.encode("utf-8"))\<close> of code points below 256\<close>

definition utf8_length :: "string \<Rightarrow> int" where
  "utf8_length s = sum_list (map (\<lambda>c. if (of_char c :: nat) < 128 then 1 else 2) s)"

definition MAX_PROVIDER_JSON_BYTES :: int where
  "MAX_PROVIDER_JSON_BYTES = 2 * 1024 * 1024"

type_synonym 'a loader = "string \<Rightarrow> py_error + 'a"

definition validate_once ::
  "RawEvidence loader \<Rightarrow> EvidencePartResult \<Rightarrow> SourcePartPlan \<Rightarrow> string \<Rightarrow> py_error + RawEvidence" where
  "validate_once loads result plan raw_output =
     (if pr_source_part_id result \<noteq> pl_part_id plan \<or> pr_locator result \<noteq> pl_locator plan \<or>
         utf8_length raw_output > MAX_PROVIDER_JSON_BYTES
      then Inl ValueError
      else bind_res (loads raw_output) (\<lambda>document.
           bind_res (RawEvidence_validate document) (\<lambda>evidence.
           if rw_locator evidence \<noteq> pl_locator plan then Inl ValueError else Inr evidence)))"

definition unit_identity :: "EvidencePartResult \<Rightarrow> SourcePartPlan \<Rightarrow> string \<Rightarrow> string" where
  "unit_identity result plan canonical =
     join_with CHR 0x00 [pl_part_id plan, pr_provider result, pr_model_id result, pr_prompt_version result, canonical]"

definition evidence_unit ::
  "(string \<Rightarrow> string) \<Rightarrow> EvidencePartResult \<Rightarrow> SourcePartPlan \<Rightarrow> RawEvidence \<Rightarrow> py_error + EvidenceUnit" where
  "evidence_unit H result plan evidence =
     (let canonical = canonical_json (evidence_payload evidence);
          unit_id = ''unit_'' @ H (unit_identity result plan canonical);
          citation_id = ''citation_'' @ H (unit_id @ [CHR 0x00] @ pl_locator plan) in
      bind_res (EvidenceCitation_validate
        \<lparr>ct_citation_id = citation_id, ct_evidence_unit_id = unit_id, ct_source_part_id = pl_part_id plan,
         ct_relative_path = pl_relative_path plan, ct_locator = pl_locator plan\<rparr>) (\<lambda>citation.
      EvidenceUnit_validate
        \<lparr>un_evidence_unit_id = unit_id, un_source_part_id = pl_part_id plan, un_content = canonical,
         un_citations = [citation]\<rparr>))"

text \<open>the request for a repair; its construction can fail like the repair itself\<close>

definition repair_request ::
  "EvidencePolicy \<Rightarrow> SourcePartPlan \<Rightarrow> string \<Rightarrow> rat \<Rightarrow> py_error + EvidenceRepairRequest" where
  "repair_request pol plan raw_output deadline_seconds =
     (let deadline = min (po_provider_timeout_seconds pol) deadline_seconds in
      checked (1 \<le> length (pl_locator plan) \<and> int (length (pl_locator plan)) \<le> 512 \<and> 10 \<le> deadline \<and> deadline \<le> 300)
        \<lparr>rr_source_part_id = pl_part_id plan, rr_locator = pl_locator plan, rr_raw_output = raw_output,
         rr_deadline_seconds = deadline\<rparr>)"

text \<open>A repairer raises, returns a text (\<open>Some\<close>) or returns something that is no text (\<open>None\<close>).\<close>

type_synonym repairer = "EvidenceRepairRequest \<Rightarrow> py_error + string option"

definition validate_repaired ::
  "(string \<Rightarrow> string) \<Rightarrow> RawEvidence loader \<Rightarrow> EvidencePartResult \<Rightarrow> SourcePartPlan \<Rightarrow> string \<Rightarrow> py_error + EvidenceUnit" where
  "validate_repaired H loads result plan repaired =
     (let repaired_result = result\<lparr>pr_raw_output := repaired\<rparr> in
      case validate_once loads repaired_result plan repaired of
        Inr evidence \<Rightarrow> evidence_unit H repaired_result plan evidence
      | Inl ValueError \<Rightarrow> Inl (EvidenceValidationError ''evidence_invalid'')
      | Inl e \<Rightarrow> Inl e)"

definition repair_evidence ::
  "(string \<Rightarrow> string) \<Rightarrow> RawEvidence loader \<Rightarrow> repairer \<Rightarrow> EvidencePolicy \<Rightarrow> EvidencePartResult \<Rightarrow>
   SourcePartPlan \<Rightarrow> rat \<Rightarrow> py_error + EvidenceUnit" where
  "repair_evidence H loads repairer pol result plan deadline_seconds =
     (case bind_res (repair_request pol plan (pr_raw_output result) deadline_seconds) repairer of
        Inr (Some repaired) \<Rightarrow> validate_repaired H loads result plan repaired
      | _ \<Rightarrow> Inl (EvidenceValidationError ''evidence_repair_failed''))"

definition validate_evidence ::
  "(string \<Rightarrow> string) \<Rightarrow> RawEvidence loader \<Rightarrow> repairer option \<Rightarrow> EvidencePolicy \<Rightarrow> EvidencePartResult \<Rightarrow>
   SourcePartPlan \<Rightarrow> rat \<Rightarrow> py_error + EvidenceUnit" where
  "validate_evidence H loads repairer pol result plan deadline_seconds =
     (case validate_once loads result plan (pr_raw_output result) of
        Inr evidence \<Rightarrow> evidence_unit H result plan evidence
      | Inl ValueError \<Rightarrow>
          (case repairer of
             None \<Rightarrow> Inl (EvidenceValidationError ''evidence_invalid'')
           | Some repair \<Rightarrow>
               if po_max_repair_attempts pol = 0 then Inl (EvidenceValidationError ''evidence_invalid'')
               else if deadline_seconds < 10 then Inl (EvidenceValidationError ''evidence_repair_failed'')
               else repair_evidence H loads repair pol result plan deadline_seconds)
      | Inl e \<Rightarrow> Inl e)"

definition call_validator ::
  "(string \<Rightarrow> string) \<Rightarrow> RawEvidence loader \<Rightarrow> repairer option \<Rightarrow> EvidencePolicy \<Rightarrow> EvidencePartResult \<Rightarrow>
   SourcePartPlan \<Rightarrow> py_error + EvidenceUnit" where
  "call_validator H loads repairer pol result plan =
     validate_evidence H loads repairer pol result plan (po_provider_timeout_seconds pol)"

section \<open>What a unit is\<close>

lemma RawEvidence_validate_Inr: "RawEvidence_validate w = Inr v \<Longrightarrow> v = strip_evidence w"
  by (simp add: RawEvidence_validate_def)

lemma validate_once_locator:
  "validate_once loads result plan raw = Inr w \<Longrightarrow> rw_locator w = pl_locator plan"
  by (auto simp: validate_once_def bind_res_Inr_iff split: if_splits)

text \<open>a unit is its canonical JSON, cited at the plan's locator\<close>

definition unit_of_plan :: "SourcePartPlan \<Rightarrow> EvidenceUnit \<Rightarrow> bool" where
  "unit_of_plan plan u \<longleftrightarrow> un_source_part_id u = pl_part_id plan \<and> safe_text (un_content u) \<and>
     (\<exists>c. un_citations u = [c] \<and> ct_evidence_unit_id c = un_evidence_unit_id u \<and>
          ct_source_part_id c = pl_part_id plan \<and> ct_locator c = pl_locator plan \<and>
          normalize_relative_path (pl_relative_path plan) = Inr (ct_relative_path c))"

lemma evidence_unit_Inr:
  assumes "evidence_unit H result plan w = Inr u"
  shows "unit_of_plan plan u" "un_content u = canonical_json (evidence_payload w)"
    "un_evidence_unit_id u = ''unit_'' @ H (unit_identity result plan (un_content u))"
  using assms
  by (auto simp: evidence_unit_def Let_def bind_res_Inr_iff EvidenceUnit_validate_def EvidenceCitation_validate_def
      unit_of_plan_def)

lemma evidence_unit_Inl:
  "\<not> safe_text (canonical_json (evidence_payload w)) \<Longrightarrow> (\<And>e. evidence_unit H result plan w \<noteq> Inr e)"
  using evidence_unit_Inr by (fastforce simp: unit_of_plan_def)

text \<open>A unit comes from one accepted output: the provider's, or the repairer's answer to one request.\<close>

definition accepted_output ::
  "RawEvidence loader \<Rightarrow> repairer option \<Rightarrow> EvidencePolicy \<Rightarrow> EvidencePartResult \<Rightarrow> SourcePartPlan \<Rightarrow> rat \<Rightarrow>
   string \<Rightarrow> bool" where
  "accepted_output loads repairer pol result plan deadline raw \<longleftrightarrow>
     raw = pr_raw_output result \<or>
     (\<exists>repair request. repairer = Some repair \<and> po_max_repair_attempts pol > 0 \<and> 10 \<le> deadline \<and>
        validate_once loads result plan (pr_raw_output result) = Inl ValueError \<and>
        repair_request pol plan (pr_raw_output result) deadline = Inr request \<and>
        repair request = Inr (Some raw))"

lemma unit_identity_output: "unit_identity (result\<lparr>pr_raw_output := r\<rparr>) plan c = unit_identity result plan c"
  by (simp add: unit_identity_def)

lemma validate_evidence_Inr:
  assumes "validate_evidence H loads repairer pol result plan deadline = Inr u"
  obtains raw w where "accepted_output loads repairer pol result plan deadline raw"
    "validate_once loads (result\<lparr>pr_raw_output := raw\<rparr>) plan raw = Inr w"
    "evidence_unit H (result\<lparr>pr_raw_output := raw\<rparr>) plan w = Inr u"
proof (cases "validate_once loads result plan (pr_raw_output result)")
  case (Inr w)
  with assms have "evidence_unit H result plan w = Inr u" by (simp add: validate_evidence_def)
  with Inr that [of "pr_raw_output result" w] show ?thesis by (simp add: accepted_output_def)
next
  case (Inl e)
  with assms have e: "e = ValueError" by (cases e) (simp_all add: validate_evidence_def)
  with Inl assms obtain repair where r: "repairer = Some repair" "po_max_repair_attempts pol > 0" "10 \<le> deadline"
    "repair_evidence H loads repair pol result plan deadline = Inr u"
    by (auto simp: validate_evidence_def split: option.splits if_splits)
  from r(4) obtain request raw where q: "repair_request pol plan (pr_raw_output result) deadline = Inr request"
    "repair request = Inr (Some raw)" "validate_repaired H loads result plan raw = Inr u"
    by (auto simp: repair_evidence_def bind_res_def split: sum.splits option.splits)
  from q(3) obtain w where w: "validate_once loads (result\<lparr>pr_raw_output := raw\<rparr>) plan raw = Inr w"
    "evidence_unit H (result\<lparr>pr_raw_output := raw\<rparr>) plan w = Inr u"
    by (auto simp: validate_repaired_def Let_def split: sum.splits py_error.splits)
  from r q Inl e have "accepted_output loads repairer pol result plan deadline raw"
    unfolding accepted_output_def by blast
  from that [OF this w] show ?thesis .
qed

end
