(* ===== verification/Study_Synthesis.thy ===== *)
theory Study_Synthesis
  imports Study_Evidence
begin

text \<open>
  Synthesis in \<^verbatim>\<open>exam_predictor/evidence/study_map.py\<close>: the requests built from validated units, in
  one piece or in batches with drafts, and the checks on what the synthesizer answers: safe strings,
  known identities, no literal probabilities, citations inside the given evidence, no cycle among the
  relationships.
\<close>

section \<open>The payload\<close>

record SynthesisPayload =
  sy_course_groups :: "CourseGroup list"
  sy_nodes :: "KnowledgeNode list"
  sy_limitations :: "string list"
  sy_evidence_unit_ids :: "string list"

fun validated :: "('a \<Rightarrow> py_error + 'a) \<Rightarrow> 'a list \<Rightarrow> py_error + 'a list" where
  "validated f [] = Inr []"
| "validated f (x # xs) = bind_res (f x) (\<lambda>y. bind_res (validated f xs) (\<lambda>ys. Inr (y # ys)))"

definition SynthesisPayload_validate :: "SynthesisPayload \<Rightarrow> py_error + SynthesisPayload" where
  "SynthesisPayload_validate p =
     bind_res (validated CourseGroup_validate (sy_course_groups p)) (\<lambda>groups.
     bind_res (validated KnowledgeNode_validate (sy_nodes p)) (\<lambda>nodes.
     Inr (p\<lparr>sy_course_groups := groups, sy_nodes := nodes\<rparr>)))"

text \<open>The strings of the dumped payload; its field names match no pattern.\<close>

definition payload_strings :: "SynthesisPayload \<Rightarrow> string list" where
  "payload_strings p =
     concat (map group_strings (sy_course_groups p)) @ concat (map node_strings (sy_nodes p)) @
     sy_limitations p @ sy_evidence_unit_ids p"

definition validate_provider_strings :: "SynthesisPayload \<Rightarrow> py_error + unit" where
  "validate_provider_strings p = checked (list_all safe_text (payload_strings p)) ()"

text \<open>\<open>re.IGNORECASE\<close> patterns of literal probabilities\<close>

definition rx_gap :: rx where
  "rx_gap = RSpan py_space 1"

definition PROBABILITY_LABEL :: rx where
  "PROBABILITY_LABEL = RAlt
     [RSeq [RWordB, RSpan is_digit 1, RAlt [RSeq [RLit ''.'', RSpan is_digit 1], RLit []],
        RSpan py_space 0, RLit ''%''],
      RSeq [RWordB, RLitI ''exam'', rx_gap, RLitI ''probabilit'', RAlt [RLitI ''y'', RLitI ''ies''], RWordB],
      RSeq [RWordB, RAlt [RLitI ''chance'', RLitI ''likelihood''], rx_gap, RLitI ''of'', rx_gap,
        RAlt [RLitI ''appearing'', RLitI ''being tested''], RWordB]]"

definition labelled :: "string \<Rightarrow> bool" where
  "labelled text = rx_search PROBABILITY_LABEL text"

section \<open>The graph of relationships\<close>

text \<open>
  \<open>_reject_graph_cycle\<close>: a recursion over a dict, whose depth Python bounds; \<open>depth\<close> is the number of
  nested calls it still has, and below it is a \<open>RecursionError\<close>. The set \<open>visiting\<close> is passed down,
  since every call removes what it added; \<open>visited\<close> is threaded through.
\<close>

type_synonym graph = "(string \<times> string list) list"

fun visit_node :: "nat \<Rightarrow> graph \<Rightarrow> string set \<Rightarrow> string \<Rightarrow> string set \<Rightarrow> py_error + string set" and
  visit_each :: "nat \<Rightarrow> graph \<Rightarrow> string set \<Rightarrow> string list \<Rightarrow> string set \<Rightarrow> py_error + string set" where
  "visit_node 0 g visiting node visited = Inl RecursionError"
| "visit_node (Suc depth) g visiting node visited =
     (if node \<in> visiting then Inl ValueError
      else if node \<in> visited then Inr visited
      else case map_of g node of
        None \<Rightarrow> Inl KeyError
      | Some deps \<Rightarrow> bind_res (visit_each depth g (insert node visiting) deps visited) (\<lambda>seen.
          Inr (insert node seen)))"
| "visit_each depth g visiting [] visited = Inr visited"
| "visit_each depth g visiting (d # ds) visited =
     bind_res (visit_node depth g visiting d visited) (visit_each depth g visiting ds)"

definition reject_graph_cycle :: "nat \<Rightarrow> graph \<Rightarrow> py_error + unit" where
  "reject_graph_cycle depth g = map_sum id (\<lambda>_. ()) (visit_each depth g {} (map fst g) {})"

definition node_dependencies :: "KnowledgeNode \<Rightarrow> string list" where
  "node_dependencies n = the_strings (kn_parent_node_id n) @ kn_prerequisite_node_ids n"

definition relationship_graph :: "KnowledgeNode list \<Rightarrow> graph" where
  "relationship_graph nodes = map (\<lambda>n. (kn_node_id n, node_dependencies n)) nodes"

section \<open>Validation of the payload\<close>

definition node_known :: "string set \<Rightarrow> string set \<Rightarrow> KnowledgeNode \<Rightarrow> bool" where
  "node_known known_nodes known_groups n \<longleftrightarrow>
     \<not> labelled (kn_title n) \<and> known_or_none (kn_parent_node_id n) known_nodes \<and>
     list_all (\<lambda>i. i \<in> known_nodes) (kn_prerequisite_node_ids n) \<and>
     known_or_none (kn_course_group_id n) known_groups"

definition payload_dependencies :: "SynthesisPayload \<Rightarrow> string set" where
  "payload_dependencies p =
     set (concat (map kn_evidence_unit_ids (sy_nodes p))) \<union> set (concat (map cg_evidence_unit_ids (sy_course_groups p)))"

definition payload_ok :: "SynthesisPayload \<Rightarrow> string set \<Rightarrow> bool" where
  "payload_ok p allowed \<longleftrightarrow>
     distinct (map kn_node_id (sy_nodes p)) \<and> distinct (map cg_group_id (sy_course_groups p)) \<and>
     (allowed = {} \<or> sy_nodes p \<noteq> []) \<and>
     list_all (node_known (set (map kn_node_id (sy_nodes p))) (set (map cg_group_id (sy_course_groups p)))) (sy_nodes p) \<and>
     \<not> list_ex (\<lambda>g. labelled (cg_title g)) (sy_course_groups p) \<and>
     \<not> list_ex labelled (sy_limitations p) \<and> list_all safe_text (sy_limitations p) \<and>
     set (sy_evidence_unit_ids p) = payload_dependencies p \<and> distinct (sy_evidence_unit_ids p) \<and>
     payload_dependencies p \<subseteq> allowed"

definition validate_synthesis_payload :: "nat \<Rightarrow> SynthesisPayload \<Rightarrow> string set \<Rightarrow> py_error + unit" where
  "validate_synthesis_payload depth p allowed =
     (if \<not> payload_ok p allowed then Inl ValueError
      else reject_graph_cycle depth (relationship_graph (sy_nodes p)))"

definition parse_synthesis ::
  "SynthesisPayload loader \<Rightarrow> nat \<Rightarrow> string \<Rightarrow> string set \<Rightarrow> py_error + SynthesisPayload" where
  "parse_synthesis loads depth raw_output allowed =
     (case bind_res (bind_res (loads raw_output) SynthesisPayload_validate) (\<lambda>p.
           bind_res (validate_provider_strings p) (\<lambda>_.
           bind_res (validate_synthesis_payload depth p allowed) (\<lambda>_. Inr p))) of
        Inl ValueError \<Rightarrow> Inl (EvidenceValidationError ''study_map_invalid'')
      | r \<Rightarrow> r)"

section \<open>Requests\<close>

definition MAX_EVIDENCE_SUMMARY_CHARS :: nat where
  "MAX_EVIDENCE_SUMMARY_CHARS = 12000"

record EvidenceSynthesisItem =
  si_evidence_unit_id :: string
  si_source_part_id :: string
  si_content :: string
  si_relative_path :: string
  si_locator :: string

datatype phase = Batch | Final

record StudyMapSynthesisRequest =
  sr_phase :: phase
  sr_workspace_id :: string
  sr_revision_id :: string
  sr_status :: SnapshotStatus
  sr_evidence :: "EvidenceSynthesisItem list"
  sr_drafts :: "string list"
  sr_response_language :: "string option"
  sr_deadline_seconds :: rat

definition synthesis_item :: "EvidenceUnit \<Rightarrow> py_error + EvidenceSynthesisItem" where
  "synthesis_item u =
     (case un_citations u of
        [] \<Rightarrow> Inl IndexError
      | c # _ \<Rightarrow> Inr \<lparr>si_evidence_unit_id = un_evidence_unit_id u, si_source_part_id = un_source_part_id u,
                     si_content = take MAX_EVIDENCE_SUMMARY_CHARS (un_content u),
                     si_relative_path = ct_relative_path c, si_locator = ct_locator c\<rparr>)"

fun synthesis_items :: "EvidenceUnit list \<Rightarrow> py_error + EvidenceSynthesisItem list" where
  "synthesis_items [] = Inr []"
| "synthesis_items (u # us) =
     bind_res (synthesis_item u) (\<lambda>i. bind_res (synthesis_items us) (\<lambda>is. Inr (i # is)))"

definition StudyMapSynthesisRequest_validate :: "StudyMapSynthesisRequest \<Rightarrow> py_error + StudyMapSynthesisRequest" where
  "StudyMapSynthesisRequest_validate q =
     checked (length (sr_evidence q) \<le> 32 \<and> length (sr_drafts q) \<le> 64 \<and>
              (case sr_response_language q of None \<Rightarrow> True | Some l \<Rightarrow> length l \<le> 64) \<and>
              10 \<le> sr_deadline_seconds q \<and> sr_deadline_seconds q \<le> 300) q"

text \<open>\<open>clock\<close> is the reading of the monotonic clock at this call.\<close>

definition synthesis_deadline_seconds :: "EvidencePolicy \<Rightarrow> rat option \<Rightarrow> rat \<Rightarrow> py_error + rat" where
  "synthesis_deadline_seconds pol deadline clock =
     (case deadline of
        None \<Rightarrow> Inr (po_provider_timeout_seconds pol)
      | Some d \<Rightarrow>
          let remaining = d - clock in
          if remaining < 10 then Inl EvidenceSynthesisDeadlineExceeded
          else Inr (min (po_provider_timeout_seconds pol) remaining))"

text \<open>\<open>items[index : index + n]\<close> for every \<open>index\<close> of \<open>range(0, len(items), n)\<close>\<close>

definition batches :: "nat \<Rightarrow> 'a list \<Rightarrow> 'a list list" where
  "batches n xs = map (\<lambda>i. take n (drop (i * n) xs)) [0 ..< (length xs + n - 1) div n]"

section \<open>Synthesis\<close>

text \<open>
  What a builder works with. The synthesizer and the clock are asked once per request, the batch
  requests under their index and the final one under the number of batches; \<open>depth\<close> is the room the
  interpreter's stack has for the graph check and \<open>dump\<close> the canonical JSON of a payload, whose floats
  are not rendered here.
\<close>

record synthesis_env =
  sz_policy :: EvidencePolicy
  sz_loads :: "SynthesisPayload loader"
  sz_depth :: nat
  sz_dump :: "SynthesisPayload \<Rightarrow> string"
  sz_batch_size :: nat
  sz_synthesizer :: "nat \<Rightarrow> StudyMapSynthesisRequest \<Rightarrow> py_error + string option"
  sz_clock :: "nat \<Rightarrow> rat"

record synthesis_job =
  jb_workspace_id :: string
  jb_revision_id :: string
  jb_status :: SnapshotStatus
  jb_response_language :: "string option"
  jb_deadline :: "rat option"

definition synthesis_request ::
  "synthesis_env \<Rightarrow> synthesis_job \<Rightarrow> nat \<Rightarrow> phase \<Rightarrow> EvidenceSynthesisItem list \<Rightarrow> string list \<Rightarrow>
   py_error + StudyMapSynthesisRequest" where
  "synthesis_request env job call p evidence drafts =
     bind_res (synthesis_deadline_seconds (sz_policy env) (jb_deadline job) (sz_clock env call)) (\<lambda>seconds.
       StudyMapSynthesisRequest_validate
         \<lparr>sr_phase = p, sr_workspace_id = jb_workspace_id job, sr_revision_id = jb_revision_id job,
          sr_status = jb_status job, sr_evidence = evidence, sr_drafts = drafts,
          sr_response_language = jb_response_language job, sr_deadline_seconds = seconds\<rparr>)"

definition call_synthesizer :: "synthesis_env \<Rightarrow> nat \<Rightarrow> StudyMapSynthesisRequest \<Rightarrow> py_error + string" where
  "call_synthesizer env call request =
     (case sz_synthesizer env call request of
        Inl (EvidenceValidationError code) \<Rightarrow> Inl (EvidenceValidationError code)
      | Inl _ \<Rightarrow> Inl (EvidenceValidationError ''study_map_provider_failed'')
      | Inr None \<Rightarrow> Inl (EvidenceValidationError ''study_map_invalid'')
      | Inr (Some text) \<Rightarrow>
          if utf8_length text > MAX_PROVIDER_JSON_BYTES then Inl (EvidenceValidationError ''study_map_invalid'')
          else Inr text)"

definition item_ids :: "EvidenceSynthesisItem list \<Rightarrow> string set" where
  "item_ids items = set (map si_evidence_unit_id items)"

definition final_synthesis ::
  "synthesis_env \<Rightarrow> synthesis_job \<Rightarrow> nat \<Rightarrow> EvidenceSynthesisItem list \<Rightarrow> string list \<Rightarrow> string set \<Rightarrow>
   py_error + SynthesisPayload" where
  "final_synthesis env job call evidence drafts allowed =
     bind_res (synthesis_request env job call Final evidence drafts) (\<lambda>request.
     bind_res (call_synthesizer env call request) (\<lambda>text.
       parse_synthesis (sz_loads env) (sz_depth env) text allowed))"

definition synthesize_batch ::
  "synthesis_env \<Rightarrow> synthesis_job \<Rightarrow> nat \<Rightarrow> EvidenceSynthesisItem list \<Rightarrow> py_error + string" where
  "synthesize_batch env job call batch =
     bind_res (synthesis_request env job call Batch batch []) (\<lambda>request.
     bind_res (call_synthesizer env call request) (\<lambda>text.
     bind_res (parse_synthesis (sz_loads env) (sz_depth env) text (item_ids batch)) (\<lambda>payload.
       Inr (sz_dump env payload))))"

text \<open>\<open>executor.map\<close> gives the results in the order of the batches and raises the first exception among them.\<close>

fun synthesize_batches ::
  "synthesis_env \<Rightarrow> synthesis_job \<Rightarrow> nat \<Rightarrow> EvidenceSynthesisItem list list \<Rightarrow> py_error + string list" where
  "synthesize_batches env job call [] = Inr []"
| "synthesize_batches env job call (batch # rest) =
     bind_res (synthesize_batch env job call batch) (\<lambda>draft.
     bind_res (synthesize_batches env job (Suc call) rest) (\<lambda>drafts. Inr (draft # drafts)))"

definition no_evidence_payload :: SynthesisPayload where
  "no_evidence_payload =
     \<lparr>sy_course_groups = [], sy_nodes = [], sy_limitations = [''No source part produced validated evidence.''],
      sy_evidence_unit_ids = []\<rparr>"

definition synthesize :: "synthesis_env \<Rightarrow> synthesis_job \<Rightarrow> EvidenceUnit list \<Rightarrow> py_error + SynthesisPayload" where
  "synthesize env job units =
     (if units = [] then Inr no_evidence_payload
      else bind_res (synthesis_items units) (\<lambda>items.
        let parts = batches (sz_batch_size env) items in
        if length parts = 1 then final_synthesis env job 0 (hd parts) [] (item_ids items)
        else bind_res (synthesize_batches env job 0 parts) (\<lambda>drafts.
          final_synthesis env job (length parts) [] drafts (item_ids items))))"

section \<open>The cycle check is exact\<close>

definition edges :: "graph \<Rightarrow> (string \<times> string) set" where
  "edges g = {(a, b). \<exists>deps. map_of g a = Some deps \<and> b \<in> set deps}"

definition closed_graph :: "graph \<Rightarrow> bool" where
  "closed_graph g \<longleftrightarrow> (\<forall>(a, b) \<in> edges g. b \<in> set (map fst g))"

text \<open>a set of nodes closed under the relation, without a cycle inside\<close>

definition acyclic_below :: "graph \<Rightarrow> string set \<Rightarrow> bool" where
  "acyclic_below g D \<longleftrightarrow> (\<forall>(a, b) \<in> edges g. a \<in> D \<longrightarrow> b \<in> D) \<and> (\<forall>a \<in> D. (a, a) \<notin> (edges g)\<^sup>+)"

lemma acyclic_below_reach: "acyclic_below g D \<Longrightarrow> (a, b) \<in> (edges g)\<^sup>+ \<Longrightarrow> a \<in> D \<Longrightarrow> b \<in> D"
  by (rotate_tac 1, induction rule: trancl_induct) (auto simp: acyclic_below_def)

lemma acyclic_below_insert:
  assumes "acyclic_below g D" "v \<notin> D" "\<And>b. (v, b) \<in> edges g \<Longrightarrow> b \<in> D"
  shows "acyclic_below g (insert v D)"
proof -
  have "(v, v) \<notin> (edges g)\<^sup>+"
  proof
    assume "(v, v) \<in> (edges g)\<^sup>+"
    then obtain b where "(v, b) \<in> edges g" "b = v \<or> (b, v) \<in> (edges g)\<^sup>+" by (metis tranclD rtranclD)
    with assms acyclic_below_reach show False by metis
  qed
  with assms show ?thesis by (auto simp: acyclic_below_def)
qed

text \<open>What a call that returns has done.\<close>

definition visit_result :: "graph \<Rightarrow> string set \<Rightarrow> string set \<Rightarrow> string list \<Rightarrow> string set \<Rightarrow> bool" where
  "visit_result g visiting visited nodes seen \<longleftrightarrow>
     acyclic_below g seen \<and> visited \<union> set nodes \<subseteq> seen \<and> seen \<inter> visiting = {} \<and> seen \<subseteq> visited \<union> set (map fst g)"

lemma visit_sound:
  "visit_node depth g visiting node visited = Inr seen \<Longrightarrow> acyclic_below g visited \<Longrightarrow> visited \<inter> visiting = {} \<Longrightarrow>
   visit_result g visiting visited [node] seen"
  "visit_each depth g visiting nodes visited = Inr seen \<Longrightarrow> acyclic_below g visited \<Longrightarrow> visited \<inter> visiting = {} \<Longrightarrow>
   visit_result g visiting visited nodes seen"
proof (induction depth g visiting node visited and depth g visiting nodes visited
    arbitrary: seen and seen rule: visit_node_visit_each.induct)
  case (2 depth g visiting node visited)
  show ?case
  proof (cases "node \<in> visited")
    case False
    with 2(2) obtain deps seen' where d: "node \<notin> visiting" "map_of g node = Some deps"
      "visit_each depth g (insert node visiting) deps visited = Inr seen'" "seen = insert node seen'"
      by (auto simp: bind_res_Inr_iff split: if_splits option.splits)
    from 2(1) [OF d(1) False d(2,3) 2(3)] False 2(4)
    have r: "visit_result g (insert node visiting) visited deps seen'" by simp
    from d(2) have "b \<in> set deps" if "(node, b) \<in> edges g" for b using that by (auto simp: edges_def)
    with r have "acyclic_below g seen" unfolding d(4) by (intro acyclic_below_insert) (auto simp: visit_result_def)
    moreover from d(2) have "node \<in> fst ` set g" by (force dest: map_of_SomeD)
    ultimately show ?thesis using r d(1,4) by (auto simp: visit_result_def)
  qed (use 2 in \<open>auto simp: visit_result_def split: if_splits\<close>)
next
  case (4 depth g visiting d ds visited)
  from 4(3) obtain mid where m: "visit_node depth g visiting d visited = Inr mid"
    "visit_each depth g visiting ds mid = Inr seen" by (auto simp: bind_res_Inr_iff)
  from 4(1) [OF m(1) 4(4,5)] have v: "visit_result g visiting visited [d] mid" .
  with 4(2) [OF m(2)] have "visit_result g visiting mid ds seen" by (auto simp: visit_result_def)
  with v show ?case by (auto simp: visit_result_def)
qed (auto simp: visit_result_def)

text \<open>With room for every node below it, a call raises only on a cycle.\<close>

definition room :: "nat \<Rightarrow> graph \<Rightarrow> string set \<Rightarrow> bool" where
  "room depth g visiting \<longleftrightarrow>
     finite visiting \<and> visiting \<subseteq> set (map fst g) \<and> card (set (map fst g)) < depth + card visiting"

lemma visit_complete:
  "room depth g visiting \<Longrightarrow> closed_graph g \<Longrightarrow> acyclic (edges g) \<Longrightarrow> node \<in> set (map fst g) \<Longrightarrow>
   (\<forall>s \<in> visiting. (s, node) \<in> (edges g)\<^sup>+) \<Longrightarrow> \<exists>seen. visit_node depth g visiting node visited = Inr seen"
  "room depth g visiting \<Longrightarrow> closed_graph g \<Longrightarrow> acyclic (edges g) \<Longrightarrow> set nodes \<subseteq> set (map fst g) \<Longrightarrow>
   (\<forall>s \<in> visiting. \<forall>v \<in> set nodes. (s, v) \<in> (edges g)\<^sup>+) \<Longrightarrow>
   \<exists>seen. visit_each depth g visiting nodes visited = Inr seen"
proof (induction depth g visiting node visited and depth g visiting nodes visited
    rule: visit_node_visit_each.induct)
  case (1 g visiting node visited)
  then show ?case using card_mono [of "set (map fst g)" visiting] by (simp add: room_def)
next
  case (2 depth g visiting node visited)
  from 2(4,6) have notin: "node \<notin> visiting" by (auto simp: acyclic_def)
  show ?case
  proof (cases "node \<in> visited")
    case False
    from 2(5) obtain deps where deps: "map_of g node = Some deps"
      by (metis domD dom_map_of_conv_image_fst list.set_map)
    have edge: "(node, b) \<in> edges g" if "b \<in> set deps" for b using that deps by (auto simp: edges_def)
    have "room depth g (insert node visiting)" using 2(2,5) notin by (auto simp: room_def)
    moreover have "set deps \<subseteq> set (map fst g)" using 2(3) edge by (fastforce simp: closed_graph_def)
    moreover have "\<forall>s \<in> insert node visiting. \<forall>v \<in> set deps. (s, v) \<in> (edges g)\<^sup>+"
      using 2(6) edge by (auto intro: trancl.intros)
    ultimately have "\<exists>seen. visit_each depth g (insert node visiting) deps visited = Inr seen"
      using 2(1) [OF notin False deps] 2(3,4) by blast
    with notin False deps show ?thesis by auto
  qed (use notin in simp)
next
  case (4 depth g visiting d ds visited)
  then obtain mid where "visit_node depth g visiting d visited = Inr mid" by fastforce
  moreover have "\<exists>seen. visit_each depth g visiting ds mid = Inr seen"
    using 4(2) [of mid] 4(3-) by auto
  ultimately show ?case by auto
qed auto

lemma acyclic_if_acyclic_below:
  assumes "acyclic_below g D" "set (map fst g) \<subseteq> D"
  shows "acyclic (edges g)"
proof (rule acyclicI, rule allI, rule notI)
  fix a assume a: "(a, a) \<in> (edges g)\<^sup>+"
  then obtain b where "(a, b) \<in> edges g" by (meson tranclD)
  then have "a \<in> set (map fst g)" by (force simp: edges_def dest: map_of_SomeD)
  with assms a show False by (auto simp: acyclic_below_def)
qed

lemma reject_graph_cycle_sound:
  assumes "reject_graph_cycle depth g = Inr ()"
  shows "acyclic (edges g)"
proof -
  from assms obtain seen where "visit_each depth g {} (map fst g) {} = Inr seen"
    by (cases "visit_each depth g {} (map fst g) {}") (auto simp: reject_graph_cycle_def)
  from visit_sound(2) [OF this] have "visit_result g {} {} (map fst g) seen" by (simp add: acyclic_below_def)
  then show ?thesis using acyclic_if_acyclic_below by (auto simp: visit_result_def)
qed

lemma reject_graph_cycle_iff:
  assumes "closed_graph g" "length g < depth"
  shows "reject_graph_cycle depth g = Inr () \<longleftrightarrow> acyclic (edges g)"
proof
  assume a: "acyclic (edges g)"
  have "card (set (map fst g)) \<le> length g" by (metis card_length length_map)
  with assms have "room depth g {}" by (simp add: room_def)
  from visit_complete(2) [OF this assms(1) a, of "map fst g" "{}"]
  show "reject_graph_cycle depth g = Inr ()" by (auto simp: reject_graph_cycle_def)
qed (rule reject_graph_cycle_sound)

end
