(* ===== verification/Study_Coverage.thy ===== *)
theory Study_Coverage
  imports Study_Synthesis Evidence_Snapshots
begin

text \<open>
  The coverage ledger of \<^verbatim>\<open>exam_predictor/evidence/study_map.py\<close>: one item per approved manifest entry
  with the states of its parts, the totals, the entries that influenced a snapshot, and the
  conditions on parts and units before a map is published.
\<close>

section \<open>The ledger\<close>

record ApprovedCoverageEntry =
  ap_entry_id :: string
  ap_relative_path :: string
  ap_approved_bytes :: nat
  ap_included :: bool

definition ApprovedCoverageEntry_validate :: "ApprovedCoverageEntry \<Rightarrow> py_error + ApprovedCoverageEntry" where
  "ApprovedCoverageEntry_validate e = checked (ap_included e \<or> ap_approved_bytes e = 0) e"

definition in_states :: "PartState list \<Rightarrow> SourcePartPlan list \<Rightarrow> SourcePartPlan list" where
  "in_states states = filter (\<lambda>p. pl_state p \<in> set states)"

definition PENDING_STATES :: "PartState list" where
  "PENDING_STATES = [PLANNED, AUTHORIZED, PREPARED]"

definition next_action :: "SourcePartPlan list \<Rightarrow> string" where
  "next_action ps =
     (if ps = [] then ''prepare''
      else if in_states [INVALIDATED] ps \<noteq> [] then ''reapprove''
      else if in_states [RETRY_WAIT] ps \<noteq> [] then ''resume''
      else if in_states [RUNNING] ps \<noteq> [] \<or> in_states PENDING_STATES ps \<noteq> [] then ''analyze''
      else if in_states [PartState.FAILED] ps \<noteq> [] then ''retry''
      else ''none'')"

definition current_locator :: "SourcePartPlan list \<Rightarrow> string option" where
  "current_locator ps =
     map_option pl_locator (first_row (in_states [RUNNING] ps @ in_states [INVALIDATED] ps @
       in_states [RETRY_WAIT] ps @ in_states PENDING_STATES ps @ in_states [PartState.FAILED] ps @
       (case rev (in_states [PROCESSED] ps) of [] \<Rightarrow> [] | p # _ \<Rightarrow> [p])))"

text \<open>\<open>latest_error_codes.get(part_id) or safe_error_code\<close>, where it is neither \<open>None\<close> nor empty\<close>

definition failure_code :: "(string \<times> string) list \<Rightarrow> SourcePartPlan \<Rightarrow> string option" where
  "failure_code codes p =
     (case (case map_of codes (pl_part_id p) of
              None \<Rightarrow> pl_safe_error_code p
            | Some c \<Rightarrow> if c = [] then pl_safe_error_code p else Some c) of
        None \<Rightarrow> None
      | Some c \<Rightarrow> if c = [] then None else Some c)"

definition failure_codes :: "(string \<times> string) list \<Rightarrow> SourcePartPlan list \<Rightarrow> string list" where
  "failure_codes codes ps = distinct_firsts (List.map_filter (failure_code codes)
     (in_states [RETRY_WAIT] ps @ in_states [PartState.FAILED] ps))"

definition latest_success :: "(string \<times> int) list \<Rightarrow> SourcePartPlan list \<Rightarrow> int option" where
  "latest_success stamps ps =
     (case List.map_filter (\<lambda>p. map_of stamps (pl_part_id p)) (in_states [PROCESSED] ps) of
        [] \<Rightarrow> None
      | t # ts \<Rightarrow> Some (fold max ts t))"

definition excluded_item :: "ApprovedCoverageEntry \<Rightarrow> CoverageItem" where
  "excluded_item e =
     \<lparr>cv_topic = ap_relative_path e, cv_covered = False, cv_excluded = True, cv_entry_id = Some (ap_entry_id e),
      cv_relative_path = Some (ap_relative_path e), cv_approved_bytes = 0, cv_planned_part_count = 0,
      cv_processed_part_count = 0, cv_running_part_count = 0, cv_pending_part_count = 0,
      cv_retrying_part_count = 0, cv_failed_part_count = 0, cv_invalidated_part_count = 0,
      cv_processed_locators = [], cv_current_locator = None, cv_failure_codes = [],
      cv_last_successful_evidence_at = None, cv_influenced_current_snapshot = False, cv_next_action = ''none''\<rparr>"

definition included_item ::
  "(string \<times> int) list \<Rightarrow> (string \<times> string) list \<Rightarrow> SourcePartPlan list \<Rightarrow> ApprovedCoverageEntry \<Rightarrow> CoverageItem" where
  "included_item stamps codes ps e =
     \<lparr>cv_topic = ap_relative_path e,
      cv_covered = (ps \<noteq> [] \<and> length (in_states [PROCESSED] ps) = length ps),
      cv_excluded = False, cv_entry_id = Some (ap_entry_id e), cv_relative_path = Some (ap_relative_path e),
      cv_approved_bytes = ap_approved_bytes e, cv_planned_part_count = length ps,
      cv_processed_part_count = length (in_states [PROCESSED] ps),
      cv_running_part_count = length (in_states [RUNNING] ps),
      cv_pending_part_count = length (in_states PENDING_STATES ps),
      cv_retrying_part_count = length (in_states [RETRY_WAIT] ps),
      cv_failed_part_count = length (in_states [PartState.FAILED] ps),
      cv_invalidated_part_count = length (in_states [INVALIDATED] ps),
      cv_processed_locators = map pl_locator (in_states [PROCESSED] ps),
      cv_current_locator = current_locator ps, cv_failure_codes = failure_codes codes ps,
      cv_last_successful_evidence_at = latest_success stamps ps,
      cv_influenced_current_snapshot = False, cv_next_action = next_action ps\<rparr>"

definition parts_of_entry :: "SourcePartPlan list \<Rightarrow> ApprovedCoverageEntry \<Rightarrow> SourcePartPlan list" where
  "parts_of_entry parts e = filter (\<lambda>p. pl_entry_id p = ap_entry_id e) parts"

definition coverage_item ::
  "SourcePartPlan list \<Rightarrow> (string \<times> int) list \<Rightarrow> (string \<times> string) list \<Rightarrow> ApprovedCoverageEntry \<Rightarrow>
   py_error + CoverageItem" where
  "coverage_item parts stamps codes e =
     CoverageItem_validate (if ap_included e then included_item stamps codes (parts_of_entry parts e) e
                            else excluded_item e)"

fun coverage_items ::
  "SourcePartPlan list \<Rightarrow> (string \<times> int) list \<Rightarrow> (string \<times> string) list \<Rightarrow> ApprovedCoverageEntry list \<Rightarrow>
   py_error + CoverageItem list" where
  "coverage_items parts stamps codes [] = Inr []"
| "coverage_items parts stamps codes (e # es) =
     bind_res (coverage_item parts stamps codes e) (\<lambda>i.
     bind_res (coverage_items parts stamps codes es) (\<lambda>is. Inr (i # is)))"

definition summary_of_items :: "CoverageItem list \<Rightarrow> CoverageSummary" where
  "summary_of_items items =
     \<lparr>cs_items = items, cs_covered_count = length (filter cv_covered items), cs_total_count = length items,
      cs_excluded_count = length (filter cv_excluded items),
      cs_approved_bytes = sum_list (map cv_approved_bytes items),
      cs_part_total_count = sum_list (map cv_planned_part_count items),
      cs_part_processed_count = sum_list (map cv_processed_part_count items),
      cs_part_running_count = sum_list (map cv_running_part_count items),
      cs_part_pending_count = sum_list (map cv_pending_part_count items),
      cs_part_retrying_count = sum_list (map cv_retrying_part_count items),
      cs_part_failed_count = sum_list (map cv_failed_part_count items),
      cs_part_invalidated_count = sum_list (map cv_invalidated_part_count items)\<rparr>"

definition part_coverage ::
  "SourcePartPlan list \<Rightarrow> ApprovedCoverageEntry list \<Rightarrow> (string \<times> int) list \<Rightarrow> (string \<times> string) list \<Rightarrow>
   py_error + CoverageSummary" where
  "part_coverage parts entries stamps codes =
     (if \<not> distinct (map ap_entry_id entries) \<or>
         list_ex (\<lambda>p. pl_entry_id p \<notin> set (map ap_entry_id entries)) parts \<or>
         list_ex (\<lambda>p. pl_entry_id p \<in> set (map ap_entry_id (filter (\<lambda>e. \<not> ap_included e) entries))) parts
      then Inl (EvidenceValidationError ''study_map_invalid'')
      else bind_res (coverage_items parts stamps codes entries) (\<lambda>items.
             CoverageSummary_validate (summary_of_items items)))"

section \<open>Influence\<close>

definition with_influence :: "(CoverageItem \<Rightarrow> bool) \<Rightarrow> CoverageSummary \<Rightarrow> CoverageSummary" where
  "with_influence f s =
     s\<lparr>cs_items := map (\<lambda>i. i\<lparr>cv_influenced_current_snapshot := f i\<rparr>) (cs_items s)\<rparr>"

text \<open>the entry a cited unit comes from; of two equal keys a dict keeps the last value\<close>

definition influenced_entry :: "SourcePartPlan list \<Rightarrow> EvidenceUnit list \<Rightarrow> string \<Rightarrow> string option" where
  "influenced_entry parts units unit_id =
     Option.bind (map_of (rev (map (\<lambda>u. (un_evidence_unit_id u, un_source_part_id u)) units)) unit_id)
       (map_of (rev (map (\<lambda>p. (pl_part_id p, pl_entry_id p)) parts)))"

definition mark_snapshot_influence ::
  "CoverageSummary \<Rightarrow> SourcePartPlan list \<Rightarrow> EvidenceUnit list \<Rightarrow> SynthesisPayload \<Rightarrow> CoverageSummary" where
  "mark_snapshot_influence s parts units payload =
     (let influenced = List.map_filter (influenced_entry parts units) (sy_evidence_unit_ids payload) in
      with_influence (\<lambda>i. case cv_entry_id i of None \<Rightarrow> False | Some e \<Rightarrow> e \<in> set influenced) s)"

definition coverage_without_influence :: "CoverageSummary \<Rightarrow> CoverageSummary" where
  "coverage_without_influence = with_influence (\<lambda>_. False)"

section \<open>Conditions on parts and units\<close>

definition high_priority_ready :: "SourcePartPlan list \<Rightarrow> bool" where
  "high_priority_ready parts =
     (let high_priority = filter (\<lambda>p. pl_priority p \<le> 1) parts in
      list_ex (\<lambda>p. pl_state p = PROCESSED) (if high_priority = [] then parts else high_priority))"

definition require_one_unit_per_processed_part ::
  "SourcePartPlan list \<Rightarrow> EvidenceUnit list \<Rightarrow> py_error + unit" where
  "require_one_unit_per_processed_part parts units =
     (let processed = set (map pl_part_id (in_states [PROCESSED] parts));
          unit_parts = map un_source_part_id units in
      if \<not> distinct unit_parts \<or> set unit_parts \<noteq> processed
      then Inl (EvidenceValidationError ''study_map_invalid'') else Inr ())"

definition item_unfinished :: "CoverageItem \<Rightarrow> bool" where
  "item_unfinished i \<longleftrightarrow> \<not> cv_excluded i \<and>
     (cv_planned_part_count i = 0 \<or> cv_pending_part_count i > 0 \<or> cv_retrying_part_count i > 0 \<or>
      cv_invalidated_part_count i > 0 \<or>
      cv_processed_part_count i + cv_failed_part_count i \<noteq> cv_planned_part_count i)"

section \<open>The totals are those of the parts\<close>

lemma sum_indicator:
  "distinct (map f xs) \<Longrightarrow> sum_list (map (\<lambda>e. if x = f e then 1 else 0 :: nat) xs) = (if x \<in> f ` set xs then 1 else 0)"
  by (induction xs) auto

lemma sum_over_entries:
  assumes "distinct (map ap_entry_id entries)" "\<forall>p \<in> set parts. pl_entry_id p \<in> set (map ap_entry_id entries)"
  shows "sum_list (map (\<lambda>e. length (filter P (parts_of_entry parts e))) entries) = length (filter P parts)"
  using assms(2)
proof (induction parts)
  case (Cons p ps)
  have one: "sum_list (map (\<lambda>e. if pl_entry_id p = ap_entry_id e then 1 else 0 :: nat) entries) = 1"
    using sum_indicator [OF assms(1), of "pl_entry_id p"] Cons.prems by simp
  have "sum_list (map (\<lambda>e. length (filter P (parts_of_entry (p # ps) e))) entries) =
    (if P p then sum_list (map (\<lambda>e. if pl_entry_id p = ap_entry_id e then 1 else 0 :: nat) entries) else 0) +
    sum_list (map (\<lambda>e. length (filter P (parts_of_entry ps e))) entries)"
    by (induction entries) (auto simp: parts_of_entry_def)
  with one Cons show ?case by simp
qed (simp add: parts_of_entry_def)

lemma coverage_item_counts:
  assumes "coverage_item parts stamps codes e = Inr i"
    "\<not> ap_included e \<longrightarrow> parts_of_entry parts e = []"
  shows "cv_planned_part_count i = length (filter (\<lambda>_. True) (parts_of_entry parts e))"
    "cv_processed_part_count i = length (in_states [PROCESSED] (parts_of_entry parts e))"
    "cv_running_part_count i = length (in_states [RUNNING] (parts_of_entry parts e))"
    "cv_pending_part_count i = length (in_states PENDING_STATES (parts_of_entry parts e))"
    "cv_retrying_part_count i = length (in_states [RETRY_WAIT] (parts_of_entry parts e))"
    "cv_failed_part_count i = length (in_states [PartState.FAILED] (parts_of_entry parts e))"
    "cv_invalidated_part_count i = length (in_states [INVALIDATED] (parts_of_entry parts e))"
    "cv_excluded i \<longleftrightarrow> \<not> ap_included e" "cv_entry_id i = Some (ap_entry_id e)"
    "cv_covered i \<longleftrightarrow> ap_included e \<and> parts_of_entry parts e \<noteq> [] \<and>
       list_all (\<lambda>p. pl_state p = PROCESSED) (parts_of_entry parts e)"
  using assms
  by (auto simp: coverage_item_def CoverageItem_validate_def bind_res_Inr_iff Let_def included_item_def
      excluded_item_def in_states_def list_all_iff split: if_splits
      dest: length_filter_less [of _ _ "\<lambda>p. pl_state p = PROCESSED"])

lemma coverage_items_all2:
  "coverage_items parts stamps codes es = Inr is \<Longrightarrow>
   list_all2 (\<lambda>e i. coverage_item parts stamps codes e = Inr i) es is"
  by (induction es arbitrary: "is") (auto simp: bind_res_Inr_iff)

lemma sum_items:
  assumes "list_all2 R es is" "\<And>e i. R e i \<Longrightarrow> e \<in> set es \<Longrightarrow> f i = g e"
  shows "sum_list (map f is) = sum_list (map g es)"
  using assms by (induction rule: list_all2_induct) auto

lemma part_coverage_cases:
  assumes "part_coverage parts entries stamps codes = Inr s"
  obtains items where "s = summary_of_items items" "distinct (map ap_entry_id entries)"
    "\<forall>p \<in> set parts. pl_entry_id p \<in> set (map ap_entry_id entries)"
    "list_all2 (\<lambda>e i. coverage_item parts stamps codes e = Inr i) entries items"
    "\<forall>e \<in> set entries. \<not> ap_included e \<longrightarrow> parts_of_entry parts e = []"
proof -
  from assms obtain items where i: "coverage_items parts stamps codes entries = Inr items"
    "s = summary_of_items items"
    and g: "distinct (map ap_entry_id entries)" "\<forall>p \<in> set parts. pl_entry_id p \<in> set (map ap_entry_id entries)"
      "\<not> list_ex (\<lambda>p. pl_entry_id p \<in> set (map ap_entry_id (filter (\<lambda>e. \<not> ap_included e) entries))) parts"
    by (auto simp: part_coverage_def bind_res_Inr_iff CoverageSummary_validate_def Let_def list_ex_iff split: if_splits)
  from g(3) have "\<forall>e \<in> set entries. \<not> ap_included e \<longrightarrow> parts_of_entry parts e = []"
    by (auto simp: list_ex_iff parts_of_entry_def filter_empty_conv)
  with that i(2) g(1,2) coverage_items_all2 [OF i(1)] show ?thesis by blast
qed

lemma total_of_states:
  assumes "distinct (map ap_entry_id entries)" "\<forall>p \<in> set parts. pl_entry_id p \<in> set (map ap_entry_id entries)"
  shows "sum_list (map (\<lambda>e. length (in_states states (parts_of_entry parts e))) entries) =
    length (in_states states parts)"
  unfolding in_states_def by (rule sum_over_entries [OF assms])

text \<open>the totals of the ledger, part state by part state\<close>

definition ledger_exact :: "SourcePartPlan list \<Rightarrow> ApprovedCoverageEntry list \<Rightarrow> CoverageSummary \<Rightarrow> bool" where
  "ledger_exact parts entries s \<longleftrightarrow>
     cs_total_count s = length entries \<and>
     cs_excluded_count s = length (filter (\<lambda>e. \<not> ap_included e) entries) \<and>
     cs_covered_count s = length (filter (\<lambda>e. ap_included e \<and> parts_of_entry parts e \<noteq> [] \<and>
       list_all (\<lambda>p. pl_state p = PROCESSED) (parts_of_entry parts e)) entries) \<and>
     cs_part_total_count s = length parts \<and>
     cs_part_processed_count s = length (in_states [PROCESSED] parts) \<and>
     cs_part_running_count s = length (in_states [RUNNING] parts) \<and>
     cs_part_pending_count s = length (in_states PENDING_STATES parts) \<and>
     cs_part_retrying_count s = length (in_states [RETRY_WAIT] parts) \<and>
     cs_part_failed_count s = length (in_states [PartState.FAILED] parts) \<and>
     cs_part_invalidated_count s = length (in_states [INVALIDATED] parts)"

lemma part_coverage_exact:
  assumes "part_coverage parts entries stamps codes = Inr s"
  shows "ledger_exact parts entries s"
proof -
  from assms obtain items where s: "s = summary_of_items items" and d: "distinct (map ap_entry_id entries)"
    "\<forall>p \<in> set parts. pl_entry_id p \<in> set (map ap_entry_id entries)"
    and r: "list_all2 (\<lambda>e i. coverage_item parts stamps codes e = Inr i) entries items"
    and x: "\<forall>e \<in> set entries. \<not> ap_included e \<longrightarrow> parts_of_entry parts e = []"
    by (rule part_coverage_cases)
  have filt: "length (filter Q items) = length (filter P entries)"
    if "\<And>e i. coverage_item parts stamps codes e = Inr i \<Longrightarrow> e \<in> set entries \<Longrightarrow> Q i = P e" for Q P
    using r that by (induction rule: list_all2_induct) auto
  note item = coverage_item_counts [OF _ bspec [OF x]]
  note sums = sum_items [OF r] total_of_states [OF d] sum_over_entries [OF d]
  have "length items = length entries" using r by (simp add: list_all2_lengthD)
  moreover have "length (filter cv_excluded items) = length (filter (\<lambda>e. \<not> ap_included e) entries)"
    by (rule filt) (rule item(8))
  moreover have "length (filter cv_covered items) = length (filter (\<lambda>e. ap_included e \<and>
      parts_of_entry parts e \<noteq> [] \<and> list_all (\<lambda>p. pl_state p = PROCESSED) (parts_of_entry parts e)) entries)"
    by (rule filt) (rule item(10))
  moreover have "sum_list (map cv_planned_part_count items) = length parts"
    using sums(1) [OF item(1)] sums(3) [of "\<lambda>_. True"] by simp
  moreover have "sum_list (map cv_processed_part_count items) = length (in_states [PROCESSED] parts)"
    using sums(1) [OF item(2)] sums(2) by simp
  moreover have "sum_list (map cv_running_part_count items) = length (in_states [RUNNING] parts)"
    using sums(1) [OF item(3)] sums(2) by simp
  moreover have "sum_list (map cv_pending_part_count items) = length (in_states PENDING_STATES parts)"
    using sums(1) [OF item(4)] sums(2) by simp
  moreover have "sum_list (map cv_retrying_part_count items) = length (in_states [RETRY_WAIT] parts)"
    using sums(1) [OF item(5)] sums(2) by simp
  moreover have "sum_list (map cv_failed_part_count items) = length (in_states [PartState.FAILED] parts)"
    using sums(1) [OF item(6)] sums(2) by simp
  moreover have "sum_list (map cv_invalidated_part_count items) = length (in_states [INVALIDATED] parts)"
    using sums(1) [OF item(7)] sums(2) by simp
  ultimately show ?thesis by (simp add: ledger_exact_def s summary_of_items_def)
qed

end
