(* ===== verification/Study_Publication.thy ===== *)
theory Study_Publication
  imports Study_Coverage
begin

text \<open>
  \<open>StudyMapBuilder\<close> of \<^verbatim>\<open>exam_predictor/evidence/study_map.py\<close>: snapshots are synthesized from the
  processed units of a revision, saved in the store, published as artifacts, and withdrawn again when
  a step after the save fails. Every call of the store or of the artifacts has an index; before a
  store call other threads may change the database (\<open>st_others\<close>), and an artifact call returns or
  raises as \<open>st_artifact\<close> says.
\<close>

section \<open>State and environment\<close>

datatype artifact_call = Publish_json string string | Revoke_json string string

record study_world =
  sw_db :: evidence_db
  sw_calls :: nat
  sw_artifacts :: "(artifact_call \<times> bool) list"

text \<open>a guard given by the caller: what entering and leaving its context raises\<close>

record publication_guard =
  pg_enter :: "nat \<Rightarrow> py_error option"
  pg_exit :: "nat \<Rightarrow> py_error option"

text \<open>\<open>st_identity\<close> is the SHA-256 of the canonical JSON of a snapshot without identity and time.\<close>

record study_env =
  st_sha256 :: "string \<Rightarrow> string"
  st_synthesis :: synthesis_env
  st_coverage_source :: "nat \<Rightarrow> string \<Rightarrow> string \<Rightarrow> py_error + ApprovedCoverageEntry list"
  st_now :: "nat \<Rightarrow> int"
  st_identity :: "StudyMapSnapshot \<Rightarrow> string"
  st_others :: "nat \<Rightarrow> evidence_db \<Rightarrow> evidence_db"
  st_artifact :: "nat \<Rightarrow> artifact_call \<Rightarrow> py_error option"

type_synonym 'a study = "(study_world, 'a) action"

definition outside :: "(nat \<Rightarrow> py_error + 'a) \<Rightarrow> 'a study" where
  "outside f w = (w\<lparr>sw_calls := Suc (sw_calls w)\<rparr>, f (sw_calls w))"

definition store_call :: "study_env \<Rightarrow> (evidence_db \<Rightarrow> py_error + 'a \<times> evidence_db) \<Rightarrow> 'a study" where
  "store_call env f w =
     (let db = st_others env (sw_calls w) (sw_db w); w' = w\<lparr>sw_db := db, sw_calls := Suc (sw_calls w)\<rparr> in
      case f db of Inl e \<Rightarrow> (w', Inl e) | Inr (a, db') \<Rightarrow> (w'\<lparr>sw_db := db'\<rparr>, Inr a))"

definition store_read :: "study_env \<Rightarrow> (evidence_db \<Rightarrow> 'a) \<Rightarrow> 'a study" where
  "store_read env f = store_call env (\<lambda>db. Inr (f db, db))"

definition store_write :: "study_env \<Rightarrow> (evidence_db \<Rightarrow> 'a \<times> evidence_db) \<Rightarrow> 'a study" where
  "store_write env f = store_call env (\<lambda>db. Inr (f db))"

definition artifact :: "study_env \<Rightarrow> artifact_call \<Rightarrow> unit study" where
  "artifact env call w =
     (let r = st_artifact env (sw_calls w) call in
      (w\<lparr>sw_calls := Suc (sw_calls w), sw_artifacts := sw_artifacts w @ [(call, r = None)]\<rparr>,
       case r of None \<Rightarrow> Inr () | Some e \<Rightarrow> Inl e))"

definition raised :: "py_error option \<Rightarrow> py_error + unit" where
  "raised r = (case r of None \<Rightarrow> Inr () | Some e \<Rightarrow> Inl e)"

text \<open>\<open>with self._publication_context(guard): ..\<close>; a guard does not swallow exceptions\<close>

definition publication_context :: "publication_guard option \<Rightarrow> 'a study \<Rightarrow> 'a study" where
  "publication_context guard body =
     (case guard of
        None \<Rightarrow> body
      | Some g \<Rightarrow>
          seqA (outside (\<lambda>k. raised (pg_enter g k)))
            (bindA (tryA body) (\<lambda>r. seqA (outside (\<lambda>k. raised (pg_exit g k))) (resultA (\<lambda>_. r)))))"

section \<open>Artifacts and revocations\<close>

definition ensure_snapshot_artifact :: "study_env \<Rightarrow> StudyMapSnapshot \<Rightarrow> unit study" where
  "ensure_snapshot_artifact env s =
     bindA (store_read env (snapshot_is_revoked (sn_workspace_id s) (sn_snapshot_id s))) (\<lambda>revoked.
       if revoked then raiseA ValueError
       else artifact env (Publish_json (sn_workspace_id s) (sn_snapshot_id s)))"

definition revoke_snapshot_artifact :: "study_env \<Rightarrow> string \<Rightarrow> string \<Rightarrow> unit study" where
  "revoke_snapshot_artifact env workspace_id snapshot_id = artifact env (Revoke_json workspace_id snapshot_id)"

fun revoke_all :: "study_env \<Rightarrow> string \<Rightarrow> string list \<Rightarrow> unit study" where
  "revoke_all env workspace_id [] = returnA ()"
| "revoke_all env workspace_id (i # is) =
     seqA (revoke_snapshot_artifact env workspace_id i)
       (bindA (outside (\<lambda>k. Inr (st_now env k))) (\<lambda>now.
        seqA (store_write env (\<lambda>db. ((), complete_snapshot_revocation now workspace_id i db)))
          (revoke_all env workspace_id is)))"

definition recover_snapshot_revocations :: "study_env \<Rightarrow> string \<Rightarrow> string list study" where
  "recover_snapshot_revocations env workspace_id =
     bindA (store_read env (pending_snapshot_revocations workspace_id)) (\<lambda>pending.
     bindA (store_read env (snapshot_revocations workspace_id)) (\<lambda>ids.
       seqA (revoke_all env workspace_id ids) (returnA (filter (\<lambda>i. i \<in> set pending) ids))))"

definition study_invalidate_entry :: "study_env \<Rightarrow> string \<Rightarrow> string \<Rightarrow> string \<Rightarrow> string list study" where
  "study_invalidate_entry env workspace_id revision_id entry_id =
     bindA (outside (\<lambda>k. Inr (st_now env k))) (\<lambda>now.
     bindA (store_write env (invalidate_entry_with_revocations now workspace_id revision_id entry_id)) (\<lambda>result.
       seqA (recover_snapshot_revocations env workspace_id) (returnA (fst result))))"

section \<open>Publication\<close>

definition study_coverage :: "study_env \<Rightarrow> string \<Rightarrow> string \<Rightarrow> SourcePartPlan list \<Rightarrow> CoverageSummary study" where
  "study_coverage env workspace_id revision_id parts =
     bindA (outside (\<lambda>k. st_coverage_source env k workspace_id revision_id)) (\<lambda>entries.
     bindA (store_read env (latest_evidence_times workspace_id revision_id)) (\<lambda>stamps.
     bindA (store_read env (latest_part_error_codes workspace_id revision_id)) (\<lambda>codes.
       resultA (\<lambda>_. part_coverage parts entries stamps codes))))"

definition builder_coverage :: "study_env \<Rightarrow> string \<Rightarrow> string \<Rightarrow> CoverageSummary study" where
  "builder_coverage env workspace_id revision_id =
     bindA (store_read env (list_parts workspace_id revision_id)) (study_coverage env workspace_id revision_id)"

definition cited_unit :: "EvidenceUnit list \<Rightarrow> string \<Rightarrow> EvidenceUnit option" where
  "cited_unit units = map_of (rev (map (\<lambda>u. (un_evidence_unit_id u, u)) units))"

fun citations_of :: "EvidenceUnit list \<Rightarrow> string list \<Rightarrow> py_error + EvidenceCitation list" where
  "citations_of units [] = Inr []"
| "citations_of units (i # is) =
     (case cited_unit units i of
        None \<Rightarrow> Inl KeyError
      | Some u \<Rightarrow> bind_res (citations_of units is) (\<lambda>cs. Inr (un_citations u @ cs)))"

definition draft_snapshot ::
  "synthesis_job \<Rightarrow> CoverageSummary \<Rightarrow> SynthesisPayload \<Rightarrow> EvidenceCitation list \<Rightarrow> string option \<Rightarrow> StudyMapSnapshot" where
  "draft_snapshot job summary payload citations superseded =
     \<lparr>sn_snapshot_id = [], sn_workspace_id = jb_workspace_id job, sn_revision_id = jb_revision_id job,
      sn_status = jb_status job, sn_nodes = sy_nodes payload, sn_coverage = Some summary,
      sn_evidence_unit_ids = sort (sy_evidence_unit_ids payload), sn_created_at = 0,
      sn_course_groups = sy_course_groups payload, sn_limitations = sy_limitations payload,
      sn_citations = citations, sn_response_language = jb_response_language job,
      sn_superseded_snapshot_id = superseded\<rparr>"

definition build_snapshot ::
  "study_env \<Rightarrow> synthesis_job \<Rightarrow> CoverageSummary \<Rightarrow> EvidenceUnit list \<Rightarrow> SourcePartPlan list \<Rightarrow> string option \<Rightarrow>
   SynthesisPayload \<Rightarrow> int \<Rightarrow> py_error + StudyMapSnapshot" where
  "build_snapshot env job summary units parts superseded payload created_at =
     bind_res (citations_of units (sort (sy_evidence_unit_ids payload))) (\<lambda>citations.
       let draft = draft_snapshot job (mark_snapshot_influence summary parts units payload) payload citations superseded in
       StudyMapSnapshot_validate
         (draft\<lparr>sn_snapshot_id := ''snapshot_'' @ st_identity env draft, sn_created_at := created_at\<rparr>))"

definition withdraw :: "study_env \<Rightarrow> StudyMapSnapshot \<Rightarrow> unit study" where
  "withdraw env s = store_write env (\<lambda>db. ((), delete_snapshot (sn_snapshot_id s) db))"

text \<open>the revision is no longer current, or the snapshot has been removed\<close>

definition publication_lost :: "study_env \<Rightarrow> StudyMapSnapshot \<Rightarrow> bool study" where
  "publication_lost env s =
     bindA (store_read env (is_current_revision (st_sha256 env) (sn_workspace_id s) (sn_revision_id s))) (\<lambda>current.
       if \<not> current then returnA True else store_read env (\<lambda>db. get_snapshot (sn_snapshot_id s) db = None))"

definition confirm_publication :: "study_env \<Rightarrow> StudyMapSnapshot \<Rightarrow> StudyMapSnapshot \<Rightarrow> StudyMapSnapshot study" where
  "confirm_publication env s persisted =
     bindA (publication_lost env s) (\<lambda>lost.
       if lost then seqA (revoke_snapshot_artifact env (sn_workspace_id s) (sn_snapshot_id s))
                      (seqA (withdraw env s) (raiseA ValueError))
       else returnA persisted)"

definition discard_inserted :: "study_env \<Rightarrow> StudyMapSnapshot \<Rightarrow> unit study" where
  "discard_inserted env s =
     bindA (tryA (revoke_snapshot_artifact env (sn_workspace_id s) (sn_snapshot_id s))) (\<lambda>_. withdraw env s)"

definition publish_snapshot :: "study_env \<Rightarrow> StudyMapSnapshot \<Rightarrow> StudyMapSnapshot study" where
  "publish_snapshot env s =
     bindA (store_call env (save_snapshot (st_sha256 env) s)) (\<lambda>inserted.
     bindA (if inserted then returnA (Some s) else store_read env (get_snapshot (sn_snapshot_id s))) (\<lambda>found.
       case found of
         None \<Rightarrow> raiseA (EvidenceValidationError ''study_map_invalid'')
       | Some persisted \<Rightarrow>
           bindA (tryA (ensure_snapshot_artifact env persisted)) (\<lambda>outcome.
             case outcome of
               Inl e \<Rightarrow> seqA (if inserted then discard_inserted env s else returnA ()) (raiseA e)
             | Inr _ \<Rightarrow> confirm_publication env s persisted)))"

definition publish_map ::
  "study_env \<Rightarrow> synthesis_job \<Rightarrow> CoverageSummary \<Rightarrow> EvidenceUnit list \<Rightarrow> SourcePartPlan list \<Rightarrow> string option \<Rightarrow>
   publication_guard option \<Rightarrow> publication_guard option \<Rightarrow> StudyMapSnapshot study" where
  "publish_map env job summary units parts superseded publication_guard synthesis_guard =
     bindA (publication_context synthesis_guard (resultA (\<lambda>_. synthesize (st_synthesis env) job units))) (\<lambda>payload.
     bindA (outside (\<lambda>k. Inr (st_now env k))) (\<lambda>created_at.
     bindA (resultA (\<lambda>_. build_snapshot env job summary units parts superseded payload created_at)) (\<lambda>s.
       publication_context publication_guard (publish_snapshot env s))))"

text \<open>a snapshot that is already there is returned once its artifact is\<close>

definition return_current ::
  "study_env \<Rightarrow> publication_guard option \<Rightarrow> StudyMapSnapshot \<Rightarrow> StudyMapSnapshot option study" where
  "return_current env guard s = seqA (publication_context guard (ensure_snapshot_artifact env s)) (returnA (Some s))"

definition publish_initial ::
  "study_env \<Rightarrow> synthesis_job \<Rightarrow> publication_guard option \<Rightarrow> publication_guard option \<Rightarrow> StudyMapSnapshot option study" where
  "publish_initial env job publication_guard synthesis_guard =
     (let w = jb_workspace_id job; r = jb_revision_id job in
      bindA (store_read env (is_current_revision (st_sha256 env) w r)) (\<lambda>is_current.
      if \<not> is_current then returnA None else
      seqA (recover_snapshot_revocations env w) (
      bindA (store_read env (current_snapshot w r)) (\<lambda>current.
      case current of
        Some s \<Rightarrow> return_current env publication_guard s
      | None \<Rightarrow>
      bindA (store_read env (list_parts w r)) (\<lambda>parts.
      if parts = [] then returnA None else
      bindA (study_coverage env w r parts) (\<lambda>summary.
      if \<not> is_partial summary \<or> \<not> high_priority_ready parts then returnA None else
      bindA (store_read env (list_evidence_units w r)) (\<lambda>units.
      if units = [] then returnA None else
      seqA (resultA (\<lambda>_. require_one_unit_per_processed_part parts units)) (
      bindA (publish_map env (job\<lparr>jb_status := INITIAL\<rparr>) summary units parts None publication_guard synthesis_guard)
        (\<lambda>s. returnA (Some s))))))))))"

text \<open>the complete map in the store is the one this call would build again\<close>

definition up_to_date ::
  "StudyMapSnapshot option \<Rightarrow> CoverageSummary \<Rightarrow> EvidenceUnit list \<Rightarrow> string option \<Rightarrow> bool" where
  "up_to_date current summary units response_language =
     (case current of
        None \<Rightarrow> False
      | Some s \<Rightarrow>
          sn_status s = COMPLETE \<and>
          (case sn_coverage s of
             None \<Rightarrow> False
           | Some c \<Rightarrow> coverage_without_influence c = coverage_without_influence summary) \<and>
          sn_evidence_unit_ids s = sort (map un_evidence_unit_id units) \<and>
          (response_language = None \<or> sn_response_language s = response_language))"

definition publish_complete ::
  "study_env \<Rightarrow> synthesis_job \<Rightarrow> publication_guard option \<Rightarrow> publication_guard option \<Rightarrow> StudyMapSnapshot option study" where
  "publish_complete env job publication_guard synthesis_guard =
     (let w = jb_workspace_id job; r = jb_revision_id job in
      bindA (store_read env (is_current_revision (st_sha256 env) w r)) (\<lambda>is_current.
      if \<not> is_current then returnA None else
      seqA (recover_snapshot_revocations env w) (
      bindA (store_read env (current_snapshot w r)) (\<lambda>current.
      bindA (store_read env (list_parts w r)) (\<lambda>parts.
      if parts = [] \<or> list_ex (\<lambda>p. pl_state p \<noteq> PROCESSED \<and> pl_state p \<noteq> PartState.FAILED) parts then returnA None else
      bindA (store_read env (list_evidence_units w r)) (\<lambda>units.
      seqA (resultA (\<lambda>_. require_one_unit_per_processed_part parts units)) (
      bindA (study_coverage env w r parts) (\<lambda>summary.
      if list_ex item_unfinished (cs_items summary) then returnA None else
      if up_to_date current summary units (jb_response_language job)
      then return_current env publication_guard (the current)
      else bindA (publish_map env (job\<lparr>jb_status := COMPLETE\<rparr>) summary units parts
             (map_option sn_snapshot_id current) publication_guard synthesis_guard)
        (\<lambda>s. returnA (Some s))))))))))"

section \<open>Answers\<close>

record EvidenceAnswerContext =
  ax_snapshot :: StudyMapSnapshot
  ax_evidence_units :: "EvidenceUnit list"
  ax_limitations :: "string list"

definition UNCOVERED_LIMITATION :: string where
  "UNCOVERED_LIMITATION = ''The current map does not contain validated evidence for every planned source part.''"

definition OMITTED_LIMITATION :: string where
  "OMITTED_LIMITATION = ''Additional cited evidence was omitted from this bounded answer context.''"

definition bounded_context :: "int \<Rightarrow> StudyMapSnapshot \<times> EvidenceUnit list \<Rightarrow> EvidenceAnswerContext" where
  "bounded_context max_units c =
     (case c of (s, units) \<Rightarrow>
       \<lparr>ax_snapshot = s, ax_evidence_units = take (nat max_units) units,
        ax_limitations = distinct_firsts (sn_limitations s @
          (case sn_coverage s of None \<Rightarrow> [] | Some v \<Rightarrow>
             if int (cs_covered_count v) < included_count v then [UNCOVERED_LIMITATION] else []) @
          (if int (length (sn_evidence_unit_ids s)) > max_units then [OMITTED_LIMITATION] else []))\<rparr>)"

definition answer_context ::
  "study_env \<Rightarrow> string \<Rightarrow> string \<Rightarrow> int \<Rightarrow> EvidenceAnswerContext option study" where
  "answer_context env workspace_id revision_id max_units =
     (if \<not> (1 \<le> max_units \<and> max_units \<le> 64) then raiseA ValueError
      else bindA (store_read env (is_current_revision (st_sha256 env) workspace_id revision_id)) (\<lambda>current.
        if \<not> current then returnA None
        else bindA (store_read env (current_snapshot_context (st_sha256 env) workspace_id revision_id)) (\<lambda>c.
          returnA (map_option (bounded_context max_units) c))))"

end
