(* ===== verification/Study_Lemmas.thy ===== *)
theory Study_Lemmas
  imports Study_Publication
begin

text \<open>
  What the study map rests on: the text of a string inside a JSON document, the LaTeX that the pattern
  for network paths takes for one, what an accepted synthesis satisfies, the limit on drafts, and what
  store and artifact calls leave behind when a publication fails.
\<close>

section \<open>Strings inside JSON texts\<close>

fun occurs :: "string \<Rightarrow> pyval \<Rightarrow> bool" where
  "occurs s (VStr t) \<longleftrightarrow> s = t"
| "occurs s (VList vs) \<longleftrightarrow> list_ex (occurs s) vs"
| "occurs s (VDict kvs) \<longleftrightarrow> list_ex (\<lambda>kv. occurs s (snd kv)) kvs"
| "occurs s _ \<longleftrightarrow> False"

lemma join_part: "x \<in> set xs \<Longrightarrow> \<exists>a b. join_with c xs = a @ x @ b"
proof (induction c xs rule: join_with.induct)
  case (3 c y z zs)
  show ?case
  proof (cases "x = y")
    case True
    have "join_with c (y # z # zs) = [] @ y @ c # join_with c (z # zs)" by simp
    with True show ?thesis by blast
  next
    case False
    with 3 obtain a b where "join_with c (z # zs) = a @ x @ b" by auto
    then show ?thesis by (intro exI [of _ "y @ c # a"] exI [of _ b]) simp
  qed
qed (auto intro: exI [of _ "[]"])

lemma infix_trans: "s = a @ t @ b \<Longrightarrow> t = c @ u @ d \<Longrightarrow> s = (a @ c) @ u @ (d @ b)"
  by simp

lemma occurs_text: "occurs s v \<Longrightarrow> \<exists>a b. json_text enc v = a @ json_string enc s @ b"
proof (induction v)
  case (VStr t)
  then show ?case by (intro exI [of _ "[]"]) simp
next
  case (VList vs)
  then obtain v where v: "v \<in> set vs" "occurs s v" by (auto simp: list_ex_iff)
  from VList.IH [OF this] obtain a b where ab: "json_text enc v = a @ json_string enc s @ b" by blast
  from v(1) have "json_text enc v \<in> set (map (json_text enc) vs)" by simp
  from join_part [OF this, of "CHR '',''"] obtain c d where
    "join_with CHR '','' (map (json_text enc) vs) = c @ json_text enc v @ d" by blast
  from infix_trans [OF this ab] show ?case
    by (metis append.assoc json_text.simps(5))
next
  case (VDict kvs)
  then obtain k v where v: "(k, v) \<in> set kvs" "occurs s v" by (auto simp: list_ex_iff)
  from VDict.IH [of "(k, v)" v] v obtain a b where ab: "json_text enc v = a @ json_string enc s @ b" by auto
  let ?entry = "\<lambda>(k, v). (k, json_string enc k @ '':'' @ json_text enc v)"
  have "json_string enc k @ '':'' @ json_text enc v \<in> set (map snd (sort_key fst (map ?entry kvs)))"
    using v(1) by force
  from join_part [OF this, of "CHR '',''"] obtain c d where
    cd: "join_with CHR '','' (map snd (sort_key fst (map ?entry kvs))) =
      c @ (json_string enc k @ '':'' @ json_text enc v) @ d" by blast
  have "json_text enc (VDict kvs) = ''{'' @ (c @ (json_string enc k @ '':'' @ json_text enc v) @ d) @ ''}''"
    unfolding json_text.simps cd by simp
  with ab show ?case by (metis append.assoc)
qed simp_all

section \<open>LaTeX in evidence\<close>

definition escape_free :: "char \<Rightarrow> bool" where
  "escape_free c \<longleftrightarrow> json_char c = [c] \<and> \<not> rx_separator c"

lemma escape_free_map: "list_all escape_free m \<Longrightarrow> concat (map json_char m) = m"
  by (induction m) (auto simp: escape_free_def)

lemma span_prefix:
  "list_all p m \<Longrightarrow> n \<le> length m \<Longrightarrow> \<exists>x. (x, s) \<in> set (span_ends p n prior (m @ s))"
proof (induction m arbitrary: n prior)
  case Nil
  then show ?case by (cases s) auto
next
  case (Cons x xs)
  then have "\<exists>y. (y, s) \<in> set (span_ends p (n - 1) (Some x) (xs @ s))" by auto
  with Cons.prems(1) show ?case by auto
qed

lemma network_path_search:
  assumes "list_all (\<lambda>c. \<not> rx_separator c) m" "m \<noteq> []" "rx_separator c"
  shows "rx_ends (RAlt [r, RSeq [RLit [backslash, backslash], RSpan (\<lambda>c. \<not> rx_separator c) 1, ROne rx_separator]])
    (prior, [backslash, backslash] @ m @ c # b) \<noteq> []"
proof -
  have "1 \<le> length m" using assms(2) by (cases m) auto
  from span_prefix [OF assms(1) this, of "c # b" "Some backslash"] obtain x where
    "(x, c # b) \<in> set (span_ends (\<lambda>c. \<not> rx_separator c) 1 (Some backslash) (m @ c # b))" by blast
  with assms(3) have "(Some c, b) \<in> set (rx_ends (RSeq [RLit [backslash, backslash],
      RSpan (\<lambda>c. \<not> rx_separator c) 1, ROne rx_separator]) (prior, [backslash, backslash] @ m @ c # b))"
    by (force simp: id_def)
  then show ?thesis by (auto simp del: rx_ends.simps(5))
qed

lemma network_path_rejected:
  assumes "list_all (\<lambda>c. \<not> rx_separator c) m" "m \<noteq> []" "rx_separator c"
  shows "\<not> safe_text (a @ [backslash, backslash] @ m @ c # b)"
proof -
  let ?r = "RAlt [RSeq [ROne rx_letter, RLit '':'', ROne rx_separator],
    RSeq [RLit [backslash, backslash], RSpan (\<lambda>c. \<not> rx_separator c) 1, ROne rx_separator]]"
  have "rx_search_from ?r None (a @ ([backslash, backslash] @ m @ c # b))"
    by (rule search_suffix) (rule network_path_search [OF assms])
  moreover have "?r \<in> set SENSITIVE_EVIDENCE_PATTERNS" by (simp add: SENSITIVE_EVIDENCE_PATTERNS_def)
  ultimately show ?thesis
    by (auto simp: safe_text_def validate_safe_evidence_text_def rx_search_def list_ex_iff split: if_splits)
qed

text \<open>two commands in one text, such as \<open>\frac{a}{b} = \sqrt{c}\<close>, with plain text between their backslashes\<close>

definition two_commands :: "string \<Rightarrow> bool" where
  "two_commands t \<longleftrightarrow>
     (\<exists>a m b. t = a @ [backslash] @ m @ [backslash] @ b \<and> m \<noteq> [] \<and> list_all escape_free m)"

lemma backslash_json: "json_char backslash = [backslash, backslash]"
  by (simp add: json_char_def backslash_def)

lemma two_commands_unsafe:
  assumes "two_commands t" "occurs t v"
  shows "\<not> safe_text (canonical_json v)"
proof -
  from assms(1) obtain a m b where t: "t = a @ [backslash] @ m @ [backslash] @ b" "m \<noteq> []" "list_all escape_free m"
    by (auto simp: two_commands_def)
  from occurs_text [OF assms(2), of json_char] obtain x y where
    v: "canonical_json v = x @ json_string json_char t @ y" by (auto simp: canonical_json_def)
  let ?A = "x @ CHR 0x22 # concat (map json_char a)"
  let ?B = "backslash # concat (map json_char b) @ CHR 0x22 # y"
  have "canonical_json v = ?A @ [backslash, backslash] @ m @ backslash # ?B"
    unfolding v t(1) json_string_def by (simp add: backslash_json escape_free_map [OF t(3)])
  moreover have "list_all (\<lambda>c. \<not> rx_separator c) m" using t(3) by (auto simp: list_all_iff escape_free_def)
  ultimately show ?thesis
    using network_path_rejected [of m backslash ?A ?B] t(2) by (simp add: rx_separator_def)
qed

lemma formula_occurs: "t \<in> set (rw_formulas w) \<Longrightarrow> occurs t (evidence_payload w)"
  by (simp add: evidence_payload_def str_list_def list_ex_iff)

lemma evidence_unit_unsafe:
  assumes "\<not> safe_text (canonical_json (evidence_payload w))" "normalize_relative_path (pl_relative_path plan) = Inr path"
  shows "evidence_unit H result plan w = Inl ValueError"
  using assms
  by (auto simp: evidence_unit_def Let_def EvidenceUnit_validate_def EvidenceCitation_validate_def checked_def bind_res_def)

section \<open>Errors of the cycle check\<close>

lemma visit_errors:
  "room depth g visiting \<Longrightarrow> closed_graph g \<Longrightarrow> node \<in> set (map fst g) \<Longrightarrow>
   visit_node depth g visiting node visited = Inl e \<Longrightarrow> e = ValueError"
  "room depth g visiting \<Longrightarrow> closed_graph g \<Longrightarrow> set nodes \<subseteq> set (map fst g) \<Longrightarrow>
   visit_each depth g visiting nodes visited = Inl e \<Longrightarrow> e = ValueError"
proof (induction depth g visiting node visited and depth g visiting nodes visited
    rule: visit_node_visit_each.induct)
  case (1 g visiting node visited)
  then show ?case using card_mono [of "set (map fst g)" visiting] by (simp add: room_def)
next
  case (2 depth g visiting node visited)
  show ?case
  proof (cases "node \<in> visiting \<or> node \<in> visited")
    case False
    from 2(4) obtain deps where deps: "map_of g node = Some deps"
      by (metis domD dom_map_of_conv_image_fst list.set_map)
    have "(node, b) \<in> edges g" if "b \<in> set deps" for b using that deps by (auto simp: edges_def)
    with 2(3) have "set deps \<subseteq> set (map fst g)" by (fastforce simp: closed_graph_def)
    moreover have "room depth g (insert node visiting)" using 2(2,4) False by (auto simp: room_def)
    moreover have "visit_each depth g (insert node visiting) deps visited = Inl e"
      using 2(5) False deps by (auto simp: bind_res_def split: sum.splits)
    ultimately show ?thesis using 2(1) [OF _ _ deps] False 2(3) by blast
  qed (use 2 in \<open>auto split: if_splits\<close>)
next
  case (4 depth g visiting d ds visited)
  show ?case
  proof (cases "visit_node depth g visiting d visited")
    case (Inl e')
    with 4 show ?thesis by auto
  next
    case (Inr mid)
    with 4(2) [of mid] 4(3-) show ?thesis by auto
  qed
qed auto

lemma reject_graph_cycle_exact:
  assumes "closed_graph g" "length g < depth"
  shows "reject_graph_cycle depth g = (if acyclic (edges g) then Inr () else Inl ValueError)"
proof (cases "reject_graph_cycle depth g")
  case (Inl e)
  have "card (set (map fst g)) \<le> length g" by (metis card_length length_map)
  with assms have "room depth g {}" by (simp add: room_def)
  moreover from Inl have "visit_each depth g {} (map fst g) {} = Inl e"
    by (cases "visit_each depth g {} (map fst g) {}") (auto simp: reject_graph_cycle_def)
  ultimately have "e = ValueError" using visit_errors(2) assms(1) by blast
  with Inl reject_graph_cycle_iff [OF assms] show ?thesis by auto
next
  case (Inr u)
  with reject_graph_cycle_iff [OF assms] show ?thesis by auto
qed

lemma relationships_closed:
  assumes "payload_ok p allowed"
  shows "closed_graph (relationship_graph (sy_nodes p))"
proof -
  have k: "list_all (node_known (set (map kn_node_id (sy_nodes p))) (set (map cg_group_id (sy_course_groups p)))) (sy_nodes p)"
    using assms by (simp add: payload_ok_def)
  have "b \<in> kn_node_id ` set (sy_nodes p)" if n: "n \<in> set (sy_nodes p)" "b \<in> set (node_dependencies n)" for n b
  proof -
    from k n(1) have "node_known (set (map kn_node_id (sy_nodes p))) (set (map cg_group_id (sy_course_groups p))) n"
      by (simp add: list_all_iff)
    then have "known_or_none (kn_parent_node_id n) (set (map kn_node_id (sy_nodes p)))"
      "set (kn_prerequisite_node_ids n) \<subseteq> set (map kn_node_id (sy_nodes p))"
      by (auto simp: node_known_def list_all_iff)
    with n(2) show ?thesis
      by (cases "kn_parent_node_id n") (auto simp: node_dependencies_def the_strings_def known_or_none_def)
  qed
  then show ?thesis
    by (fastforce simp: closed_graph_def edges_def relationship_graph_def dest: map_of_SomeD)
qed

section \<open>Accepted payloads\<close>

definition payload_accepted :: "SynthesisPayload \<Rightarrow> string set \<Rightarrow> bool" where
  "payload_accepted p allowed \<longleftrightarrow> payload_ok p allowed \<and> acyclic (edges (relationship_graph (sy_nodes p))) \<and>
     list_all safe_text (payload_strings p)"

lemma parse_synthesis_Inr:
  assumes "parse_synthesis loads depth raw allowed = Inr p"
  shows "payload_accepted p allowed"
proof -
  from assms have "bind_res (bind_res (loads raw) SynthesisPayload_validate) (\<lambda>p.
           bind_res (validate_provider_strings p) (\<lambda>_.
           bind_res (validate_synthesis_payload depth p allowed) (\<lambda>_. Inr p))) = Inr p"
    by (auto simp: parse_synthesis_def split: sum.splits py_error.splits)
  then show ?thesis using reject_graph_cycle_sound
    by (auto simp: bind_res_Inr_iff validate_provider_strings_def validate_synthesis_payload_def
        payload_accepted_def split: if_splits)
qed

lemma final_synthesis_Inr: "final_synthesis env job call evidence drafts allowed = Inr p \<Longrightarrow> payload_accepted p allowed"
  using parse_synthesis_Inr by (auto simp: final_synthesis_def bind_res_Inr_iff)

lemma synthesis_items_Inr:
  "synthesis_items us = Inr is \<Longrightarrow> map si_evidence_unit_id is = map un_evidence_unit_id us"
  by (induction us arbitrary: "is") (auto simp: bind_res_Inr_iff synthesis_item_def split: list.splits)

lemma synthesize_Inr:
  assumes "synthesize env job units = Inr p" "units \<noteq> []"
  shows "payload_accepted p (set (map un_evidence_unit_id units))"
proof -
  from assms obtain items where i: "synthesis_items units = Inr items"
    and f: "\<exists>call evidence drafts. final_synthesis env job call evidence drafts (item_ids items) = Inr p"
    by (fastforce simp: synthesize_def bind_res_Inr_iff Let_def split: if_splits)
  from i have "item_ids items = set (map un_evidence_unit_id units)"
    unfolding item_ids_def set_map [symmetric] by (simp add: synthesis_items_Inr)
  with f final_synthesis_Inr show ?thesis by metis
qed

section \<open>The limit on drafts\<close>

lemma synthesize_batches_length: "synthesize_batches env job call bs = Inr ds \<Longrightarrow> length ds = length bs"
  by (induction env job call bs arbitrary: ds rule: synthesize_batches.induct) (auto simp: bind_res_Inr_iff)

lemma batches_length: "length (batches n xs) = (length xs + n - 1) div n"
  by (simp add: batches_def)

lemma synthesize_limit:
  assumes "1 \<le> sz_batch_size env" "64 * sz_batch_size env < length units"
  shows "synthesize env job units \<noteq> Inr p"
proof
  assume s: "synthesize env job units = Inr p"
  from assms(2) have "units \<noteq> []" by auto
  with s obtain items where i: "synthesis_items units = Inr items" and
    r: "(let parts = batches (sz_batch_size env) items in
        if length parts = 1 then final_synthesis env job 0 (hd parts) [] (item_ids items)
        else bind_res (synthesize_batches env job 0 parts) (\<lambda>drafts.
          final_synthesis env job (length parts) [] drafts (item_ids items))) = Inr p"
    by (auto simp: synthesize_def bind_res_Inr_iff)
  have "length items = length units" using synthesis_items_Inr [OF i] by (metis length_map)
  moreover have "65 \<le> (length units + sz_batch_size env - 1) div sz_batch_size env"
    using assms by (simp add: less_eq_div_iff_mult_less_eq)
  ultimately have many: "65 \<le> length (batches (sz_batch_size env) items)" by (simp add: batches_length)
  with r obtain drafts where "synthesize_batches env job 0 (batches (sz_batch_size env) items) = Inr drafts"
    "final_synthesis env job (length (batches (sz_batch_size env) items)) [] drafts (item_ids items) = Inr p"
    by (auto simp: Let_def bind_res_Inr_iff split: if_splits)
  with many synthesize_batches_length have "\<not> length drafts \<le> 64"
    and "\<exists>call allowed. final_synthesis env job call [] drafts allowed = Inr p" by (fastforce, blast)
  then show False
    by (auto simp: final_synthesis_def synthesis_request_def StudyMapSynthesisRequest_validate_def bind_res_Inr_iff)
qed

end
