(* ===== verification/Study_Correctness.thy ===== *)
theory Study_Correctness
  imports Study_Withdrawal Evidence_Correctness
begin

text \<open>
  The properties of the study map: what a validated unit is, the evidence no output can get past the
  store's own patterns, the exactness of the check on a synthesized map, the totals of the ledger, the
  limit above which no map is published, the citations of a map, failed publications, and the
  withdrawal of maps over invalidated sources. The witnesses use the course of the evidence engine.
\<close>

section \<open>Evidence\<close>

definition stu_plan :: SourcePartPlan where
  "stu_plan = evd_part ''p'' 0"

definition stu_result :: "string \<Rightarrow> EvidencePartResult" where
  "stu_result raw = \<lparr>pr_source_part_id = ''p'', pr_locator = ''p1'', pr_provider = ''openai'', pr_model_id = ''m'',
     pr_prompt_version = ''1'', pr_raw_output = raw\<rparr>"

definition stu_evidence :: "string list \<Rightarrow> RawEvidence" where
  "stu_evidence formulas = \<lparr>rw_locator = ''p1'', rw_detected_language = ''en'', rw_material_role = ''notes'',
     rw_headings = [], rw_concepts = [], rw_definitions = [], rw_formulas = formulas, rw_procedures = [],
     rw_examples = [], rw_assessment_items = [], rw_visual_descriptions = [], rw_ocr_text = [],
     rw_limitations = [], rw_warnings = [], rw_prompt_injection_indicators = []\<rparr>"

text \<open>
  C31: a unit is made only from an output the validator accepted, the provider's or the one answer to
  one request for a repair; its content is the canonical JSON of that evidence, safe as a whole, and
  its only citation names the part and the locator of the plan.
\<close>

theorem units_trace_to_output:
  assumes "validate_evidence H loads repairer pol result plan deadline = Inr u"
  shows "unit_of_plan plan u \<and>
    (\<exists>raw w. accepted_output loads repairer pol result plan deadline raw \<and>
       validate_once loads (result\<lparr>pr_raw_output := raw\<rparr>) plan raw = Inr w \<and>
       rw_locator w = pl_locator plan \<and> un_content u = canonical_json (evidence_payload w) \<and>
       un_evidence_unit_id u = ''unit_'' @ H (unit_identity result plan (un_content u)))"
proof -
  from validate_evidence_Inr [OF assms] obtain raw w where
    r: "accepted_output loads repairer pol result plan deadline raw"
    "validate_once loads (result\<lparr>pr_raw_output := raw\<rparr>) plan raw = Inr w"
    "evidence_unit H (result\<lparr>pr_raw_output := raw\<rparr>) plan w = Inr u" by blast
  with evidence_unit_Inr [OF r(3)] validate_once_locator [OF r(2)] show ?thesis
    by (auto simp: unit_identity_output)
qed

text \<open>a repair: the first output is no evidence, the answer is\<close>

definition stu_loads :: "RawEvidence loader" where
  "stu_loads raw = (if raw = ''b'' then Inr (stu_evidence []) else Inl ValueError)"

definition stu_repaired :: "py_error + EvidenceUnit" where
  "stu_repaired = validate_evidence (\<lambda>_. ''h'') stu_loads (Some (\<lambda>_. Inr (Some ''b''))) DEFAULT_EVIDENCE_POLICY
     (stu_result ''a'') stu_plan 90"

lemma stu_repaired_ran: "case stu_repaired of Inl _ \<Rightarrow> False | Inr _ \<Rightarrow> True"
  by code_simp

lemma units_trace_to_output_witness:
  "case stu_repaired of Inl _ \<Rightarrow> False | Inr u \<Rightarrow> un_source_part_id u = ''p''"
proof -
  from stu_repaired_ran obtain u where u: "stu_repaired = Inr u" by (auto split: sum.splits)
  from units_trace_to_output [OF u [unfolded stu_repaired_def]]
  show ?thesis by (simp add: u unit_of_plan_def stu_plan_def evd_part_def)
qed

text \<open>
  C32: evidence with a formula of two LaTeX commands never becomes a unit, whatever the repairer: the
  formula passes the checks on the fields, where its backslashes are single, and then the canonical
  JSON, which escapes each backslash, is taken for a network path. The error is no
  \<open>EvidenceValidationError\<close> and no repair is tried.
\<close>

theorem latex_never_published:
  assumes "validate_once loads result plan (pr_raw_output result) = Inr w"
    and "t \<in> set (rw_formulas w)" and "two_commands t"
    and "normalize_relative_path (pl_relative_path plan) = Inr path"
  shows "validate_evidence H loads repairer pol result plan deadline = Inl ValueError"
proof -
  from two_commands_unsafe [OF assms(3) formula_occurs [OF assms(2)]]
  have "evidence_unit H result plan w = Inl ValueError" using assms(4) by (rule evidence_unit_unsafe)
  with assms(1) show ?thesis by (simp add: validate_evidence_def)
qed

definition stu_formula :: string where
  "stu_formula = [backslash] @ ''frac{a}{b} = '' @ [backslash] @ ''sqrt{c}''"

lemma stu_formula_accepted:
  "validate_once (\<lambda>_. Inr (stu_evidence [stu_formula])) (stu_result ''a'') stu_plan ''a'' = Inr (stu_evidence [stu_formula])"
  by code_simp

lemma latex_never_published_witness:
  "validate_evidence (\<lambda>_. ''h'') (\<lambda>_. Inr (stu_evidence [stu_formula])) None DEFAULT_EVIDENCE_POLICY (stu_result ''a'')
     stu_plan 90 = Inl ValueError"
proof (rule latex_never_published)
  show "validate_once (\<lambda>_. Inr (stu_evidence [stu_formula])) (stu_result ''a'') stu_plan (pr_raw_output (stu_result ''a'')) =
      Inr (stu_evidence [stu_formula])"
    using stu_formula_accepted by (simp add: stu_result_def)
  show "stu_formula \<in> set (rw_formulas (stu_evidence [stu_formula]))" by (simp add: stu_evidence_def)
  have "list_all escape_free ''frac{a}{b} = ''" by code_simp
  then show "two_commands stu_formula" unfolding two_commands_def stu_formula_def by (metis append_Nil list.distinct(1))
  show "normalize_relative_path (pl_relative_path stu_plan) = Inr ''a.pdf''" by code_simp
qed

section \<open>Synthesis\<close>


definition stu_node :: "string \<Rightarrow> string list \<Rightarrow> KnowledgeNode" where
  "stu_node i before = \<lparr>kn_node_id = i, kn_title = ''t'', kn_focus_score = 1, kn_confidence = 1,
     kn_evidence_unit_ids = [''u''], kn_parent_node_id = None, kn_prerequisite_node_ids = before,
     kn_course_group_id = None\<rparr>"

definition stu_payload :: "KnowledgeNode list \<Rightarrow> SynthesisPayload" where
  "stu_payload nodes = \<lparr>sy_course_groups = [], sy_nodes = nodes, sy_limitations = [], sy_evidence_unit_ids = [''u'']\<rparr>"

definition stu_chain :: "KnowledgeNode list" where
  "stu_chain = [stu_node ''a'' [''b''], stu_node ''b'' [''c''], stu_node ''c'' []]"




text \<open>
  C34: above 64 batches of units no map is ever published, whatever the synthesizer answers: every
  batch has been paid for when the final request, whose drafts are limited to 64, is refused. With the
  default batch of 16 units that is a course of more than 1024 processed parts.
\<close>

lemma publication_context_fails: "(\<And>s. snd (m s) \<noteq> Inr x) \<Longrightarrow> snd (publication_context g m s) \<noteq> Inr x"
  by (auto simp: publication_context_def study_steps outside_def split: option.splits prod.splits sum.splits)
    (metis snd_conv)+

theorem large_course_never_mapped:
  assumes "1 \<le> sz_batch_size (st_synthesis env)" and "64 * sz_batch_size (st_synthesis env) < length units"
  shows "snd (publish_map env job summary units parts superseded publication_guard synthesis_guard w) \<noteq> Inr s"
proof -
  have "snd (publication_context synthesis_guard (resultA (\<lambda>_. synthesize (st_synthesis env) job units)) w) \<noteq> Inr payload" for payload
    by (rule publication_context_fails) (simp add: resultA_def synthesize_limit [OF assms])
  then show ?thesis by (auto simp: publish_map_def bindA_def split: prod.splits sum.splits) (metis snd_conv)
qed

definition stu_synthesis :: synthesis_env where
  "stu_synthesis = \<lparr>sz_policy = DEFAULT_EVIDENCE_POLICY, sz_loads = (\<lambda>_. Inr (stu_payload stu_chain)), sz_depth = 4,
     sz_dump = (\<lambda>_. []), sz_batch_size = 1, sz_synthesizer = (\<lambda>_ _. Inr (Some [])), sz_clock = (\<lambda>_. 0)\<rparr>"

definition stu_env :: "(artifact_call \<Rightarrow> py_error option) \<Rightarrow> study_env" where
  "stu_env answer = \<lparr>st_sha256 = id, st_synthesis = stu_synthesis, st_coverage_source = (\<lambda>_ _ _. Inr []),
     st_now = (\<lambda>_. 5), st_identity = (\<lambda>_. ''m''), st_others = (\<lambda>_ db. db), st_artifact = (\<lambda>_. answer)\<rparr>"

definition stu_world :: "evidence_db \<Rightarrow> study_world" where
  "stu_world db = \<lparr>sw_db = db, sw_calls = 0, sw_artifacts = []\<rparr>"

definition stu_job :: synthesis_job where
  "stu_job = \<lparr>jb_workspace_id = ''w'', jb_revision_id = ''v'', jb_status = COMPLETE, jb_response_language = None,
     jb_deadline = None\<rparr>"

lemma large_course_never_mapped_witness:
  "snd (publish_map (stu_env (\<lambda>_. None)) stu_job (summary_of_items []) (replicate 65 evd_unit) [stu_plan] None None None
     (stu_world evd_published)) \<noteq> Inr evd_snapshot"
  by (rule large_course_never_mapped) (simp_all add: stu_env_def stu_synthesis_def)

text \<open>
  C35: a snapshot built from a synthesis names exactly the evidence its nodes and groups cite, all of it
  among the units it was made from; it carries the citations of those units and no others, and its
  relationships have no cycle.
\<close>

theorem maps_are_grounded:
  assumes "synthesize (st_synthesis env) job units = Inr payload"
    and "build_snapshot env job summary units parts superseded payload created_at = Inr s"
  shows "set (sn_evidence_unit_ids s) = set (dependency_closure s) \<and>
    set (dependency_closure s) \<subseteq> set (map un_evidence_unit_id units) \<and>
    set (sn_citations s) = (\<Union>u \<in> {u. \<exists>i \<in> set (sn_evidence_unit_ids s). cited_unit units i = Some u}. set (un_citations u)) \<and>
    acyclic (edges (relationship_graph (sn_nodes s)))"
proof -
  from assms(2) obtain citations where c: "citations_of units (sort (sy_evidence_unit_ids payload)) = Inr citations"
    and s: "sn_evidence_unit_ids s = sort (sy_evidence_unit_ids payload)" "sn_citations s = citations"
      "sn_nodes s = sy_nodes payload" "sn_course_groups s = sy_course_groups payload"
    by (auto simp: build_snapshot_def bind_res_Inr_iff StudyMapSnapshot_validate_def Let_def draft_snapshot_def)
  have cited: "set cs = (\<Union>u \<in> {u. \<exists>i \<in> set is. cited_unit units i = Some u}. set (un_citations u))"
    if "citations_of units is = Inr cs" for "is" cs
    using that by (induction "is" arbitrary: cs) (auto simp: bind_res_Inr_iff split: option.splits, blast+)
  have "set (sy_evidence_unit_ids payload) = payload_dependencies payload \<and>
      payload_dependencies payload \<subseteq> set (map un_evidence_unit_id units) \<and>
      acyclic (edges (relationship_graph (sy_nodes payload)))"
  proof (cases "units = []")
    case True
    with assms(1) show ?thesis
      by (auto simp: synthesize_def no_evidence_payload_def payload_dependencies_def relationship_graph_def edges_def acyclic_def)
  next
    case False
    from synthesize_Inr [OF assms(1) this] show ?thesis by (auto simp: payload_accepted_def payload_ok_def)
  qed
  with cited [OF c] show ?thesis by (simp add: s dependency_closure_def payload_dependencies_def)
qed

definition stu_summary :: CoverageSummary where
  "stu_summary = summary_of_items [excluded_item \<lparr>ap_entry_id = ''e'', ap_relative_path = ''a.pdf'',
     ap_approved_bytes = 0, ap_included = False\<rparr>]"

lemma stu_built:
  "synthesize stu_synthesis stu_job [evd_unit] = Inr (stu_payload stu_chain)"
  "case build_snapshot (stu_env (\<lambda>_. None)) stu_job stu_summary [evd_unit] [stu_plan] None (stu_payload stu_chain) 5 of
     Inl _ \<Rightarrow> False | Inr s \<Rightarrow> sn_evidence_unit_ids s = [''u'']"
  by code_simp+

lemma maps_are_grounded_witness:
  "case build_snapshot (stu_env (\<lambda>_. None)) stu_job stu_summary [evd_unit] [stu_plan] None (stu_payload stu_chain) 5 of
     Inl _ \<Rightarrow> False | Inr s \<Rightarrow> set (dependency_closure s) = {''u''} \<and> acyclic (edges (relationship_graph (sn_nodes s)))"
proof -
  from stu_built(2) obtain s where
    s: "build_snapshot (stu_env (\<lambda>_. None)) stu_job stu_summary [evd_unit] [stu_plan] None (stu_payload stu_chain) 5 = Inr s"
    "sn_evidence_unit_ids s = [''u'']" by (auto split: sum.splits)
  have "synthesize (st_synthesis (stu_env (\<lambda>_. None))) stu_job [evd_unit] = Inr (stu_payload stu_chain)"
    using stu_built(1) by (simp add: stu_env_def)
  from maps_are_grounded [OF this s(1)] s show ?thesis by simp
qed

section \<open>The ledger\<close>







section \<open>Failure and recovery\<close>

text \<open>
  C37: a publication that raises leaves no new snapshot in the store: it is removed when the artifact
  cannot be written, when it has been revoked, or when the revision is no longer current. The one
  exception is a failure to revoke its artifact, which is then the last call made and leaves the
  snapshot where it is.
\<close>

theorem failed_publication_withdraws:
  assumes "\<forall>k db. get_snapshot (sn_snapshot_id s) db = None \<longrightarrow> get_snapshot (sn_snapshot_id s) (st_others env k db) = None"
    and "get_snapshot (sn_snapshot_id s) (sw_db w) = None"
    and "publish_snapshot env s w = (w', Inl e)"
  shows "get_snapshot (sn_snapshot_id s) (sw_db w') = None \<or>
    (sw_artifacts w' \<noteq> [] \<and> last (sw_artifacts w') = (Revoke_json (sn_workspace_id s) (sn_snapshot_id s), False))"
  using publish_snapshot_fails [of env s w w' e] assms
  by (simp add: never_adds_def withdrawn_def revocation_failed_def)

definition stu_refuses :: "artifact_call \<Rightarrow> py_error option" where
  "stu_refuses call = (case call of Publish_json _ _ \<Rightarrow> Some RuntimeError | Revoke_json _ _ \<Rightarrow> None)"

definition stu_failed :: "study_world \<times> (py_error + StudyMapSnapshot)" where
  "stu_failed = publish_snapshot (stu_env stu_refuses) evd_snapshot (stu_world evd_published)"

lemma stu_failed_run:
  "case snd stu_failed of Inl e \<Rightarrow> e = RuntimeError | Inr _ \<Rightarrow> False"
  "sw_artifacts (fst stu_failed) = [(Publish_json ''w'' ''m'', False), (Revoke_json ''w'' ''m'', True)]"
  "get_snapshot ''m'' evd_published = None"
  by code_simp+

lemma failed_publication_withdraws_witness: "get_snapshot ''m'' (sw_db (fst stu_failed)) = None"
proof -
  from stu_failed_run(1) have r: "publish_snapshot (stu_env stu_refuses) evd_snapshot (stu_world evd_published) =
      (fst stu_failed, Inl RuntimeError)"
    unfolding stu_failed_def [symmetric] by (auto simp: prod_eq_iff split: sum.splits)
  have id: "sn_snapshot_id evd_snapshot = ''m''" by (simp add: evd_snapshot_def)
  from failed_publication_withdraws [OF _ _ r] stu_failed_run(2,3)
  show ?thesis by (simp add: id stu_env_def stu_world_def)
qed










end
