(* ===== verification/Spec2Isabelle.thy ===== *)
theory Spec2Isabelle
  imports Runtime_Correctness Workspace_Correctness Archive_Correctness Scanner_Correctness
    Transmission_Correctness Evidence_Correctness Registry_Correctness Study_Correctness
begin

text \<open>
  ExamSage (\<^verbatim>\<open>exam_predictor\<close>) prepares cited exam-revision maps from a student's course files. A
  local worker process owns two SQLite databases: the runtime database (agent runs, their events and
  the provider profiles) and the workspace database (course folders, their manifests, approvals and
  background jobs). Course bytes may leave the machine only for an approved, unchanged manifest.

  \<^bold>\<open>The parts and how they interact.\<close> \<open>RuntimeCoordinator\<close> admits a message, writes a run and lets its
  one worker thread execute it; it reads the state of the run's workspace from \<open>WorkspaceStore\<close>, the
  key of the provider from the credential vault and keeps a live session per provider.
  \<open>WorkspaceStore\<close> keeps the manifest revisions that scan jobs commit, the inclusion choices and the
  approval of the user; holding transmission authority means that the approval still matches the
  current draft. The scanner lists and hashes the folder for a scan job; ZIP sources are previewed
  without extraction. \<open>WorkspaceTransmissionGate\<close> revalidates approved sources, issues read tokens and
  opens a source once per token while the approval is held. The evidence engine plans the parts of the
  approved sources, claims them, sends them to a provider and keeps the validated, cited units; the
  study-map builder synthesizes a map from the processed units, saves it as a snapshot and publishes
  its artifact, and withdraws it when a source is invalidated. The evidence registry records, in an
  append-only log of chained states, which files on disk are the artifacts of which workspace.

  \<^bold>\<open>Theories.\<close>
  \<^item> \<open>Prelude\<close>: exception classes, JSON values, tables as lists of rows in rowid order with the SQL
    statements the stores use, strings, and the locales \<open>transition_system\<close>, \<open>life_cycle\<close> and
    \<open>stop_flags\<close>.
  \<^item> \<open>Runtime_Models\<close> (\<^verbatim>\<open>runtime/models.py\<close>, \<^verbatim>\<open>security.py\<close>, \<^verbatim>\<open>runtime/control.py\<close>), \<open>Runtime_Store\<close>
    (\<^verbatim>\<open>runtime/store.py\<close>), \<open>Provider_Sessions\<close> (\<^verbatim>\<open>runtime/provider_sessions.py\<close>,
    \<^verbatim>\<open>runtime/credential_vault.py\<close>, with the locales \<open>secret_vault\<close> and \<open>keyring_backend\<close>), \<open>Coordinator\<close>
    (\<^verbatim>\<open>runtime/coordinator.py\<close>): the state is \<open>coordinator\<close>, whose \<open>co_db\<close> is the runtime database; one
    definition per method and per step of the worker thread.
  \<^item> \<open>Run_Queue_Spec\<close>: the abstract queue of runs. \<open>Coordinator_Inv\<close>: the step relation
    \<open>coord_step\<close>, its invariant and the refinement to that queue. \<open>Credentials\<close>: the order of the
    writes to vault and database. \<open>Runtime_Correctness\<close>: the properties of the runtime.
  \<^item> \<open>Workspace_Models\<close> (\<^verbatim>\<open>workspace/models.py\<close>, \<^verbatim>\<open>workspace/policy.py\<close>), \<open>Workspace_Store\<close>
    (\<^verbatim>\<open>workspace/store.py\<close>): the state is \<open>workspace_db\<close>, one definition per method.
  \<^item> \<open>Workspace_Inv\<close>: the invariant of the store for every method. \<open>Workspace_Migration\<close>: what the
    data migration repairs. \<open>Workspace_Authority\<close>: approval and revocation. \<open>Workspace_Jobs\<close>: the life
    cycle of jobs. \<open>Workspace_Effects\<close>: what each method leaves behind. \<open>Workspace_Correctness\<close>: the
    properties of the store, on a concrete course.
  \<^item> \<open>Archive\<close>, \<open>Archive_Correctness\<close> (\<^verbatim>\<open>workspace/archive.py\<close>): the ZIP preview.
  \<^item> \<open>Scanner\<close> (\<^verbatim>\<open>workspace/scanner.py\<close>): the bounded walk of a folder, hashing, rescan,
    revalidation and the copy of an approved source. \<open>Scanner_Correctness\<close>: the walk refines the plain
    listing of a tree, approvals survive only for unchanged bytes, the size limit.
  \<^item> \<open>Transmission\<close> (\<^verbatim>\<open>workspace/transmission.py\<close>): the state is \<open>tx_state\<close>, the table of read grants
    with the workspace database. \<open>Transmission_Correctness\<close>: the step relation \<open>gate_step\<close> of gate and
    store, and what tokens hand out.
  \<^item> \<open>Py_Text\<close>: decimal text, case folding, regular expressions and JSON text as the code uses them.
  \<^item> \<open>Evidence_Models\<close> (\<^verbatim>\<open>evidence/models.py\<close>, \<^verbatim>\<open>evidence/policy.py\<close>), \<open>Evidence_Store\<close> and
    \<open>Evidence_Snapshots\<close> (\<^verbatim>\<open>evidence/store.py\<close>): the state is \<open>evidence_db\<close>, one definition per method.
    \<open>Evidence_Scheduler\<close> (\<^verbatim>\<open>evidence/scheduler.py\<close>): the state is \<open>sched\<close>, the environment with the
    database, the latest token and the log of provider calls and events.
  \<^item> \<open>Evidence_Inv\<close>, \<open>Evidence_Steps\<close>: the invariant of the evidence tables for every method of the
    step relation \<open>evidence_step\<close>. \<open>Evidence_Fencing\<close>: the generations behind claim tokens, with the
    locale \<open>fenced\<close>. \<open>Evidence_Text\<close>: what the patterns of unsafe text match. \<open>Evidence_Run\<close>: provider
    calls of a run, and triples over runs. \<open>Evidence_Progress\<close>: runs that return, and what a run
    touches. \<open>Evidence_Correctness\<close>: the properties of the evidence engine, on a concrete course.
  \<^item> \<open>Registry\<close> (\<^verbatim>\<open>evidence/registry.py\<close>): the state of the artifact registry, its validation and one
    definition per mutator. \<open>Json_Text\<close>: a parser of the canonical JSON the log is written in.
    \<open>Registry_Log\<close>: records, loading, appending, and the public operations. \<open>Registry_Serial\<close>: states
    and records read back what was written. \<open>Registry_Inv\<close>: the invariant of every mutator.
    \<open>Registry_Recovery\<close>: what is loaded from a complete or torn log. \<open>Registry_Correctness\<close>: the
    properties of the registry, on a concrete workspace.
  \<^item> \<open>Study_Evidence\<close>, \<open>Study_Synthesis\<close>, \<open>Study_Coverage\<close>, \<open>Study_Publication\<close>
    (\<^verbatim>\<open>evidence/study_map.py\<close>): the validator of provider output, the synthesis and its checks, the
    coverage ledger, and the builder, whose state \<open>study_world\<close> is the evidence database with the calls
    made and the log of artifact calls. \<open>Study_Lemmas\<close>: strings inside JSON documents, the errors of the
    cycle check, accepted payloads, the limit on drafts. \<open>Study_Withdrawal\<close>: failed publications and
    the recovery of revocations. \<open>Study_Correctness\<close>: the properties of the study map.
  \<^item> This theory: the coordinator and the workspace store together.

  \<^bold>\<open>Conventions.\<close> An exception is a value \<open>Inl\<close> of the class raised; messages of exceptions are not
  modelled. A method is one atomic step, as the lock and the transaction around it make it. Fresh
  identifiers, clocks and the outcomes of the environment (graph engine, keyring, provider factory,
  \<open>zipfile\<close>, the answers of the operating system, SHA-256 and UUID generation) are arguments; where
  threads interleave between locked sections, what the others do is an argument. Times are integers. A string is a list of characters, so code points
  beyond 255 are outside the model; a byte string is a list with one character per byte.

  \<^bold>\<open>Bounds and termination.\<close> The only fuel is the room the interpreter's stack has for the recursion of
  the cycle check: one call per node is enough, and with less the call raises \<open>RecursionError\<close> as the
  code does. Two loops end only by the clock, the wait for a retry
  and \<open>run_to_completion\<close>; they are partial functions whose value \<open>None\<close> means that they do not return,
  and it is proved that they return under the laws of the clock. Every other definition is total. The
  loops that are not structural are the attempts of a claim, which the policy bounds, the search for
  the end record of an archive, which moves towards the start of the
  file, the count of the central directory, where each record takes at least 46 bytes, the walk of a
  folder, which descends a finite tree, and the copy of a source, which stops at its approved size. The
  hashing loop reads a file that ends.

  \<^bold>\<open>Not modelled.\<close> The file-system layer (descriptors, no-follow opens), the native picker, HTTP routes
  and their client, the user interface, parsers over third-party libraries, provider requests, the
  langgraph graphs and the legacy pipeline are input and output or glue. The operating-system locks of
  the workspace store appear as the atomicity of its methods. Of the registry, its file locks and
  closing are not modelled, nor the limits of the interpreter on digits and nesting of JSON; of the
  study map, the issue lists sent to a repairer, the rendering of floating-point numbers (the identity
  of a snapshot and the text of a draft are parameters) and the artifact store, whose calls return or
  raise as the environment says. The evidence service, the workspace service, the preparation of parts
  and the browser intake call the parts modelled here around threads, third-party parsers and file
  descriptors, and are not modelled.
\<close>

section \<open>Workspaces and runs together\<close>




end
